(* ===== verification/Prelude.thy ===== *)
theory Prelude
  imports Main "HOL-Library.Word" "HOL-Library.Monad_Syntax"
begin

text \<open>
  What every component of the kernel model shares: the machine integer types, C buffers and
  arrays with their bounds, and the collections of rewrite rules the component theories extend.

  Conventions of the whole development.
  \<^item> \<open>uint8_t\<close>, \<open>uint16_t\<close>, \<open>uint32_t\<close> are words of that width, so unsigned arithmetic wraps as
    in C. \<open>int\<close> and \<open>int32_t\<close> values are \<open>int\<close>; a conversion between the two is written out
    with \<open>sint\<close> or \<open>word_of_int\<close>. \<open>char\<close> is a signed byte (gcc on x86): its bits are a
    \<open>u8\<close>, its value is \<open>sint\<close>.
  \<^item> A pointer to a buffer is the list of the bytes from the pointer to the end of the object;
    a pointer that may be \<open>NULL\<close> is an \<open>option\<close>.
  \<^item> A C function that may leave its objects (read or write past the end of an array), divide by
    zero or call through a null pointer returns an \<open>option\<close>: \<^term>\<open>None\<close> is that fault, and
    everything the C program does with defined behaviour is \<^term>\<open>Some\<close> of it. An error return
    of the C code (\<open>-1\<close>) is a value, never \<^term>\<open>None\<close>.
\<close>

unbundle bit_operations_syntax

type_synonym u8 = "8 word"
type_synonym u16 = "16 word"
type_synonym u32 = "32 word"

named_theorems buf_simps "reads and writes of C buffers"
named_theorems fs_simps "accessors and updates of the file system state"
named_theorems tty_simps "accessors and updates of the console and terminal state"
named_theorems proc_simps "accessors and updates of the process state"

section \<open>Faults\<close>

definition require :: "bool \<Rightarrow> unit option" where
  "require b = (if b then Some () else None)"

lemma require_simps [simp]:
  "require True = Some ()" "require False = None"
  "(require b = Some u) = b" "(require b = None) = (\<not> b)"
  by (auto simp: require_def)

lemma bind_require [simp]:
  "Option.bind (require b) f = (if b then f () else None)"
  by (simp add: require_def)

section \<open>Buffers: bytes from a pointer to the end of its object\<close>

definition buf_get :: "'a list \<Rightarrow> nat \<Rightarrow> 'a option" where
  "buf_get b i = (if i < length b then Some (b ! i) else None)"

definition buf_put :: "'a list \<Rightarrow> nat \<Rightarrow> 'a \<Rightarrow> 'a list option" where
  "buf_put b i x = (if i < length b then Some (b[i := x]) else None)"

lemma buf_get_in [buf_simps]: "i < length b \<Longrightarrow> buf_get b i = Some (b ! i)"
  by (simp add: buf_get_def)

lemma buf_get_out [buf_simps]: "length b \<le> i \<Longrightarrow> buf_get b i = None"
  by (simp add: buf_get_def)

lemma buf_put_in [buf_simps]: "i < length b \<Longrightarrow> buf_put b i x = Some (b[i := x])"
  by (simp add: buf_put_def)

lemma buf_put_out [buf_simps]: "length b \<le> i \<Longrightarrow> buf_put b i x = None"
  by (simp add: buf_put_def)

lemma buf_get_SomeD: "buf_get b i = Some x \<Longrightarrow> i < length b \<and> x = b ! i"
  by (auto simp: buf_get_def split: if_splits)

lemma buf_put_SomeD: "buf_put b i x = Some b' \<Longrightarrow> i < length b \<and> b' = b[i := x]"
  by (auto simp: buf_put_def split: if_splits)

lemma buf_put_length: "buf_put b i x = Some b' \<Longrightarrow> length b' = length b"
  by (auto dest: buf_put_SomeD)

text \<open>A C array of \<open>n\<close> elements as a function of the index, with its bound checked.\<close>

definition arr_get :: "nat \<Rightarrow> (nat \<Rightarrow> 'a) \<Rightarrow> nat \<Rightarrow> 'a option" where
  "arr_get n a i = (if i < n then Some (a i) else None)"

definition arr_put :: "nat \<Rightarrow> (nat \<Rightarrow> 'a) \<Rightarrow> nat \<Rightarrow> 'a \<Rightarrow> (nat \<Rightarrow> 'a) option" where
  "arr_put n a i x = (if i < n then Some (a(i := x)) else None)"

lemma arr_get_in [buf_simps]: "i < n \<Longrightarrow> arr_get n a i = Some (a i)"
  by (simp add: arr_get_def)

lemma arr_put_in [buf_simps]: "i < n \<Longrightarrow> arr_put n a i x = Some (a(i := x))"
  by (simp add: arr_put_def)

lemma arr_get_SomeD: "arr_get n a i = Some x \<Longrightarrow> i < n \<and> x = a i"
  by (auto simp: arr_get_def split: if_splits)

lemma arr_put_SomeD: "arr_put n a i x = Some a' \<Longrightarrow> i < n \<and> a' = a(i := x)"
  by (auto simp: arr_put_def split: if_splits)

section \<open>Lists\<close>

lemma drop_Cons_nth: "i < length xs \<Longrightarrow> drop i xs = xs ! i # drop (Suc i) xs"
  by (simp add: Cons_nth_drop_Suc)

lemma take_update_take: "i < n \<Longrightarrow> take n (xs[i := x]) = (take n xs)[i := x]"
  by (rule take_update_swap)

lemma takeWhile_length_less:
  "z \<in> set xs \<Longrightarrow> \<not> P z \<Longrightarrow> length (takeWhile P xs) < length xs"
  by (induction xs) auto

lemma nth_takeWhile_stop:
  "length (takeWhile P xs) < length xs \<Longrightarrow> \<not> P (xs ! length (takeWhile P xs))"
  by (rule nth_length_takeWhile)

lemma take_Suc_update:
  "i < length xs \<Longrightarrow> take (Suc i) (xs[i := x]) = take i xs @ [x]"
  by (simp add: take_Suc_conv_app_nth)

lemma map_nth_upt_take: "n \<le> length xs \<Longrightarrow> map ((!) xs) [0..<n] = take n xs"
  by (rule nth_equalityI) auto

lemma upt_split_at: "k < n \<Longrightarrow> [0..<n] = [0..<k] @ k # [Suc k..<n]"
  using upt_add_eq_append [of 0 k "n - k"] by (simp add: upt_conv_Cons)

text \<open>The first \<open>n\<close> bytes of \<open>xs\<close>, filled up with zero bytes to the length \<open>n\<close>.\<close>

definition pad_to :: "nat \<Rightarrow> u8 list \<Rightarrow> u8 list" where
  "pad_to n xs = take n xs @ replicate (n - length xs) 0"

lemma length_pad_to [simp]: "length (pad_to n xs) = n"
  by (auto simp: pad_to_def)

lemma pad_to_length: "length xs = n \<Longrightarrow> pad_to n xs = xs"
  by (simp add: pad_to_def)

section \<open>Character constants\<close>

text \<open>The bytes of a C character constant or string literal (without its final NUL).\<close>

definition ascii :: "string \<Rightarrow> u8 list" where
  "ascii s = map of_char s"

lemma ascii_simps [simp]: "ascii [] = []" "ascii (c # s) = of_char c # ascii s"
  by (simp_all add: ascii_def)

lemma length_ascii [simp]: "length (ascii s) = length s"
  by (simp add: ascii_def)

section \<open>Unsigned words as natural numbers\<close>

lemma unat_of_nat_u32: "n < 2 ^ 32 \<Longrightarrow> unat (of_nat n :: u32) = n"
  by (simp add: unat_of_nat)

lemma unat_add_u32: "unat (a :: u32) + unat b < 2 ^ 32 \<Longrightarrow> unat (a + b) = unat a + unat b"
  by (simp add: unat_word_ariths)

lemma sint_eq_iff [simp]: "sint (a :: 'a::len word) = sint b \<longleftrightarrow> a = b"
  by (auto intro: signed_word_eqI)

lemma sint_eq_0_iff [simp]: "sint (a :: 'a::len word) = 0 \<longleftrightarrow> a = 0"
  using sint_eq_iff [of a 0] by (simp del: sint_eq_iff)

lemma sint_unat_small: "unat (x :: u32) < 2 ^ 31 \<Longrightarrow> sint x = int (unat x)"
proof -
  assume a: "unat x < 2 ^ 31"
  have "int (unat x) < int (2 ^ 31)" using a by (simp only: of_nat_less_iff)
  then have "uint x < 2 ^ 31" by simp
  moreover have "- (2 ^ 31) \<le> uint x" by (rule order_trans [OF _ uint_ge_0]) simp
  ultimately have "signed_take_bit 31 (uint x) = uint x"
    by (intro signed_take_bit_int_eq_self)
  then show ?thesis by (simp add: sint_uint)
qed

lemma sint_of_unat: "unat (x :: u32) = n \<Longrightarrow> n < 2 ^ 31 \<Longrightarrow> sint x = int n"
  using sint_unat_small [of x] by blast

lemma uint_not_minus_one [simp]: "uint (x :: 'a::len word) \<noteq> -1"
  using uint_ge_0 [of x] by linarith

lemma u32_le_max: "unat (x :: u32) < 4294967296"
  using unsigned_less [of x] by simp

section \<open>Signed division and remainder of C\<close>

text \<open>C rounds the quotient towards zero, so the remainder has the sign of the dividend.\<close>

definition cdiv :: "int \<Rightarrow> int \<Rightarrow> int" where
  "cdiv a b = (if (a < 0) = (b < 0) then \<bar>a\<bar> div \<bar>b\<bar> else - (\<bar>a\<bar> div \<bar>b\<bar>))"

definition cmod :: "int \<Rightarrow> int \<Rightarrow> int" where
  "cmod a b = (if a < 0 then - (\<bar>a\<bar> mod \<bar>b\<bar>) else \<bar>a\<bar> mod \<bar>b\<bar>)"

lemma cmod_small [simp]: "0 \<le> a \<Longrightarrow> a < b \<Longrightarrow> cmod a b = a"
  by (simp add: cmod_def)

lemma cdiv_small [simp]: "0 \<le> a \<Longrightarrow> a < b \<Longrightarrow> cdiv a b = 0"
  by (simp add: cdiv_def)

section \<open>Waiting for an interrupt\<close>

text \<open>
  A kernel loop that waits for an interrupt handler to change the state either returns or still
  waits when the given interrupts are used up.
\<close>

datatype 'a waiting = Returns 'a | Waits

section \<open>Devices that take characters\<close>

text \<open>
  A device accepts every character in the states \<open>ok\<close> and stays in them; so it accepts every text.
  A framed device also leaves what \<open>same\<close> compares as it was.
\<close>

locale char_sink =
  fixes put :: "u8 \<Rightarrow> 's \<Rightarrow> 's option" and ok :: "'s \<Rightarrow> bool"
  assumes put_ok: "ok s \<Longrightarrow> \<exists>s'. put c s = Some s' \<and> ok s'"
begin

lemma put_the: "ok s \<Longrightarrow> put c s = Some (the (put c s))" "ok s \<Longrightarrow> ok (the (put c s))"
  using put_ok [of s c] by auto

lemma text_ok: "ok s \<Longrightarrow> ok (fold (\<lambda>c s. the (put c s)) cs s)"
  by (induction cs arbitrary: s) (simp_all add: put_the(2))

end

locale framed_sink = char_sink +
  fixes same :: "'s \<Rightarrow> 's \<Rightarrow> bool"
  assumes same_self: "same s s"
    and same_step: "same s s' \<Longrightarrow> same s' s'' \<Longrightarrow> same s s''"
    and put_same: "put c s = Some s' \<Longrightarrow> same s s'"
begin

lemma the_same: "ok s \<Longrightarrow> same s (the (put c s))"
  using put_same [OF put_the(1)] by simp

lemma text_same: "ok s \<Longrightarrow> same s (fold (\<lambda>c s. the (put c s)) cs s)"
proof (induction cs arbitrary: s)
  case (Cons c cs)
  show ?case using same_step [OF the_same [OF Cons.prems] Cons.IH [OF put_the(2) [OF Cons.prems]]] by simp
qed (simp add: same_self)

end

section \<open>Tables with a first free entry\<close>

text \<open>
  A search through the entries from \<open>lo\<close> to \<open>hi\<close> of a table for the first that is not taken: it
  finds one exactly when the table is not full.
\<close>

locale first_free =
  fixes pick :: "'s \<Rightarrow> nat option" and taken :: "'s \<Rightarrow> nat \<Rightarrow> bool" and lo hi :: nat
  assumes pick_first: "pick s = Some i \<Longrightarrow>
      lo \<le> i \<and> i < hi \<and> \<not> taken s i \<and> (\<forall>j. lo \<le> j \<longrightarrow> j < i \<longrightarrow> taken s j)"
    and pick_none: "pick s = None \<Longrightarrow> lo \<le> j \<Longrightarrow> j < hi \<Longrightarrow> taken s j"
begin

lemma pick_free: "pick s = Some i \<Longrightarrow> lo \<le> i \<and> i < hi \<and> \<not> taken s i"
  using pick_first by blast

lemma pick_none_iff: "pick s = None \<longleftrightarrow> (\<forall>j. lo \<le> j \<longrightarrow> j < hi \<longrightarrow> taken s j)"
  using pick_free [of s] pick_none [of s] by (cases "pick s") auto

lemma pick_full: "pick s = None \<longleftrightarrow> card {j. lo \<le> j \<and> j < hi \<and> taken s j} = hi - lo"
proof
  let ?A = "{j. lo \<le> j \<and> j < hi \<and> taken s j}"
  {
    assume "pick s = None"
    then have "?A = {lo..<hi}" unfolding pick_none_iff by auto
    then show "card ?A = hi - lo" by simp
  next
    assume "card ?A = hi - lo"
    moreover have sub: "?A \<subseteq> {lo..<hi}" by auto
    ultimately have "?A = {lo..<hi}" by (intro card_subset_eq) simp_all
    then have "j \<in> {lo..<hi} \<Longrightarrow> j \<in> ?A" for j by (simp only:)
    then show "pick s = None" unfolding pick_none_iff by simp
  }
qed

end

end
