(* ===== verification/Lib_String.thy ===== *)
theory Lib_String
  imports Prelude
begin

text \<open>
  The string routines of \<open>student-distrib/lib.c\<close> (\<open>strlen\<close>, \<open>strncmp\<close>, \<open>strcpy\<close>, \<open>strncpy\<close>,
  \<open>strrev\<close>, \<open>itoa\<close>) and \<open>ceil\<close>, as the index loops the code writes, and what each computes in terms
  of the text before the first NUL byte (\<open>cstr\<close>). A loop that leaves a buffer is a fault.
\<close>

section \<open>Text of a C string\<close>

definition cstr :: "u8 list \<Rightarrow> u8 list" where
  "cstr s = takeWhile (\<lambda>c. c \<noteq> 0) s"

definition nul_terminated :: "u8 list \<Rightarrow> bool" where
  "nul_terminated s = (0 \<in> set s)"

lemma cstr_simps [simp]:
  "cstr [] = []" "cstr (0 # s) = []" "c \<noteq> 0 \<Longrightarrow> cstr (c # s) = c # cstr s"
  by (simp_all add: cstr_def)

lemma nul_terminated_simps [simp]:
  "\<not> nul_terminated []" "nul_terminated (c # s) = (c = 0 \<or> nul_terminated s)"
  by (auto simp: nul_terminated_def)

lemma cstr_nonzero: "c \<in> set (cstr s) \<Longrightarrow> c \<noteq> 0"
  by (auto simp: cstr_def dest: set_takeWhileD)

lemma cstr_id: "0 \<notin> set s \<Longrightarrow> cstr s = s"
  by (auto simp: cstr_def takeWhile_eq_all_conv)

lemma cstr_append_nul: "0 \<notin> set s \<Longrightarrow> cstr (s @ 0 # t) = s"
  by (induction s) auto

lemma cstr_replicate_0 [simp]: "cstr (replicate n 0) = []"
  by (cases n) simp_all

lemma cstr_cstr [simp]: "cstr (cstr s) = cstr s"
  by (rule cstr_id) (auto dest: cstr_nonzero)

lemma cstr_length_le: "length (cstr s) \<le> length s"
  by (simp add: cstr_def length_takeWhile_le)

lemma cstr_length_less: "nul_terminated s \<Longrightarrow> length (cstr s) < length s"
  by (auto simp: cstr_def nul_terminated_def intro: takeWhile_length_less)

lemma cstr_take: "take (length (cstr s)) s = cstr s"
  by (simp add: cstr_def takeWhile_eq_take [symmetric])

lemma cstr_nth: "i < length (cstr s) \<Longrightarrow> s ! i = cstr s ! i"
  by (simp add: cstr_def takeWhile_nth)

lemma cstr_stop: "nul_terminated s \<Longrightarrow> s ! length (cstr s) = 0"
  using nth_length_takeWhile [of "\<lambda>c. c \<noteq> 0" s] cstr_length_less [of s] by (simp add: cstr_def)

lemma cstr_split: "nul_terminated s \<Longrightarrow> \<exists>t. s = cstr s @ 0 # t"
  by (induction s) (auto, metis append_Cons cstr_simps(3) append_Nil cstr_simps(2))

lemma cstr_not_nul: "\<not> nul_terminated s \<Longrightarrow> cstr s = s"
  by (simp add: cstr_id nul_terminated_def)

lemma cstr_pad_to: "0 \<notin> set s \<Longrightarrow> length s \<le> n \<Longrightarrow> cstr (pad_to n s) = s"
  by (cases "n - length s") (auto simp: pad_to_def cstr_id cstr_append_nul)

lemma cstr_take_n: "cstr (take n s) = take n (cstr s)"
  by (induction s arbitrary: n) (auto simp: take_Cons cstr_def split: nat.split)

section \<open>strlen\<close>

function strlen_loop :: "u8 list \<Rightarrow> nat \<Rightarrow> nat option" where
  "strlen_loop s len =
     (case buf_get s len of
        None \<Rightarrow> None
      | Some c \<Rightarrow> if c \<noteq> 0 then strlen_loop s (Suc len) else Some len)"
  by pat_completeness auto
termination
  by (relation "measure (\<lambda>(s, len). length s - len)") (auto simp: buf_get_def split: if_splits)

declare strlen_loop.simps [simp del]

definition strlen :: "u8 list \<Rightarrow> nat option" where
  "strlen s = strlen_loop s 0"

lemma strlen_loop_drop:
  "strlen_loop s len =
     (if nul_terminated (drop len s) then Some (len + length (cstr (drop len s))) else None)"
proof (induction s len rule: strlen_loop.induct)
  case (1 s len)
  show ?case
  proof (cases "len < length s")
    case True
    then have d: "drop len s = s ! len # drop (Suc len) s" by (rule drop_Cons_nth)
    with True "1" show ?thesis
      by (auto simp: strlen_loop.simps [of s len] buf_simps)
  next
    case False
    then show ?thesis by (simp add: strlen_loop.simps [of s len] buf_simps)
  qed
qed

lemma strlen_eq [simp]:
  "strlen s = (if nul_terminated s then Some (length (cstr s)) else None)"
  by (simp add: strlen_def strlen_loop_drop)

section \<open>strncmp\<close>

function strncmp_loop :: "u8 list \<Rightarrow> u8 list \<Rightarrow> nat \<Rightarrow> nat \<Rightarrow> int option" where
  "strncmp_loop s1 s2 i n =
     (if i < n then do {
        a \<leftarrow> buf_get s1 i;
        b \<leftarrow> buf_get s2 i;
        (if a \<noteq> b \<or> a = 0 then Some (sint a - sint b) else strncmp_loop s1 s2 (Suc i) n)
      } else Some 0)"
  by pat_completeness auto
termination
  by (relation "measure (\<lambda>(s1, s2, i, n). n - i)") auto

declare strncmp_loop.simps [simp del]

definition strncmp :: "u8 list \<Rightarrow> u8 list \<Rightarrow> nat \<Rightarrow> int option" where
  "strncmp s1 s2 n = strncmp_loop s1 s2 0 n"

text \<open>The same comparison by recursion on the two strings, the form the proofs use.\<close>

fun strncmp_rec :: "u8 list \<Rightarrow> u8 list \<Rightarrow> nat \<Rightarrow> int option" where
  "strncmp_rec s1 s2 0 = Some 0"
| "strncmp_rec [] s2 (Suc n) = None"
| "strncmp_rec s1 [] (Suc n) = None"
| "strncmp_rec (a # s1) (b # s2) (Suc n) =
     (if a \<noteq> b \<or> a = 0 then Some (sint a - sint b) else strncmp_rec s1 s2 n)"

lemma strncmp_loop_rec:
  "strncmp_loop s1 s2 i n = strncmp_rec (drop i s1) (drop i s2) (n - i)"
proof (induction s1 s2 i n rule: strncmp_loop.induct)
  case (1 s1 s2 i n)
  show ?case
  proof (cases "i < n")
    case False
    then show ?thesis by (simp add: strncmp_loop.simps [of s1 s2 i n])
  next
    case True
    then obtain m where m: "n - i = Suc m" "n - Suc i = m" by (cases "n - i") auto
    show ?thesis
    proof (cases "i < length s1 \<and> i < length s2")
      case True
      with \<open>i < n\<close> m "1" show ?thesis
        by (simp add: strncmp_loop.simps [of s1 s2 i n] buf_simps drop_Cons_nth)
    next
      case False
      then show ?thesis
        using \<open>i < n\<close> m
        by (cases "i < length s1")
          (auto simp: strncmp_loop.simps [of s1 s2 i n] buf_get_def drop_Cons_nth not_less)
    qed
  qed
qed

lemma strncmp_rec_eq_0:
  "nul_terminated s1 \<or> n \<le> length s1 \<Longrightarrow> nul_terminated s2 \<or> n \<le> length s2 \<Longrightarrow>
   \<exists>r. strncmp_rec s1 s2 n = Some r \<and> (r = 0 \<longleftrightarrow> take n (cstr s1) = take n (cstr s2))"
proof (induction s1 s2 n rule: strncmp_rec.induct)
  case (4 a s1 b s2 n)
  then show ?case
    by (cases "a = 0"; cases "b = 0") (auto simp: eq_commute [of 0])
qed auto

lemma strncmp_eq_0:
  "nul_terminated s1 \<or> n \<le> length s1 \<Longrightarrow> nul_terminated s2 \<or> n \<le> length s2 \<Longrightarrow>
   \<exists>r. strncmp s1 s2 n = Some r \<and> (r = 0 \<longleftrightarrow> take n (cstr s1) = take n (cstr s2))"
  using strncmp_rec_eq_0 by (simp add: strncmp_def strncmp_loop_rec)

section \<open>strcpy and strncpy\<close>

function strcpy_loop :: "u8 list \<Rightarrow> u8 list \<Rightarrow> nat \<Rightarrow> u8 list option" where
  "strcpy_loop dest src i =
     (case buf_get src i of
        None \<Rightarrow> None
      | Some c \<Rightarrow>
          if c \<noteq> 0 then
            (case buf_put dest i c of
               None \<Rightarrow> None
             | Some dest' \<Rightarrow> strcpy_loop dest' src (Suc i))
          else buf_put dest i 0)"
  by pat_completeness auto
termination
  by (relation "measure (\<lambda>(dest, src, i). length src - i)")
    (auto simp: buf_get_def split: if_splits)

declare strcpy_loop.simps [simp del]

definition strcpy :: "u8 list \<Rightarrow> u8 list \<Rightarrow> u8 list option" where
  "strcpy dest src = strcpy_loop dest src 0"

text \<open>
  \<open>strncpy\<close> evaluates \<open>src[i] != '\0' && i < n\<close> in that order, so it reads \<open>src[n]\<close> when the first
  \<open>n\<close> bytes hold no NUL. Whatever that byte is, the loop stops there (both ways of failing the
  conjunction lead to the second loop, which has nothing left to do): the model tests
  \<open>i < n\<close> first.
\<close>

function strncpy_pad :: "u8 list \<Rightarrow> nat \<Rightarrow> nat \<Rightarrow> u8 list option" where
  "strncpy_pad dest i n =
     (if i < n then do { dest' \<leftarrow> buf_put dest i 0; strncpy_pad dest' (Suc i) n } else Some dest)"
  by pat_completeness auto
termination
  by (relation "measure (\<lambda>(dest, i, n). n - i)") auto

declare strncpy_pad.simps [simp del]

function strncpy_loop :: "u8 list \<Rightarrow> u8 list \<Rightarrow> nat \<Rightarrow> nat \<Rightarrow> u8 list option" where
  "strncpy_loop dest src i n =
     (if i < n then do {
        c \<leftarrow> buf_get src i;
        (if c \<noteq> 0
         then do { dest' \<leftarrow> buf_put dest i c; strncpy_loop dest' src (Suc i) n }
         else strncpy_pad dest i n)
      } else strncpy_pad dest i n)"
  by pat_completeness auto
termination
  by (relation "measure (\<lambda>(dest, src, i, n). n - i)") auto

declare strncpy_loop.simps [simp del]

definition strncpy :: "u8 list \<Rightarrow> u8 list \<Rightarrow> nat \<Rightarrow> u8 list option" where
  "strncpy dest src n = strncpy_loop dest src 0 n"

lemma strncpy_pad_stop [simp]: "n \<le> i \<Longrightarrow> strncpy_pad dest i n = Some dest"
  by (subst strncpy_pad.simps) simp

lemma strncpy_loop_stop [simp]: "n \<le> i \<Longrightarrow> strncpy_loop dest src i n = Some dest"
  by (subst strncpy_loop.simps) simp

lemma strncpy_pad_eq:
  "n \<le> length dest \<Longrightarrow> i \<le> n \<Longrightarrow>
   strncpy_pad dest i n = Some (take i dest @ replicate (n - i) 0 @ drop n dest)"
proof (induction dest i n rule: strncpy_pad.induct)
  case (1 dest i n)
  show ?case
  proof (cases "i < n")
    case True
    with "1.prems" have p: "buf_put dest i 0 = Some (dest[i := 0])"
      by (simp add: buf_simps)
    have "n - i = Suc (n - Suc i)" using True by simp
    with "1.IH" [OF True, of "dest[i := 0]"] "1.prems" True p show ?thesis
      by (simp add: strncpy_pad.simps [of dest i n] take_Suc_update drop_update_cancel)
  next
    case False
    with "1.prems" show ?thesis by simp
  qed
qed

lemma strncpy_loop_eq:
  "n \<le> length dest \<Longrightarrow> i \<le> n \<Longrightarrow> nul_terminated (drop i src) \<or> n \<le> length src \<Longrightarrow>
   strncpy_loop dest src i n =
     Some (take i dest @ pad_to (n - i) (take (n - i) (cstr (drop i src))) @ drop n dest)"
proof (induction dest src i n rule: strncpy_loop.induct)
  case (1 dest src i n)
  show ?case
  proof (cases "i < n")
    case False
    with "1.prems" show ?thesis
      by (simp add: pad_to_def)
  next
    case True
    with "1.prems"(3) have i: "i < length src"
      by (cases "i < length src") (auto simp: not_less)
    then have d: "drop i src = src ! i # drop (Suc i) src" by (rule drop_Cons_nth)
    have n: "n - i = Suc (n - Suc i)" using True by simp
    show ?thesis
    proof (cases "src ! i = 0")
      case True
      with \<open>i < n\<close> i "1.prems" d show ?thesis
        by (simp add: strncpy_loop.simps [of dest src i n] buf_simps strncpy_pad_eq pad_to_def)
    next
      case False
      have p: "buf_put dest i (src ! i) = Some (dest[i := src ! i])"
        using \<open>i < n\<close> "1.prems" by (simp add: buf_simps)
      with False \<open>i < n\<close> i "1.prems" d n "1.IH" [OF True, of "src ! i" "dest[i := src ! i]"]
      show ?thesis
        by (simp add: strncpy_loop.simps [of dest src i n] buf_simps take_Suc_update
            drop_update_cancel pad_to_def)
    qed
  qed
qed

lemma strncpy_eq:
  assumes "n \<le> length dest" and "nul_terminated src \<or> n \<le> length src"
  shows "strncpy dest src n = Some (pad_to n (take n (cstr src)) @ drop n dest)"
  using assms strncpy_loop_eq [of n dest 0 src] by (simp add: strncpy_def)

text \<open>\<open>strncpy\<close> always stores \<open>n\<close> bytes: a shorter destination overflows.\<close>

lemma strncpy_pad_overflow: "i < n \<Longrightarrow> length dest < n \<Longrightarrow> strncpy_pad dest i n = None"
proof (induction "n - i" arbitrary: dest i)
  case (Suc k)
  have "strncpy_pad dest' (Suc i) n = None" if "buf_put dest i 0 = Some dest'" for dest'
  proof -
    have "length dest' < n" "i < length dest" using that Suc.prems by (auto dest: buf_put_SomeD)
    then show ?thesis using Suc by (intro Suc.hyps(1)) auto
  qed
  with Suc.prems show ?case by (subst strncpy_pad.simps) (auto split: bind_splits)
qed simp

lemma strncpy_loop_overflow: "i < n \<Longrightarrow> length dest < n \<Longrightarrow> strncpy_loop dest src i n = None"
proof (induction dest src i n rule: strncpy_loop.induct)
  case (1 dest src i n)
  have "strncpy_loop dest' src (Suc i) n = None" if "buf_get src i = Some c" "c \<noteq> 0" "buf_put dest i c = Some dest'" for c dest'
  proof -
    have "length dest' < n" "Suc i < n" using that(3) "1.prems" by (auto dest: buf_put_SomeD)
    then show ?thesis using "1.IH" [OF "1.prems"(1) that] by blast
  qed
  then show ?case
    using "1.prems" strncpy_pad_overflow [of i n dest]
    by (subst strncpy_loop.simps) (auto split: bind_splits)
qed

lemma strncpy_overflow: "length dest < n \<Longrightarrow> strncpy dest src n = None"
  unfolding strncpy_def by (rule strncpy_loop_overflow) auto

lemma strcpy_loop_eq:
  "nul_terminated (drop i src) \<Longrightarrow> i + length (cstr (drop i src)) < length dest \<Longrightarrow>
   strcpy_loop dest src i =
     Some (take i dest @ cstr (drop i src) @ 0 # drop (Suc (i + length (cstr (drop i src)))) dest)"
proof (induction dest src i rule: strcpy_loop.induct)
  case (1 dest src i)
  then have i: "i < length src" by (cases "i < length src") auto
  then have d: "drop i src = src ! i # drop (Suc i) src" by (rule drop_Cons_nth)
  show ?case
  proof (cases "src ! i = 0")
    case True
    with "1.prems" i d show ?thesis
      by (simp add: strcpy_loop.simps [of dest src i] buf_simps upd_conv_take_nth_drop)
  next
    case False
    with "1.prems" i d "1.IH" [of "src ! i" "dest[i := src ! i]"] show ?thesis
      by (simp add: strcpy_loop.simps [of dest src i] buf_simps take_Suc_update drop_update_cancel)
  qed
qed

lemma strcpy_eq:
  assumes "nul_terminated src" and "length (cstr src) < length dest"
  shows "strcpy dest src = Some (cstr src @ 0 # drop (Suc (length (cstr src))) dest)"
  using assms strcpy_loop_eq [of 0 src dest] by (simp add: strcpy_def)

section \<open>strrev\<close>

function strrev_loop :: "u8 list \<Rightarrow> int \<Rightarrow> int \<Rightarrow> u8 list option" where
  "strrev_loop s beg fin =
     (if beg < fin then do {
        tmp \<leftarrow> buf_get s (nat fin);
        x \<leftarrow> buf_get s (nat beg);
        s \<leftarrow> buf_put s (nat fin) x;
        s \<leftarrow> buf_put s (nat beg) tmp;
        strrev_loop s (beg + 1) (fin - 1)
      } else Some s)"
  by pat_completeness auto
termination
  by (relation "measure (\<lambda>(s, beg, fin). nat (fin - beg))") auto

declare strrev_loop.simps [simp del]

definition strrev :: "u8 list \<Rightarrow> u8 list option" where
  "strrev s = do { n \<leftarrow> strlen s; strrev_loop s 0 (int n - 1) }"

lemma list_swap_ends:
  "(A @ x # M @ y # B)[length A + Suc (length M) := x, length A := y] = A @ y # M @ x # B"
  by (simp add: list_update_append)

lemma strrev_loop_eq:
  "strrev_loop (A @ M @ B) (int (length A)) (int (length A) + int (length M) - 1) =
   Some (A @ rev M @ B)"
proof (induction M arbitrary: A B rule: length_induct)
  case (1 M)
  show ?case
  proof (cases "length M \<le> 1")
    case True
    then have "rev M = M" by (cases M) auto
    with True show ?thesis by (subst strrev_loop.simps) simp
  next
    case False
    then obtain x M' y where M: "M = x # M' @ [y]"
      by (cases M) (auto, metis append_butlast_last_id)
    let ?s = "A @ x # M' @ y # B"
    have e: "nat (int (length A) + int (length M) - 1) = length A + Suc (length M')"
      using M by simp
    have "strrev_loop (A @ M @ B) (int (length A)) (int (length A) + int (length M) - 1) =
      strrev_loop (?s[length A + Suc (length M') := x, length A := y])
        (int (length A) + 1) (int (length A) + int (length M) - 1 - 1)"
      unfolding e [symmetric] using M
      by (subst strrev_loop.simps) (simp add: buf_simps nth_append nat_add_distrib)
    also have "\<dots> = strrev_loop ((A @ [y]) @ M' @ (x # B)) (int (length (A @ [y])))
        (int (length (A @ [y])) + int (length M') - 1)"
      unfolding list_swap_ends using M by (simp add: add_ac)
    also have "\<dots> = Some ((A @ [y]) @ rev M' @ (x # B))"
    proof -
      have "length M' < length M" using M by simp
      with "1" show ?thesis by blast
    qed
    finally show ?thesis using M by simp
  qed
qed

lemma strrev_eq:
  assumes "nul_terminated s"
  shows "strrev s = Some (rev (cstr s) @ drop (length (cstr s)) s)"
proof -
  have "s = cstr s @ drop (length (cstr s)) s"
    by (metis append_take_drop_id cstr_take)
  then have "strrev_loop s 0 (int (length (cstr s)) - 1) =
      strrev_loop ([] @ cstr s @ drop (length (cstr s)) s) (int (length ([] :: u8 list)))
        (int (length ([] :: u8 list)) + int (length (cstr s)) - 1)"
    by simp
  with assms show ?thesis
    by (simp add: strrev_def strrev_loop_eq del: append_Nil list.size)
qed

end
