(* ===== verification/Lib_Format.thy ===== *)
theory Lib_Format
  imports Lib_String
begin

text \<open>
  Number formatting of \<open>student-distrib/lib.c\<close>: \<open>itoa\<close>, the conversions of \<open>printf\<close> (as the
  sequence of bytes it hands to \<open>putc_modf\<close>), \<open>puts\<close>, and the rounding helper \<open>ceil\<close>.
\<close>

section \<open>itoa\<close>

definition lookup_digits :: "u8 list" where
  "lookup_digits = ascii ''0123456789ABCDEFGHIJKLMNOPQRSTUVWXYZ'' @ [0]"

text \<open>
  The digit loop. \<open>newbuf\<close> is the index of the next byte; \<open>newval % radix\<close> is an unsigned
  operation (the \<open>int32_t\<close> radix is converted), and dividing by zero is a fault.
\<close>

function itoa_loop :: "u32 \<Rightarrow> u8 list \<Rightarrow> nat \<Rightarrow> u32 \<Rightarrow> (u8 list \<times> nat) option" where
  "itoa_loop newval buf newbuf radix =
     (if 0 < newval then do {
        require (radix \<noteq> 0);
        c \<leftarrow> buf_get lookup_digits (unat (newval mod radix));
        (case buf_put buf newbuf c of
           None \<Rightarrow> None
         | Some buf' \<Rightarrow> itoa_loop (newval div radix) buf' (Suc newbuf) radix)
      } else Some (buf, newbuf))"
  by pat_completeness auto
termination
  by (relation "measure (\<lambda>(newval, buf, newbuf, radix). length buf - newbuf)")
    (auto dest: buf_put_SomeD)

declare itoa_loop.simps [simp del]

definition itoa :: "u32 \<Rightarrow> u8 list \<Rightarrow> int \<Rightarrow> u8 list option" where
  "itoa value buf radix =
     (if value = 0 then do {
        buf \<leftarrow> buf_put buf 0 (of_char CHR ''0'');
        buf_put buf 1 0
      } else do {
        (buf, newbuf) \<leftarrow> itoa_loop value buf 0 (word_of_int radix);
        buf \<leftarrow> buf_put buf newbuf 0;
        strrev buf
      })"

text \<open>What \<open>itoa\<close> is for: the numeral of a number, most significant digit first.\<close>

fun numeral_of :: "nat \<Rightarrow> nat \<Rightarrow> u8 list" where
  "numeral_of r n =
     (if n = 0 \<or> r \<le> 1 then [] else numeral_of r (n div r) @ [lookup_digits ! (n mod r)])"

declare numeral_of.simps [simp del]

lemma numeral_of_0 [simp]: "numeral_of r 0 = []"
  by (subst numeral_of.simps) simp

definition digit_value :: "u8 \<Rightarrow> nat" where
  "digit_value c = (if unat c < 65 then unat c - 48 else unat c - 55)"

definition parse_numeral :: "nat \<Rightarrow> u8 list \<Rightarrow> nat" where
  "parse_numeral r ds = foldl (\<lambda>v c. v * r + digit_value c) 0 ds"

lemma lookup_digits_eq:
  "lookup_digits = [48, 49, 50, 51, 52, 53, 54, 55, 56, 57, 65, 66, 67, 68, 69, 70, 71, 72, 73,
     74, 75, 76, 77, 78, 79, 80, 81, 82, 83, 84, 85, 86, 87, 88, 89, 90, 0]"
  by (simp add: lookup_digits_def)

lemma length_lookup_digits [simp]: "length lookup_digits = 37"
  by (simp add: lookup_digits_eq)

lemma digit_value_all: "map digit_value (take 36 lookup_digits) = [0..<36]"
  by (simp add: lookup_digits_eq digit_value_def upt_rec)

lemma digit_value_lookup: "d < 36 \<Longrightarrow> digit_value (lookup_digits ! d) = d"
proof -
  assume d: "d < 36"
  then have "map digit_value (take 36 lookup_digits) ! d = digit_value (lookup_digits ! d)"
    by simp
  with d show ?thesis by (simp add: digit_value_all)
qed

lemma lookup_digits_nonzero: "d < 36 \<Longrightarrow> lookup_digits ! d \<noteq> 0"
proof -
  assume d: "d < 36"
  have "0 \<notin> set (take 36 lookup_digits)" by (simp add: lookup_digits_eq)
  moreover have "take 36 lookup_digits ! d \<in> set (take 36 lookup_digits)"
    using d by (intro nth_mem) simp
  moreover have "take 36 lookup_digits ! d = lookup_digits ! d" using d by simp
  ultimately show ?thesis by force
qed

lemma numeral_of_nonzero: "1 < r \<Longrightarrow> r \<le> 36 \<Longrightarrow> 0 \<notin> set (numeral_of r n)"
proof (induction r n rule: numeral_of.induct)
  case (1 r n)
  have "n mod r < r" using "1.prems" by simp
  then have "n mod r < 36" using "1.prems" by linarith
  then have l: "0 \<noteq> lookup_digits ! (n mod r)"
    using lookup_digits_nonzero [of "n mod r"] by metis
  show ?case
  proof (cases "n = 0")
    case False
    with "1" have "0 \<notin> set (numeral_of r (n div r))" by simp
    with False l show ?thesis by (subst numeral_of.simps) simp
  qed simp
qed

lemma parse_numeral_of: "1 < r \<Longrightarrow> r \<le> 36 \<Longrightarrow> parse_numeral r (numeral_of r n) = n"
proof (induction r n rule: numeral_of.induct)
  case (1 r n)
  have "n mod r < r" using "1.prems" by simp
  then have m: "n mod r < 36" using "1.prems" by linarith
  show ?case
  proof (cases "n = 0")
    case True
    then show ?thesis by (simp add: parse_numeral_def)
  next
    case False
    with "1" m show ?thesis
      by (subst numeral_of.simps) (simp add: parse_numeral_def digit_value_lookup)
  qed
qed

lemma length_numeral_of: "n < r ^ k \<Longrightarrow> length (numeral_of r n) \<le> k"
proof (induction r n arbitrary: k rule: numeral_of.induct)
  case (1 r n)
  show ?case
  proof (cases "n = 0 \<or> r \<le> 1")
    case True
    then show ?thesis by (subst numeral_of.simps) simp
  next
    case False
    with "1.prems" obtain j where k: "k = Suc j" by (cases k) auto
    have "n div r < r ^ j"
      using "1.prems" False k by (simp add: less_mult_imp_div_less mult.commute)
    with "1.IH" [of j] False k show ?thesis by (subst numeral_of.simps) simp
  qed
qed

lemma itoa_loop_eq:
  assumes "1 < unat radix" and "unat radix \<le> 36"
  shows "newbuf + length (numeral_of (unat radix) (unat v)) \<le> length buf \<Longrightarrow>
    itoa_loop v buf newbuf radix =
      Some (take newbuf buf @ rev (numeral_of (unat radix) (unat v))
              @ drop (newbuf + length (numeral_of (unat radix) (unat v))) buf,
            newbuf + length (numeral_of (unat radix) (unat v)))"
proof (induction "unat v" arbitrary: v buf newbuf rule: less_induct)
  case less
  let ?r = "unat radix"
  show ?case
  proof (cases "v = 0")
    case True
    then show ?thesis by (subst itoa_loop.simps) simp
  next
    case False
    let ?c = "lookup_digits ! (unat v mod ?r)"
    have v: "unat v \<noteq> 0" using False by (simp add: unat_eq_zero)
    have num: "numeral_of ?r (unat v) = numeral_of ?r (unat v div ?r) @ [?c]"
      using v assms by (subst numeral_of.simps) simp
    have lt: "unat (v div radix) < unat v"
      using v assms by (simp add: unat_div div_less_dividend)
    have nb: "newbuf < length buf" using less.prems num by simp
    have c: "buf_get lookup_digits (unat (v mod radix)) = Some ?c"
    proof -
      have "unat v mod ?r < ?r" using assms by simp
      with assms have "unat v mod ?r < 37" by linarith
      then show ?thesis by (simp add: buf_simps unat_mod)
    qed
    have "itoa_loop v buf newbuf radix =
        itoa_loop (v div radix) (buf[newbuf := ?c]) (Suc newbuf) radix"
      using False assms c nb
      by (subst itoa_loop.simps) (auto simp: buf_simps simp flip: word_neq_0_conv)
    then show ?thesis
      using less.hyps [OF lt, of "Suc newbuf" "buf[newbuf := ?c]"] less.prems num nb
      by (simp add: unat_div take_Suc_update drop_update_cancel)
  qed
qed

lemma itoa_nonzero:
  assumes "v \<noteq> 0" "2 \<le> radix" "radix \<le> 36"
    and "length (numeral_of (nat radix) (unat v)) < length buf"
  shows "itoa v buf radix =
    Some (numeral_of (nat radix) (unat v) @ 0 # drop (Suc (length (numeral_of (nat radix) (unat v)))) buf)"
proof -
  let ?w = "word_of_int radix :: u32"
  let ?d = "numeral_of (nat radix) (unat v)"
  have r: "unat ?w = nat radix"
    using assms by (simp add: unsigned_of_int take_bit_int_eq_self)
  have nz: "0 \<notin> set ?d" using numeral_of_nonzero [of "nat radix"] assms by simp
  have loop: "itoa_loop v buf 0 ?w = Some (rev ?d @ drop (length ?d) buf, length ?d)"
    using itoa_loop_eq [of ?w 0 v buf] assms r by simp
  have put: "buf_put (rev ?d @ drop (length ?d) buf) (length ?d) 0 =
      Some (rev ?d @ 0 # drop (Suc (length ?d)) buf)"
    using assms(4) by (simp add: buf_put_def list_update_append drop_Cons_nth)
  have "strrev (rev ?d @ 0 # drop (Suc (length ?d)) buf) =
      Some (?d @ 0 # drop (Suc (length ?d)) buf)"
    using nz cstr_append_nul [of "rev ?d"]
    by (subst strrev_eq) (simp_all add: nul_terminated_def)
  with assms(1) loop put show ?thesis by (simp add: itoa_def)
qed

text \<open>The numeral \<open>itoa\<close> writes: \<open>0\<close> is written as one digit.\<close>

definition decimal_of :: "nat \<Rightarrow> nat \<Rightarrow> u8 list" where
  "decimal_of r n = (if n = 0 then [of_char CHR ''0''] else numeral_of r n)"

lemma itoa_eq:
  assumes "2 \<le> radix" "radix \<le> 36" and "length (decimal_of (nat radix) (unat v)) < length buf"
  shows "itoa v buf radix = Some (decimal_of (nat radix) (unat v) @ 0 #
     drop (Suc (length (decimal_of (nat radix) (unat v)))) buf)"
proof (cases "v = 0")
  case True
  with assms obtain a b bs where "buf = a # b # bs"
    by (cases buf; cases "tl buf") (auto simp: decimal_of_def)
  with True show ?thesis by (simp add: itoa_def decimal_of_def buf_put_def)
next
  case False
  then have "unat v \<noteq> 0" by (simp add: unat_eq_zero)
  with False assms show ?thesis using itoa_nonzero [OF False, of radix buf]
    by (simp add: decimal_of_def)
qed

lemma decimal_of_nonzero: "1 < r \<Longrightarrow> r \<le> 36 \<Longrightarrow> 0 \<notin> set (decimal_of r n)"
  using numeral_of_nonzero [of r n] by (simp add: decimal_of_def)

lemma parse_decimal_of: "1 < r \<Longrightarrow> r \<le> 36 \<Longrightarrow> parse_numeral r (decimal_of r n) = n"
  using parse_numeral_of [of r n] by (simp add: decimal_of_def parse_numeral_def digit_value_def)

lemma length_decimal_of: "n < r ^ k \<Longrightarrow> 0 < k \<Longrightarrow> length (decimal_of r n) \<le> k"
  using length_numeral_of [of n r k] by (simp add: decimal_of_def)

section \<open>ceil\<close>

text \<open>
  \<open>ceil(num)\<close> returns \<open>num\<close> when it equals \<open>(int)num\<close> and \<open>(int)num + 1\<close> otherwise. Every call
  of the program passes \<open>(double)n / BLK_SIZE\<close> for an unsigned 32-bit \<open>n\<close>; dividing by a power of
  two is exact in double precision, so \<open>(int)num\<close> is \<open>n div d\<close> and the test is divisibility.
\<close>

definition ceil_div :: "nat \<Rightarrow> nat \<Rightarrow> nat" where
  "ceil_div n d = (if n mod d = 0 then n div d else n div d + 1)"

lemma ceil_div_bounds: "0 < d \<Longrightarrow> n \<le> d * ceil_div n d \<and> d * ceil_div n d < n + d"
proof -
  assume d: "0 < d"
  obtain q m where q: "n div d = q" and m: "n mod d = m" by blast
  have n: "n = d * q + m" using div_mult_mod_eq [of n d] q m by (simp add: mult.commute)
  have "m < d" using d m by auto
  then show ?thesis
    unfolding ceil_div_def q m using n by (cases "m = 0") (simp_all add: distrib_left)
qed

lemma ceil_div_0 [simp]: "ceil_div 0 d = 0"
  by (simp add: ceil_div_def)

lemma less_ceil_div:
  assumes "0 < d"
  shows "b < ceil_div n d \<longleftrightarrow> d * b < n"
proof
  assume "b < ceil_div n d"
  then have "d * Suc b \<le> d * ceil_div n d" by (intro mult_le_mono) simp_all
  with ceil_div_bounds [OF assms, of n] show "d * b < n" by simp
next
  assume "d * b < n"
  with ceil_div_bounds [OF assms, of n] have "d * b < d * ceil_div n d" by linarith
  then show "b < ceil_div n d" by simp
qed

end
