(* ===== verification/Filesys.thy ===== *)
theory Filesys
  imports Lib_Format
begin

text \<open>
  The file system of \<open>student-distrib/filesys.c\<close> and \<open>filesys.h\<close>: the directory entries of the
  boot block, the inode table, the data blocks and the two free lists, with every operation on
  them. \<open>file_read\<close>, \<open>file_write\<close> and \<open>dir_read\<close> work on a file descriptor and are in the theory
  Process.

  The image behind \<open>inode_ptr\<close> is an array of \<open>Num_Inodes\<close> inodes followed by an array of
  \<open>Num_Data_Blocks\<close> data blocks; an index outside its array is a fault (in the running kernel
  the inode after the last one is the first data block). The diagnostics the code prints with
  \<open>printf\<close> are left out: they only touch the console.
\<close>

section \<open>Data\<close>

abbreviation "MAX_NUM_DENTRY \<equiv> 63 :: nat"
abbreviation "MAX_NAME_LEN \<equiv> 32 :: nat"
abbreviation "MAX_NUM_DATA_BLK \<equiv> 1023 :: nat"
abbreviation "BLK_SIZE \<equiv> 4096 :: nat"
abbreviation "FREE_LIST_SIZE \<equiv> 64449 :: nat" \<comment> \<open>\<open>MAX_NUM_DATA_BLK * MAX_NUM_DENTRY\<close>\<close>
abbreviation "RTC_TYPE \<equiv> 0 :: u32"
abbreviation "DIRECTORY_TYPE \<equiv> 1 :: u32"
abbreviation "REGULAR_FILE_TYPE \<equiv> 2 :: u32"

record dentry_t =
  file_name :: "u8 list"            \<comment> \<open>\<open>char file_name[32]\<close>\<close>
  file_type :: u32
  inode_num :: u32
  dentry_reserved :: "u8 list"      \<comment> \<open>\<open>uint8_t reserved[24]\<close>\<close>

record inode_t =
  inode_length :: u32
  data_block_idx :: "nat \<Rightarrow> u32"    \<comment> \<open>\<open>uint32_t data_block_idx[1023]\<close>\<close>

type_synonym data_blk_t = "nat \<Rightarrow> u8" \<comment> \<open>\<open>uint8_t data[4096]\<close>\<close>

record boot_blk_t =
  n_dentry :: u32
  n_inode :: u32
  n_data_blk :: u32
  dentries :: "nat \<Rightarrow> dentry_t"     \<comment> \<open>\<open>dentry_t dentries[63]\<close>\<close>

record fs =
  Num_Dentry :: u32
  Num_Inodes :: u32
  Num_Data_Blocks :: u32
  dentry_array :: "nat \<Rightarrow> dentry_t"
  inode_ptr :: "nat \<Rightarrow> inode_t"
  data_block_ptr :: "nat \<Rightarrow> data_blk_t"
  Free_list :: "nat \<Rightarrow> u32"         \<comment> \<open>\<open>uint32_t Free_list[1023*63]\<close>\<close>
  Free_inode_list :: "nat \<Rightarrow> u32"   \<comment> \<open>\<open>uint32_t Free_inode_list[63]\<close>\<close>
  Free_list_len :: int
  Free_inode_list_len :: int

definition get_Num_Dentry :: "fs \<Rightarrow> u32" where
  "get_Num_Dentry fs = Num_Dentry fs"

section \<open>Directory entries\<close>

definition read_dentry_by_index ::
    "fs \<Rightarrow> u32 \<Rightarrow> dentry_t option \<Rightarrow> (int \<times> dentry_t option) option" where
  "read_dentry_by_index fs index dentry =
     (if index > get_Num_Dentry fs - 1 then Some (-1, dentry)
      else
        (case dentry of
           None \<Rightarrow> Some (-1, None)
         | Some d \<Rightarrow> do {
             e \<leftarrow> arr_get MAX_NUM_DENTRY (dentry_array fs) (unat index);
             nm \<leftarrow> strncpy (file_name d) (file_name e) MAX_NAME_LEN;
             Some (0, Some (d\<lparr>file_name := nm, file_type := file_type e,
                              inode_num := inode_num e\<rparr>))
           }))"

function read_dentry_loop ::
    "fs \<Rightarrow> u8 list \<Rightarrow> dentry_t option \<Rightarrow> nat \<Rightarrow> (int \<times> dentry_t option) option" where
  "read_dentry_loop fs fname dentry index =
     (if index < unat (Num_Dentry fs) then do {
        e \<leftarrow> arr_get MAX_NUM_DENTRY (dentry_array fs) index;
        r \<leftarrow> strncmp fname (file_name e) MAX_NAME_LEN;
        (if r = 0
         then do {
           (_, dentry') \<leftarrow> read_dentry_by_index fs (of_nat index) dentry;
           Some (int index, dentry')
         }
         else read_dentry_loop fs fname dentry (Suc index))
      } else Some (-1, dentry))"
  by pat_completeness auto
termination
  by (relation "measure (\<lambda>(fs, fname, dentry, index). unat (Num_Dentry fs) - index)") auto

declare read_dentry_loop.simps [simp del]

definition read_dentry_by_name ::
    "fs \<Rightarrow> u8 list option \<Rightarrow> dentry_t option \<Rightarrow> (int \<times> dentry_t option) option" where
  "read_dentry_by_name fs fname dentry =
     (case fname of
        None \<Rightarrow> Some (-1, dentry)
      | Some f \<Rightarrow>
          if dentry = None then Some (-1, dentry)
          else do {
            n \<leftarrow> strlen f;
            (if n > MAX_NAME_LEN then Some (-1, dentry)
             else read_dentry_loop fs f dentry 0)
          })"

section \<open>Reading a file\<close>

text \<open>The byte at \<open>data_block_ptr + BLK_SIZE*index + offset\<close>.\<close>

definition data_byte :: "fs \<Rightarrow> u32 \<Rightarrow> nat \<Rightarrow> u8 option" where
  "data_byte fs index offset =
     (if unat index < unat (Num_Data_Blocks fs)
      then Some (data_block_ptr fs (unat index) offset) else None)"

function read_loop ::
    "fs \<Rightarrow> inode_t \<Rightarrow> u32 \<Rightarrow> u32 \<Rightarrow> nat \<Rightarrow> nat \<Rightarrow> u32 \<Rightarrow> nat \<Rightarrow> u8 list \<Rightarrow> nat
     \<Rightarrow> (int \<times> u8 list) option" where
  "read_loop fs cur_inode offset len i data_blk_inode data_blk_index offset_inblk buf cnt_word =
     (if i < unat len then
        if offset + of_nat i \<ge> inode_length cur_inode then Some (int cnt_word, buf)
        else if offset_inblk = BLK_SIZE \<and> Suc data_blk_inode \<ge> MAX_NUM_DATA_BLK
        then Some (int cnt_word, buf)
        else
          let next_blk = (offset_inblk = BLK_SIZE);
              blk_inode = (if next_blk then Suc data_blk_inode else data_blk_inode);
              blk_index = (if next_blk then data_block_idx cur_inode blk_inode else data_blk_index);
              inblk = (if next_blk then 0 else offset_inblk)
          in do {
            c \<leftarrow> data_byte fs blk_index inblk;
            buf' \<leftarrow> buf_put buf i c;
            read_loop fs cur_inode offset len (Suc i) blk_inode blk_index (Suc inblk) buf'
              (Suc cnt_word)
          }
      else Some (int cnt_word, buf))"
  by pat_completeness auto
termination
  by (relation "measure (\<lambda>(fs, ino, offset, len, i, bi, bx, off, buf, cnt). unat len - i)") auto

declare read_loop.simps [simp del]

definition read_data ::
    "fs \<Rightarrow> u32 \<Rightarrow> u32 \<Rightarrow> u8 list option \<Rightarrow> u32 \<Rightarrow> (int \<times> u8 list option) option" where
  "read_data fs inode offset buf len =
     (case buf of
        None \<Rightarrow> Some (-1, None)
      | Some b \<Rightarrow>
          if inode > Num_Inodes fs then Some (-1, Some b)
          else do {
            cur_inode \<leftarrow> arr_get (unat (Num_Inodes fs)) (inode_ptr fs) (unat inode);
            (if offset > inode_length cur_inode then Some (0, Some b)
             else do {
               data_blk_index \<leftarrow> arr_get MAX_NUM_DATA_BLK (data_block_idx cur_inode)
                                  (unat offset div BLK_SIZE);
               (cnt, b') \<leftarrow> read_loop fs cur_inode offset len 0 (unat offset div BLK_SIZE)
                              data_blk_index (unat offset mod BLK_SIZE) b 0;
               Some (cnt, Some b')
             })
          })"

section \<open>The free lists\<close>

definition get_free_datablk_index :: "fs \<Rightarrow> (int \<times> fs) option" where
  "get_free_datablk_index fs =
     (let fs = fs\<lparr>Free_list_len := Free_list_len fs - 1\<rparr> in
      if Free_list_len fs < 0 then Some (-1, fs)
      else do {
        index \<leftarrow> arr_get FREE_LIST_SIZE (Free_list fs) (nat (Free_list_len fs));
        Some (sint index, fs)
      })"

definition get_free_inode_index :: "fs \<Rightarrow> (int \<times> fs) option" where
  "get_free_inode_index fs =
     (let fs = fs\<lparr>Free_inode_list_len := Free_inode_list_len fs - 1\<rparr> in
      if Free_inode_list_len fs < 0 then Some (-1, fs)
      else do {
        index \<leftarrow> arr_get MAX_NUM_DENTRY (Free_inode_list fs) (nat (Free_inode_list_len fs));
        Some (sint index, fs)
      })"

text \<open>
  \<open>free_list_init\<close>. \<open>busy_list\<close> is a variable-length array of \<open>MAX_NUM_DATA_BLK*Num_Dentry\<close>
  entries filled from the front, so it is the list of what was stored so far.
\<close>

function busy_blocks :: "inode_t \<Rightarrow> nat \<Rightarrow> nat \<Rightarrow> nat \<Rightarrow> u32 list \<Rightarrow> u32 list option" where
  "busy_blocks cur_inode busy_max data_blk_num j busy_list =
     (if j < data_blk_num then do {
        b \<leftarrow> arr_get MAX_NUM_DATA_BLK (data_block_idx cur_inode) j;
        require (length busy_list < busy_max);
        busy_blocks cur_inode busy_max data_blk_num (Suc j) (busy_list @ [b])
      } else Some busy_list)"
  by pat_completeness auto
termination
  by (relation "measure (\<lambda>(ino, busy_max, n, j, busy). n - j)") auto

declare busy_blocks.simps [simp del]

function scan_inodes ::
    "fs \<Rightarrow> nat \<Rightarrow> nat \<Rightarrow> u32 list \<Rightarrow> (nat \<Rightarrow> u32) \<Rightarrow> nat
     \<Rightarrow> (u32 list \<times> (nat \<Rightarrow> u32) \<times> nat) option" where
  "scan_inodes fs busy_max i busy_list free_inodes x =
     (if i < unat (Num_Inodes fs) then
        let cur_inode = inode_ptr fs i in
        if inode_length cur_inode = 0 then do {
          free_inodes \<leftarrow> arr_put MAX_NUM_DENTRY free_inodes x (of_nat i);
          scan_inodes fs busy_max (Suc i) busy_list free_inodes (Suc x)
        } else do {
          busy_list \<leftarrow> busy_blocks cur_inode busy_max
                          (ceil_div (unat (inode_length cur_inode)) BLK_SIZE) 0 busy_list;
          scan_inodes fs busy_max (Suc i) busy_list free_inodes x
        }
      else Some (busy_list, free_inodes, x))"
  by pat_completeness auto
termination
  by (relation "measure (\<lambda>(fs, busy_max, i, busy, fil, x). unat (Num_Inodes fs) - i)") auto

declare scan_inodes.simps [simp del]

fun busy_search :: "u32 list \<Rightarrow> u32 \<Rightarrow> bool" where
  "busy_search [] i = False"
| "busy_search (b # busy_list) i = (if i = b then True else busy_search busy_list i)"

function collect_free ::
    "nat \<Rightarrow> u32 list \<Rightarrow> nat \<Rightarrow> (nat \<Rightarrow> u32) \<Rightarrow> nat \<Rightarrow> ((nat \<Rightarrow> u32) \<times> nat) option" where
  "collect_free n busy_list i free_list k =
     (if i < n then
        if busy_search busy_list (of_nat i)
        then collect_free n busy_list (Suc i) free_list k
        else do {
          free_list \<leftarrow> arr_put FREE_LIST_SIZE free_list k (of_nat i);
          collect_free n busy_list (Suc i) free_list (Suc k)
        }
      else Some (free_list, k))"
  by pat_completeness auto
termination
  by (relation "measure (\<lambda>(n, busy, i, fl, k). n - i)") auto

declare collect_free.simps [simp del]

definition free_list_init :: "fs \<Rightarrow> fs option" where
  "free_list_init fs = do {
     (busy_list, free_inodes, x) \<leftarrow>
        scan_inodes fs (MAX_NUM_DATA_BLK * unat (Num_Dentry fs)) 0 [] (Free_inode_list fs) 0;
     (free_list, k) \<leftarrow> collect_free (unat (Num_Data_Blocks fs)) busy_list 0 (Free_list fs) 0;
     Some (fs\<lparr>Free_list := free_list, Free_inode_list := free_inodes,
              Free_list_len := int k, Free_inode_list_len := int x\<rparr>)
   }"

text \<open>
  \<open>init_filesys\<close>: the boot block and, right behind it in the image, the inodes and the data
  blocks. The free lists keep whatever they held before \<open>free_list_init\<close> fills them.
\<close>

definition init_filesys ::
    "boot_blk_t \<Rightarrow> (nat \<Rightarrow> inode_t) \<Rightarrow> (nat \<Rightarrow> data_blk_t) \<Rightarrow> fs \<Rightarrow> fs option" where
  "init_filesys boot_blk inodes blocks fs =
     free_list_init (fs\<lparr>Num_Dentry := n_dentry boot_blk, Num_Inodes := n_inode boot_blk,
       Num_Data_Blocks := n_data_blk boot_blk, dentry_array := dentries boot_blk,
       inode_ptr := inodes, data_block_ptr := blocks\<rparr>)"

section \<open>Writing a file\<close>

text \<open>The inner loop of \<open>write_data\<close>; the flag tells that it returned from the function.\<close>

function fill_block ::
    "data_blk_t \<Rightarrow> u8 list \<Rightarrow> u32 \<Rightarrow> nat \<Rightarrow> nat \<Rightarrow> (data_blk_t \<times> nat \<times> bool) option" where
  "fill_block blk buf len j cnt_bytes =
     (if j < BLK_SIZE then
        if cnt_bytes = unat len then Some (blk, cnt_bytes, True)
        else do {
          c \<leftarrow> buf_get buf cnt_bytes;
          fill_block (blk(j := c)) buf len (Suc j) (Suc cnt_bytes)
        }
      else Some (blk, cnt_bytes, False))"
  by pat_completeness auto
termination
  by (relation "measure (\<lambda>(blk, buf, len, j, cnt). BLK_SIZE - j)") auto

declare fill_block.simps [simp del]

definition set_data_block_idx :: "fs \<Rightarrow> nat \<Rightarrow> nat \<Rightarrow> u32 \<Rightarrow> fs option" where
  "set_data_block_idx fs inode i b = do {
     idx \<leftarrow> arr_put MAX_NUM_DATA_BLK (data_block_idx (inode_ptr fs inode)) i b;
     Some (fs\<lparr>inode_ptr := (inode_ptr fs)(inode := (inode_ptr fs inode)\<lparr>data_block_idx := idx\<rparr>)\<rparr>)
   }"

function write_loop ::
    "fs \<Rightarrow> nat \<Rightarrow> u8 list \<Rightarrow> u32 \<Rightarrow> nat \<Rightarrow> nat \<Rightarrow> nat \<Rightarrow> nat \<Rightarrow> nat \<Rightarrow> (int \<times> fs) option" where
  "write_loop fs inode buf len start_blk offset_inblk data_blk_num i cnt_bytes =
     (if i < data_blk_num then do {
        (index, fs) \<leftarrow> get_free_datablk_index fs;
        (if index \<noteq> -1 then do {
           fs \<leftarrow> set_data_block_idx fs inode i (word_of_int index);
           require (0 \<le> index \<and> nat index < unat (Num_Data_Blocks fs));
           (blk, cnt, fin) \<leftarrow> fill_block (data_block_ptr fs (nat index)) buf len
                                (if i = start_blk then offset_inblk else 0) cnt_bytes;
           (let fs = fs\<lparr>data_block_ptr := (data_block_ptr fs)(nat index := blk)\<rparr> in
            if fin then Some (int cnt, fs)
            else write_loop fs inode buf len start_blk offset_inblk data_blk_num (Suc i) cnt)
         } else Some (int cnt_bytes, fs))
      } else Some (int cnt_bytes, fs))"
  by pat_completeness auto
termination
  by (relation "measure (\<lambda>(fs, ino, buf, len, st, off, n, i, cnt). n - i)") auto

declare write_loop.simps [simp del]

definition set_inode_length :: "fs \<Rightarrow> nat \<Rightarrow> u32 \<Rightarrow> fs" where
  "set_inode_length fs inode len =
     fs\<lparr>inode_ptr := (inode_ptr fs)(inode := (inode_ptr fs inode)\<lparr>inode_length := len\<rparr>)\<rparr>"

definition write_data ::
    "fs \<Rightarrow> u32 \<Rightarrow> u32 \<Rightarrow> u8 list option \<Rightarrow> u32 \<Rightarrow> (int \<times> fs) option" where
  "write_data fs inode offset buf len =
     (case buf of
        None \<Rightarrow> Some (-1, fs)
      | Some b \<Rightarrow>
          if inode > Num_Inodes fs then Some (-1, fs)
          else do {
            cur_inode \<leftarrow> arr_get (unat (Num_Inodes fs)) (inode_ptr fs) (unat inode);
            (if offset > inode_length cur_inode then Some (0, fs)
             else
               let fs = set_inode_length fs (unat inode) len;
                   offset_inblk = unat offset mod BLK_SIZE;
                   start_blk = ceil_div (unat offset) BLK_SIZE;
                   data_blk_num = ceil_div (unat len) BLK_SIZE
               in write_loop fs (unat inode) b len start_blk offset_inblk data_blk_num start_blk 0)
          })"

section \<open>Creating, opening and removing files\<close>

text \<open>
  The copy loop of \<open>file_create\<close> and \<open>open\<close>: the name up to its NUL or its first newline, into
  a local buffer of 32 bytes (a longer name leaves the buffer).
\<close>

function copy_filename_loop ::
    "u8 list \<Rightarrow> nat \<Rightarrow> u8 list \<Rightarrow> nat \<Rightarrow> (u8 list \<times> nat) option" where
  "copy_filename_loop fname n filename i =
     (if i < n then do {
        c \<leftarrow> buf_get fname i;
        (if c = of_char CHR 0x0A
         then do { filename \<leftarrow> buf_put filename i 0; Some (filename, i) }
         else do { filename \<leftarrow> buf_put filename i c; copy_filename_loop fname n filename (Suc i) })
      } else Some (filename, i))"
  by pat_completeness auto
termination
  by (relation "measure (\<lambda>(fname, n, filename, i). n - i)") auto

declare copy_filename_loop.simps [simp del]

definition copy_filename :: "u8 list \<Rightarrow> u8 list \<Rightarrow> u8 list option" where
  "copy_filename fname filename = do {
     n \<leftarrow> strlen fname;
     (filename, i) \<leftarrow> copy_filename_loop fname n filename 0;
     buf_put filename i 0
   }"

text \<open>
  \<open>filename0\<close> and \<open>dentry0\<close> are the uninitialised locals \<open>filename\<close> (32 bytes) and \<open>dentry\<close>.
\<close>

definition file_create :: "u8 list \<Rightarrow> dentry_t \<Rightarrow> u8 list \<Rightarrow> fs \<Rightarrow> (int \<times> fs) option" where
  "file_create filename0 dentry0 fname fs = do {
     filename \<leftarrow> copy_filename fname filename0;
     (if unat (Num_Dentry fs) \<ge> MAX_NUM_DENTRY then Some (-1, fs)
      else do {
        (inode, fs) \<leftarrow> get_free_inode_index fs;
        (if inode = -1 then Some (-1, fs)
         else do {
           fname_length \<leftarrow> strlen filename;
           (let fname_length = (if fname_length > 32 then 32 else fname_length) in do {
              nm \<leftarrow> strncpy (file_name dentry0) filename fname_length;
              nm \<leftarrow> buf_put nm fname_length 0;
              arr \<leftarrow> arr_put MAX_NUM_DENTRY (dentry_array fs) (unat (Num_Dentry fs))
                      (dentry0\<lparr>inode_num := word_of_int inode, file_name := nm,
                               file_type := REGULAR_FILE_TYPE\<rparr>);
              Some (inode, fs\<lparr>dentry_array := arr, Num_Dentry := Num_Dentry fs + 1\<rparr>)
            })
         })
      })
   }"

definition file_open :: "fs \<Rightarrow> u8 list option \<Rightarrow> dentry_t \<Rightarrow> int option" where
  "file_open fs fname dentry0 = do {
     (result, _) \<leftarrow> read_dentry_by_name fs fname (Some dentry0);
     Some (if result = -1 then -1 else 0)
   }"

definition file_close :: "int \<Rightarrow> int" where
  "file_close fd = 0"

definition dir_open :: "fs \<Rightarrow> u8 list option \<Rightarrow> dentry_t \<Rightarrow> int option" where
  "dir_open fs fname dentry0 = do {
     (result, _) \<leftarrow> read_dentry_by_name fs fname (Some dentry0);
     Some result
   }"

definition dir_write :: "int \<Rightarrow> u8 list option \<Rightarrow> int \<Rightarrow> int" where
  "dir_write fd buf len = -1"

definition dir_close :: "int \<Rightarrow> int" where
  "dir_close fd = 0"

function shift_dentries :: "u32 \<Rightarrow> (nat \<Rightarrow> dentry_t) \<Rightarrow> nat \<Rightarrow> (nat \<Rightarrow> dentry_t) option" where
  "shift_dentries num arr index =
     (if index < unat (num - 1) then do {
        e \<leftarrow> arr_get MAX_NUM_DENTRY arr (Suc index);
        arr \<leftarrow> arr_put MAX_NUM_DENTRY arr index e;
        shift_dentries num arr (Suc index)
      } else Some arr)"
  by pat_completeness auto
termination
  by (relation "measure (\<lambda>(num, arr, index). unat (num - 1) - index)") auto

declare shift_dentries.simps [simp del]

definition file_remove :: "fs \<Rightarrow> u8 list option \<Rightarrow> dentry_t \<Rightarrow> (int \<times> fs) option" where
  "file_remove fs fname dentry0 = do {
     (index, _) \<leftarrow> read_dentry_by_name fs fname (Some dentry0);
     (if index = -1 then Some (-1, fs)
      else do {
        arr \<leftarrow> shift_dentries (get_Num_Dentry fs) (dentry_array fs) (nat index);
        Some (0, fs\<lparr>dentry_array := arr, Num_Dentry := Num_Dentry fs - 1\<rparr>)
      })
   }"

end
