(* ===== verification/Filesys_Read.thy ===== *)
theory Filesys_Read
  imports Filesys
begin

text \<open>
  \<open>read_data\<close> against the byte sequence a file stands for: it copies exactly the requested part
  of the contents, and never leaves the arrays of a well-formed inode.
\<close>

section \<open>The abstract file: a sequence of bytes\<close>

definition file_byte :: "fs \<Rightarrow> inode_t \<Rightarrow> nat \<Rightarrow> u8" where
  "file_byte fs ino k =
     data_block_ptr fs (unat (data_block_idx ino (k div BLK_SIZE))) (k mod BLK_SIZE)"

definition file_bytes :: "fs \<Rightarrow> inode_t \<Rightarrow> u8 list" where
  "file_bytes fs ino = map (file_byte fs ino) [0..<unat (inode_length ino)]"

definition file_contents :: "fs \<Rightarrow> nat \<Rightarrow> u8 list" where
  "file_contents fs i = file_bytes fs (inode_ptr fs i)"

definition inode_blocks :: "inode_t \<Rightarrow> nat" where
  "inode_blocks ino = ceil_div (unat (inode_length ino)) BLK_SIZE"

definition inode_ok :: "fs \<Rightarrow> inode_t \<Rightarrow> bool" where
  "inode_ok fs ino \<longleftrightarrow>
     unat (inode_length ino) \<le> MAX_NUM_DATA_BLK * BLK_SIZE \<and>
     (\<forall>j < inode_blocks ino. unat (data_block_idx ino j) < unat (Num_Data_Blocks fs))"

lemma length_file_bytes [simp]: "length (file_bytes fs ino) = unat (inode_length ino)"
  by (simp add: file_bytes_def)

lemma take_drop_file_bytes:
  "p + m \<le> unat (inode_length ino) \<Longrightarrow>
   take m (drop p (file_bytes fs ino)) = map (file_byte fs ino) [p..<p + m]"
  by (simp add: file_bytes_def drop_map take_map)

lemma data_byte_in:
  assumes "inode_ok fs ino" and "p < unat (inode_length ino)"
  shows "data_byte fs (data_block_idx ino (p div BLK_SIZE)) (p mod BLK_SIZE) =
    Some (file_byte fs ino p)"
proof -
  have "BLK_SIZE * (p div BLK_SIZE) < unat (inode_length ino)"
    using assms(2) by (simp add: mult_div_mod_eq order_le_less_trans [OF times_div_less_eq_dividend])
  then have "p div BLK_SIZE < inode_blocks ino"
    by (simp add: inode_blocks_def less_ceil_div)
  with assms(1) show ?thesis by (simp add: data_byte_def file_byte_def inode_ok_def)
qed

section \<open>The loop of read_data\<close>

lemma read_loop_stop:
  "unat len \<le> i \<Longrightarrow> read_loop fs ino offset len i bi bx off buf cnt = Some (int cnt, buf)"
  by (subst read_loop.simps) simp

lemma read_loop_end:
  "inode_length ino \<le> offset + of_nat i \<Longrightarrow>
   read_loop fs ino offset len i bi bx off buf cnt = Some (int cnt, buf)"
  by (subst read_loop.simps) simp

lemma read_loop_step:
  assumes "i < unat len" "\<not> inode_length ino \<le> offset + of_nat i" "i < length buf"
    and "bx = data_block_idx ino bi" "bi' < MAX_NUM_DATA_BLK"
    and "bi' = (if off = BLK_SIZE then Suc bi else bi)" "off' = (if off = BLK_SIZE then 0 else off)"
    and "data_byte fs (data_block_idx ino bi') off' = Some c"
  shows "read_loop fs ino offset len i bi bx off buf cnt =
    read_loop fs ino offset len (Suc i) bi' (data_block_idx ino bi') (Suc off') (buf[i := c]) (Suc cnt)"
  using assms by (cases "off = BLK_SIZE"; subst read_loop.simps) (simp_all add: Let_def buf_simps)

text \<open>
  At the head of the loop the position \<open>p = offset + i\<close> is written
  \<open>BLK_SIZE * data_blk_inode + offset_inblk\<close> with \<open>offset_inblk\<close> possibly equal to \<open>BLK_SIZE\<close>:
  moving to the next block is delayed until a byte of it is needed.
\<close>

lemma read_loop_eq:
  assumes ok: "inode_ok fs ino"
  shows "unat offset + i \<le> unat (inode_length ino) \<Longrightarrow>
    BLK_SIZE * bi + off = unat offset + i \<Longrightarrow> off \<le> BLK_SIZE \<Longrightarrow> bx = data_block_idx ino bi \<Longrightarrow>
    m = min (unat len - i) (unat (inode_length ino) - (unat offset + i)) \<Longrightarrow>
    i + m \<le> length buf \<Longrightarrow>
    read_loop fs ino offset len i bi bx off buf cnt =
      Some (int (cnt + m), take i buf @ map (file_byte fs ino) [unat offset + i..<unat offset + i + m]
              @ drop (i + m) buf)"
proof (induction "unat len - i" arbitrary: i bi bx off buf cnt m)
  case 0
  then show ?case by (simp add: read_loop_stop)
next
  case (Suc n)
  let ?p = "unat offset + i"
  let ?L = "unat (inode_length ino)"
  have i: "i < unat len" using Suc.hyps(2) by simp
  have "?p < 2 ^ 32" using Suc.prems(1) u32_le_max [of "inode_length ino"] by simp
  then have p: "unat (offset + of_nat i) = ?p" and "i < 2 ^ 32"
    by (simp_all add: unat_add_u32 unat_of_nat_u32)
  show ?case
  proof (cases "?p = ?L")
    case True
    then have "inode_length ino \<le> offset + of_nat i" using p by (simp add: word_le_nat_alt)
    with True Suc.prems show ?thesis by (simp add: read_loop_end)
  next
    case False
    with Suc.prems(1) have lt: "?p < ?L" by simp
    then have nle: "\<not> inode_length ino \<le> offset + of_nat i" using p by (simp add: word_le_nat_alt)
    define bi' off' where "bi' = (if off = BLK_SIZE then Suc bi else bi)"
      and "off' = (if off = BLK_SIZE then 0 else off)"
    have pos: "BLK_SIZE * bi' + off' = ?p" and off': "off' < BLK_SIZE"
      using Suc.prems(2,3) by (auto simp: bi'_def off'_def)
    have d: "?p div BLK_SIZE = bi'" "?p mod BLK_SIZE = off'"
      unfolding pos [symmetric] using off' by simp_all
    have "BLK_SIZE * bi' < MAX_NUM_DATA_BLK * BLK_SIZE"
      using pos lt ok by (auto simp: inode_ok_def)
    then have bi': "bi' < MAX_NUM_DATA_BLK" by simp
    have byte: "data_byte fs (data_block_idx ino bi') off' = Some (file_byte fs ino ?p)"
      using data_byte_in [OF ok lt] d by simp
    have il: "i < length buf" using Suc.prems(5,6) i lt by simp
    let ?buf = "buf[i := file_byte fs ino ?p]"
    have n: "n = unat len - Suc i" using Suc.hyps(2) by arith
    obtain m' where m': "m = Suc m'" "m' = min (unat len - Suc i) (?L - (unat offset + Suc i))"
    proof
      show "m = Suc (min (unat len - Suc i) (?L - (unat offset + Suc i)))"
        using Suc.prems(5) i lt by arith
    qed simp
    have "read_loop fs ino offset len i bi bx off buf cnt =
      read_loop fs ino offset len (Suc i) bi' (data_block_idx ino bi') (Suc off') ?buf (Suc cnt)"
      by (rule read_loop_step [OF i nle il Suc.prems(4) bi' bi'_def off'_def byte])
    also have "\<dots> = Some (int (Suc cnt + m'), take (Suc i) ?buf
        @ map (file_byte fs ino) [unat offset + Suc i..<unat offset + Suc i + m']
        @ drop (Suc i + m') ?buf)"
      using n lt pos off' il m' Suc.prems(6)
      by (intro Suc.hyps(1)) simp_all
    also have "\<dots> = Some (int (cnt + m), take i buf
        @ map (file_byte fs ino) [?p..<?p + m] @ drop (i + m) buf)"
      using il by (simp add: m'(1) take_Suc_update drop_update_cancel upt_conv_Cons del: upt_Suc)
    finally show ?thesis .
  qed
qed

lemma read_data_eq:
  assumes i: "unat inode < unat (Num_Inodes fs)"
    and ok: "inode_ok fs (inode_ptr fs (unat inode))"
    and off: "unat offset \<le> unat (inode_length (inode_ptr fs (unat inode)))"
      "unat offset < MAX_NUM_DATA_BLK * BLK_SIZE"
    and n: "n = min (unat len) (length (file_contents fs (unat inode)) - unat offset)"
    and buf: "n \<le> length buf"
  shows "read_data fs inode offset (Some buf) len =
    Some (int n, Some (take n (drop (unat offset) (file_contents fs (unat inode))) @ drop n buf))"
proof -
  let ?ino = "inode_ptr fs (unat inode)"
  have blk: "unat offset div BLK_SIZE < MAX_NUM_DATA_BLK"
    using off(2) by (simp add: less_mult_imp_div_less)
  have nl: "\<not> inode > Num_Inodes fs" "\<not> offset > inode_length ?ino"
    using i off(1) by (simp_all add: word_le_nat_alt not_less)
  have "read_loop fs ?ino offset len 0 (unat offset div BLK_SIZE)
      (data_block_idx ?ino (unat offset div BLK_SIZE)) (unat offset mod BLK_SIZE) buf 0 =
    Some (int (0 + n), take 0 buf @ map (file_byte fs ?ino) [unat offset + 0..<unat offset + 0 + n]
      @ drop (0 + n) buf)"
    by (rule read_loop_eq [OF ok]) (use off n buf in \<open>simp_all add: file_contents_def\<close>)
  then show ?thesis
    using i nl blk n off(1)
    by (simp add: read_data_def buf_simps take_drop_file_bytes file_contents_def)
qed

end
