(* ===== verification/Filesys_Alloc.thy ===== *)
theory Filesys_Alloc
  imports Filesys_Read
begin

text \<open>
  The free lists of \<open>filesys.c\<close>: both allocators are stacks with the same contract (the locale
  \<open>free_stack\<close>, interpreted for the data blocks and for the inodes), and \<open>free_list_init\<close> fills
  them with exactly the unused blocks and inodes.
\<close>

section \<open>The contract of an allocator\<close>

text \<open>Calling an allocator \<open>n\<close> times, with the indices it returned in order.\<close>

fun alloc_times :: "('s \<Rightarrow> (int \<times> 's) option) \<Rightarrow> nat \<Rightarrow> 's \<Rightarrow> (int list \<times> 's) option" where
  "alloc_times alloc 0 s = Some ([], s)"
| "alloc_times alloc (Suc n) s = do {
     (i, s) \<leftarrow> alloc s;
     (is, s) \<leftarrow> alloc_times alloc n s;
     Some (i # is, s)
   }"

locale free_stack =
  fixes alloc :: "'s \<Rightarrow> (int \<times> 's) option"
    and free :: "'s \<Rightarrow> u32 list"
    and invar :: "'s \<Rightarrow> bool"
  assumes alloc_top: "invar s \<Longrightarrow> free s = xs @ [x] \<Longrightarrow>
      \<exists>s'. alloc s = Some (int (unat x), s') \<and> free s' = xs \<and> invar s'"
    and alloc_none: "invar s \<Longrightarrow> free s = [] \<Longrightarrow>
      \<exists>s'. alloc s = Some (-1, s') \<and> free s' = [] \<and> invar s'"
begin

lemma alloc_total: "invar s \<Longrightarrow> \<exists>i s'. alloc s = Some (i, s') \<and> invar s'"
  using alloc_top alloc_none by (cases "free s" rule: rev_cases) blast+

lemma alloc_times_stack:
  "invar s \<Longrightarrow> free s = xs @ rev bs \<Longrightarrow>
   \<exists>s'. alloc_times alloc (length bs) s = Some (map (\<lambda>b. int (unat b)) bs, s')
        \<and> free s' = xs \<and> invar s'"
proof (induction bs arbitrary: s xs)
  case (Cons b bs)
  then obtain s1 where s1: "alloc s = Some (int (unat b), s1)" "free s1 = xs @ rev bs" "invar s1"
    using alloc_top [of s "xs @ rev bs" b] by auto
  from Cons.IH [OF s1(3,2)] s1(1) show ?case by force
qed auto

lemma alloc_times_distinct:
  assumes "invar s" "distinct (free s)" "n \<le> length (free s)"
  shows "\<exists>is s'. alloc_times alloc n s = Some (is, s') \<and> distinct is \<and> length is = n
    \<and> set is \<subseteq> (\<lambda>b. int (unat b)) ` set (free s)
    \<and> set is \<inter> (\<lambda>b. int (unat b)) ` set (free s') = {}"
proof -
  define k where "k = length (free s) - n"
  let ?bs = "rev (drop k (free s))"
  have "free s = take k (free s) @ rev ?bs" and n: "length ?bs = n"
    using assms(3) by (simp_all add: k_def)
  from alloc_times_stack [OF assms(1) this(1)] n obtain s' where
    s': "alloc_times alloc n s = Some (map (\<lambda>b. int (unat b)) ?bs, s')" "free s' = take k (free s)"
    by auto
  have inj: "inj_on uint (A :: u32 set)" for A
    by (auto intro!: inj_onI simp: word_uint_eq_iff)
  moreover have "set (take k (free s)) \<inter> set (drop k (free s)) = {}"
    using assms(2) by (rule set_take_disj_set_drop_if_distinct) simp
  ultimately show ?thesis
    using s' n assms(2) inj_onD [OF inj [of UNIV]]
    by (auto simp: distinct_map dest: in_set_dropD)
qed

lemma alloc_exhausted:
  "invar s \<Longrightarrow> free s = [] \<Longrightarrow>
   \<exists>s'. alloc_times alloc n s = Some (replicate n (-1), s') \<and> free s' = []"
proof (induction n arbitrary: s)
  case (Suc n)
  from alloc_none [OF Suc.prems] obtain s1 where
    "alloc s = Some (-1, s1)" "free s1 = []" "invar s1" by auto
  with Suc.IH [of s1] show ?case by auto
qed simp

end

section \<open>Both allocators meet it\<close>

definition free_blocks :: "fs \<Rightarrow> u32 list" where
  "free_blocks fs = map (Free_list fs) [0..<nat (Free_list_len fs)]"

definition free_inodes :: "fs \<Rightarrow> u32 list" where
  "free_inodes fs = map (Free_inode_list fs) [0..<nat (Free_inode_list_len fs)]"

definition block_stack_ok :: "fs \<Rightarrow> bool" where
  "block_stack_ok fs \<longleftrightarrow> nat (Free_list_len fs) \<le> FREE_LIST_SIZE \<and>
     (\<forall>b \<in> set (free_blocks fs). unat b < 2 ^ 31)"

definition inode_stack_ok :: "fs \<Rightarrow> bool" where
  "inode_stack_ok fs \<longleftrightarrow> nat (Free_inode_list_len fs) \<le> MAX_NUM_DENTRY \<and>
     (\<forall>b \<in> set (free_inodes fs). unat b < 2 ^ 31)"

lemma map_upt_snocD:
  "map f [0..<nat k] = xs @ [x] \<Longrightarrow>
   0 \<le> k - 1 \<and> x = f (nat (k - 1)) \<and> xs = map f [0..<nat (k - 1)]"
proof -
  assume a: "map f [0..<nat k] = xs @ [x]"
  then have l: "nat k = Suc (length xs)"
    by (metis diff_zero length_append_singleton length_map length_upt)
  with a have "map f [0..<length xs] @ [f (length xs)] = xs @ [x]" by simp
  moreover from l have "0 \<le> k - 1" and "nat (k - 1) = length xs" by simp_all
  ultimately show ?thesis by simp
qed

lemma get_free_datablk_top:
  assumes "block_stack_ok fs" and "free_blocks fs = xs @ [x]"
  shows "get_free_datablk_index fs = Some (int (unat x), fs\<lparr>Free_list_len := Free_list_len fs - 1\<rparr>)"
    and "free_blocks (fs\<lparr>Free_list_len := Free_list_len fs - 1\<rparr>) = xs"
    and "block_stack_ok (fs\<lparr>Free_list_len := Free_list_len fs - 1\<rparr>)"
proof -
  note k = map_upt_snocD [OF assms(2) [unfolded free_blocks_def]]
  have "unat x < 2 ^ 31" using assms by (auto simp: block_stack_ok_def)
  then have x: "sint x = int (unat x)" by (rule sint_unat_small)
  show "get_free_datablk_index fs = Some (int (unat x), fs\<lparr>Free_list_len := Free_list_len fs - 1\<rparr>)"
    using k assms(1) x
    by (auto simp: get_free_datablk_index_def block_stack_ok_def arr_get_def)
  show xs: "free_blocks (fs\<lparr>Free_list_len := Free_list_len fs - 1\<rparr>) = xs"
    using k by (simp add: free_blocks_def)
  show "block_stack_ok (fs\<lparr>Free_list_len := Free_list_len fs - 1\<rparr>)"
    using assms xs by (auto simp: block_stack_ok_def)
qed

lemma get_free_datablk_none:
  assumes "free_blocks fs = []"
  shows "get_free_datablk_index fs = Some (-1, fs\<lparr>Free_list_len := Free_list_len fs - 1\<rparr>)"
    and "free_blocks (fs\<lparr>Free_list_len := Free_list_len fs - 1\<rparr>) = []"
  using assms by (auto simp: get_free_datablk_index_def free_blocks_def)

interpretation blocks: free_stack get_free_datablk_index free_blocks block_stack_ok
proof unfold_locales
  fix s xs x assume "block_stack_ok s" "free_blocks s = xs @ [x]"
  then show "\<exists>s'. get_free_datablk_index s = Some (int (unat x), s') \<and> free_blocks s' = xs
      \<and> block_stack_ok s'"
    using get_free_datablk_top by blast
next
  fix s assume "block_stack_ok s" "free_blocks s = []"
  then show "\<exists>s'. get_free_datablk_index s = Some (-1, s') \<and> free_blocks s' = []
      \<and> block_stack_ok s'"
    using get_free_datablk_none [of s] by (auto simp: block_stack_ok_def)
qed

lemma get_free_inode_top:
  assumes "inode_stack_ok fs" and "free_inodes fs = xs @ [x]"
  shows "get_free_inode_index fs =
      Some (int (unat x), fs\<lparr>Free_inode_list_len := Free_inode_list_len fs - 1\<rparr>)"
    and "free_inodes (fs\<lparr>Free_inode_list_len := Free_inode_list_len fs - 1\<rparr>) = xs"
    and "inode_stack_ok (fs\<lparr>Free_inode_list_len := Free_inode_list_len fs - 1\<rparr>)"
proof -
  note k = map_upt_snocD [OF assms(2) [unfolded free_inodes_def]]
  have "unat x < 2 ^ 31" using assms by (auto simp: inode_stack_ok_def)
  then have x: "sint x = int (unat x)" by (rule sint_unat_small)
  show "get_free_inode_index fs =
      Some (int (unat x), fs\<lparr>Free_inode_list_len := Free_inode_list_len fs - 1\<rparr>)"
    using k assms(1) x
    by (auto simp: get_free_inode_index_def inode_stack_ok_def arr_get_def)
  show xs: "free_inodes (fs\<lparr>Free_inode_list_len := Free_inode_list_len fs - 1\<rparr>) = xs"
    using k by (simp add: free_inodes_def)
  show "inode_stack_ok (fs\<lparr>Free_inode_list_len := Free_inode_list_len fs - 1\<rparr>)"
    using assms xs by (auto simp: inode_stack_ok_def)
qed

lemma get_free_inode_none:
  assumes "free_inodes fs = []"
  shows "get_free_inode_index fs = Some (-1, fs\<lparr>Free_inode_list_len := Free_inode_list_len fs - 1\<rparr>)"
    and "free_inodes (fs\<lparr>Free_inode_list_len := Free_inode_list_len fs - 1\<rparr>) = []"
  using assms by (auto simp: get_free_inode_index_def free_inodes_def)

interpretation inodes: free_stack get_free_inode_index free_inodes inode_stack_ok
proof unfold_locales
  fix s xs x assume "inode_stack_ok s" "free_inodes s = xs @ [x]"
  then show "\<exists>s'. get_free_inode_index s = Some (int (unat x), s') \<and> free_inodes s' = xs
      \<and> inode_stack_ok s'"
    using get_free_inode_top by blast
next
  fix s assume "inode_stack_ok s" "free_inodes s = []"
  then show "\<exists>s'. get_free_inode_index s = Some (-1, s') \<and> free_inodes s' = []
      \<and> inode_stack_ok s'"
    using get_free_inode_none [of s] by (auto simp: inode_stack_ok_def)
qed

section \<open>free\_list\_init\<close>

text \<open>The blocks of the first \<open>n\<close> inodes, in the order the scan visits them.\<close>

definition inode_block_list :: "inode_t \<Rightarrow> u32 list" where
  "inode_block_list ino = map (data_block_idx ino) [0..<inode_blocks ino]"

definition used_blocks :: "fs \<Rightarrow> nat \<Rightarrow> nat \<Rightarrow> u32 list" where
  "used_blocks fs i n = concat (map (\<lambda>k. inode_block_list (inode_ptr fs k)) [i..<n])"

definition empty_inodes :: "fs \<Rightarrow> nat \<Rightarrow> nat \<Rightarrow> nat list" where
  "empty_inodes fs i n = filter (\<lambda>k. inode_length (inode_ptr fs k) = 0) [i..<n]"

definition unused_blocks :: "u32 list \<Rightarrow> nat \<Rightarrow> nat \<Rightarrow> nat list" where
  "unused_blocks busy i n = filter (\<lambda>k. of_nat k \<notin> set busy) [i..<n]"

lemma busy_search_iff [simp]: "busy_search busy i \<longleftrightarrow> i \<in> set busy"
  by (induction busy) auto

lemma busy_blocks_stop: "n \<le> j \<Longrightarrow> busy_blocks ino mx n j busy = Some busy"
  by (subst busy_blocks.simps) simp

lemma busy_blocks_eq:
  "n \<le> MAX_NUM_DATA_BLK \<Longrightarrow> j \<le> n \<Longrightarrow> length busy + (n - j) \<le> mx \<Longrightarrow>
   busy_blocks ino mx n j busy = Some (busy @ map (data_block_idx ino) [j..<n])"
proof (induction "n - j" arbitrary: j busy)
  case 0
  then show ?case by (simp add: busy_blocks_stop)
next
  case (Suc m)
  then have "j < n" "length busy < mx" by arith+
  with Suc.prems(1) have "busy_blocks ino mx n j busy =
      busy_blocks ino mx n (Suc j) (busy @ [data_block_idx ino j])"
    by (subst busy_blocks.simps) (simp add: buf_simps)
  with Suc.hyps(1) [of "Suc j" "busy @ [data_block_idx ino j]"] Suc.hyps(2) Suc.prems
  show ?case by (simp add: upt_conv_Cons)
qed

lemma map_fun_upd_append:
  "map (f(x := v)) [0..<Suc x] = map f [0..<x] @ [v]"
  by simp

lemma scan_inodes_stop:
  "unat (Num_Inodes fs) \<le> i \<Longrightarrow> scan_inodes fs mx i busy fil x = Some (busy, fil, x)"
  by (subst scan_inodes.simps) simp

lemma scan_inodes_eq:
  assumes len: "\<forall>i < unat (Num_Inodes fs).
      unat (inode_length (inode_ptr fs i)) \<le> MAX_NUM_DATA_BLK * BLK_SIZE"
    and n: "n = unat (Num_Inodes fs)"
  shows "i \<le> n \<Longrightarrow> length busy + length (used_blocks fs i n) \<le> mx \<Longrightarrow>
    x + length (empty_inodes fs i n) \<le> MAX_NUM_DENTRY \<Longrightarrow>
    \<exists>fil'. scan_inodes fs mx i busy fil x =
        Some (busy @ used_blocks fs i n, fil', x + length (empty_inodes fs i n)) \<and>
      map fil' [0..<x + length (empty_inodes fs i n)] =
        map fil [0..<x] @ map of_nat (empty_inodes fs i n)"
proof (induction "n - i" arbitrary: i busy fil x)
  case 0
  then show ?case
    by (auto simp: scan_inodes_stop n used_blocks_def empty_inodes_def)
next
  case (Suc m)
  let ?ino = "inode_ptr fs i"
  have i: "i < n" "m = n - Suc i" using Suc.hyps(2) by arith+
  then have up: "[i..<n] = i # [Suc i..<n]" by (simp add: upt_conv_Cons)
  show ?case
  proof (cases "inode_length ?ino = 0")
    case True
    then have u: "used_blocks fs i n = used_blocks fs (Suc i) n"
      and e: "empty_inodes fs i n = i # empty_inodes fs (Suc i) n"
      by (simp_all add: used_blocks_def empty_inodes_def up inode_block_list_def inode_blocks_def)
    have "scan_inodes fs mx i busy fil x =
        scan_inodes fs mx (Suc i) busy (fil(x := of_nat i)) (Suc x)"
      using True i(1) n Suc.prems(3) e by (subst scan_inodes.simps) (simp add: buf_simps)
    with Suc.hyps(1) [of "Suc i" busy "Suc x" "fil(x := of_nat i)"] i Suc.prems
    show ?thesis by (simp add: u e map_fun_upd_append del: upt_Suc)
  next
    case False
    then have u: "used_blocks fs i n = inode_block_list ?ino @ used_blocks fs (Suc i) n"
      and e: "empty_inodes fs i n = empty_inodes fs (Suc i) n"
      by (simp_all add: used_blocks_def empty_inodes_def up)
    have "inode_blocks ?ino \<le> MAX_NUM_DATA_BLK"
      using len i(1) n ceil_div_bounds [of BLK_SIZE "unat (inode_length ?ino)"]
      by (fastforce simp: inode_blocks_def)
    moreover have "length busy + inode_blocks ?ino \<le> mx"
      using Suc.prems(2) u by (simp add: inode_block_list_def)
    ultimately have "busy_blocks ?ino mx (inode_blocks ?ino) 0 busy = Some (busy @ inode_block_list ?ino)"
      by (simp add: busy_blocks_eq inode_block_list_def)
    then have "scan_inodes fs mx i busy fil x =
        scan_inodes fs mx (Suc i) (busy @ inode_block_list ?ino) fil x"
      using False i(1) n by (subst scan_inodes.simps) (simp add: inode_blocks_def)
    with Suc.hyps(1) [of "Suc i" "busy @ inode_block_list ?ino" x fil] i Suc.prems
    show ?thesis by (simp add: u e)
  qed
qed

lemma collect_free_stop: "n \<le> i \<Longrightarrow> collect_free n busy i fl k = Some (fl, k)"
  by (subst collect_free.simps) simp

lemma collect_free_eq:
  "i \<le> n \<Longrightarrow> k + length (unused_blocks busy i n) \<le> FREE_LIST_SIZE \<Longrightarrow>
   \<exists>fl'. collect_free n busy i fl k = Some (fl', k + length (unused_blocks busy i n)) \<and>
     map fl' [0..<k + length (unused_blocks busy i n)] =
       map fl [0..<k] @ map of_nat (unused_blocks busy i n)"
proof (induction "n - i" arbitrary: i fl k)
  case 0
  then show ?case by (simp add: collect_free_stop unused_blocks_def)
next
  case (Suc m)
  have i: "i < n" "m = n - Suc i" using Suc.hyps(2) by arith+
  then have up: "[i..<n] = i # [Suc i..<n]" by (simp add: upt_conv_Cons)
  show ?case
  proof (cases "of_nat i \<in> set busy")
    case True
    then have u: "unused_blocks busy i n = unused_blocks busy (Suc i) n"
      by (simp add: unused_blocks_def up)
    have "collect_free n busy i fl k = collect_free n busy (Suc i) fl k"
      using True i by (subst collect_free.simps) simp
    with Suc.hyps(1) [of "Suc i" k fl] i Suc.prems show ?thesis by (simp add: u)
  next
    case False
    then have u: "unused_blocks busy i n = i # unused_blocks busy (Suc i) n"
      by (simp add: unused_blocks_def up)
    have "collect_free n busy i fl k =
        collect_free n busy (Suc i) (fl(k := of_nat i)) (Suc k)"
      using False i Suc.prems(2) u by (subst collect_free.simps) (simp add: buf_simps)
    with Suc.hyps(1) [of "Suc i" "Suc k" "fl(k := of_nat i)"] i Suc.prems
    show ?thesis by (simp add: u map_fun_upd_append del: upt_Suc)
  qed
qed

text \<open>The images \<open>free_list_init\<close> can scan without leaving one of its arrays.\<close>

definition image_fits :: "fs \<Rightarrow> bool" where
  "image_fits fs \<longleftrightarrow>
     (\<forall>i < unat (Num_Inodes fs).
        unat (inode_length (inode_ptr fs i)) \<le> MAX_NUM_DATA_BLK * BLK_SIZE) \<and>
     length (used_blocks fs 0 (unat (Num_Inodes fs))) \<le> MAX_NUM_DATA_BLK * unat (Num_Dentry fs) \<and>
     length (empty_inodes fs 0 (unat (Num_Inodes fs))) \<le> MAX_NUM_DENTRY \<and>
     length (unused_blocks (used_blocks fs 0 (unat (Num_Inodes fs))) 0 (unat (Num_Data_Blocks fs)))
       \<le> FREE_LIST_SIZE"

lemma free_list_init_eq:
  assumes "image_fits fs"
  shows "\<exists>fl fil. free_list_init fs =
      Some (fs\<lparr>Free_list := fl, Free_inode_list := fil,
        Free_list_len := int (length (unused_blocks (used_blocks fs 0 (unat (Num_Inodes fs))) 0
          (unat (Num_Data_Blocks fs)))),
        Free_inode_list_len := int (length (empty_inodes fs 0 (unat (Num_Inodes fs))))\<rparr>)
    \<and> map fl [0..<length (unused_blocks (used_blocks fs 0 (unat (Num_Inodes fs))) 0
          (unat (Num_Data_Blocks fs)))]
      = map of_nat (unused_blocks (used_blocks fs 0 (unat (Num_Inodes fs))) 0 (unat (Num_Data_Blocks fs)))
    \<and> map fil [0..<length (empty_inodes fs 0 (unat (Num_Inodes fs)))]
      = map of_nat (empty_inodes fs 0 (unat (Num_Inodes fs)))"
proof -
  let ?n = "unat (Num_Inodes fs)"
  let ?u = "used_blocks fs 0 ?n"
  from assms have h: "\<forall>i < ?n. unat (inode_length (inode_ptr fs i)) \<le> MAX_NUM_DATA_BLK * BLK_SIZE"
    "length ?u \<le> MAX_NUM_DATA_BLK * unat (Num_Dentry fs)"
    "length (empty_inodes fs 0 ?n) \<le> MAX_NUM_DENTRY"
    "length (unused_blocks ?u 0 (unat (Num_Data_Blocks fs))) \<le> FREE_LIST_SIZE"
    by (simp_all add: image_fits_def)
  from scan_inodes_eq [OF h(1) refl, of 0 "[]" "MAX_NUM_DATA_BLK * unat (Num_Dentry fs)" 0
      "Free_inode_list fs"] h
  obtain fil where fil: "scan_inodes fs (MAX_NUM_DATA_BLK * unat (Num_Dentry fs)) 0 []
      (Free_inode_list fs) 0 = Some (?u, fil, length (empty_inodes fs 0 ?n))"
    "map fil [0..<length (empty_inodes fs 0 ?n)] = map of_nat (empty_inodes fs 0 ?n)"
    by auto
  from collect_free_eq [of 0 "unat (Num_Data_Blocks fs)" 0 ?u "Free_list fs"] h(4)
  obtain fl where fl: "collect_free (unat (Num_Data_Blocks fs)) ?u 0 (Free_list fs) 0 =
      Some (fl, length (unused_blocks ?u 0 (unat (Num_Data_Blocks fs))))"
    "map fl [0..<length (unused_blocks ?u 0 (unat (Num_Data_Blocks fs)))] =
      map of_nat (unused_blocks ?u 0 (unat (Num_Data_Blocks fs)))"
    by auto
  show ?thesis using fil fl by (auto simp: free_list_init_def)
qed

lemma unused_blocks_words:
  assumes "n < 2 ^ 32"
  shows "distinct (map (of_nat :: nat \<Rightarrow> u32) (unused_blocks busy 0 n))"
    and "set (map (of_nat :: nat \<Rightarrow> u32) (unused_blocks busy 0 n)) = {b. unat b < n \<and> b \<notin> set busy}"
proof -
  have inj: "inj_on (of_nat :: nat \<Rightarrow> u32) {0..<n}"
    using assms by (intro inj_onI) (metis atLeastLessThan_iff less_trans unat_of_nat_u32)
  show "distinct (map (of_nat :: nat \<Rightarrow> u32) (unused_blocks busy 0 n))"
    by (auto simp: distinct_map unused_blocks_def intro!: inj_on_subset [OF inj])
  show "set (map (of_nat :: nat \<Rightarrow> u32) (unused_blocks busy 0 n)) = {b. unat b < n \<and> b \<notin> set busy}"
  proof (intro set_eqI iffI)
    fix b :: u32 assume "b \<in> set (map of_nat (unused_blocks busy 0 n))"
    then obtain k where "b = of_nat k" "k < n" "of_nat k \<notin> set busy"
      by (auto simp: unused_blocks_def)
    moreover have "unat (of_nat k :: u32) = k" using \<open>k < n\<close> assms by (simp add: unat_of_nat_u32)
    ultimately show "b \<in> {b. unat b < n \<and> b \<notin> set busy}" by simp
  next
    fix b :: u32 assume "b \<in> {b. unat b < n \<and> b \<notin> set busy}"
    then show "b \<in> set (map of_nat (unused_blocks busy 0 n))"
      by (auto simp: unused_blocks_def image_iff intro!: bexI [of _ "unat b"])
  qed
qed

end
