(* ===== verification/Filesys_Write.thy ===== *)
theory Filesys_Write
  imports Filesys_Alloc
begin

text \<open>
  \<open>write_data\<close>: the ownership invariant of the data blocks (\<open>fs_inv\<close>: a block belongs to one file
  or to the free list, never to two), what a write stores, what it leaves alone, and what happens
  when the free list runs out.
\<close>

section \<open>Every data block has one owner\<close>

definition block_owners :: "fs \<Rightarrow> u32 list" where
  "block_owners fs = used_blocks fs 0 (unat (Num_Inodes fs)) @ free_blocks fs"

definition fs_inv :: "fs \<Rightarrow> bool" where
  "fs_inv fs \<longleftrightarrow>
     unat (Num_Data_Blocks fs) < 2 ^ 31 \<and>
     nat (Free_list_len fs) \<le> FREE_LIST_SIZE \<and>
     (\<forall>i < unat (Num_Inodes fs).
        unat (inode_length (inode_ptr fs i)) \<le> MAX_NUM_DATA_BLK * BLK_SIZE) \<and>
     distinct (block_owners fs) \<and>
     (\<forall>b \<in> set (block_owners fs). unat b < unat (Num_Data_Blocks fs))"

lemma used_blocks_mem:
  "b \<in> set (used_blocks fs i n) \<longleftrightarrow>
     (\<exists>k j. i \<le> k \<and> k < n \<and> j < inode_blocks (inode_ptr fs k) \<and> b = data_block_idx (inode_ptr fs k) j)"
  by (fastforce simp: used_blocks_def inode_block_list_def)

lemma used_blocks_split:
  assumes "k < n"
  shows "used_blocks fs 0 n =
    used_blocks fs 0 k @ inode_block_list (inode_ptr fs k) @ used_blocks fs (Suc k) n"
  using upt_split_at [OF assms] by (simp add: used_blocks_def)

lemma used_blocks_cong:
  "(\<And>k. i \<le> k \<Longrightarrow> k < n \<Longrightarrow> inode_ptr fs' k = inode_ptr fs k) \<Longrightarrow>
   used_blocks fs' i n = used_blocks fs i n"
  unfolding used_blocks_def by (intro arg_cong [where f = concat] map_cong) auto

lemma fs_inv_inode_ok:
  assumes "fs_inv fs" "i < unat (Num_Inodes fs)"
  shows "inode_ok fs (inode_ptr fs i)"
proof -
  have "data_block_idx (inode_ptr fs i) j \<in> set (block_owners fs)"
    if "j < inode_blocks (inode_ptr fs i)" for j
  proof -
    have "data_block_idx (inode_ptr fs i) j \<in> set (used_blocks fs 0 (unat (Num_Inodes fs)))"
      unfolding used_blocks_mem using that assms(2) by blast
    then show ?thesis by (simp add: block_owners_def)
  qed
  with assms show ?thesis by (simp add: fs_inv_def inode_ok_def)
qed

lemma fs_inv_stack_ok: "fs_inv fs \<Longrightarrow> block_stack_ok fs"
  unfolding fs_inv_def block_stack_ok_def block_owners_def
  by (metis UnCI less_trans set_append)

lemma free_list_init_inv:
  assumes fits: "image_fits fs" and n: "unat (Num_Data_Blocks fs) < 2 ^ 31"
    and d: "distinct (used_blocks fs 0 (unat (Num_Inodes fs)))"
    and r: "\<forall>b \<in> set (used_blocks fs 0 (unat (Num_Inodes fs))). unat b < unat (Num_Data_Blocks fs)"
  shows "\<exists>fs'. free_list_init fs = Some fs' \<and> fs_inv fs' \<and>
    set (free_blocks fs') = {b. unat b < unat (Num_Data_Blocks fs)} -
       set (used_blocks fs 0 (unat (Num_Inodes fs))) \<and>
    free_inodes fs' = map of_nat (empty_inodes fs 0 (unat (Num_Inodes fs)))"
proof -
  let ?u = "used_blocks fs 0 (unat (Num_Inodes fs))"
  let ?k = "unused_blocks ?u 0 (unat (Num_Data_Blocks fs))"
  let ?x = "empty_inodes fs 0 (unat (Num_Inodes fs))"
  from free_list_init_eq [OF fits] obtain fl fil where
    fl: "free_list_init fs = Some (fs\<lparr>Free_list := fl, Free_inode_list := fil,
        Free_list_len := int (length ?k), Free_inode_list_len := int (length ?x)\<rparr>)"
      (is "_ = Some ?fs'")
    and m: "map fl [0..<length ?k] = map of_nat ?k" "map fil [0..<length ?x] = map of_nat ?x"
    by auto
  have fb: "free_blocks ?fs' = map of_nat ?k" and fi: "free_inodes ?fs' = map of_nat ?x"
    using m by (simp_all add: free_blocks_def free_inodes_def)
  have u: "used_blocks ?fs' 0 (unat (Num_Inodes fs)) = ?u" by (rule used_blocks_cong) simp
  have small: "unat (Num_Data_Blocks fs) < 2 ^ 32" using n by simp
  note w = unused_blocks_words [OF small, of ?u]
  have "distinct (block_owners ?fs')"
    unfolding block_owners_def fb using d w by (auto simp add: u)
  moreover have "\<forall>b \<in> set (block_owners ?fs'). unat b < unat (Num_Data_Blocks fs)"
    unfolding block_owners_def fb using r w(2) by (auto simp add: u)
  ultimately have "fs_inv ?fs'"
    using fits n by (auto simp: fs_inv_def image_fits_def)
  then show ?thesis
    using fl fb fi w(2) by (intro exI [of _ ?fs']) auto
qed

text \<open>
  Giving inode \<open>k\<close> new blocks, each one it had or taken from the top of the free list.
\<close>

lemma fs_inv_replace:
  assumes inv: "fs_inv fs" and k: "k < unat (Num_Inodes fs)"
    and same: "Num_Inodes fs' = Num_Inodes fs" "Num_Data_Blocks fs' = Num_Data_Blocks fs"
    and ino: "inode_ptr fs' = (inode_ptr fs)(k := ino')"
    and free: "free_blocks fs = free_blocks fs' @ rev bs"
      "nat (Free_list_len fs') \<le> FREE_LIST_SIZE"
    and new: "distinct (inode_block_list ino')"
      "set (inode_block_list ino') \<subseteq> set (inode_block_list (inode_ptr fs k)) \<union> set bs"
      "unat (inode_length ino') \<le> MAX_NUM_DATA_BLK * BLK_SIZE"
  shows "fs_inv fs'"
proof -
  let ?n = "unat (Num_Inodes fs)"
  let ?A = "used_blocks fs 0 k" and ?C = "used_blocks fs (Suc k) ?n"
  let ?O = "inode_block_list (inode_ptr fs k)"
  have old: "block_owners fs = ?A @ ?O @ ?C @ free_blocks fs' @ rev bs"
    using used_blocks_split [OF k, of fs] free(1) by (simp add: block_owners_def)
  have "used_blocks fs' 0 ?n = ?A @ inode_block_list ino' @ ?C"
    using used_blocks_split [OF k, of fs'] used_blocks_cong [of 0 k fs' fs]
      used_blocks_cong [of "Suc k" ?n fs' fs] by (simp add: ino)
  then have owners: "block_owners fs' = ?A @ inode_block_list ino' @ ?C @ free_blocks fs'"
    using same by (simp add: block_owners_def)
  have "distinct (block_owners fs)" using inv by (simp add: fs_inv_def)
  then have "distinct (block_owners fs')"
    unfolding old owners using new(1,2) by auto
  moreover have "\<forall>b \<in> set (block_owners fs'). unat b < unat (Num_Data_Blocks fs)"
    using inv new(2) unfolding fs_inv_def old owners by auto
  ultimately show ?thesis
    using inv new(3) free(2) by (auto simp: fs_inv_def same ino)
qed

section \<open>The loops of write\_data\<close>

lemma fill_block_end:
  "BLK_SIZE \<le> j \<Longrightarrow> fill_block blk buf len j cnt = Some (blk, cnt, False)"
  by (subst fill_block.simps) simp

lemma fill_block_done:
  "j < BLK_SIZE \<Longrightarrow> cnt = unat len \<Longrightarrow> fill_block blk buf len j cnt = Some (blk, cnt, True)"
  by (subst fill_block.simps) simp

lemma fill_block_eq:
  assumes "unat len \<le> length buf"
  shows "j \<le> BLK_SIZE \<Longrightarrow> cnt \<le> unat len \<Longrightarrow> m = min (BLK_SIZE - j) (unat len - cnt) \<Longrightarrow>
    fill_block blk buf len j cnt =
      Some (\<lambda>k. if j \<le> k \<and> k < j + m then buf ! (cnt + (k - j)) else blk k, cnt + m,
            j + m < BLK_SIZE)"
proof (induction "BLK_SIZE - j" arbitrary: j cnt blk m)
  case 0
  then have "m = 0" and "BLK_SIZE \<le> j" "j = BLK_SIZE" by arith+
  then show ?case by (auto simp: fill_block_end fun_eq_iff)
next
  case (Suc n)
  then have j: "j < BLK_SIZE" and n: "n = BLK_SIZE - Suc j" by arith+
  show ?case
  proof (cases "cnt = unat len")
    case True
    with j Suc.prems show ?thesis by (auto simp: fill_block_done fun_eq_iff)
  next
    case False
    with Suc.prems have lt: "cnt < unat len" by simp
    obtain m' where m: "m = Suc m'" and m': "m' = min (BLK_SIZE - Suc j) (unat len - Suc cnt)"
    proof
      show "m = Suc (min (BLK_SIZE - Suc j) (unat len - Suc cnt))"
        using Suc.prems(3) j lt by arith
    qed simp
    have "fill_block blk buf len j cnt = fill_block (blk(j := buf ! cnt)) buf len (Suc j) (Suc cnt)"
      using j False lt assms by (subst fill_block.simps) (simp add: buf_simps)
    also have "\<dots> = Some (\<lambda>k. if Suc j \<le> k \<and> k < Suc j + m' then buf ! (Suc cnt + (k - Suc j))
        else (blk(j := buf ! cnt)) k, Suc cnt + m', Suc j + m' < BLK_SIZE)"
      using j lt n m' by (intro Suc.hyps(1)) simp_all
    also have "\<dots> = Some (\<lambda>k. if j \<le> k \<and> k < j + m then buf ! (cnt + (k - j)) else blk k, cnt + m,
        j + m < BLK_SIZE)"
    proof -
      have "(if Suc j \<le> k \<and> k < Suc j + m' then buf ! (Suc cnt + (k - Suc j))
          else (blk(j := buf ! cnt)) k) =
        (if j \<le> k \<and> k < j + m then buf ! (cnt + (k - j)) else blk k)" for k
        by (cases "k = j") (auto simp: m Suc_diff_Suc)
      then show ?thesis by (simp add: m del: fun_upd_apply)
    qed
    finally show ?thesis .
  qed
qed

lemma write_loop_stop:
  "n \<le> i \<Longrightarrow> write_loop fs ino buf len st off n i cnt = Some (int cnt, fs)"
  by (subst write_loop.simps) simp

definition stored_block ::
    "fs \<Rightarrow> nat \<Rightarrow> nat \<Rightarrow> u32 \<Rightarrow> data_blk_t \<Rightarrow> fs" where
  "stored_block fs ino i b blk =
     fs\<lparr>Free_list_len := Free_list_len fs - 1,
        inode_ptr := (inode_ptr fs)(ino := (inode_ptr fs ino)
           \<lparr>data_block_idx := (data_block_idx (inode_ptr fs ino))(i := b)\<rparr>),
        data_block_ptr := (data_block_ptr fs)(unat b := blk)\<rparr>"

lemma write_loop_step:
  assumes "i < n" "n \<le> MAX_NUM_DATA_BLK" "block_stack_ok fs" "free_blocks fs = xs @ [b]"
    and "unat b < unat (Num_Data_Blocks fs)"
    and "fill_block (data_block_ptr fs (unat b)) buf len (if i = st then off else 0) cnt =
      Some (blk, cnt', fin)"
  shows "write_loop fs ino buf len st off n i cnt =
    (if fin then Some (int cnt', stored_block fs ino i b blk)
     else write_loop (stored_block fs ino i b blk) ino buf len st off n (Suc i) cnt')"
  using assms get_free_datablk_top(1) [OF assms(3,4)]
  by (subst write_loop.simps)
    (simp add: set_data_block_idx_def buf_simps stored_block_def Let_def)

lemma write_loop_eq:
  assumes buf: "unat len \<le> length buf" and n: "n \<le> MAX_NUM_DATA_BLK"
    and full: "\<And>i. i < n \<Longrightarrow> BLK_SIZE * i < unat len"
  shows "st \<le> i \<Longrightarrow> length bs = n - i \<Longrightarrow> i \<le> n \<Longrightarrow> block_stack_ok fs \<Longrightarrow>
    free_blocks fs = rest @ rev bs \<Longrightarrow>
    \<forall>b \<in> set bs. unat b < unat (Num_Data_Blocks fs) \<Longrightarrow> distinct bs \<Longrightarrow>
    s = (if i = st then off else 0) \<Longrightarrow> s \<le> BLK_SIZE \<Longrightarrow>
    cnt \<le> unat len \<Longrightarrow> cnt \<le> BLK_SIZE * i + s \<Longrightarrow>
    \<exists>idx blks. write_loop fs ino buf len st off n i cnt =
        Some (int (if i = n then cnt else min (unat len) (cnt + (BLK_SIZE * (n - i) - s))),
          fs\<lparr>Free_list_len := Free_list_len fs - int (n - i),
             inode_ptr := (inode_ptr fs)(ino := (inode_ptr fs ino)\<lparr>data_block_idx := idx\<rparr>),
             data_block_ptr := blks\<rparr>) \<and>
      (\<forall>j. idx j = (if i \<le> j \<and> j < n then bs ! (j - i) else data_block_idx (inode_ptr fs ino) j)) \<and>
      (\<forall>b. b \<notin> unat ` set bs \<longrightarrow> blks b = data_block_ptr fs b) \<and>
      (\<forall>k < n - i. \<forall>j < BLK_SIZE. s \<le> BLK_SIZE * k + j \<longrightarrow> cnt + (BLK_SIZE * k + j - s) < unat len \<longrightarrow>
         blks (unat (bs ! k)) j = buf ! (cnt + (BLK_SIZE * k + j - s)))"
proof (induction bs arbitrary: i fs rest cnt s)
  case Nil
  then show ?case
    by (intro exI [of _ "data_block_idx (inode_ptr fs ino)"] exI [of _ "data_block_ptr fs"])
      (auto simp: write_loop_stop)
next
  case (Cons b bs)
  have i: "i < n" using Cons.prems(2) by simp
  have b: "unat b < unat (Num_Data_Blocks fs)" using Cons.prems(6) by simp
  have free: "free_blocks fs = (rest @ rev bs) @ [b]" using Cons.prems(5) by simp
  define m where "m = min (BLK_SIZE - s) (unat len - cnt)"
  define blk where "blk = (\<lambda>k. if s \<le> k \<and> k < s + m then buf ! (cnt + (k - s))
      else data_block_ptr fs (unat b) k)"
  let ?fs = "stored_block fs ino i b blk"
  have "fill_block (data_block_ptr fs (unat b)) buf len s cnt =
      Some (blk, cnt + m, s + m < BLK_SIZE)"
    unfolding blk_def by (rule fill_block_eq [OF buf Cons.prems(9,10) m_def])
  then have step: "write_loop fs ino buf len st off n i cnt =
      (if s + m < BLK_SIZE then Some (int (cnt + m), ?fs)
       else write_loop ?fs ino buf len st off n (Suc i) (cnt + m))"
    using write_loop_step [OF i n Cons.prems(4) free b] unfolding Cons.prems(8) by blast
  have cont: "Suc i < n \<Longrightarrow> m = BLK_SIZE - s"
    using full [of "Suc i"] Cons.prems(9,11) by (simp add: m_def)
  have ok: "block_stack_ok ?fs" and fb: "free_blocks ?fs = rest @ rev bs"
    using get_free_datablk_top(2,3) [OF Cons.prems(4) free]
    by (simp_all add: stored_block_def block_stack_ok_def free_blocks_def)
  have b_notin: "b \<notin> set bs" and dist: "distinct bs" using Cons.prems(7) by simp_all
  have ub: "unat b \<notin> unat ` set bs" using b_notin by (auto simp flip: word_unat_eq_iff)
  show ?case
  proof (cases "Suc i = n")
    case True
    have "Suc (length bs) = n - i" using Cons.prems(2) by simp
    with True have "length bs = 0" by arith
    then have nil: "bs = []" by simp
    have "write_loop fs ino buf len st off n i cnt = Some (int (cnt + m), ?fs)"
      using step True by (simp add: write_loop_stop)
    moreover have "cnt + m = min (unat len) (cnt + (BLK_SIZE * (n - i) - s))"
      using True Cons.prems(9,10) by (simp add: m_def)
    moreover have "Free_list_len fs - 1 = Free_list_len fs - int (n - i)" using True by simp
    ultimately have w: "write_loop fs ino buf len st off n i cnt =
        Some (int (if i = n then cnt else min (unat len) (cnt + (BLK_SIZE * (n - i) - s))),
          ?fs\<lparr>Free_list_len := Free_list_len fs - int (n - i)\<rparr>)"
      using i by (simp add: stored_block_def)
    have one: "n - i = 1" using True by arith
    show ?thesis
    proof (intro exI conjI allI impI)
      show "write_loop fs ino buf len st off n i cnt =
        Some (int (if i = n then cnt else min (unat len) (cnt + (BLK_SIZE * (n - i) - s))),
          fs\<lparr>Free_list_len := Free_list_len fs - int (n - i),
             inode_ptr := (inode_ptr fs)(ino := (inode_ptr fs ino)
               \<lparr>data_block_idx := (data_block_idx (inode_ptr fs ino))(i := b)\<rparr>),
             data_block_ptr := (data_block_ptr fs)(unat b := blk)\<rparr>)"
        using w by (simp add: stored_block_def)
    next
      fix j
      show "((data_block_idx (inode_ptr fs ino))(i := b)) j =
        (if i \<le> j \<and> j < n then (b # bs) ! (j - i) else data_block_idx (inode_ptr fs ino) j)"
        using True by (cases "j = i") auto
    next
      fix k j
      assume "k < n - i" "j < BLK_SIZE" "s \<le> BLK_SIZE * k + j"
        "cnt + (BLK_SIZE * k + j - s) < unat len"
      then have k: "k = 0" and sj: "s \<le> j" and "j < s + m"
        using Cons.prems(9,10) unfolding one m_def by simp_all
      then show "((data_block_ptr fs)(unat b := blk)) (unat ((b # bs) ! k)) j =
          buf ! (cnt + (BLK_SIZE * k + j - s))"
        by (simp add: blk_def)
    qed simp
  next
    case False
    with i have Si: "Suc i < n" by simp
    have m: "m = BLK_SIZE - s" by (rule cont [OF Si])
    have len: "cnt + m < unat len"
      using full [OF Si] Cons.prems(9,11) m by simp
    have go: "write_loop fs ino buf len st off n i cnt =
        write_loop ?fs ino buf len st off n (Suc i) (cnt + m)"
      using step m Cons.prems(9) by simp
    have "\<exists>idx blks. write_loop ?fs ino buf len st off n (Suc i) (cnt + m) =
        Some (int (if Suc i = n then cnt + m else min (unat len) (cnt + m + (BLK_SIZE * (n - Suc i) - 0))),
          ?fs\<lparr>Free_list_len := Free_list_len ?fs - int (n - Suc i),
             inode_ptr := (inode_ptr ?fs)(ino := (inode_ptr ?fs ino)\<lparr>data_block_idx := idx\<rparr>),
             data_block_ptr := blks\<rparr>) \<and>
      (\<forall>j. idx j = (if Suc i \<le> j \<and> j < n then bs ! (j - Suc i) else data_block_idx (inode_ptr ?fs ino) j)) \<and>
      (\<forall>b. b \<notin> unat ` set bs \<longrightarrow> blks b = data_block_ptr ?fs b) \<and>
      (\<forall>k < n - Suc i. \<forall>j < BLK_SIZE. 0 \<le> BLK_SIZE * k + j \<longrightarrow>
         cnt + m + (BLK_SIZE * k + j - 0) < unat len \<longrightarrow>
         blks (unat (bs ! k)) j = buf ! (cnt + m + (BLK_SIZE * k + j - 0)))"
    proof (rule Cons.IH [OF _ _ _ ok fb _ dist])
      show "cnt + m \<le> BLK_SIZE * Suc i + 0" using Cons.prems(9,11) m by simp
    qed (use Cons.prems Si len in \<open>auto simp: stored_block_def\<close>)
    then obtain idx blks where w: "write_loop ?fs ino buf len st off n (Suc i) (cnt + m) =
        Some (int (min (unat len) (cnt + m + BLK_SIZE * (n - Suc i))),
          ?fs\<lparr>Free_list_len := Free_list_len ?fs - int (n - Suc i),
             inode_ptr := (inode_ptr ?fs)(ino := (inode_ptr ?fs ino)\<lparr>data_block_idx := idx\<rparr>),
             data_block_ptr := blks\<rparr>)"
      and idx: "\<And>j. idx j = (if Suc i \<le> j \<and> j < n then bs ! (j - Suc i)
          else data_block_idx (inode_ptr ?fs ino) j)"
      and out: "\<And>b. b \<notin> unat ` set bs \<Longrightarrow> blks b = data_block_ptr ?fs b"
      and inn: "\<And>k j. k < n - Suc i \<Longrightarrow> j < BLK_SIZE \<Longrightarrow> cnt + m + (BLK_SIZE * k + j) < unat len \<Longrightarrow>
         blks (unat (bs ! k)) j = buf ! (cnt + m + (BLK_SIZE * k + j))"
      using Si by auto
    have tot: "cnt + m + BLK_SIZE * (n - Suc i) = cnt + (BLK_SIZE * (n - i) - s)"
      using m Cons.prems(9) Si by (simp add: Suc_diff_Suc algebra_simps)
    show ?thesis
    proof (intro exI conjI allI impI)
      show "write_loop fs ino buf len st off n i cnt =
        Some (int (if i = n then cnt else min (unat len) (cnt + (BLK_SIZE * (n - i) - s))),
          fs\<lparr>Free_list_len := Free_list_len fs - int (n - i),
             inode_ptr := (inode_ptr fs)(ino := (inode_ptr fs ino)\<lparr>data_block_idx := idx\<rparr>),
             data_block_ptr := blks\<rparr>)"
        using go w i tot by (simp add: stored_block_def of_nat_diff)
    next
      fix j
      show "idx j = (if i \<le> j \<and> j < n then (b # bs) ! (j - i) else data_block_idx (inode_ptr fs ino) j)"
        using i by (auto simp: idx stored_block_def nth_Cons' Suc_le_eq)
    next
      fix c assume "c \<notin> unat ` set (b # bs)"
      then show "blks c = data_block_ptr fs c" by (simp add: out stored_block_def)
    next
      fix k j
      assume k: "k < n - i" and j: "j < BLK_SIZE" and s: "s \<le> BLK_SIZE * k + j"
        and l: "cnt + (BLK_SIZE * k + j - s) < unat len"
      show "blks (unat ((b # bs) ! k)) j = buf ! (cnt + (BLK_SIZE * k + j - s))"
      proof (cases k)
        case 0
        have "blks (unat b) j = blk j" using out [OF ub] by (simp add: stored_block_def)
        with 0 j s m show ?thesis by (simp add: blk_def)
      next
        case (Suc k')
        have e: "cnt + (BLK_SIZE * k + j - s) = cnt + m + (BLK_SIZE * k' + j)"
          using Suc m Cons.prems(9) by simp
        have "cnt + m + (BLK_SIZE * k' + j) < unat len" using l unfolding e .
        moreover have "k' < n - Suc i" using k Suc by arith
        ultimately have "blks (unat (bs ! k')) j = buf ! (cnt + m + (BLK_SIZE * k' + j))"
          using inn j by blast
        then show ?thesis unfolding e by (simp only: Suc nth_Cons_Suc)
      qed
    qed
  qed
qed

section \<open>write\_data\<close>

abbreviation write_start :: "u32 \<Rightarrow> nat" where
  "write_start offset \<equiv> ceil_div (unat offset) BLK_SIZE"

abbreviation write_end :: "u32 \<Rightarrow> nat" where
  "write_end len \<equiv> ceil_div (unat len) BLK_SIZE"

text \<open>The number of bytes \<open>write_data\<close> returns when the free list is long enough.\<close>

definition write_count :: "u32 \<Rightarrow> u32 \<Rightarrow> nat" where
  "write_count offset len =
     (if write_end len \<le> write_start offset then 0
      else min (unat len) (BLK_SIZE * (write_end len - write_start offset) - unat offset mod BLK_SIZE))"

lemma write_end_bound:
  "unat len \<le> MAX_NUM_DATA_BLK * BLK_SIZE \<Longrightarrow> write_end len \<le> MAX_NUM_DATA_BLK"
  using less_ceil_div [of BLK_SIZE MAX_NUM_DATA_BLK "unat len"] by simp

lemma write_data_unfold:
  assumes "unat ino < unat (Num_Inodes fs)" "offset \<le> inode_length (inode_ptr fs (unat ino))"
  shows "write_data fs ino offset (Some buf) len =
    write_loop (set_inode_length fs (unat ino) len) (unat ino) buf len (write_start offset)
      (unat offset mod BLK_SIZE) (write_end len) (write_start offset) 0"
proof -
  have "\<not> ino > Num_Inodes fs" "\<not> offset > inode_length (inode_ptr fs (unat ino))"
    using assms by (simp_all add: word_less_nat_alt word_le_nat_alt)
  with assms(1) show ?thesis
    by (simp add: write_data_def buf_simps Let_def)
qed

lemma inode_length_update_eq:
  "ino\<lparr>inode_length := len, data_block_idx := data_block_idx ino\<rparr> = ino\<lparr>inode_length := len\<rparr>"
  by (cases ino) simp

lemma write_data_eq:
  assumes inv: "fs_inv fs" and ino: "unat ino < unat (Num_Inodes fs)"
    and off: "offset \<le> inode_length (inode_ptr fs (unat ino))"
    and buf: "unat len \<le> length buf" and len: "unat len \<le> MAX_NUM_DATA_BLK * BLK_SIZE"
    and free: "free_blocks fs = rest @ rev bs" "length bs = write_end len - write_start offset"
  shows "\<exists>idx blks fs'. write_data fs ino offset (Some buf) len = Some (int (write_count offset len), fs') \<and>
      fs' = fs\<lparr>Free_list_len := Free_list_len fs - int (length bs),
             inode_ptr := (inode_ptr fs)(unat ino := (inode_ptr fs (unat ino))
               \<lparr>inode_length := len, data_block_idx := idx\<rparr>),
             data_block_ptr := blks\<rparr> \<and>
      (\<forall>j. idx j = (if write_start offset \<le> j \<and> j < write_end len then bs ! (j - write_start offset)
         else data_block_idx (inode_ptr fs (unat ino)) j)) \<and>
      (\<forall>b. b \<notin> unat ` set bs \<longrightarrow> blks b = data_block_ptr fs b) \<and>
      (\<forall>k < length bs. \<forall>j < BLK_SIZE. unat offset mod BLK_SIZE \<le> BLK_SIZE * k + j \<longrightarrow>
         BLK_SIZE * k + j - unat offset mod BLK_SIZE < unat len \<longrightarrow>
         blks (unat (bs ! k)) j = buf ! (BLK_SIZE * k + j - unat offset mod BLK_SIZE))"
proof (cases "write_start offset \<le> write_end len")
  case False
  with free(2) have nil: "bs = []" by simp
  with False show ?thesis
    unfolding write_data_unfold [OF ino off]
    by (intro exI [of _ "data_block_idx (inode_ptr fs (unat ino))"] exI [of _ "data_block_ptr fs"])
      (auto simp: write_loop_stop write_count_def set_inode_length_def inode_length_update_eq)
next
  case True
  let ?s = "unat offset mod BLK_SIZE" and ?fs = "set_inode_length fs (unat ino) len"
  have d: "distinct bs" and r: "\<forall>b \<in> set bs. unat b < unat (Num_Data_Blocks fs)"
    using inv free(1) by (auto simp: fs_inv_def block_owners_def)
  have same: "free_blocks ?fs = free_blocks fs"
    by (simp add: free_blocks_def set_inode_length_def)
  have ok: "block_stack_ok ?fs"
    using fs_inv_stack_ok [OF inv]
    unfolding block_stack_ok_def same by (simp add: set_inode_length_def)
  have fb: "free_blocks ?fs = rest @ rev bs" using same free(1) by simp
  have s: "?s \<le> BLK_SIZE" using mod_less_divisor [of BLK_SIZE "unat offset"] by linarith
  have full: "\<And>i. i < write_end len \<Longrightarrow> BLK_SIZE * i < unat len" by (simp add: less_ceil_div)
  from write_loop_eq [OF buf write_end_bound [OF len] full order_refl free(2) True ok fb _ d, of ?s ?s 0 "unat ino"]
  obtain idx blks where
    "write_loop ?fs (unat ino) buf len (write_start offset) ?s (write_end len) (write_start offset) 0 =
        Some (int (if write_start offset = write_end len then 0
            else min (unat len) (0 + (BLK_SIZE * (write_end len - write_start offset) - ?s))),
          ?fs\<lparr>Free_list_len := Free_list_len ?fs - int (write_end len - write_start offset),
             inode_ptr := (inode_ptr ?fs)(unat ino := (inode_ptr ?fs (unat ino))\<lparr>data_block_idx := idx\<rparr>),
             data_block_ptr := blks\<rparr>)"
    "\<forall>j. idx j = (if write_start offset \<le> j \<and> j < write_end len then bs ! (j - write_start offset)
         else data_block_idx (inode_ptr ?fs (unat ino)) j)"
    "\<forall>b. b \<notin> unat ` set bs \<longrightarrow> blks b = data_block_ptr ?fs b"
    "\<forall>k < write_end len - write_start offset. \<forall>j < BLK_SIZE. ?s \<le> BLK_SIZE * k + j \<longrightarrow>
         0 + (BLK_SIZE * k + j - ?s) < unat len \<longrightarrow>
         blks (unat (bs ! k)) j = buf ! (0 + (BLK_SIZE * k + j - ?s))"
    using r s by (auto simp: set_inode_length_def)
  then show ?thesis
    unfolding write_data_unfold [OF ino off]
    by (intro exI [of _ idx] exI [of _ blks])
      (use True free(2) in \<open>auto simp: write_count_def set_inode_length_def\<close>)
qed

end
