(* ===== verification/Filesys_Update.thy ===== *)
theory Filesys_Update
  imports Filesys_Write
begin

text \<open>
  What a call of \<open>write_data\<close> means for the files: the write that replaces a file from its start,
  the write past the start, the full disk; and that it keeps the ownership of the blocks.
\<close>

section \<open>The invariant and the other files\<close>

lemma inode_block_list_write:
  assumes "\<forall>j. idx j = (if st \<le> j \<and> j < en then bs ! (j - st) else data_block_idx ino j)"
    and "en = ceil_div (unat len) BLK_SIZE" "length bs = en - st"
  shows "inode_block_list (ino\<lparr>inode_length := len, data_block_idx := idx\<rparr>) =
    map (data_block_idx ino) [0..<min st en] @ bs"
  using assms(2,3)
  by (intro nth_equalityI)
    (auto simp: inode_block_list_def inode_blocks_def assms(1) nth_append)

lemma ceil_div_mono: "m \<le> n \<Longrightarrow> ceil_div m BLK_SIZE \<le> ceil_div n BLK_SIZE"
  using less_ceil_div [of BLK_SIZE "ceil_div n BLK_SIZE" m] ceil_div_bounds [of BLK_SIZE n]
  by (cases "ceil_div n BLK_SIZE < ceil_div m BLK_SIZE") auto

lemma file_bytes_cong:
  assumes "\<And>j. j < inode_blocks ino \<Longrightarrow>
    data_block_ptr fs' (unat (data_block_idx ino j)) = data_block_ptr fs (unat (data_block_idx ino j))"
  shows "file_bytes fs' ino = file_bytes fs ino"
proof -
  have "k div BLK_SIZE < inode_blocks ino" if "k < unat (inode_length ino)" for k
  proof -
    have "BLK_SIZE * (k div BLK_SIZE) \<le> k" by simp
    with that have "BLK_SIZE * (k div BLK_SIZE) < unat (inode_length ino)" by linarith
    then show ?thesis by (simp add: inode_blocks_def less_ceil_div)
  qed
  then show ?thesis by (simp add: file_bytes_def file_byte_def assms)
qed

text \<open>A write leaves the directory alone.\<close>

lemma write_data_directory:
  assumes inv: "fs_inv fs" and ino: "unat ino < unat (Num_Inodes fs)"
    and off: "offset \<le> inode_length (inode_ptr fs (unat ino))"
    and buf: "unat len \<le> length buf" and len: "unat len \<le> MAX_NUM_DATA_BLK * BLK_SIZE"
    and free: "write_end len - write_start offset \<le> length (free_blocks fs)"
    and w: "write_data fs ino offset (Some buf) len = Some (r, fs')"
  shows "Num_Dentry fs' = Num_Dentry fs \<and> dentry_array fs' = dentry_array fs"
proof -
  let ?n = "length (free_blocks fs) - (write_end len - write_start offset)"
  define bs where "bs = rev (drop ?n (free_blocks fs))"
  have fb: "free_blocks fs = take ?n (free_blocks fs) @ rev bs" by (simp add: bs_def)
  have lb: "length bs = write_end len - write_start offset" using free by (simp add: bs_def)
  obtain idx blks fs2 where "write_data fs ino offset (Some buf) len = Some (int (write_count offset len), fs2)"
    and "fs2 = fs\<lparr>Free_list_len := Free_list_len fs - int (length bs),
        inode_ptr := (inode_ptr fs)(unat ino := (inode_ptr fs (unat ino))
          \<lparr>inode_length := len, data_block_idx := idx\<rparr>),
        data_block_ptr := blks\<rparr>"
    using write_data_eq [OF inv ino off buf len fb lb] by (elim exE conjE)
  then show ?thesis using w by simp
qed

lemma write_data_keeps:
  assumes inv: "fs_inv fs" and ino: "unat ino < unat (Num_Inodes fs)"
    and off: "offset \<le> inode_length (inode_ptr fs (unat ino))"
    and buf: "unat len \<le> length buf" and len: "unat len \<le> MAX_NUM_DATA_BLK * BLK_SIZE"
    and free: "write_end len - write_start offset \<le> length (free_blocks fs)"
  shows "\<exists>fs'. write_data fs ino offset (Some buf) len = Some (int (write_count offset len), fs') \<and>
    fs_inv fs' \<and> Num_Inodes fs' = Num_Inodes fs \<and>
    free_blocks fs' = take (length (free_blocks fs) - (write_end len - write_start offset)) (free_blocks fs) \<and>
    inode_block_list (inode_ptr fs' (unat ino)) =
      take (min (write_start offset) (write_end len)) (inode_block_list (inode_ptr fs (unat ino))) @
      rev (drop (length (free_blocks fs) - (write_end len - write_start offset)) (free_blocks fs)) \<and>
    inode_length (inode_ptr fs' (unat ino)) = len \<and>
    (\<forall>k < unat (Num_Inodes fs). k \<noteq> unat ino \<longrightarrow> file_contents fs' k = file_contents fs k)"
proof -
  let ?i = "unat ino" and ?n = "length (free_blocks fs) - (write_end len - write_start offset)"
  define rest where "rest = take ?n (free_blocks fs)"
  define bs where "bs = rev (drop ?n (free_blocks fs))"
  have fb: "free_blocks fs = rest @ rev bs" by (simp add: rest_def bs_def)
  have lb: "length bs = write_end len - write_start offset" using free by (simp add: bs_def)
  from write_data_eq [OF inv ino off buf len fb lb] obtain idx blks fs' where
    w: "write_data fs ino offset (Some buf) len = Some (int (write_count offset len), fs')"
    and fs': "fs' = fs\<lparr>Free_list_len := Free_list_len fs - int (length bs),
        inode_ptr := (inode_ptr fs)(?i := (inode_ptr fs ?i)\<lparr>inode_length := len, data_block_idx := idx\<rparr>),
        data_block_ptr := blks\<rparr>"
    and idx: "\<forall>j. idx j = (if write_start offset \<le> j \<and> j < write_end len
        then bs ! (j - write_start offset) else data_block_idx (inode_ptr fs ?i) j)"
    and out: "\<forall>b. b \<notin> unat ` set bs \<longrightarrow> blks b = data_block_ptr fs b" by blast
  let ?ino' = "(inode_ptr fs ?i)\<lparr>inode_length := len, data_block_idx := idx\<rparr>"
  have fl: "length bs \<le> nat (Free_list_len fs)"
    using arg_cong [OF fb, of length] by (simp add: free_blocks_def)
  have "free_blocks fs' = take (nat (Free_list_len fs) - length bs) (free_blocks fs)"
  proof -
    have "nat (Free_list_len fs - int (length bs)) = nat (Free_list_len fs) - length bs" by arith
    then show ?thesis by (simp add: free_blocks_def fs' take_map)
  qed
  also have "nat (Free_list_len fs) - length bs = length rest"
    using arg_cong [OF fb, of length] by (simp add: free_blocks_def)
  finally have fb': "free_blocks fs' = rest" by (simp add: fb)
  have list: "inode_block_list ?ino' =
      map (data_block_idx (inode_ptr fs ?i)) [0..<min (write_start offset) (write_end len)] @ bs"
    by (rule inode_block_list_write [OF idx refl lb])
  have st: "write_start offset \<le> inode_blocks (inode_ptr fs ?i)"
    using ceil_div_mono off by (simp add: inode_blocks_def word_le_nat_alt)
  have own: "block_owners fs = used_blocks fs 0 ?i @ inode_block_list (inode_ptr fs ?i) @
      used_blocks fs (Suc ?i) (unat (Num_Inodes fs)) @ rest @ rev bs"
    using used_blocks_split [OF ino, of fs] fb by (simp add: block_owners_def)
  have dist: "distinct (block_owners fs)" using inv by (simp add: fs_inv_def)
  have old: "inode_block_list (inode_ptr fs ?i) = map (data_block_idx (inode_ptr fs ?i))
      [0..<min (write_start offset) (write_end len)] @ map (data_block_idx (inode_ptr fs ?i))
      [min (write_start offset) (write_end len)..<inode_blocks (inode_ptr fs ?i)]"
    using st upt_add_eq_append [of 0 "min (write_start offset) (write_end len)"
        "inode_blocks (inode_ptr fs ?i) - min (write_start offset) (write_end len)"]
    by (simp add: inode_block_list_def flip: map_append)
  have inv': "fs_inv fs'"
  proof (rule fs_inv_replace [OF inv ino, of fs' ?ino' bs])
    show "distinct (inode_block_list ?ino')"
      using dist unfolding own list old by auto
    show "set (inode_block_list ?ino') \<subseteq> set (inode_block_list (inode_ptr fs ?i)) \<union> set bs"
      unfolding list old by auto
    show "nat (Free_list_len fs') \<le> FREE_LIST_SIZE"
    proof -
      have "nat (Free_list_len fs) \<le> FREE_LIST_SIZE" using inv by (simp add: fs_inv_def)
      then show ?thesis unfolding fs' by simp
    qed
  qed (use fb fb' len in \<open>simp_all add: fs'\<close>)
  have "file_contents fs' k = file_contents fs k" if k: "k < unat (Num_Inodes fs)" "k \<noteq> ?i" for k
  proof -
    have "data_block_idx (inode_ptr fs k) j \<in> set (used_blocks fs 0 ?i) \<union>
        set (used_blocks fs (Suc ?i) (unat (Num_Inodes fs)))"
      if "j < inode_blocks (inode_ptr fs k)" for j
      using that k unfolding Un_iff used_blocks_mem by (metis Suc_leI le0 linorder_neqE_nat)
    then have "data_block_idx (inode_ptr fs k) j \<notin> set bs" if "j < inode_blocks (inode_ptr fs k)" for j
      using that dist unfolding own by fastforce
    then have "unat (data_block_idx (inode_ptr fs k) j) \<notin> unat ` set bs"
      if "j < inode_blocks (inode_ptr fs k)" for j
      using that by (auto simp flip: word_unat_eq_iff)
    then show ?thesis
      using k out by (auto simp: file_contents_def fs' intro!: file_bytes_cong)
  qed
  moreover have "inode_ptr fs' ?i = ?ino'" by (simp add: fs')
  moreover have "inode_block_list ?ino' =
      take (min (write_start offset) (write_end len)) (inode_block_list (inode_ptr fs ?i)) @ bs"
    unfolding list by (subst old) simp
  ultimately show ?thesis
    using w inv' fb' by (intro exI [of _ fs']) (simp add: fs' rest_def bs_def)
qed

section \<open>What the written file holds\<close>

lemma ceil_div_mult [simp]: "ceil_div (BLK_SIZE * q) BLK_SIZE = q"
  by (simp add: ceil_div_def)

lemma write_count_0 [simp]: "write_count 0 len = unat len"
  using ceil_div_bounds [of BLK_SIZE "unat len"] by (simp add: write_count_def)

lemma block_not_fresh:
  assumes inv: "fs_inv fs" and i: "i < unat (Num_Inodes fs)"
    and j: "j < inode_blocks (inode_ptr fs i)" and bs: "set bs \<subseteq> set (free_blocks fs)"
  shows "unat (data_block_idx (inode_ptr fs i) j) \<notin> unat ` set bs"
proof -
  have "data_block_idx (inode_ptr fs i) j \<in> set (used_blocks fs 0 (unat (Num_Inodes fs)))"
    unfolding used_blocks_mem using i j by blast
  then have "data_block_idx (inode_ptr fs i) j \<notin> set bs"
    using inv bs by (auto simp: fs_inv_def block_owners_def)
  then show ?thesis by (auto simp flip: word_unat_eq_iff)
qed

lemma write_data_aligned:
  assumes inv: "fs_inv fs" and ino: "unat ino < unat (Num_Inodes fs)"
    and off: "offset \<le> inode_length (inode_ptr fs (unat ino))" "unat offset = BLK_SIZE * q"
    and buf: "unat len \<le> length buf" and len: "unat len \<le> MAX_NUM_DATA_BLK * BLK_SIZE" "offset \<le> len"
    and free: "write_end len - q \<le> length (free_blocks fs)"
    and w: "write_data fs ino offset (Some buf) len = Some (cnt, fs')"
  shows "file_contents fs' (unat ino) =
    take (unat offset) (file_contents fs (unat ino)) @ take (unat len - unat offset) buf"
proof -
  let ?i = "unat ino" and ?n = "length (free_blocks fs) - (write_end len - q)"
  define rest where "rest = take ?n (free_blocks fs)"
  define bs where "bs = rev (drop ?n (free_blocks fs))"
  have fb: "free_blocks fs = rest @ rev bs" by (simp add: rest_def bs_def)
  have st: "write_start offset = q" using off(2) by simp
  have lb: "length bs = write_end len - write_start offset"
    unfolding st using free by (simp add: bs_def)
  have mod: "unat offset mod BLK_SIZE = 0" using off(2) by simp
  from write_data_eq [OF inv ino off(1) buf len(1) fb lb] w obtain idx blks where
    fs': "fs' = fs\<lparr>Free_list_len := Free_list_len fs - int (length bs),
        inode_ptr := (inode_ptr fs)(?i := (inode_ptr fs ?i)\<lparr>inode_length := len, data_block_idx := idx\<rparr>),
        data_block_ptr := blks\<rparr>"
    and idx: "\<And>j. idx j = (if q \<le> j \<and> j < write_end len
        then bs ! (j - q) else data_block_idx (inode_ptr fs ?i) j)"
    and out: "\<And>b. b \<notin> unat ` set bs \<Longrightarrow> blks b = data_block_ptr fs b"
    and new: "\<And>k j. k < length bs \<Longrightarrow> j < BLK_SIZE \<Longrightarrow> BLK_SIZE * k + j < unat len \<Longrightarrow>
         blks (unat (bs ! k)) j = buf ! (BLK_SIZE * k + j)"
    unfolding st mod by auto
  let ?ino' = "(inode_ptr fs ?i)\<lparr>inode_length := len, data_block_idx := idx\<rparr>"
  let ?ol = "unat (inode_length (inode_ptr fs ?i))"
  have pl: "BLK_SIZE * q \<le> unat len" and po: "BLK_SIZE * q \<le> ?ol"
    using len(2) off by (simp_all add: word_le_nat_alt)
  have byte: "file_byte fs' ?ino' k =
      (if k < BLK_SIZE * q then file_byte fs (inode_ptr fs ?i) k else buf ! (k - BLK_SIZE * q))"
    if k: "k < unat len" for k
  proof (cases "k < BLK_SIZE * q")
    case True
    then have "k div BLK_SIZE < q" by (simp add: div_less_iff_less_mult mult.commute)
    moreover have "q \<le> inode_blocks (inode_ptr fs ?i)"
      using ceil_div_mono [OF po] by (simp add: inode_blocks_def)
    ultimately have "k div BLK_SIZE < inode_blocks (inode_ptr fs ?i)" by simp
    from block_not_fresh [OF inv ino this, of bs] have
      "unat (data_block_idx (inode_ptr fs ?i) (k div BLK_SIZE)) \<notin> unat ` set bs"
      by (simp add: fb)
    with True \<open>k div BLK_SIZE < q\<close> show ?thesis by (simp add: file_byte_def fs' idx out)
  next
    case False
    obtain d where d: "k div BLK_SIZE = q + d"
      using False le_Suc_ex [of q "k div BLK_SIZE"]
      by (auto simp: linorder_not_less less_eq_div_iff_mult_less_eq mult.commute)
    have "BLK_SIZE * (k div BLK_SIZE) < unat len"
      using k times_div_less_eq_dividend [of BLK_SIZE k] by linarith
    then have e: "q + d < write_end len" by (simp add: less_ceil_div d)
    have kk: "k = BLK_SIZE * (q + d) + k mod BLK_SIZE"
      using mult_div_mod_eq [of BLK_SIZE k] d by simp
    then have "k - BLK_SIZE * q = BLK_SIZE * d + k mod BLK_SIZE" by (simp add: distrib_left)
    moreover have "blks (unat (bs ! d)) (k mod BLK_SIZE) = buf ! (BLK_SIZE * d + k mod BLK_SIZE)"
      using e k kk lb by (intro new) (simp_all add: st distrib_left)
    ultimately show ?thesis using False e by (simp add: file_byte_def fs' idx d)
  qed
  have "inode_ptr fs' ?i = ?ino'" by (simp add: fs')
  then show ?thesis
    unfolding file_contents_def off(2)
    using pl po buf
    by (intro nth_equalityI) (auto simp: file_bytes_def byte nth_append min_def)
qed

text \<open>Replacing a file from its start, and reading it back.\<close>

theorem write_read_roundtrip:
  assumes inv: "fs_inv fs" and ino: "unat ino < unat (Num_Inodes fs)"
    and buf: "unat len \<le> length buf" "unat len \<le> length rbuf"
    and len: "unat len \<le> MAX_NUM_DATA_BLK * BLK_SIZE"
    and free: "write_end len \<le> length (free_blocks fs)"
  shows "\<exists>fs'. write_data fs ino 0 (Some buf) len = Some (int (unat len), fs') \<and>
    fs_inv fs' \<and>
    file_contents fs' (unat ino) = take (unat len) buf \<and>
    (\<forall>k < unat (Num_Inodes fs). k \<noteq> unat ino \<longrightarrow> file_contents fs' k = file_contents fs k) \<and>
    read_data fs' ino 0 (Some rbuf) len =
      Some (int (unat len), Some (take (unat len) buf @ drop (unat len) rbuf))"
proof -
  have free0: "write_end len - write_start 0 \<le> length (free_blocks fs)" using free by simp
  obtain fs' where w: "write_data fs ino 0 (Some buf) len = Some (int (unat len), fs')"
    and inv': "fs_inv fs'" and n: "Num_Inodes fs' = Num_Inodes fs"
    and l: "inode_length (inode_ptr fs' (unat ino)) = len"
    and others: "\<forall>k < unat (Num_Inodes fs). k \<noteq> unat ino \<longrightarrow> file_contents fs' k = file_contents fs k"
    using write_data_keeps [OF inv ino _ buf(1) len free0] by auto
  have c: "file_contents fs' (unat ino) = take (unat len) buf"
    using write_data_aligned [OF inv ino _ _ buf(1) len _ _ w, where q = 0] free by simp
  have "inode_ok fs' (inode_ptr fs' (unat ino))" using fs_inv_inode_ok [OF inv'] ino n by simp
  then have "read_data fs' ino 0 (Some rbuf) len =
      Some (int (unat len), Some (take (unat len) buf @ drop (unat len) rbuf))"
    using read_data_eq [where inode = ino and fs = fs' and offset = 0 and len = len and buf = rbuf and n = "unat len"] ino n l c buf len by simp
  with w inv' others c show ?thesis by blast
qed

text \<open>When no block is free the new length is stored all the same.\<close>

lemma write_data_full_disk:
  assumes ino: "unat ino < unat (Num_Inodes fs)" and free: "free_blocks fs = []" and len: "0 < len"
  shows "write_data fs ino 0 (Some buf) len =
    Some (0, set_inode_length (fs\<lparr>Free_list_len := Free_list_len fs - 1\<rparr>) (unat ino) len)"
proof -
  let ?fs = "set_inode_length fs (unat ino) len"
  have "free_blocks ?fs = []" using free by (simp add: free_blocks_def set_inode_length_def)
  from get_free_datablk_none [OF this]
  have g: "get_free_datablk_index ?fs =
      Some (-1, set_inode_length (fs\<lparr>Free_list_len := Free_list_len fs - 1\<rparr>) (unat ino) len)"
    by (simp add: set_inode_length_def)
  have "0 < unat len" using len by (simp add: word_less_nat_alt)
  then have "0 < write_end len" using less_ceil_div [of BLK_SIZE 0 "unat len"] by simp
  then have "write_loop ?fs (unat ino) buf len 0 0 (write_end len) 0 0 =
      Some (0, set_inode_length (fs\<lparr>Free_list_len := Free_list_len fs - 1\<rparr>) (unat ino) len)"
    by (subst write_loop.simps) (simp add: g)
  then show ?thesis using write_data_unfold [OF ino, of 0 buf len] by simp
qed

text \<open>
  The length of a write is taken for the length of the whole file, so a write behind the data it
  carries stores nothing and cuts the file.
\<close>

lemma write_data_behind:
  assumes ino: "unat ino < unat (Num_Inodes fs)"
    and off: "offset \<le> inode_length (inode_ptr fs (unat ino))"
    and behind: "write_end len \<le> write_start offset" "len \<le> inode_length (inode_ptr fs (unat ino))"
  shows "write_data fs ino offset (Some buf) len = Some (0, set_inode_length fs (unat ino) len) \<and>
    file_contents (set_inode_length fs (unat ino) len) (unat ino) =
      take (unat len) (file_contents fs (unat ino))"
  unfolding write_data_unfold [OF ino off]
  using behind
  by (simp add: write_loop_stop set_inode_length_def file_contents_def file_bytes_def file_byte_def
      take_map word_le_nat_alt min_def)

end
