(* ===== verification/Filesys_Dir.thy ===== *)
theory Filesys_Dir
  imports Filesys_Alloc
begin

text \<open>
  The directory: lookup by name and by index, \<open>file_create\<close> and \<open>file_remove\<close>, against the list
  of (name, type, inode) triples that the entries of the boot block stand for.
\<close>

section \<open>The abstract directory\<close>

definition entry_name :: "dentry_t \<Rightarrow> u8 list" where
  "entry_name e = take MAX_NAME_LEN (cstr (file_name e))"

definition entry_abs :: "dentry_t \<Rightarrow> u8 list \<times> u32 \<times> u32" where
  "entry_abs e = (entry_name e, file_type e, inode_num e)"

definition dir_entries :: "fs \<Rightarrow> (u8 list \<times> u32 \<times> u32) list" where
  "dir_entries fs = map (entry_abs \<circ> dentry_array fs) [0..<unat (Num_Dentry fs)]"

definition dir_names :: "fs \<Rightarrow> u8 list list" where
  "dir_names fs = map fst (dir_entries fs)"

definition dentry_ok :: "dentry_t \<Rightarrow> bool" where
  "dentry_ok e \<longleftrightarrow> length (file_name e) = MAX_NAME_LEN"

definition dir_ok :: "fs \<Rightarrow> bool" where
  "dir_ok fs \<longleftrightarrow> unat (Num_Dentry fs) \<le> MAX_NUM_DENTRY \<and>
     (\<forall>i < unat (Num_Dentry fs). dentry_ok (dentry_array fs i))"

text \<open>Where a search from the entry \<open>i\<close> on finds a name first.\<close>

definition find_from :: "u8 list list \<Rightarrow> u8 list \<Rightarrow> nat \<Rightarrow> nat option" where
  "find_from xs x i =
     (if x \<in> set (drop i xs) then Some (i + length (takeWhile (\<lambda>y. y \<noteq> x) (drop i xs))) else None)"

lemma length_dir_entries [simp]: "length (dir_entries fs) = unat (Num_Dentry fs)"
  by (simp add: dir_entries_def)

lemma length_dir_names [simp]: "length (dir_names fs) = unat (Num_Dentry fs)"
  by (simp add: dir_names_def)

lemma nth_dir_entries: "i < unat (Num_Dentry fs) \<Longrightarrow> dir_entries fs ! i = entry_abs (dentry_array fs i)"
  by (simp add: dir_entries_def)

lemma nth_dir_names: "i < unat (Num_Dentry fs) \<Longrightarrow> dir_names fs ! i = entry_name (dentry_array fs i)"
  by (simp add: dir_names_def nth_dir_entries entry_abs_def)

lemma find_from_end: "length xs \<le> i \<Longrightarrow> find_from xs x i = None"
  by (simp add: find_from_def)

lemma find_from_step:
  "i < length xs \<Longrightarrow> find_from xs x i = (if xs ! i = x then Some i else find_from xs x (Suc i))"
  by (auto simp: find_from_def drop_Cons_nth)

lemma find_from_None: "find_from xs x 0 = None \<longleftrightarrow> x \<notin> set xs"
  by (simp add: find_from_def)

lemma find_from_SomeD:
  assumes "find_from xs x 0 = Some i"
  shows "i < length xs \<and> xs ! i = x \<and> x \<notin> set (take i xs)"
proof -
  from assms have x: "x \<in> set xs" and i: "i = length (takeWhile (\<lambda>y. y \<noteq> x) xs)"
    by (auto simp: find_from_def split: if_splits)
  have lt: "i < length xs" unfolding i using x by (rule takeWhile_length_less) simp
  then have "xs ! i = x" using nth_takeWhile_stop [of "\<lambda>y. y \<noteq> x" xs] unfolding i by simp
  moreover have "take i xs = takeWhile (\<lambda>y. y \<noteq> x) xs"
    unfolding i by (simp flip: takeWhile_eq_take)
  ultimately show ?thesis using lt by (auto dest: set_takeWhileD)
qed

section \<open>Lookup\<close>

lemma dir_name_cmp:
  assumes "nul_terminated f" "length (cstr f) \<le> MAX_NAME_LEN" "dentry_ok e"
  shows "\<exists>r. strncmp f (file_name e) MAX_NAME_LEN = Some r \<and> (r = 0 \<longleftrightarrow> entry_name e = cstr f)"
  using strncmp_eq_0 [of f MAX_NAME_LEN "file_name e"] assms
  by (auto simp: entry_name_def dentry_ok_def)

lemma entry_name_nonzero: "0 \<notin> set (entry_name e)"
  unfolding entry_name_def using cstr_nonzero in_set_takeD by metis

text \<open>What \<open>read_dentry_by_index\<close> puts into the caller's entry.\<close>

definition copied_dentry :: "dentry_t \<Rightarrow> dentry_t \<Rightarrow> dentry_t" where
  "copied_dentry e d = d\<lparr>file_name := pad_to MAX_NAME_LEN (entry_name e),
     file_type := file_type e, inode_num := inode_num e\<rparr>"

lemma copied_dentry_abs: "entry_abs (copied_dentry e d) = entry_abs e"
proof -
  have "length (entry_name e) \<le> MAX_NAME_LEN" by (simp add: entry_name_def)
  then show ?thesis using entry_name_nonzero [of e]
    by (simp add: entry_abs_def copied_dentry_def entry_name_def [of "_\<lparr>inode_num := _\<rparr>"] cstr_pad_to)
qed

lemma read_dentry_by_index_eq:
  assumes ok: "dir_ok fs" and d: "dentry_ok d" and i: "unat index < unat (Num_Dentry fs)"
  shows "read_dentry_by_index fs index (Some d) =
    Some (0, Some (copied_dentry (dentry_array fs (unat index)) d))"
proof -
  have "unat (Num_Dentry fs - 1) = unat (Num_Dentry fs) - 1"
    using i by (intro unat_minus_one) auto
  then have "\<not> index > get_Num_Dentry fs - 1"
    using i by (simp add: get_Num_Dentry_def word_less_nat_alt)
  moreover have "unat index < MAX_NUM_DENTRY" "dentry_ok (dentry_array fs (unat index))"
    using ok i by (auto simp: dir_ok_def)
  ultimately show ?thesis
    using d by (simp add: read_dentry_by_index_def buf_simps strncpy_eq dentry_ok_def
      copied_dentry_def entry_name_def)
qed

lemma read_dentry_loop_stop:
  "unat (Num_Dentry fs) \<le> i \<Longrightarrow> read_dentry_loop fs f d i = Some (-1, d)"
  by (subst read_dentry_loop.simps) simp

lemma read_dentry_loop_eq:
  assumes ok: "dir_ok fs" and d: "dentry_ok d"
    and f: "nul_terminated f" "length (cstr f) \<le> MAX_NAME_LEN"
  shows "read_dentry_loop fs f (Some d) i =
    (case find_from (dir_names fs) (cstr f) i of
       None \<Rightarrow> Some (-1, Some d)
     | Some k \<Rightarrow> Some (int k, Some (copied_dentry (dentry_array fs k) d)))"
proof (induction "unat (Num_Dentry fs) - i" arbitrary: i)
  case 0
  then show ?case by (simp add: read_dentry_loop_stop find_from_end)
next
  case (Suc n)
  then have i: "i < unat (Num_Dentry fs)" and n: "n = unat (Num_Dentry fs) - Suc i" by arith+
  have m: "i < MAX_NUM_DENTRY" and e: "dentry_ok (dentry_array fs i)"
    using ok i by (auto simp: dir_ok_def)
  have w: "unat (of_nat i :: u32) = i" using m by (intro unat_of_nat_u32) simp
  obtain r where r: "strncmp f (file_name (dentry_array fs i)) MAX_NAME_LEN = Some r"
    and r0: "r = 0 \<longleftrightarrow> dir_names fs ! i = cstr f"
    using dir_name_cmp [OF f e] nth_dir_names [OF i] by auto
  have "read_dentry_loop fs f (Some d) i =
      (if r = 0 then Some (int i, Some (copied_dentry (dentry_array fs i) d))
       else read_dentry_loop fs f (Some d) (Suc i))"
    using i m r read_dentry_by_index_eq [OF ok d, of "of_nat i"]
    by (subst read_dentry_loop.simps) (simp add: buf_simps w)
  then show ?case
    using Suc.hyps(1) [OF n] r0 i by (simp add: find_from_step)
qed

lemma read_dentry_by_name_eq:
  assumes "dir_ok fs" "dentry_ok d" "nul_terminated f" "length (cstr f) \<le> MAX_NAME_LEN"
  shows "read_dentry_by_name fs (Some f) (Some d) =
    (case find_from (dir_names fs) (cstr f) 0 of
       None \<Rightarrow> Some (-1, Some d)
     | Some k \<Rightarrow> Some (int k, Some (copied_dentry (dentry_array fs k) d)))"
  using assms by (simp add: read_dentry_by_name_def read_dentry_loop_eq)

lemma read_dentry_by_name_long:
  "nul_terminated f \<Longrightarrow> MAX_NAME_LEN < length (cstr f) \<Longrightarrow>
   read_dentry_by_name fs (Some f) (Some d) = Some (-1, Some d)"
  by (simp add: read_dentry_by_name_def)

text \<open>With no entry at all the bound \<open>Num_Dentry - 1\<close> wraps around and admits every index.\<close>

lemma read_dentry_by_index_empty:
  assumes "Num_Dentry fs = 0" "unat index < MAX_NUM_DENTRY"
    and "dentry_ok (dentry_array fs (unat index))" "dentry_ok d"
  shows "read_dentry_by_index fs index (Some d) =
    Some (0, Some (copied_dentry (dentry_array fs (unat index)) d))"
proof -
  have "index \<le> - 1" by simp
  then have "\<not> index > get_Num_Dentry fs - 1" using assms(1) by (simp add: get_Num_Dentry_def)
  with assms show ?thesis
    by (simp add: read_dentry_by_index_def buf_simps strncpy_eq dentry_ok_def copied_dentry_def
      entry_name_def)
qed

section \<open>file\_create\<close>

text \<open>The name a file gets: what \<open>fname\<close> holds before its NUL and before its first newline.\<close>

definition clean_name :: "u8 list \<Rightarrow> u8 list" where
  "clean_name f = takeWhile (\<lambda>c. c \<noteq> of_char CHR 0x0A) (cstr f)"

lemma copy_filename_loop_eq:
  assumes f: "nul_terminated f"
  shows "i \<le> length (clean_name f) \<Longrightarrow> length (clean_name f) < length b \<Longrightarrow>
    take i b = take i (clean_name f) \<Longrightarrow>
    \<exists>b'. copy_filename_loop f (length (cstr f)) b i = Some (b', length (clean_name f)) \<and>
      length b' = length b \<and> take (length (clean_name f)) b' = clean_name f"
proof (induction "length (clean_name f) - i" arbitrary: i b)
  case 0
  then have i: "i = length (clean_name f)" by simp
  show ?case
  proof (cases "i < length (cstr f)")
    case True
    then have "cstr f ! i = of_char CHR 0x0A"
      using nth_takeWhile_stop [of "\<lambda>c. c \<noteq> of_char CHR 0x0A" "cstr f"] i by (simp add: clean_name_def)
    then have "f ! i = of_char CHR 0x0A" using cstr_nth [OF True] by simp
    moreover have "i < length f" using True cstr_length_less [OF f] by simp
    ultimately show ?thesis
      using True 0 i by (subst copy_filename_loop.simps) (simp add: buf_simps)
  next
    case False
    then show ?thesis using 0 i by (subst copy_filename_loop.simps) simp
  qed
next
  case (Suc n)
  then have i: "i < length (clean_name f)" and n: "n = length (clean_name f) - Suc i" by arith+
  have il: "i < length (cstr f)"
    using i length_takeWhile_le [of "\<lambda>c. c \<noteq> of_char CHR 0x0A" "cstr f"] by (simp add: clean_name_def)
  have "clean_name f ! i \<in> set (clean_name f)" using i by (rule nth_mem)
  then have ne: "clean_name f ! i \<noteq> of_char CHR 0x0A"
    unfolding clean_name_def using set_takeWhileD by fastforce
  have c: "f ! i = clean_name f ! i"
    using cstr_nth [OF il] takeWhile_nth [OF i [unfolded clean_name_def]] by (simp add: clean_name_def)
  have fi: "i < length f" using il cstr_length_less [OF f] by simp
  have "take (Suc i) (b[i := clean_name f ! i]) = take (Suc i) (clean_name f)"
    using Suc.prems i by (simp add: take_Suc_update take_Suc_conv_app_nth)
  then obtain b' where
    "copy_filename_loop f (length (cstr f)) (b[i := clean_name f ! i]) (Suc i) =
       Some (b', length (clean_name f))"
    "length b' = length b" "take (length (clean_name f)) b' = clean_name f"
    using Suc.hyps(1) [OF n, of "b[i := clean_name f ! i]"] Suc.prems i by auto
  then show ?case
    using il fi c ne i Suc.prems by (subst copy_filename_loop.simps) (simp add: buf_simps)
qed

lemma clean_name_nonzero: "0 \<notin> set (clean_name f)"
  unfolding clean_name_def by (auto dest!: set_takeWhileD cstr_nonzero)

lemma copy_filename_eq:
  assumes "nul_terminated f" "length (clean_name f) < length b"
  shows "\<exists>b'. copy_filename f b = Some b' \<and> length b' = length b \<and>
    nul_terminated b' \<and> cstr b' = clean_name f"
proof -
  let ?n = "length (clean_name f)"
  obtain b1 where b1: "copy_filename_loop f (length (cstr f)) b 0 = Some (b1, ?n)"
    "length b1 = length b" "take ?n b1 = clean_name f"
    using copy_filename_loop_eq [OF assms(1), of 0 b] assms(2) by auto
  have e: "b1[?n := 0] = clean_name f @ 0 # drop (Suc ?n) b1"
    using b1 assms(2) by (simp add: upd_conv_take_nth_drop)
  have "copy_filename f b = Some (b1[?n := 0])"
    using assms b1 by (simp add: copy_filename_def buf_simps)
  moreover have "length (b1[?n := 0]) = length b" using b1(2) by simp
  moreover have "nul_terminated (b1[?n := 0])" "cstr (b1[?n := 0]) = clean_name f"
    unfolding e using cstr_append_nul [OF clean_name_nonzero] by (simp_all add: nul_terminated_def)
  ultimately show ?thesis by blast
qed

text \<open>The list of entries does not depend on the parts of the state the allocators change.\<close>

lemma dir_entries_cong:
  "Num_Dentry fs' = Num_Dentry fs \<Longrightarrow> dentry_array fs' = dentry_array fs \<Longrightarrow>
   dir_entries fs' = dir_entries fs"
  by (simp add: dir_entries_def)

lemma dir_entries_append:
  assumes "unat (Num_Dentry fs) < MAX_NUM_DENTRY"
    and "Num_Dentry fs' = Num_Dentry fs + 1"
    and "dentry_array fs' = (dentry_array fs)(unat (Num_Dentry fs) := e)"
  shows "dir_entries fs' = dir_entries fs @ [entry_abs e]" "dir_ok fs \<Longrightarrow> dentry_ok e \<Longrightarrow> dir_ok fs'"
proof -
  have n: "unat (Num_Dentry fs') = Suc (unat (Num_Dentry fs))"
    using assms(1,2) unat_add_u32 [of "Num_Dentry fs" 1] by simp
  show "dir_entries fs' = dir_entries fs @ [entry_abs e]"
    by (simp add: dir_entries_def n assms(3) comp_def fun_upd_def)
  show "dir_ok fs \<Longrightarrow> dentry_ok e \<Longrightarrow> dir_ok fs'"
    using assms(1) by (auto simp: dir_ok_def n assms(3) less_Suc_eq)
qed

lemma inode_stack_cong:
  assumes "Free_inode_list fs' = Free_inode_list fs" "Free_inode_list_len fs' = Free_inode_list_len fs"
  shows "free_inodes fs' = free_inodes fs" "inode_stack_ok fs' = inode_stack_ok fs"
  using assms by (simp_all add: free_inodes_def inode_stack_ok_def)

lemma file_create_eq:
  assumes ok: "dir_ok fs" and d: "dentry_ok d" and b: "length b = MAX_NAME_LEN"
    and f: "nul_terminated f" "length (clean_name f) < MAX_NAME_LEN"
    and room: "unat (Num_Dentry fs) < MAX_NUM_DENTRY"
    and free: "inode_stack_ok fs" "free_inodes fs = xs @ [x]"
  shows "\<exists>fs'. file_create b d f fs = Some (int (unat x), fs') \<and> dir_ok fs' \<and>
    dir_entries fs' = dir_entries fs @ [(clean_name f, REGULAR_FILE_TYPE, x)] \<and>
    inode_stack_ok fs' \<and> free_inodes fs' = xs \<and>
    (\<exists>arr. fs' = fs\<lparr>Free_inode_list_len := Free_inode_list_len fs - 1, dentry_array := arr,
              Num_Dentry := Num_Dentry fs + 1\<rparr>)"
proof -
  let ?n = "length (clean_name f)"
  obtain b' where b': "copy_filename f b = Some b'" "nul_terminated b'" "cstr b' = clean_name f"
    using copy_filename_eq [OF f(1), of b] f(2) b by auto
  let ?nm = "clean_name f @ drop ?n (file_name d)"
  have nm: "strncpy (file_name d) b' ?n = Some ?nm"
    using b' f(2) d by (simp add: strncpy_eq dentry_ok_def pad_to_length)
  let ?e = "d\<lparr>inode_num := x, file_name := ?nm[?n := 0], file_type := REGULAR_FILE_TYPE\<rparr>"
  have upd: "?nm[?n := 0] = clean_name f @ 0 # drop (Suc ?n) (file_name d)"
    using f(2) d by (simp add: list_update_append dentry_ok_def drop_Cons_nth)
  have abs: "entry_abs ?e = (clean_name f, REGULAR_FILE_TYPE, x)"
    using cstr_append_nul [OF clean_name_nonzero] f(2)
    by (simp add: entry_abs_def entry_name_def upd)
  have eok: "dentry_ok ?e" using d f(2) by (simp add: dentry_ok_def)
  let ?fs1 = "fs\<lparr>Free_inode_list_len := Free_inode_list_len fs - 1\<rparr>"
  let ?fs' = "?fs1\<lparr>dentry_array := (dentry_array fs)(unat (Num_Dentry fs) := ?e),
      Num_Dentry := Num_Dentry fs + 1\<rparr>"
  have g: "get_free_inode_index fs = Some (int (unat x), ?fs1)"
    and g2: "inode_stack_ok ?fs1" "free_inodes ?fs1 = xs"
    by (rule get_free_inode_top [OF free])+
  have len: "?n < length (file_name d)" using f(2) d by (simp add: dentry_ok_def)
  have "file_create b d f fs = Some (int (unat x), ?fs')"
    using b' room g f(2) nm len by (simp add: file_create_def buf_simps Let_def min_def)
  moreover have "dir_entries ?fs' = dir_entries fs @ [entry_abs ?e]"
    by (rule dir_entries_append(1)) (use room in simp_all)
  moreover have "dir_ok ?fs'"
    by (rule dir_entries_append(2)) (use room ok eok in simp_all)
  moreover have "inode_stack_ok ?fs'" "free_inodes ?fs' = xs"
    using g2 inode_stack_cong [of ?fs' ?fs1] by simp_all
  ultimately show ?thesis unfolding abs by (intro exI [of _ ?fs']) auto
qed

lemma file_create_full:
  assumes "nul_terminated f" "length (clean_name f) < length b" "MAX_NUM_DENTRY \<le> unat (Num_Dentry fs)"
  shows "file_create b d f fs = Some (-1, fs)"
  using copy_filename_eq [OF assms(1,2)] assms(3) by (auto simp: file_create_def)

lemma file_create_no_inode:
  assumes "nul_terminated f" "length (clean_name f) < length b"
    and "unat (Num_Dentry fs) < MAX_NUM_DENTRY" "free_inodes fs = []"
  shows "file_create b d f fs = Some (-1, fs\<lparr>Free_inode_list_len := Free_inode_list_len fs - 1\<rparr>)"
  using copy_filename_eq [OF assms(1,2)] assms(3) get_free_inode_none(1) [OF assms(4)]
  by (auto simp: file_create_def)

text \<open>A name of 32 characters or more leaves the local buffer of \<open>file_create\<close>.\<close>

lemma copy_filename_loop_overflow:
  assumes f: "nul_terminated f"
  shows "i \<le> length b \<Longrightarrow> length b \<le> length (clean_name f) \<Longrightarrow>
    (case copy_filename_loop f (length (cstr f)) b i of None \<Rightarrow> True
     | Some (b', j) \<Rightarrow> length b' \<le> j)"
proof (induction "length b - i" arbitrary: i b)
  case 0
  then have "i = length b" by simp
  then show ?case by (subst copy_filename_loop.simps)
      (auto simp: buf_simps bind_eq_Some_conv split: option.splits if_splits)
next
  case (Suc n)
  then have i: "i < length (clean_name f)" "i < length b" by arith+
  then have "clean_name f ! i \<in> set (clean_name f)" by (intro nth_mem)
  then have "clean_name f ! i \<noteq> of_char CHR 0x0A"
    unfolding clean_name_def using set_takeWhileD by fastforce
  moreover have il: "i < length (cstr f)"
    using i length_takeWhile_le [of "\<lambda>c. c \<noteq> of_char CHR 0x0A" "cstr f"] by (simp add: clean_name_def)
  moreover have "f ! i = clean_name f ! i"
    using cstr_nth [OF il] takeWhile_nth [OF i(1) [unfolded clean_name_def]]
    by (simp add: clean_name_def)
  moreover have "i < length f" using il cstr_length_less [OF f] by simp
  ultimately show ?case
    using Suc.hyps(1) [of "b[i := f ! i]" "Suc i"] Suc i
    by (subst copy_filename_loop.simps) (simp add: buf_simps)
qed

lemma file_create_overflow:
  assumes "nul_terminated f" "length b \<le> length (clean_name f)"
  shows "file_create b d f fs = None"
proof -
  have "copy_filename f b = None"
    using copy_filename_loop_overflow [OF assms(1), of 0 b] assms
    by (auto simp: copy_filename_def buf_put_def split: option.splits)
  then show ?thesis by (simp add: file_create_def)
qed

section \<open>file\_remove\<close>

lemma shift_dentries_eq:
  assumes n: "unat num \<le> MAX_NUM_DENTRY" "0 < unat num"
  shows "shift_dentries num arr k =
    Some (\<lambda>i. if k \<le> i \<and> i < unat num - 1 then arr (Suc i) else arr i)"
proof (induction "unat num - 1 - k" arbitrary: k arr)
  case 0
  have "unat (num - 1) = unat num - 1" using n by (intro unat_minus_one) auto
  with 0 show ?case by (subst shift_dentries.simps) (auto simp: fun_eq_iff)
next
  case (Suc m)
  have num: "unat (num - 1) = unat num - 1" using n by (intro unat_minus_one) auto
  from Suc.hyps(2) have k: "k < unat num - 1" and m: "m = unat num - 1 - Suc k" by arith+
  have "Suc k < MAX_NUM_DENTRY" using k n by simp
  then have "shift_dentries num arr k = shift_dentries num (arr(k := arr (Suc k))) (Suc k)"
    using k num by (subst shift_dentries.simps) (simp add: buf_simps)
  also have "\<dots> = Some (\<lambda>i. if Suc k \<le> i \<and> i < unat num - 1 then (arr(k := arr (Suc k))) (Suc i)
      else (arr(k := arr (Suc k))) i)"
    by (rule Suc.hyps(1) [OF m])
  also have "\<dots> = Some (\<lambda>i. if k \<le> i \<and> i < unat num - 1 then arr (Suc i) else arr i)"
    using k by (auto simp: fun_eq_iff)
  finally show ?case .
qed

lemma file_remove_missing:
  assumes "dir_ok fs" "dentry_ok d" "nul_terminated f" "length (cstr f) \<le> MAX_NAME_LEN"
    and "cstr f \<notin> set (dir_names fs)"
  shows "file_remove fs (Some f) d = Some (-1, fs)"
  using read_dentry_by_name_eq [OF assms(1-4)] assms(5)
  by (simp add: file_remove_def find_from_def)

lemma file_remove_eq:
  assumes ok: "dir_ok fs" and d: "dentry_ok d"
    and f: "nul_terminated f" "length (cstr f) \<le> MAX_NAME_LEN"
    and k: "find_from (dir_names fs) (cstr f) 0 = Some k"
  shows "\<exists>arr. file_remove fs (Some f) d =
      Some (0, fs\<lparr>dentry_array := arr, Num_Dentry := Num_Dentry fs - 1\<rparr>) \<and>
    dir_ok (fs\<lparr>dentry_array := arr, Num_Dentry := Num_Dentry fs - 1\<rparr>) \<and>
    dir_entries (fs\<lparr>dentry_array := arr, Num_Dentry := Num_Dentry fs - 1\<rparr>) =
      take k (dir_entries fs) @ drop (Suc k) (dir_entries fs)"
proof -
  let ?n = "unat (Num_Dentry fs)"
  have kn: "k < ?n" using find_from_SomeD [OF k] by simp
  have n1: "unat (Num_Dentry fs - 1) = ?n - 1" using kn by (intro unat_minus_one) auto
  let ?arr = "\<lambda>i. if k \<le> i \<and> i < ?n - 1 then dentry_array fs (Suc i) else dentry_array fs i"
  have "shift_dentries (Num_Dentry fs) (dentry_array fs) k = Some ?arr"
    using ok kn by (intro shift_dentries_eq) (auto simp: dir_ok_def)
  then have "file_remove fs (Some f) d =
      Some (0, fs\<lparr>dentry_array := ?arr, Num_Dentry := Num_Dentry fs - 1\<rparr>)"
    using read_dentry_by_name_eq [OF ok d f] k by (simp add: file_remove_def get_Num_Dentry_def)
  moreover have "dir_ok (fs\<lparr>dentry_array := ?arr, Num_Dentry := Num_Dentry fs - 1\<rparr>)"
    using ok kn by (auto simp: dir_ok_def n1)
  moreover have "dir_entries (fs\<lparr>dentry_array := ?arr, Num_Dentry := Num_Dentry fs - 1\<rparr>) =
      take k (dir_entries fs) @ drop (Suc k) (dir_entries fs)"
    using kn by (intro nth_equalityI) (auto simp: dir_entries_def n1 nth_append)
  ultimately show ?thesis by blast
qed

section \<open>A name space\<close>

text \<open>
  What \<open>open\<close> and \<open>remove\<close> rely on: creation appends a name, removal takes away its first
  occurrence. A client that creates a name only when a lookup fails keeps the names distinct, and
  then a removed name is gone.
\<close>

locale name_space =
  fixes invar :: "'s \<Rightarrow> bool" and names :: "'s \<Rightarrow> 'n list" and legal :: "'n \<Rightarrow> bool"
    and lookup :: "'n \<Rightarrow> 's \<Rightarrow> bool"
    and create :: "'n \<Rightarrow> 's \<Rightarrow> 's option" and remove :: "'n \<Rightarrow> 's \<Rightarrow> 's option"
  assumes lookup_law: "invar s \<Longrightarrow> legal n \<Longrightarrow> lookup n s \<longleftrightarrow> n \<in> set (names s)"
    and create_law: "invar s \<Longrightarrow> legal n \<Longrightarrow> create n s = Some s' \<Longrightarrow>
      invar s' \<and> names s' = names s @ [n]"
    and remove_law: "invar s \<Longrightarrow> legal n \<Longrightarrow> remove n s = Some s' \<Longrightarrow>
      invar s' \<and> names s' = remove1 n (names s)"
begin

definition ensure :: "'n \<Rightarrow> 's \<Rightarrow> 's option" where
  "ensure n s = (if lookup n s then Some s else create n s)"

inductive steps :: "'s \<Rightarrow> 's \<Rightarrow> bool" where
  steps_refl: "steps s s"
| steps_ensure: "steps s s' \<Longrightarrow> legal n \<Longrightarrow> ensure n s' = Some s'' \<Longrightarrow> steps s s''"
| steps_remove: "steps s s' \<Longrightarrow> legal n \<Longrightarrow> remove n s' = Some s'' \<Longrightarrow> steps s s''"

lemma ensure_distinct:
  "invar s \<Longrightarrow> legal n \<Longrightarrow> distinct (names s) \<Longrightarrow> ensure n s = Some s' \<Longrightarrow>
   invar s' \<and> distinct (names s') \<and> n \<in> set (names s')"
  using create_law [of s n s'] by (auto simp: ensure_def lookup_law split: if_splits)

lemma remove_gone:
  "invar s \<Longrightarrow> legal n \<Longrightarrow> distinct (names s) \<Longrightarrow> remove n s = Some s' \<Longrightarrow>
   invar s' \<and> distinct (names s') \<and> \<not> lookup n s'"
  using remove_law [of s n s'] by (auto simp: lookup_law)

lemma steps_distinct:
  "steps s s' \<Longrightarrow> invar s \<Longrightarrow> distinct (names s) \<Longrightarrow> invar s' \<and> distinct (names s')"
  by (induction rule: steps.induct) (use ensure_distinct remove_gone in blast)+

lemma create_remove:
  assumes "invar s" "legal n" "\<not> lookup n s" "create n s = Some s'" "remove n s' = Some s''"
  shows "names s'' = names s"
proof -
  have "names s' = names s @ [n]" and "invar s'" using create_law assms(1,2,4) by auto
  moreover have "n \<notin> set (names s)" using assms(1-3) lookup_law by simp
  ultimately show ?thesis using remove_law [OF _ assms(2,5)] by (simp add: remove1_append)
qed

end

text \<open>The directory of the kernel provides it, for names its buffers can hold.\<close>

definition legal_name :: "u8 list \<Rightarrow> bool" where
  "legal_name n \<longleftrightarrow> length n < MAX_NAME_LEN \<and> 0 \<notin> set n \<and> of_char CHR 0x0A \<notin> set n"

definition fs_dir_inv :: "fs \<Rightarrow> bool" where
  "fs_dir_inv fs \<longleftrightarrow> dir_ok fs \<and> inode_stack_ok fs"

definition blank_dentry :: dentry_t where
  "blank_dentry = \<lparr>file_name = replicate 32 0, file_type = 0, inode_num = 0,
     dentry_reserved = replicate 24 0\<rparr>"

definition name_present :: "u8 list \<Rightarrow> fs \<Rightarrow> bool" where
  "name_present n fs = (case read_dentry_by_name fs (Some (n @ [0])) (Some blank_dentry) of
     Some (r, _) \<Rightarrow> r \<noteq> -1 | None \<Rightarrow> False)"

definition name_create :: "u8 list \<Rightarrow> fs \<Rightarrow> fs option" where
  "name_create n fs = (case file_create (replicate 32 0) blank_dentry (n @ [0]) fs of
     Some (r, fs') \<Rightarrow> if r = -1 then None else Some fs' | None \<Rightarrow> None)"

definition name_remove :: "u8 list \<Rightarrow> fs \<Rightarrow> fs option" where
  "name_remove n fs = map_option snd (file_remove fs (Some (n @ [0])) blank_dentry)"

lemma blank_dentry_ok [simp]: "dentry_ok blank_dentry"
  by (simp add: blank_dentry_def dentry_ok_def)

lemma legal_nameD:
  assumes "legal_name n"
  shows "cstr (n @ [0]) = n" "nul_terminated (n @ [0])" "clean_name (n @ [0]) = n"
    "length n < MAX_NAME_LEN"
proof -
  show c: "cstr (n @ [0]) = n" using assms cstr_append_nul [of n "[]"] by (simp add: legal_name_def)
  show "nul_terminated (n @ [0])" by (simp add: nul_terminated_def)
  show "length n < MAX_NAME_LEN" using assms by (simp add: legal_name_def)
  show "clean_name (n @ [0]) = n"
    unfolding clean_name_def c using assms by (auto simp: legal_name_def takeWhile_eq_all_conv)
qed

lemma find_from_remove1:
  "find_from xs x 0 = Some k \<Longrightarrow> take k xs @ drop (Suc k) xs = remove1 x xs"
proof -
  assume "find_from xs x 0 = Some k"
  then have k: "k < length xs" "xs ! k = x" "x \<notin> set (take k xs)" using find_from_SomeD by blast+
  have "xs = take k xs @ x # drop (Suc k) xs" using id_take_nth_drop [OF k(1)] k(2) by simp
  then have "remove1 x xs = remove1 x (take k xs @ x # drop (Suc k) xs)" by simp
  with k(3) show ?thesis by (simp add: remove1_append)
qed

interpretation dir: name_space fs_dir_inv dir_names legal_name name_present name_create name_remove
proof unfold_locales
  fix fs n assume "fs_dir_inv fs" and n: "legal_name n"
  then have ok: "dir_ok fs" by (simp add: fs_dir_inv_def)
  note l = legal_nameD [OF n]
  show "name_present n fs \<longleftrightarrow> n \<in> set (dir_names fs)"
    using read_dentry_by_name_eq [OF ok blank_dentry_ok l(2)] l
    by (auto simp: name_present_def find_from_def)
next
  fix fs fs' n assume inv: "fs_dir_inv fs" and n: "legal_name n" and c: "name_create n fs = Some fs'"
  note l = legal_nameD [OF n]
  have b: "nul_terminated (n @ [0])" "length (clean_name (n @ [0])) < length (replicate 32 (0::u8))"
    using l by simp_all
  have room: "unat (Num_Dentry fs) < MAX_NUM_DENTRY"
    using file_create_full [OF b, of fs blank_dentry] c
    by (cases "MAX_NUM_DENTRY \<le> unat (Num_Dentry fs)") (simp_all add: name_create_def)
  then have "free_inodes fs \<noteq> []"
    using file_create_no_inode [OF b, of fs blank_dentry] c by (auto simp: name_create_def)
  then obtain xs x where free: "free_inodes fs = xs @ [x]" using rev_exhaust by blast
  have "dir_ok fs" "inode_stack_ok fs" using inv by (simp_all add: fs_dir_inv_def)
  from file_create_eq [OF this(1) blank_dentry_ok _ b(1) _ room this(2) free, of "replicate 32 0"] l
  obtain fs1 where "file_create (replicate 32 0) blank_dentry (n @ [0]) fs = Some (int (unat x), fs1)"
    "dir_ok fs1" "inode_stack_ok fs1" "dir_entries fs1 = dir_entries fs @ [(n, REGULAR_FILE_TYPE, x)]"
    by auto
  with c show "fs_dir_inv fs' \<and> dir_names fs' = dir_names fs @ [n]"
    by (auto simp: name_create_def fs_dir_inv_def dir_names_def)
next
  fix fs fs' n assume inv: "fs_dir_inv fs" and n: "legal_name n" and c: "name_remove n fs = Some fs'"
  note l = legal_nameD [OF n]
  have ok: "dir_ok fs" "inode_stack_ok fs" using inv by (simp_all add: fs_dir_inv_def)
  show "fs_dir_inv fs' \<and> dir_names fs' = remove1 n (dir_names fs)"
  proof (cases "find_from (dir_names fs) n 0")
    case None
    then have "file_remove fs (Some (n @ [0])) blank_dentry = Some (-1, fs)"
      using file_remove_missing [OF ok(1) blank_dentry_ok l(2)] l by (simp add: find_from_None)
    with None c inv show ?thesis
      by (auto simp: name_remove_def find_from_None remove1_idem)
  next
    case (Some k)
    then obtain arr where "file_remove fs (Some (n @ [0])) blank_dentry =
        Some (0, fs\<lparr>dentry_array := arr, Num_Dentry := Num_Dentry fs - 1\<rparr>)"
      "dir_ok (fs\<lparr>dentry_array := arr, Num_Dentry := Num_Dentry fs - 1\<rparr>)"
      "dir_entries (fs\<lparr>dentry_array := arr, Num_Dentry := Num_Dentry fs - 1\<rparr>) =
        take k (dir_entries fs) @ drop (Suc k) (dir_entries fs)"
      using file_remove_eq [OF ok(1) blank_dentry_ok l(2)] l by auto
    with c ok(2) show ?thesis
      using find_from_remove1 [OF Some]
      by (auto simp: name_remove_def fs_dir_inv_def dir_names_def take_map drop_map inode_stack_ok_def
          free_inodes_def)
  qed
qed

end
