(* ===== verification/Filesys_Props.thy ===== *)
theory Filesys_Props
  imports Filesys_Update Filesys_Dir
begin

text \<open>
  The properties of the file system, each instantiated on a small image: two inodes, of which the
  first holds five bytes in block 2, and a directory of one file.
\<close>

definition demo_entry :: dentry_t where
  "demo_entry = \<lparr>file_name = ascii ''frame'' @ replicate 27 0, file_type = REGULAR_FILE_TYPE,
     inode_num = 0, dentry_reserved = replicate 24 0\<rparr>"

definition demo_boot :: boot_blk_t where
  "demo_boot = \<lparr>n_dentry = 1, n_inode = 2, n_data_blk = 4, dentries = (\<lambda>_. demo_entry)\<rparr>"

definition demo_inodes :: "nat \<Rightarrow> inode_t" where
  "demo_inodes i = (if i = 0 then \<lparr>inode_length = 5, data_block_idx = (\<lambda>_. 2)\<rparr>
     else \<lparr>inode_length = 0, data_block_idx = (\<lambda>_. 0)\<rparr>)"

definition demo_blocks :: "nat \<Rightarrow> data_blk_t" where
  "demo_blocks b j = (if b = 2 then of_nat (j + 65) else 0)"

definition demo_fs :: fs where
  "demo_fs = \<lparr>Num_Dentry = 1, Num_Inodes = 2, Num_Data_Blocks = 4,
     dentry_array = (\<lambda>_. demo_entry), inode_ptr = demo_inodes, data_block_ptr = demo_blocks,
     Free_list = (\<lambda>_. 0)(1 := 1, 2 := 3), Free_inode_list = (\<lambda>_. 1),
     Free_list_len = 3, Free_inode_list_len = 1\<rparr>"

lemma demo_fs_sel [simp]:
  "Num_Dentry demo_fs = 1" "Num_Inodes demo_fs = 2" "Num_Data_Blocks demo_fs = 4"
  "dentry_array demo_fs = (\<lambda>_. demo_entry)" "inode_ptr demo_fs = demo_inodes"
  "data_block_ptr demo_fs = demo_blocks" "Free_list_len demo_fs = 3"
  "Free_inode_list_len demo_fs = 1"
  by (simp_all add: demo_fs_def)

lemma demo_free [simp]: "free_blocks demo_fs = [0, 1, 3]" "free_inodes demo_fs = [1]"
  by (simp_all add: free_blocks_def free_inodes_def demo_fs_def upt_rec)

lemma demo_used [simp]: "used_blocks demo_fs 0 2 = [2]"
  by (simp add: used_blocks_def inode_block_list_def inode_blocks_def demo_inodes_def ceil_div_def
      upt_rec)

lemma all_less_2: "(\<forall>i < (2 :: nat). P i) \<longleftrightarrow> P 0 \<and> P 1"
  by (auto simp: less_2_cases_iff)

lemma demo_inv [simp]: "fs_inv demo_fs"
  by (simp add: fs_inv_def block_owners_def demo_inodes_def)

lemma demo_entry_ok [simp]: "dentry_ok demo_entry"
  by (simp add: dentry_ok_def demo_entry_def)

lemma demo_dir_ok [simp]: "dir_ok demo_fs" "inode_stack_ok demo_fs"
  by (simp_all add: dir_ok_def inode_stack_ok_def)

lemma demo_names [simp]: "dir_names demo_fs = [ascii ''frame'']"
  by (simp add: dir_names_def dir_entries_def entry_abs_def entry_name_def demo_entry_def)

lemma demo_contents [simp]: "file_contents demo_fs 0 = ascii ''ABCDE''"
  by (simp add: file_contents_def file_bytes_def file_byte_def demo_inodes_def demo_blocks_def
      upt_rec)

section \<open>Starting up\<close>

text \<open>
  C31. \<open>init_filesys\<close> on a consistent image (no block in two files, no index outside the image,
  the arrays large enough) never leaves its arrays and ends with every data block owned once: the
  free list holds exactly the blocks that no file uses, and the free inode list exactly the inodes
  of length zero.
\<close>

theorem init_filesys_free_lists:
  assumes fs0: "fs0 = fs\<lparr>Num_Dentry := n_dentry boot, Num_Inodes := n_inode boot,
      Num_Data_Blocks := n_data_blk boot, dentry_array := dentries boot, inode_ptr := inodes,
      data_block_ptr := blocks\<rparr>"
    and fits: "image_fits fs0" and n: "unat (n_data_blk boot) < 2 ^ 31"
    and once: "distinct (used_blocks fs0 0 (unat (n_inode boot)))"
    and range: "\<forall>b \<in> set (used_blocks fs0 0 (unat (n_inode boot))). unat b < unat (n_data_blk boot)"
  shows "\<exists>fs'. init_filesys boot inodes blocks fs = Some fs' \<and> fs_inv fs' \<and>
    set (free_blocks fs') = {b. unat b < unat (n_data_blk boot)} -
      set (used_blocks fs0 0 (unat (n_inode boot))) \<and>
    free_inodes fs' = map of_nat (empty_inodes fs0 0 (unat (n_inode boot)))"
  using free_list_init_inv [OF fits] n once range by (simp add: init_filesys_def fs0)

theorem init_filesys_free_lists_witness:
  "\<exists>fs'. init_filesys demo_boot demo_inodes demo_blocks demo_fs = Some fs' \<and> fs_inv fs' \<and>
    set (free_blocks fs') = {b. unat b < 4} - {2} \<and> free_inodes fs' = [1]"
  using init_filesys_free_lists [OF refl, where fs = demo_fs and boot = demo_boot
      and inodes = demo_inodes and blocks = demo_blocks]
  by (simp add: image_fits_def demo_boot_def used_blocks_def inode_block_list_def inode_blocks_def
      demo_inodes_def ceil_div_def empty_inodes_def unused_blocks_def all_less_2 upt_rec)

section \<open>Reading and writing files\<close>

text \<open>
  \<open>read_data\<close> on a file of the image copies into the buffer exactly the slice of the file's
  contents that starts at the offset and is as long as the caller asked, cut at the end of the
  file, returns its length and leaves the rest of the buffer as it was.
\<close>

theorem read_data_slice:
  assumes inv: "fs_inv fs" and i: "unat inode < unat (Num_Inodes fs)"
    and off: "offset \<le> inode_length (inode_ptr fs (unat inode))"
      "unat offset < MAX_NUM_DATA_BLK * BLK_SIZE"
    and n: "n = min (unat len) (length (file_contents fs (unat inode)) - unat offset)"
    and buf: "n \<le> length buf"
  shows "read_data fs inode offset (Some buf) len =
    Some (int n, Some (take n (drop (unat offset) (file_contents fs (unat inode))) @ drop n buf))"
  using read_data_eq [OF i fs_inv_inode_ok [OF inv i]] off n buf by (simp add: word_le_nat_alt)

theorem read_data_slice_witness:
  "read_data demo_fs 0 2 (Some (replicate 8 0)) 4 =
     Some (3, Some (ascii ''CDE'' @ replicate 5 0))"
  using read_data_slice [OF demo_inv, where inode = 0 and offset = 2 and n = 3 and len = 4
      and buf = "replicate 8 0"]
  by (simp add: demo_inodes_def)

text \<open>
  C7. A write from the start of a file with enough free blocks stores the whole buffer: the file's
  contents become the bytes written, every other file keeps its contents, no block gets a second
  owner, and reading the file back gives the bytes written.
\<close>

theorem write_data_then_read:
  assumes inv: "fs_inv fs" and ino: "unat ino < unat (Num_Inodes fs)"
    and buf: "unat len \<le> length buf" "unat len \<le> length rbuf"
    and len: "unat len \<le> MAX_NUM_DATA_BLK * BLK_SIZE"
    and free: "write_end len \<le> length (free_blocks fs)"
  shows "\<exists>fs'. write_data fs ino 0 (Some buf) len = Some (int (unat len), fs') \<and>
    fs_inv fs' \<and>
    file_contents fs' (unat ino) = take (unat len) buf \<and>
    (\<forall>k < unat (Num_Inodes fs). k \<noteq> unat ino \<longrightarrow> file_contents fs' k = file_contents fs k) \<and>
    read_data fs' ino 0 (Some rbuf) len =
      Some (int (unat len), Some (take (unat len) buf @ drop (unat len) rbuf))"
  by (rule write_read_roundtrip [OF assms])

theorem write_data_then_read_witness:
  "\<exists>fs'. write_data demo_fs 1 0 (Some (ascii ''hello'')) 5 = Some (5, fs') \<and> fs_inv fs' \<and>
    file_contents fs' 1 = ascii ''hello'' \<and> file_contents fs' 0 = ascii ''ABCDE'' \<and>
    read_data fs' 1 0 (Some (replicate 6 7)) 5 = Some (5, Some (ascii ''hello'' @ [7]))"
  using write_data_then_read [OF demo_inv, where ino = 1 and len = 5 and buf = "ascii ''hello''"
      and rbuf = "replicate 6 7"]
  by (simp add: ceil_div_def all_less_2)

text \<open>
  C30. A write at any offset inside a file, of a length that a file can have and with enough free blocks, gives no block a second owner, be it
  a file or the free list, and changes no other file. It takes the blocks it fills from the end of the
  free list, which is otherwise unchanged, and the file is then made of its old blocks in front of the
  first one written, and those. Its other old blocks go to nobody: no list takes them back.
\<close>

theorem write_data_frame:
  assumes inv: "fs_inv fs" and ino: "unat ino < unat (Num_Inodes fs)"
    and off: "offset \<le> inode_length (inode_ptr fs (unat ino))"
    and buf: "unat len \<le> length buf" and len: "unat len \<le> MAX_NUM_DATA_BLK * BLK_SIZE"
    and free: "write_end len - write_start offset \<le> length (free_blocks fs)"
  shows "\<exists>fs'. write_data fs ino offset (Some buf) len = Some (int (write_count offset len), fs') \<and>
    fs_inv fs' \<and>
    free_blocks fs' = take (length (free_blocks fs) - (write_end len - write_start offset)) (free_blocks fs) \<and>
    inode_block_list (inode_ptr fs' (unat ino)) =
      take (min (write_start offset) (write_end len)) (inode_block_list (inode_ptr fs (unat ino))) @
      rev (drop (length (free_blocks fs) - (write_end len - write_start offset)) (free_blocks fs)) \<and>
    inode_length (inode_ptr fs' (unat ino)) = len \<and>
    (\<forall>k < unat (Num_Inodes fs). k \<noteq> unat ino \<longrightarrow> file_contents fs' k = file_contents fs k)"
  using write_data_keeps [OF assms] by blast

theorem write_data_frame_witness:
  "\<exists>fs'. write_data demo_fs 0 2 (Some (replicate 5000 1)) 5000 = Some (4094, fs') \<and> fs_inv fs' \<and>
    length (free_blocks fs') = 2 \<and> length (inode_block_list (inode_ptr fs' 0)) = 2 \<and> inode_length (inode_ptr fs' 0) = 5000"
proof -
  have "length (inode_block_list (inode_ptr demo_fs 0)) = 1"
    by (simp add: inode_block_list_def inode_blocks_def ceil_div_def demo_inodes_def)
  then show ?thesis
    using write_data_frame [OF demo_inv, where ino = 0 and offset = 2 and len = 5000
        and buf = "replicate 5000 1"]
    by (simp add: ceil_div_def write_count_def demo_inodes_def) (fastforce simp: numeral_2_eq_2)
qed

text \<open>
  The length handed to \<open>write_data\<close> becomes the length of the whole file. A write at a block
  boundary therefore keeps the blocks before it and stores only what is left of the length: the
  contents are the old ones up to the offset followed by the first \<open>len - offset\<close> bytes of the buffer.
\<close>

theorem write_data_at_block:
  assumes inv: "fs_inv fs" and ino: "unat ino < unat (Num_Inodes fs)"
    and off: "offset \<le> inode_length (inode_ptr fs (unat ino))" "unat offset = BLK_SIZE * q"
    and buf: "unat len \<le> length buf" and len: "unat len \<le> MAX_NUM_DATA_BLK * BLK_SIZE" "offset \<le> len"
    and free: "write_end len - q \<le> length (free_blocks fs)"
  shows "\<exists>cnt fs'. write_data fs ino offset (Some buf) len = Some (cnt, fs') \<and>
    file_contents fs' (unat ino) =
      take (unat offset) (file_contents fs (unat ino)) @ take (unat len - unat offset) buf"
proof -
  have "write_end len - write_start offset \<le> length (free_blocks fs)" using free off(2) by simp
  from write_data_keeps [OF inv ino off(1) buf len(1) this] obtain fs' where
    w: "write_data fs ino offset (Some buf) len = Some (int (write_count offset len), fs')" by blast
  with write_data_aligned [OF inv ino off buf len free w] show ?thesis by blast
qed

theorem write_data_at_block_witness:
  "\<exists>cnt fs'. write_data demo_fs 0 0 (Some (ascii ''xyz'')) 2 = Some (cnt, fs') \<and>
    file_contents fs' 0 = ascii ''xy''"
  using write_data_at_block [OF demo_inv, where ino = 0 and offset = 0 and q = 0 and len = 2
      and buf = "ascii ''xyz''"]
  by (simp add: ceil_div_def demo_inodes_def)

text \<open>
  A write that the caller sends after the first block or blocks, with no more bytes than the
  blocks before it hold (the ordinary append of a short buffer), stores nothing, returns 0 and cuts
  the file to the number of bytes that should have been appended.
\<close>

theorem write_data_append_cuts:
  assumes "unat ino < unat (Num_Inodes fs)"
    and "offset \<le> inode_length (inode_ptr fs (unat ino))"
    and "write_end len \<le> write_start offset" "len \<le> inode_length (inode_ptr fs (unat ino))"
  shows "\<exists>fs'. write_data fs ino offset (Some buf) len = Some (0, fs') \<and>
    file_contents fs' (unat ino) = take (unat len) (file_contents fs (unat ino))"
  using write_data_behind [OF assms] by blast

theorem write_data_append_cuts_witness:
  "\<exists>fs'. write_data demo_fs 0 5 (Some (ascii ''xy'')) 2 = Some (0, fs') \<and>
    file_contents fs' 0 = ascii ''AB''"
  using write_data_append_cuts [where ino = 0 and fs = demo_fs and offset = 5 and len = 2
      and buf = "ascii ''xy''"]
  by (simp add: ceil_div_def demo_inodes_def)

text \<open>
  On a full disk a write stores nothing and returns 0, but the file has the new length: what it
  then seems to hold is whatever is in the blocks its index table names.
\<close>

theorem write_data_disk_full:
  assumes "unat ino < unat (Num_Inodes fs)" "free_blocks fs = []" "0 < len"
  shows "\<exists>fs'. write_data fs ino 0 (Some buf) len = Some (0, fs') \<and>
    inode_length (inode_ptr fs' (unat ino)) = len \<and> data_block_ptr fs' = data_block_ptr fs"
  using write_data_full_disk [OF assms] by (simp add: set_inode_length_def)

theorem write_data_disk_full_witness:
  "\<exists>fs'. write_data (demo_fs\<lparr>Free_list_len := 0\<rparr>) 1 0 (Some []) 9 = Some (0, fs') \<and>
    inode_length (inode_ptr fs' 1) = 9"
  using write_data_disk_full [where ino = 1 and fs = "demo_fs\<lparr>Free_list_len := 0\<rparr>" and len = 9
      and buf = "[]"]
  by (auto simp: free_blocks_def)

section \<open>The directory\<close>

text \<open>
  \<open>read_dentry_by_name\<close> returns the index of the first entry with the name and copies that
  entry's name, type and inode to the caller, and returns -1 without touching the caller's entry
  exactly when no entry has the name.
\<close>

theorem lookup_finds_first:
  assumes "dir_ok fs" "dentry_ok d" "nul_terminated f" "length (cstr f) \<le> MAX_NAME_LEN"
  shows "(cstr f \<notin> set (dir_names fs) \<and>
      read_dentry_by_name fs (Some f) (Some d) = Some (-1, Some d)) \<or>
    (\<exists>k d'. read_dentry_by_name fs (Some f) (Some d) = Some (int k, Some d') \<and>
      k < length (dir_entries fs) \<and> entry_abs d' = dir_entries fs ! k \<and> entry_name d' = cstr f \<and>
      cstr f \<notin> set (take k (dir_names fs)))"
proof (cases "find_from (dir_names fs) (cstr f) 0")
  case None
  then have "cstr f \<notin> set (dir_names fs)" by (simp add: find_from_None)
  with None show ?thesis using read_dentry_by_name_eq [OF assms] by simp
next
  case (Some k)
  note D = find_from_SomeD [OF Some]
  then have k: "k < unat (Num_Dentry fs)" by simp
  have "entry_abs (copied_dentry (dentry_array fs k) d) = dir_entries fs ! k"
    by (simp add: copied_dentry_abs nth_dir_entries [OF k])
  moreover have "entry_name (copied_dentry (dentry_array fs k) d) = cstr f"
    using D copied_dentry_abs [of "dentry_array fs k" d] nth_dir_names [OF k]
    by (simp add: entry_abs_def)
  moreover have "read_dentry_by_name fs (Some f) (Some d) =
      Some (int k, Some (copied_dentry (dentry_array fs k) d))"
    using read_dentry_by_name_eq [OF assms] Some by simp
  moreover have "k < length (dir_entries fs)" "cstr f \<notin> set (take k (dir_names fs))"
    using D k by simp_all
  ultimately show ?thesis by blast
qed

theorem lookup_finds_first_witness:
  "\<exists>k d'. read_dentry_by_name demo_fs (Some (ascii ''frame'' @ [0])) (Some demo_entry) =
     Some (int k, Some d') \<and> k < 1"
  using lookup_finds_first [OF demo_dir_ok(1) demo_entry_ok, where f = "ascii ''frame'' @ [0]"]
  by auto

text \<open>
  C19. \<open>file_create\<close> with a free inode and a free entry adds one regular file, named by the argument
  up to its first newline, at the end of the directory, gives it the inode on top of the free
  list, and a lookup of a new name then finds exactly that entry.
\<close>

theorem create_then_lookup:
  assumes ok: "dir_ok fs" and d: "dentry_ok d" and b: "length b = MAX_NAME_LEN"
    and f: "nul_terminated f" "length (clean_name f) < MAX_NAME_LEN"
    and room: "unat (Num_Dentry fs) < MAX_NUM_DENTRY"
    and free: "inode_stack_ok fs" "free_inodes fs = xs @ [x]"
    and fresh: "clean_name f \<notin> set (dir_names fs)"
  shows "\<exists>fs' d'. file_create b d f fs = Some (int (unat x), fs') \<and> dir_ok fs' \<and>
    dir_entries fs' = dir_entries fs @ [(clean_name f, REGULAR_FILE_TYPE, x)] \<and>
    free_inodes fs' = xs \<and>
    read_dentry_by_name fs' (Some (clean_name f @ [0])) (Some d) =
      Some (int (unat (Num_Dentry fs)), Some d') \<and>
    entry_abs d' = (clean_name f, REGULAR_FILE_TYPE, x)"
proof -
  obtain fs' where c: "file_create b d f fs = Some (int (unat x), fs')" and ok': "dir_ok fs'"
    and e: "dir_entries fs' = dir_entries fs @ [(clean_name f, REGULAR_FILE_TYPE, x)]"
    and fi: "free_inodes fs' = xs"
    using file_create_eq [OF ok d b f room free] by blast
  let ?g = "clean_name f @ [0]"
  have g: "cstr ?g = clean_name f" using cstr_append_nul [OF clean_name_nonzero, of f "[]"] by simp
  have nt: "nul_terminated ?g" by (simp add: nul_terminated_def)
  have k: "find_from (dir_names fs') (clean_name f) 0 = Some (unat (Num_Dentry fs))"
    using fresh by (simp add: find_from_def dir_names_def e takeWhile_append takeWhile_eq_all_conv)
      (auto simp: rev_image_eqI)
  have n': "unat (Num_Dentry fs) < unat (Num_Dentry fs')"
    using arg_cong [OF e, of length] by simp
  have "entry_abs (copied_dentry (dentry_array fs' (unat (Num_Dentry fs))) d) =
      dir_entries fs' ! unat (Num_Dentry fs)"
    by (simp add: copied_dentry_abs nth_dir_entries [OF n'])
  also have "\<dots> = (clean_name f, REGULAR_FILE_TYPE, x)" by (simp add: e nth_append)
  finally show ?thesis
    using read_dentry_by_name_eq [OF ok' d nt] g k f(2) c ok' e fi by auto
qed

theorem create_then_lookup_witness:
  "\<exists>fs' d'. file_create (replicate 32 0) demo_entry (ascii ''new'' @ [10, 0]) demo_fs = Some (1, fs') \<and>
    read_dentry_by_name fs' (Some (ascii ''new'' @ [0])) (Some demo_entry) = Some (1, Some d') \<and>
    entry_abs d' = (ascii ''new'', REGULAR_FILE_TYPE, 1)"
  using create_then_lookup [OF demo_dir_ok(1) demo_entry_ok, where b = "replicate 32 0"
      and f = "ascii ''new'' @ [10, 0]" and xs = "[]" and x = 1]
  by (auto simp: clean_name_def)

text \<open>
  C20. \<open>file_remove\<close> takes exactly the first entry of the name out of the directory, whether or not the
  name occurs again, and keeps the order of the others. Afterwards a lookup of the name fails if that
  entry was the only one, and finds the next entry of the name otherwise.
\<close>

theorem remove_then_lookup:
  assumes ok: "dir_ok fs" and d: "dentry_ok d"
    and f: "nul_terminated f" "length (cstr f) \<le> MAX_NAME_LEN"
    and mem: "cstr f \<in> set (dir_names fs)"
  shows "\<exists>k fs'. file_remove fs (Some f) d = Some (0, fs') \<and> dir_ok fs' \<and>
    k < length (dir_names fs) \<and> dir_names fs ! k = cstr f \<and> cstr f \<notin> set (take k (dir_names fs)) \<and>
    dir_entries fs' = take k (dir_entries fs) @ drop (Suc k) (dir_entries fs) \<and>
    dir_names fs' = remove1 (cstr f) (dir_names fs) \<and>
    (if cstr f \<in> set (drop (Suc k) (dir_names fs))
     then \<exists>j. k \<le> j \<and> j < length (dir_names fs') \<and> dir_names fs' ! j = cstr f \<and>
       cstr f \<notin> set (take j (dir_names fs')) \<and>
       read_dentry_by_name fs' (Some f) (Some d) = Some (int j, Some (copied_dentry (dentry_array fs' j) d))
     else read_dentry_by_name fs' (Some f) (Some d) = Some (-1, Some d))"
proof -
  obtain k where k: "find_from (dir_names fs) (cstr f) 0 = Some k"
    using mem by (simp add: find_from_def)
  obtain fs' where r: "file_remove fs (Some f) d = Some (0, fs')" and ok': "dir_ok fs'"
    and e: "dir_entries fs' = take k (dir_entries fs) @ drop (Suc k) (dir_entries fs)"
    using file_remove_eq [OF ok d f k] by blast
  have n: "dir_names fs' = take k (dir_names fs) @ drop (Suc k) (dir_names fs)"
    by (simp add: dir_names_def e take_map drop_map)
  note first = find_from_SomeD [OF k] and rest = read_dentry_by_name_eq [OF ok' d f]
  have "if cstr f \<in> set (drop (Suc k) (dir_names fs))
     then \<exists>j. k \<le> j \<and> j < length (dir_names fs') \<and> dir_names fs' ! j = cstr f \<and>
       cstr f \<notin> set (take j (dir_names fs')) \<and>
       read_dentry_by_name fs' (Some f) (Some d) = Some (int j, Some (copied_dentry (dentry_array fs' j) d))
     else read_dentry_by_name fs' (Some f) (Some d) = Some (-1, Some d)"
  proof (cases "find_from (dir_names fs') (cstr f) 0")
    case None
    then have "cstr f \<notin> set (drop (Suc k) (dir_names fs))" using find_from_None [of "dir_names fs'"] n by simp
    moreover have "read_dentry_by_name fs' (Some f) (Some d) = Some (-1, Some d)" using rest None by simp
    ultimately show ?thesis by simp
  next
    case (Some j)
    note j = find_from_SomeD [OF Some]
    have "\<not> j < k"
    proof
      assume "j < k"
      then have "dir_names fs' ! j = take k (dir_names fs) ! j" "j < length (take k (dir_names fs))"
        using first unfolding n by (simp_all add: nth_append)
      then show False using j first by (metis nth_mem)
    qed
    moreover have "cstr f \<in> set (drop (Suc k) (dir_names fs))"
      using j first nth_mem [of j "dir_names fs'"] unfolding n by auto
    ultimately show ?thesis using j rest Some by auto
  qed
  then show ?thesis
    using r ok' first e n find_from_remove1 [OF k] by (intro exI [of _ k] exI [of _ fs']) simp
qed

theorem remove_then_lookup_witness:
  "\<exists>fs'. file_remove demo_fs (Some (ascii ''frame'' @ [0])) demo_entry = Some (0, fs') \<and>
    dir_names fs' = []"
  using remove_then_lookup [OF demo_dir_ok(1) demo_entry_ok, where f = "ascii ''frame'' @ [0]"]
  by auto

text \<open>
  Creating a file and removing it again gives the old list of names back, but the inode that
  was taken off the free list does not return to it.
\<close>

theorem create_remove_leaks_inode:
  assumes inv: "dir_ok fs" "inode_stack_ok fs" and n: "legal_name n" "n \<notin> set (dir_names fs)"
    and c: "file_create (replicate 32 0) blank_dentry (n @ [0]) fs = Some (int i, fs')"
    and r: "file_remove fs' (Some (n @ [0])) blank_dentry = Some (r0, fs'')"
  shows "dir_names fs'' = dir_names fs \<and> free_inodes fs'' = butlast (free_inodes fs) \<and>
    free_inodes fs \<noteq> []"
proof -
  note l = legal_nameD [OF n(1)]
  have b: "nul_terminated (n @ [0])" "length (clean_name (n @ [0])) < length (replicate 32 (0::u8))"
    using l by simp_all
  have s: "fs_dir_inv fs" using inv by (simp add: fs_dir_inv_def)
  have "\<not> name_present n fs" using dir.lookup_law [OF s n(1)] n(2) by simp
  moreover have "name_create n fs = Some fs'" using c by (simp add: name_create_def)
  moreover have "name_remove n fs' = Some fs''" using r by (simp add: name_remove_def)
  ultimately have names: "dir_names fs'' = dir_names fs" by (rule dir.create_remove [OF s n(1)])
  have room: "unat (Num_Dentry fs) < MAX_NUM_DENTRY"
    using file_create_full [OF b, of fs blank_dentry] c
    by (cases "MAX_NUM_DENTRY \<le> unat (Num_Dentry fs)") simp_all
  then have ne: "free_inodes fs \<noteq> []"
    using file_create_no_inode [OF b, of fs blank_dentry] c by auto
  then obtain xs x where free: "free_inodes fs = xs @ [x]" using rev_exhaust by blast
  have f': "dir_ok fs'" "free_inodes fs' = xs" "n \<in> set (dir_names fs')"
    using file_create_eq [OF inv(1) blank_dentry_ok _ b(1) _ room inv(2) free, of "replicate 32 0"] l c
    by (auto simp: dir_names_def)
  then obtain k where k: "find_from (dir_names fs') n 0 = Some k" by (auto simp: find_from_def)
  have "free_inodes fs'' = free_inodes fs'"
    using file_remove_eq [OF f'(1) blank_dentry_ok l(2), of k] k l r
    by (auto simp: free_inodes_def)
  with names f'(2) free ne show ?thesis by simp
qed

theorem create_remove_leaks_inode_witness:
  "\<exists>fs' fs''. file_create (replicate 32 0) blank_dentry (ascii ''a'' @ [0]) demo_fs = Some (1, fs') \<and>
    file_remove fs' (Some (ascii ''a'' @ [0])) blank_dentry = Some (0, fs'') \<and>
    free_inodes fs'' = [] \<and> free_inodes demo_fs = [1]"
proof -
  have n: "legal_name (ascii ''a'')" by (simp add: legal_name_def)
  obtain fs' where c: "file_create (replicate 32 0) blank_dentry (ascii ''a'' @ [0]) demo_fs = Some (1, fs')"
    "dir_ok fs'" "dir_names fs' = [ascii ''frame'', ascii ''a'']"
    using file_create_eq [OF demo_dir_ok(1) blank_dentry_ok, of "replicate 32 0" "ascii ''a'' @ [0]" "[]" 1]
    by (auto simp: clean_name_def dir_names_def dir_entries_def entry_abs_def entry_name_def demo_entry_def)
  obtain fs'' where r: "file_remove fs' (Some (ascii ''a'' @ [0])) blank_dentry = Some (0, fs'')"
    using file_remove_eq [OF c(2) blank_dentry_ok, of "ascii ''a'' @ [0]" 1] c(3)
    by (auto simp: find_from_def)
  show ?thesis
    using create_remove_leaks_inode [OF demo_dir_ok n, of 1 fs' 0 fs''] c r by auto
qed

text \<open>
  A file name of 32 characters or more (before its newline) is written past the local buffer
  of \<open>file_create\<close>, which has 32 bytes.
\<close>

theorem create_long_name_overflows:
  assumes "nul_terminated f" "length b = MAX_NAME_LEN" "MAX_NAME_LEN \<le> length (clean_name f)"
  shows "file_create b d f fs = None"
  using file_create_overflow assms by simp

theorem create_long_name_overflows_witness:
  "file_create (replicate 32 0) demo_entry (replicate 32 65 @ [0]) demo_fs = None"
proof -
  have "clean_name (replicate 32 65 @ [0]) = replicate 32 65"
    by (simp add: clean_name_def cstr_append_nul)
  then show ?thesis
    by (intro create_long_name_overflows) (simp_all add: nul_terminated_def)
qed

text \<open>
  In an empty directory the bound of \<open>read_dentry_by_index\<close> wraps around, so it succeeds for an
  index that names no file and hands out a stale entry.
\<close>

theorem empty_directory_bound_wraps:
  assumes "Num_Dentry fs = 0" "unat index < MAX_NUM_DENTRY"
    and "dentry_ok (dentry_array fs (unat index))" "dentry_ok d"
  shows "dir_entries fs = [] \<and>
    (\<exists>d'. read_dentry_by_index fs index (Some d) = Some (0, Some d') \<and>
      entry_abs d' = entry_abs (dentry_array fs (unat index)))"
  using read_dentry_by_index_empty [OF assms] assms(1)
  by (simp add: copied_dentry_abs dir_entries_def)

theorem empty_directory_bound_wraps_witness:
  "\<exists>d'. read_dentry_by_index (demo_fs\<lparr>Num_Dentry := 0\<rparr>) 7 (Some demo_entry) = Some (0, Some d')"
  using empty_directory_bound_wraps [where fs = "demo_fs\<lparr>Num_Dentry := 0\<rparr>" and index = 7
      and d = demo_entry]
  by auto

end
