(* ===== verification/Paging.thy ===== *)
theory Paging
  imports Prelude
begin

text \<open>
  \<open>student-distrib/paging.c\<close> and the address mapping part of \<open>vidmap\<close>: the page directory and the
  two page tables, with the translation the hardware makes of them. The addresses of the two tables
  are chosen by the linker and are parameters (\<open>vid_addr\<close>, \<open>vidpage_addr\<close>). Loading CR3 and setting
  the paging bits of CR0 and CR4 (\<open>paging_assemble_interface\<close>) is assembly.
\<close>

abbreviation "PRESENT \<equiv> 0x00000001 :: u32"
abbreviation "R_W \<equiv> 0x00000002 :: u32"
abbreviation "U_S \<equiv> 0x00000004 :: u32"
abbreviation "PS \<equiv> 0x00000080 :: u32"
abbreviation "GLOBAL \<equiv> 0x00000100 :: u32"
abbreviation "SUPERVISOR \<equiv> 0xfffffffB :: u32"
abbreviation "VIDEO_MEM_BASE \<equiv> 0xB8000 :: u32"
abbreviation "VIDEO_MEM_T1 \<equiv> 0xB9000 :: u32"
abbreviation "VIDEO_MEM_T2 \<equiv> 0xBA000 :: u32"
abbreviation "VIDEO_MEM_T3 \<equiv> 0xBB000 :: u32"
abbreviation "VIR_ADDR \<equiv> 0x08000000 :: u32"
abbreviation "PAGE_4MB \<equiv> 0x400000 :: u32"
abbreviation "PROGRAM_START_ADDR \<equiv> 0x800000 :: u32"

record page_tables =
  page_directory :: "nat \<Rightarrow> u32"
  page_table_vid :: "nat \<Rightarrow> u32"
  page_table_vidpage :: "nat \<Rightarrow> u32"

definition paging_terimal_init :: "'a page_tables_scheme \<Rightarrow> 'a page_tables_scheme" where
  "paging_terimal_init pt = pt\<lparr>page_table_vid := (page_table_vid pt)
     (0xB9 := VIDEO_MEM_T1 OR PRESENT, 0xBA := VIDEO_MEM_T2 OR PRESENT, 0xBB := VIDEO_MEM_T3 OR PRESENT)\<rparr>"

function paging_loop :: "'a page_tables_scheme \<Rightarrow> nat \<Rightarrow> 'a page_tables_scheme" where
  "paging_loop pt i =
     (if i < 1024 then
        paging_loop (pt\<lparr>page_directory := (page_directory pt)(i := 0 OR R_W),
           page_table_vid := (page_table_vid pt)(i := (of_nat i * 0x1000) OR R_W),
           page_table_vidpage := (page_table_vidpage pt)(i := (of_nat i * 0x1000) OR R_W)\<rparr>) (Suc i)
      else pt)"
  by pat_completeness auto
termination by (relation "measure (\<lambda>(pt, i). 1024 - i)") auto

declare paging_loop.simps [simp del]

definition paging_init :: "u32 \<Rightarrow> 'a page_tables_scheme \<Rightarrow> 'a page_tables_scheme" where
  "paging_init vid_addr pt =
     (let pt = paging_loop pt 0;
          pt = pt\<lparr>page_table_vid := (page_table_vid pt)(0xB8 := VIDEO_MEM_BASE OR PRESENT)\<rparr>;
          pt = paging_terimal_init pt;
          pt = pt\<lparr>page_directory := (page_directory pt)(0 := vid_addr OR PRESENT OR R_W)\<rparr>
      in pt\<lparr>page_directory := (page_directory pt)
           (1 := (push_bit 12 1024 OR PRESENT OR PS OR GLOBAL OR R_W) AND SUPERVISOR)\<rparr>)"

text \<open>The directory entry of a process's 4 MB page, as \<open>execute\<close> and \<open>pit_handler\<close> set it.\<close>

definition map_program :: "u32 \<Rightarrow> 'a page_tables_scheme \<Rightarrow> 'a page_tables_scheme" where
  "map_program pid pt =
     (let phy_addr = PROGRAM_START_ADDR + pid * PAGE_4MB in
      pt\<lparr>page_directory := (page_directory pt)(unat (VIR_ADDR div PAGE_4MB) :=
        push_bit 22 (phy_addr div PAGE_4MB) OR PRESENT OR PS OR GLOBAL OR R_W OR U_S)\<rparr>)"

text \<open>
  \<open>vidmap\<close>: the address check and the mapping; the result is the new value of \<open>*screen_start\<close>.
\<close>

definition vidmap ::
    "u32 \<Rightarrow> u32 \<Rightarrow> 'a page_tables_scheme \<Rightarrow> int \<times> u32 option \<times> 'a page_tables_scheme" where
  "vidmap vidpage_addr screen_start pt =
     (if screen_start = 0 \<or> screen_start < 0x8000000 \<or> screen_start > 0x8400000
      then (-1, None, pt)
      else
        (let pt = pt\<lparr>page_table_vidpage := (page_table_vidpage pt)
                   (0xB8 := VIDEO_MEM_BASE OR PRESENT OR R_W OR U_S)\<rparr>;
             pt = pt\<lparr>page_directory := (page_directory pt)
                   (unat ((VIR_ADDR + PAGE_4MB * 5) div PAGE_4MB) := vidpage_addr OR PRESENT OR R_W OR U_S)\<rparr>
         in (0, Some (VIR_ADDR + PAGE_4MB * 5 + VIDEO_MEM_BASE), pt)))"

section \<open>What the processor makes of the tables\<close>

text \<open>
  The page walk of the x86 for a 32-bit address: a directory entry with \<open>PS\<close> set maps 4 MB, any other
  present one names a page table. The result is the physical address and whether user code may use
  it; the tables are found by their address.
\<close>

definition table_at :: "u32 \<Rightarrow> u32 \<Rightarrow> 'a page_tables_scheme \<Rightarrow> u32 \<Rightarrow> (nat \<Rightarrow> u32) option" where
  "table_at vid_addr vidpage_addr pt a =
     (if a = vid_addr then Some (page_table_vid pt)
      else if a = vidpage_addr then Some (page_table_vidpage pt) else None)"

definition translate :: "u32 \<Rightarrow> u32 \<Rightarrow> 'a page_tables_scheme \<Rightarrow> u32 \<Rightarrow> (u32 \<times> bool) option" where
  "translate vid_addr vidpage_addr pt va =
     (let pde = page_directory pt (unat (drop_bit 22 va)) in
      if pde AND PRESENT = 0 then None
      else if pde AND PS \<noteq> 0
      then Some ((pde AND 0xFFC00000) OR (va AND 0x3FFFFF), pde AND U_S \<noteq> 0)
      else do {
        table \<leftarrow> table_at vid_addr vidpage_addr pt (pde AND 0xFFFFF000);
        (let pte = table (unat (drop_bit 12 va AND 0x3FF)) in
         if pte AND PRESENT = 0 then None
         else Some ((pte AND 0xFFFFF000) OR (va AND 0xFFF), pde AND U_S \<noteq> 0 \<and> pte AND U_S \<noteq> 0))
      })"

definition page_aligned :: "u32 \<Rightarrow> bool" where
  "page_aligned a \<longleftrightarrow> a AND 0xFFF = 0"

lemma aligned_flags:
  assumes "page_aligned a"
  shows "(a OR 3) AND 0xFFFFF000 = a" "(a OR 3) AND 0x80 = 0" "(a OR 3) AND 1 = 1" "(a OR 3) AND 4 = 0"
    "(a OR 7) AND 0xFFFFF000 = a" "(a OR 7) AND 0x80 = 0" "(a OR 7) AND 1 = 1" "(a OR 7) AND 4 = 4"
proof -
  have z: "a AND 0xFFF = 0" using assms by (simp add: page_aligned_def)
  have "a AND 0xFFFFF000 = a"
  proof -
    have "a = (a AND 0xFFFFF000) OR (a AND 0xFFF)"
    proof -
      have m: "(0xFFFFFFFF :: u32) = - 1" by simp
      have "(a AND 0xFFFFF000) OR (a AND 0xFFF) = a AND 0xFFFFFFFF"
        by (simp flip: bit.conj_disj_distrib)
      then show ?thesis unfolding m by simp
    qed
    then show ?thesis using z by simp
  qed
  moreover have "a AND 0x80 = 0" "a AND 4 = 0" 
    using arg_cong [OF z, of "\<lambda>x. x AND 0x80"] arg_cong [OF z, of "\<lambda>x. x AND 4"] by (simp_all add: and.assoc)
  ultimately show "(a OR 3) AND 0xFFFFF000 = a" "(a OR 3) AND 0x80 = 0" "(a OR 3) AND 1 = 1" "(a OR 3) AND 4 = 0"
    "(a OR 7) AND 0xFFFFF000 = a" "(a OR 7) AND 0x80 = 0" "(a OR 7) AND 1 = 1" "(a OR 7) AND 4 = 4"
    by (simp_all add: bit.conj_disj_distrib2)
qed

lemma split_word: "push_bit n (drop_bit n w) OR (w AND mask n) = (w :: u32)"
  by (rule bit_word_eqI) (auto simp: bit_simps)

lemma page_index: "unat (drop_bit n (va :: u32)) = unat va div 2 ^ n"
  unfolding unat_drop_bit_eq by (simp add: drop_bit_eq_div)

lemma paging_loop_eq:
  "i \<le> 1024 \<Longrightarrow> paging_loop pt i = pt\<lparr>
     page_directory := (\<lambda>k. if i \<le> k \<and> k < 1024 then R_W else page_directory pt k),
     page_table_vid := (\<lambda>k. if i \<le> k \<and> k < 1024 then (of_nat k * 0x1000) OR R_W else page_table_vid pt k),
     page_table_vidpage :=
       (\<lambda>k. if i \<le> k \<and> k < 1024 then (of_nat k * 0x1000) OR R_W else page_table_vidpage pt k)\<rparr>"
proof (induction "1024 - i" arbitrary: i pt)
  case 0
  then have i: "i = 1024" by simp
  have f: "(\<lambda>k. if 1024 \<le> k \<and> k < (1024 :: nat) then g k else f k) = f" for f g :: "nat \<Rightarrow> u32"
    by (auto simp: fun_eq_iff)
  show ?case unfolding i f by (subst paging_loop.simps) simp
next
  case (Suc n)
  then have i: "i < 1024" and n: "n = 1024 - Suc i" by arith+
  have e: "(\<lambda>k. if Suc i \<le> k \<and> k < 1024 then g k else (f(i := g i)) k) =
      (\<lambda>k. if i \<le> k \<and> k < 1024 then g k else f k)" for f g :: "nat \<Rightarrow> u32"
    using i by (auto simp: fun_eq_iff Suc_le_eq)
  show ?case
    using i Suc.hyps(1) [OF n] e [of "\<lambda>k. R_W"] e [of "\<lambda>k. (of_nat k * 0x1000) OR R_W"]
    by (subst paging_loop.simps) (simp cong: if_cong)
qed

text \<open>The tables after \<open>paging_init\<close>.\<close>

lemma paging_init_directory:
  "k < 1024 \<Longrightarrow> page_directory (paging_init vid_addr pt) k =
     (if k = 0 then vid_addr OR 3 else if k = 1 then 0x400183 else R_W)"
  by (simp add: paging_init_def Let_def paging_loop_eq paging_terimal_init_def or.assoc)

lemma paging_init_table:
  "k < 1024 \<Longrightarrow> page_table_vid (paging_init vid_addr pt) k =
     (if 0xB8 \<le> k \<and> k < 0xBC then of_nat k * 0x1000 + 1 else (of_nat k * 0x1000) OR R_W)"
proof -
  assume k: "k < 1024"
  have "0xB8 \<le> k \<and> k < 0xBC \<longleftrightarrow> k = 0xB8 \<or> k = 0xB9 \<or> k = 0xBA \<or> k = 0xBB" by auto
  with k show ?thesis
    by (auto simp: paging_init_def Let_def paging_loop_eq paging_terimal_init_def)
qed

lemma table_entry_absent: "((of_nat k * 0x1000) OR R_W) AND PRESENT = (0 :: u32)"
proof -
  have "of_nat k * 0x1000 = (push_bit 12 (of_nat k) :: u32)" by (simp add: push_bit_eq_mult)
  moreover have "push_bit 12 (of_nat k) AND PRESENT = (0 :: u32)"
    by (rule bit_word_eqI) (auto simp: bit_simps)
  ultimately show ?thesis by (simp add: bit.conj_disj_distrib2)
qed

lemma table_entry_present:
  "0xB8 \<le> k \<Longrightarrow> k < 0xBC \<Longrightarrow> (of_nat k * 0x1000 + 1) AND PRESENT = (1 :: u32) \<and>
     (of_nat k * 0x1000 + 1) AND U_S = (0 :: u32) \<and>
     (of_nat k * 0x1000 + 1) AND 0xFFFFF000 = (push_bit 12 (of_nat k) :: u32)"
proof -
  assume "0xB8 \<le> k" "k < 0xBC"
  then have "k = 0xB8 \<or> k = 0xB9 \<or> k = 0xBA \<or> k = 0xBB" by auto
  then show ?thesis by auto
qed

lemma translate_paging_init:
  assumes al: "page_aligned vid_addr"
  shows "translate vid_addr vidpage_addr (paging_init vid_addr pt) va =
    (if 0x400000 \<le> va \<and> va < 0x800000 \<or> 0xB8000 \<le> va \<and> va < 0xBC000 then Some (va, False) else None)"
proof -
  let ?d = "unat (drop_bit 22 va)" and ?pt = "paging_init vid_addr pt"
  have va: "unat va < 4294967296" by (rule u32_le_max)
  have d: "?d = unat va div 4194304" by (simp add: page_index)
  then have d1024: "?d < 1024" using va by (simp add: div_less_iff_less_mult)
  note pd = paging_init_directory [OF d1024, of vid_addr pt]
  have cond: "(0x400000 \<le> va \<and> va < 0x800000) = (?d = 1)"
    using va unfolding d word_le_nat_alt word_less_nat_alt by (auto simp: div_nat_eqI)
  consider (zero) "?d = 0" | (one) "?d = 1" | (other) "?d \<noteq> 0" "?d \<noteq> 1" by blast
  then show ?thesis
  proof cases
    case zero
    let ?i = "unat (drop_bit 12 va AND 0x3FF)"
    have small: "unat va < 4194304" using zero d by (simp add: div_eq_0_iff)
    have i: "?i = unat va div 4096" "drop_bit 12 va AND 0x3FF = drop_bit 12 va"
    proof -
      have "drop_bit 12 va AND mask 10 = take_bit 10 (drop_bit 12 va)"
        by (simp only: take_bit_eq_mask)
      also have "\<dots> = drop_bit 12 va"
        using small by (intro word_unat_eq_iff [THEN iffD2])
          (simp add: unsigned_take_bit_eq page_index take_bit_nat_eq_self div_less_iff_less_mult)
      finally show "drop_bit 12 va AND 0x3FF = drop_bit 12 va" by (simp add: mask_eq_exp_minus_1)
      then show "?i = unat va div 4096" by (simp add: page_index)
    qed
    then have i1024: "?i < 1024" using small by (simp add: div_less_iff_less_mult)
    note pte = paging_init_table [OF i1024, of vid_addr pt]
    have vc: "(0xB8000 \<le> va \<and> va < 0xBC000) = (0xB8 \<le> ?i \<and> ?i < 0xBC)"
      unfolding i(1) word_le_nat_alt word_less_nat_alt
      by (simp add: div_less_iff_less_mult less_eq_div_iff_mult_less_eq)
    have w: "page_directory ?pt ?d = vid_addr OR 3" using pd zero by simp
    have t: "table_at vid_addr vidpage_addr ?pt ((vid_addr OR 3) AND 0xFFFFF000) = Some (page_table_vid ?pt)"
      by (simp add: table_at_def aligned_flags [OF al])
    have tr: "translate vid_addr vidpage_addr ?pt va =
        (if page_table_vid ?pt ?i AND PRESENT = 0 then None
         else Some ((page_table_vid ?pt ?i AND 0xFFFFF000) OR (va AND 0xFFF), False))"
      unfolding translate_def Let_def w using t by (simp add: aligned_flags [OF al])
    show ?thesis
    proof (cases "0xB8 \<le> ?i \<and> ?i < 0xBC")
      case True
      have "push_bit 12 (of_nat ?i) OR (va AND 0xFFF) = va"
        using split_word [of 12 va] by (simp add: i(2) mask_eq_exp_minus_1)
      with True show ?thesis
        using tr pte vc cond zero table_entry_present [of ?i] by simp
    next
      case False
      have p: "page_table_vid ?pt ?i = (of_nat ?i * 0x1000) OR R_W"
        using pte unfolding if_not_P [OF False] .
      have "\<not> (0x400000 \<le> va \<and> va < 0x800000 \<or> 0xB8000 \<le> va \<and> va < 0xBC000)"
        using False cond zero unfolding vc by simp
      then show ?thesis using tr unfolding p table_entry_absent by simp
    qed
  next
    case one
    have "drop_bit 22 va = 1" using one by (simp add: word_unat_eq_iff)
    then have "0x400000 OR (va AND 0x3FFFFF) = va"
      using split_word [of 22 va] by (simp add: mask_eq_exp_minus_1)
    then show ?thesis using pd one cond by (simp add: translate_def Let_def)
  next
    case other
    have "4194304 \<le> unat va" using other(1) d by (simp add: div_eq_0_iff)
    then have "\<not> (0xB8000 \<le> va \<and> va < 0xBC000)" by (simp add: word_less_nat_alt)
    then show ?thesis using pd other cond by (simp add: translate_def Let_def)
  qed
qed

section \<open>The page of the running process\<close>

lemma program_frame:
  assumes "unat pid < 6"
  defines "e \<equiv> push_bit 22 ((PROGRAM_START_ADDR + pid * PAGE_4MB) div PAGE_4MB)
      OR PRESENT OR PS OR GLOBAL OR R_W OR U_S"
  shows "e AND PRESENT = 1" "e AND PS \<noteq> 0" "e AND U_S \<noteq> 0"
    "e AND 0xFFC00000 = PROGRAM_START_ADDR + pid * PAGE_4MB"
    "(PROGRAM_START_ADDR + pid * PAGE_4MB) AND 0x3FFFFF = 0"
proof -
  have "unat pid = 0 \<or> unat pid = 1 \<or> unat pid = 2 \<or> unat pid = 3 \<or> unat pid = 4 \<or> unat pid = 5"
    using assms(1) by arith
  then have "pid = 0 \<or> pid = 1 \<or> pid = 2 \<or> pid = 3 \<or> pid = 4 \<or> pid = 5"
    by (simp add: word_unat_eq_iff)
  then show "e AND PRESENT = 1" "e AND PS \<noteq> 0" "e AND U_S \<noteq> 0"
    "e AND 0xFFC00000 = PROGRAM_START_ADDR + pid * PAGE_4MB"
    "(PROGRAM_START_ADDR + pid * PAGE_4MB) AND 0x3FFFFF = 0"
    unfolding e_def by (elim disjE; simp)+
qed

lemma user_page_index:
  "(0x8000000 \<le> va \<and> va < 0x8400000) = (unat (drop_bit 22 (va :: u32)) = 32)"
proof -
  have "unat (drop_bit 22 va) = unat va div 4194304" by (simp add: page_index)
  moreover have "(134217728 \<le> n \<and> n < 138412032) = (n div 4194304 = 32)" for n :: nat by auto
  ultimately show ?thesis unfolding word_le_nat_alt word_less_nat_alt by simp
qed

lemma translate_user_entry:
  assumes e: "e AND PRESENT = 1" "e AND PS \<noteq> 0" "e AND U_S \<noteq> 0" "e AND 0xFFC00000 = b" "b AND 0x3FFFFF = 0"
  shows "translate v w (pt\<lparr>page_directory := (page_directory pt)(32 := e)\<rparr>) va =
    (if 0x8000000 \<le> va \<and> va < 0x8400000 then Some (b + (va - VIR_ADDR), True) else translate v w pt va)"
proof -
  let ?x = "va AND 0x3FFFFF"
  show ?thesis
  proof (cases "unat (drop_bit 22 va) = 32")
    case True
    then have "drop_bit 22 va = 32" by (simp add: word_unat_eq_iff)
    then have "0x8000000 OR ?x = va"
      using split_word [of 22 va] by (simp add: mask_eq_exp_minus_1)
    moreover have "0x8000000 AND ?x = 0" by (simp add: and.left_commute [of _ va])
    ultimately have "0x8000000 + ?x = va" using disjunctive_add_eq_or [of "0x8000000" ?x] by simp
    then have x: "?x = va - VIR_ADDR" by (simp add: eq_diff_eq add.commute)
    have "b AND ?x = va AND (b AND 0x3FFFFF)" by (simp only: ac_simps)
    also have "\<dots> = 0" unfolding e(5) by simp
    finally have "b OR ?x = b + ?x" by (rule disjunctive_add_eq_or [symmetric])
    with True show ?thesis
      unfolding user_page_index using e(1-4) by (simp add: translate_def Let_def x)
  next
    case False
    then show ?thesis
      unfolding user_page_index by (simp add: translate_def Let_def table_at_def)
  qed
qed

lemma translate_map_program:
  assumes pid: "unat pid < 6"
  shows "translate v w (map_program pid pt) va =
    (if 0x8000000 \<le> va \<and> va < 0x8400000
     then Some (PROGRAM_START_ADDR + pid * PAGE_4MB + (va - VIR_ADDR), True)
     else translate v w pt va)"
proof -
  have "unat (VIR_ADDR div PAGE_4MB) = 32" by simp
  then show ?thesis
    using translate_user_entry [OF program_frame [OF pid], of v w pt va]
    by (simp add: map_program_def Let_def)
qed

lemma program_address:
  assumes "unat r < 6" "0x8000000 \<le> x" "x < 0x8400000"
  shows "unat (PROGRAM_START_ADDR + r * PAGE_4MB + (x - VIR_ADDR)) =
      0x800000 + unat r * 0x400000 + (unat x - 0x8000000)" "unat x - 0x8000000 < 0x400000"
proof -
  have x: "unat (x - VIR_ADDR) = unat x - 0x8000000" "0x8000000 \<le> unat x" "unat x < 0x8400000"
    using assms(2,3) by (simp_all add: unat_sub word_le_nat_alt word_less_nat_alt)
  have "unat (r * PAGE_4MB) = unat r * 0x400000"
    using assms(1) by (simp add: unat_word_ariths)
  moreover have "unat (PROGRAM_START_ADDR + r * PAGE_4MB) = unat PROGRAM_START_ADDR + unat (r * PAGE_4MB)"
    using assms(1) calculation by (intro unat_add_u32) simp
  moreover have "unat (PROGRAM_START_ADDR + r * PAGE_4MB + (x - VIR_ADDR)) =
      unat (PROGRAM_START_ADDR + r * PAGE_4MB) + unat (x - VIR_ADDR)"
    using assms(1) calculation x by (intro unat_add_u32) simp
  ultimately show "unat (PROGRAM_START_ADDR + r * PAGE_4MB + (x - VIR_ADDR)) =
      0x800000 + unat r * 0x400000 + (unat x - 0x8000000)" "unat x - 0x8000000 < 0x400000"
    using x by simp_all
qed

lemma program_address_inj:
  assumes "unat p < 6" "unat q < 6" "p \<noteq> q"
    and "0x8000000 \<le> va" "va < 0x8400000" "0x8000000 \<le> vb" "vb < 0x8400000"
  shows "PROGRAM_START_ADDR + p * PAGE_4MB + (va - VIR_ADDR) \<noteq>
      PROGRAM_START_ADDR + q * PAGE_4MB + (vb - VIR_ADDR)"
proof
  assume "PROGRAM_START_ADDR + p * PAGE_4MB + (va - VIR_ADDR) =
      PROGRAM_START_ADDR + q * PAGE_4MB + (vb - VIR_ADDR)"
  then have "0x800000 + unat p * 0x400000 + (unat va - 0x8000000) =
      0x800000 + unat q * 0x400000 + (unat vb - 0x8000000)"
    using program_address(1) [OF assms(1,4,5)] program_address(1) [OF assms(2,6,7)] by simp
  then have "unat p = unat q"
    using program_address(2) [OF assms(1,4,5)] program_address(2) [OF assms(2,6,7)] by arith
  then show False using assms(3) by (simp add: word_unat_eq_iff)
qed

section \<open>Properties\<close>

definition demo_tables :: page_tables where
  "demo_tables = \<lparr>page_directory = (\<lambda>_. 0), page_table_vid = (\<lambda>_. 0), page_table_vidpage = (\<lambda>_. 0)\<rparr>"

text \<open>
  After \<open>paging_init\<close>, for every 32-bit address: the kernel's 4 MB page and the four video pages
  are mapped one to one, for the kernel only, and every other address, the null page included, is
  not mapped.
\<close>

theorem paging_init_maps_kernel_only:
  assumes "page_aligned vid_addr"
  shows "translate vid_addr vidpage_addr (paging_init vid_addr pt) va =
    (if 0x400000 \<le> va \<and> va < 0x800000 \<or> 0xB8000 \<le> va \<and> va < 0xBC000 then Some (va, False) else None)"
  by (rule translate_paging_init [OF assms])

theorem paging_init_maps_kernel_only_witness:
  "translate 0x410000 0x411000 (paging_init 0x410000 demo_tables) 0xB9004 = Some (0xB9004, False) \<and>
   translate 0x410000 0x411000 (paging_init 0x410000 demo_tables) 0 = None"
  using paging_init_maps_kernel_only [of "0x410000" "0x411000" demo_tables]
  by (simp add: page_aligned_def)

text \<open>
  C28. Processes are isolated: with the directory entry of a process installed, a user address of the
  4 MB program page goes to that process's own 4 MB of physical memory, which no other process
  shares, and no other address is translated differently.
\<close>

theorem program_pages_isolated:
  assumes "unat p < 6" "unat q < 6" "p \<noteq> q"
    and "0x8000000 \<le> va" "va < 0x8400000" "0x8000000 \<le> vb" "vb < 0x8400000"
  shows "translate v w (map_program p pt) va = Some (PROGRAM_START_ADDR + p * PAGE_4MB + (va - VIR_ADDR), True) \<and>
    translate v w (map_program p pt) va \<noteq> translate v w (map_program q pt) vb \<and>
    (\<forall>vc. \<not> (0x8000000 \<le> vc \<and> vc < 0x8400000) \<longrightarrow>
       translate v w (map_program p pt) vc = translate v w pt vc)"
  using assms program_address_inj [OF assms] by (simp add: translate_map_program)

theorem program_pages_isolated_witness:
  "translate 0 0 (map_program 1 demo_tables) 0x8048000 \<noteq> translate 0 0 (map_program 2 demo_tables) 0x8048000"
  by (rule program_pages_isolated [THEN conjunct2, THEN conjunct1]) simp_all

lemma window_offset:
  assumes "(k :: u32) < 0x1000"
  shows "k AND 0xFFF = k" "drop_bit 22 (0x94B8000 + k) = 37" "drop_bit 12 (0x94B8000 + k) = 0x94B8"
    "(0x94B8000 + k) AND 0xFFF = k" "0xB8000 OR k = 0xB8000 + k"
proof -
  have uk: "unat k < 4096" using assms by (simp add: word_less_nat_alt)
  have "take_bit 12 k = k"
    using uk by (intro word_unat_eq_iff [THEN iffD2]) (simp add: unsigned_take_bit_eq take_bit_nat_eq_self)
  then show kk: "k AND 0xFFF = k" by (simp add: take_bit_eq_mask mask_eq_exp_minus_1)
  have s: "unat (0x94B8000 + k) = 0x94B8000 + unat k"
    using uk by (subst unat_add_u32) simp_all
  have "unat (drop_bit 22 (0x94B8000 + k)) = 37" "unat (drop_bit 12 (0x94B8000 + k)) = 0x94B8"
    unfolding page_index s using uk by simp_all
  then show "drop_bit 22 (0x94B8000 + k) = 37" "drop_bit 12 (0x94B8000 + k) = 0x94B8"
    by (simp_all add: word_unat_eq_iff)
  have z: "0x94B8000 AND k = 0" "0xB8000 AND k = 0"
    using arg_cong [OF kk, of "\<lambda>x. 0x94B8000 AND x"] arg_cong [OF kk, of "\<lambda>x. 0xB8000 AND x"]
    by (simp_all add: and.left_commute [of _ k])
  show "0xB8000 OR k = 0xB8000 + k" using disjunctive_add_eq_or [OF z(2)] by simp
  show "(0x94B8000 + k) AND 0xFFF = k"
    unfolding disjunctive_add_eq_or [OF z(1)] bit.conj_disj_distrib2 kk by simp
qed

text \<open>
  \<open>vidmap\<close> gives user code a writable window on the 4 KB video page at the address it stores, and
  that address lies outside the 4 MB program page, so it hides nothing of the program; a pointer
  below the program page is refused and changes nothing.
\<close>

theorem vidmap_window:
  assumes "page_aligned vidpage_addr" "vidpage_addr \<noteq> vid_addr" "k < 0x1000"
    and "0x8000000 \<le> start" "start \<le> 0x8400000" "low < 0x8000000"
  shows "(case vidmap vidpage_addr start pt of (r, addr, pt') \<Rightarrow>
      r = 0 \<and> addr = Some 0x94B8000 \<and>
      translate vid_addr vidpage_addr pt' (0x94B8000 + k) = Some (0xB8000 + k, True) \<and>
      (\<forall>va :: u32. 0x8000000 \<le> va \<and> va < 0x8400000 \<longrightarrow>
        page_directory pt' (unat (drop_bit 22 va)) = page_directory pt (unat (drop_bit 22 va)))) \<and>
    vidmap vidpage_addr low pt = (-1, None, pt)"
proof -
  have "start \<noteq> 0" "\<not> start < 0x8000000" "\<not> 0x8400000 < start"
    using assms(4,5) by (auto simp: not_less not_le)
  moreover have "page_directory (pt\<lparr>page_table_vidpage := f, page_directory := (page_directory pt)(37 := e)\<rparr>)
      (unat (drop_bit 22 va)) = page_directory pt (unat (drop_bit 22 va))"
    if "0x8000000 \<le> va \<and> va < 0x8400000" for va :: u32 and f e
    using that unfolding user_page_index by simp
  moreover have "low = 0 \<or> low < 0x8000000 \<or> 0x8400000 < low" using assms(6) by simp
  ultimately show ?thesis
    using assms(2) window_offset [OF assms(3)] aligned_flags [OF assms(1)]
    unfolding user_page_index
    by (simp add: vidmap_def Let_def translate_def table_at_def or.assoc)
qed

theorem vidmap_window_witness:
  "fst (vidmap 0x411000 0x8000010 demo_tables) = 0 \<and>
   translate 0x410000 0x411000 (snd (snd (vidmap 0x411000 0x8000010 demo_tables))) 0x94B8004 = Some (0xB8004, True)"
  using vidmap_window [of "0x411000" "0x410000" 4 "0x8000010" 0 demo_tables]
  by (simp add: page_aligned_def case_prod_unfold)

end
