(* ===== verification/Console.thy ===== *)
theory Console
  imports Lib_Format Paging
begin

text \<open>
  The text console of \<open>student-distrib/lib.c\<close>: the video pages, the cursor, \<open>putc\<close>, \<open>putc_modf\<close>
  and its background variant \<open>putc_backstage\<close>, scrolling, clearing, \<open>puts\<close> and \<open>printf\<close>.

  The physical page \<open>0xB8000 + 4096*p\<close> is \<open>vram p\<close>: page 0 is on the display, pages 1 to 3 are the
  background pages of the three terminals. \<open>video_mem\<close> is the page that entry \<open>0xB8\<close> of the kernel's
  page table maps, so the same code draws on the display or in the background. An access outside
  that page is a fault.
\<close>

section \<open>State\<close>

abbreviation "NUM_COLS \<equiv> 80 :: int"
abbreviation "NUM_ROWS \<equiv> 25 :: int"
abbreviation "KB_BUF_SIZE \<equiv> 128 :: nat"
abbreviation "PG_SIZE_4KB \<equiv> 4096 :: nat"
abbreviation "VIDEO_FRAME \<equiv> 0xB8 :: nat" \<comment> \<open>\<open>VIDEO_MEM_BASE/PG_SIZE_4KB\<close>\<close>

record terminal_t =
  terminal_id :: int
  cursor_x :: int
  cursor_y :: int
  pidarray :: "nat \<Rightarrow> int"
  cur_pid_idx :: int
  kb_buf_idx_terminal :: int
  keyboard_buffer_terminal :: "u8 list"

record tty = page_tables +
  screen_x :: int
  screen_y :: int
  enter_or_overflow :: int
  vram :: "nat \<Rightarrow> nat \<Rightarrow> u8"
  csr_index :: u8                     \<comment> \<open>the register the CRT index port selects\<close>
  csr_regs :: "u8 \<Rightarrow> u8"              \<comment> \<open>the registers of the CRT controller\<close>
  cur_display_terminal_id :: u32
  terminal_now :: int
  terminals :: "nat \<Rightarrow> terminal_t"    \<comment> \<open>\<open>terminal_1\<close> to \<open>terminal_3\<close>\<close>
  keyboard_buffer :: "u8 list"
  kb_buf_idx :: u32
  enter_position :: int
  command_list :: "nat \<Rightarrow> nat \<Rightarrow> u8 list"
  command_total :: "nat \<Rightarrow> int"
  command_count :: "nat \<Rightarrow> int"

definition get_terminal_addr :: "int \<Rightarrow> nat" where
  "get_terminal_addr tid = (if tid = 1 then 1 else if tid = 2 then 2 else if tid = 3 then 3 else 1)"

text \<open>The terminal of the running process, \<open>get_terminal_addr(terminal_now+1)\<close>.\<close>

definition running_terminal :: "tty \<Rightarrow> nat" where
  "running_terminal t = get_terminal_addr (terminal_now t + 1)"

section \<open>Video memory\<close>

definition video_frame :: "tty \<Rightarrow> nat" where
  "video_frame t = unat (drop_bit 12 (page_table_vid t VIDEO_FRAME))"

definition video_mapped :: "tty \<Rightarrow> bool" where
  "video_mapped t \<longleftrightarrow> page_table_vid t VIDEO_FRAME AND 1 = 1 \<and>
     VIDEO_FRAME \<le> video_frame t \<and> video_frame t < VIDEO_FRAME + 4"

definition video_page :: "tty \<Rightarrow> nat" where
  "video_page t = video_frame t - VIDEO_FRAME"

text \<open>The store \<open>*(video_mem + off) = c\<close>.\<close>

definition vput :: "tty \<Rightarrow> int \<Rightarrow> u8 \<Rightarrow> tty option" where
  "vput t off c = do {
     require (video_mapped t \<and> 0 \<le> off \<and> off < int PG_SIZE_4KB);
     Some (t\<lparr>vram := (vram t)(video_page t := (vram t (video_page t))(nat off := c))\<rparr>)
   }"

definition cell :: "int \<Rightarrow> int \<Rightarrow> int" where
  "cell x y = 2 * (NUM_COLS * y + x)"

text \<open>The attribute byte after the character at \<open>off\<close>, chosen by the displayed terminal.\<close>

definition put_attrib :: "tty \<Rightarrow> u32 \<Rightarrow> int \<Rightarrow> tty option" where
  "put_attrib t tid off =
     (if tid = 1 then vput t (off + 1) 0x20
      else if tid = 2 then vput t (off + 1) 0x36
      else if tid = 3 then vput t (off + 1) 0x50
      else Some t)"

section \<open>The hardware cursor\<close>

definition outb_csr_index :: "u8 \<Rightarrow> tty \<Rightarrow> tty" where
  "outb_csr_index v t = t\<lparr>csr_index := v\<rparr>"

definition outb_csr_data :: "u8 \<Rightarrow> tty \<Rightarrow> tty" where
  "outb_csr_data v t = t\<lparr>csr_regs := (csr_regs t)(csr_index t := v)\<rparr>"

definition new_cursor :: "int \<Rightarrow> int \<Rightarrow> tty \<Rightarrow> tty" where
  "new_cursor x y t =
     (let position = word_of_int (y * NUM_COLS + x) :: u16;
          t = outb_csr_index 0x0F t;
          t = outb_csr_data (ucast (0xFF AND position)) t;
          t = outb_csr_index 0x0E t
      in outb_csr_data (ucast (0xFF AND drop_bit 8 position)) t)"

definition get_cursor_x :: "tty \<Rightarrow> int" where
  "get_cursor_x t = screen_x t"

definition get_cursor_y :: "tty \<Rightarrow> int" where
  "get_cursor_y t = screen_y t"

definition change_cursor_x :: "int \<Rightarrow> tty \<Rightarrow> tty" where
  "change_cursor_x x t = t\<lparr>screen_x := x\<rparr>"

definition change_cursor_y :: "int \<Rightarrow> tty \<Rightarrow> tty" where
  "change_cursor_y y t = t\<lparr>screen_y := y\<rparr>"

section \<open>Clearing and scrolling\<close>

function clear_loop :: "tty \<Rightarrow> nat \<Rightarrow> tty option" where
  "clear_loop t i =
     (if i < 2000 then do {
        t \<leftarrow> vput t (2 * int i) 0x20;
        t \<leftarrow> put_attrib t (cur_display_terminal_id t) (2 * int i);
        clear_loop t (Suc i)
      } else Some t)"
  by pat_completeness auto
termination by (relation "measure (\<lambda>(t, i). 2000 - i)") auto

declare clear_loop.simps [simp del]

definition clear :: "tty \<Rightarrow> tty option" where
  "clear t = do { t \<leftarrow> clear_loop t 0; Some (t\<lparr>screen_x := 0, screen_y := 0\<rparr>) }"

text \<open>\<open>test_interrupts\<close> counts up the character of every cell, to make a running clock visible.\<close>

function test_interrupts_loop :: "tty \<Rightarrow> nat \<Rightarrow> tty option" where
  "test_interrupts_loop t i =
     (if i < 2000 then do {
        t \<leftarrow> vput t (2 * int i) (vram t (video_page t) (2 * i) + 1);
        test_interrupts_loop t (Suc i)
      } else Some t)"
  by pat_completeness auto
termination by (relation "measure (\<lambda>(t, i). 2000 - i)") auto

declare test_interrupts_loop.simps [simp del]

definition test_interrupts :: "tty \<Rightarrow> tty option" where
  "test_interrupts t = test_interrupts_loop t 0"

text \<open>
  The attribute of \<open>clean_one_line\<close>: for terminals 1 and 2 it goes to the cell of the cursor, for
  terminal 3 to the first line of the screen.
\<close>

definition line_attrib :: "tty \<Rightarrow> nat \<Rightarrow> tty option" where
  "line_attrib t i =
     (if cur_display_terminal_id t = 1 \<or> cur_display_terminal_id t = 2
      then put_attrib t (cur_display_terminal_id t) (cell (screen_x t) (screen_y t))
      else if cur_display_terminal_id t = 3 then put_attrib t 3 (2 * int i)
      else Some t)"

function clean_one_line_loop :: "tty \<Rightarrow> int \<Rightarrow> nat \<Rightarrow> tty option" where
  "clean_one_line_loop t y i =
     (if i < 80 then do {
        t \<leftarrow> vput t (cell (int i) y) 0x20;
        t \<leftarrow> line_attrib t i;
        clean_one_line_loop t y (Suc i)
      } else Some t)"
  by pat_completeness auto
termination by (relation "measure (\<lambda>(t, y, i). 80 - i)") auto

declare clean_one_line_loop.simps [simp del]

definition clean_one_line :: "tty \<Rightarrow> int \<Rightarrow> tty option" where
  "clean_one_line t y = clean_one_line_loop t y 0"

function flush_loop :: "tty \<Rightarrow> nat \<Rightarrow> tty option" where
  "flush_loop t i =
     (if i < 25 then do { t \<leftarrow> clean_one_line t (int i); flush_loop t (Suc i) } else Some t)"
  by pat_completeness auto
termination by (relation "measure (\<lambda>(t, i). 25 - i)") auto

declare flush_loop.simps [simp del]

definition flush_screen :: "tty \<Rightarrow> tty option" where
  "flush_screen t = do {
     t \<leftarrow> flush_loop t 0;
     Some ((new_cursor 0 0 t)\<lparr>screen_x := 0, screen_y := 0\<rparr>)
   }"

text \<open>The two \<open>memcpy\<close> calls that move lines 1 to 24 one line up, through \<open>video_mem_temp\<close>.\<close>

definition scroll_up :: "tty \<Rightarrow> tty option" where
  "scroll_up t = do {
     require (video_mapped t);
     Some (t\<lparr>vram := (vram t)(video_page t :=
       (\<lambda>k. if k < 3840 then vram t (video_page t) (k + 160) else vram t (video_page t) k))\<rparr>)
   }"

definition newline :: "tty \<Rightarrow> tty option" where
  "newline t =
     (let t = t\<lparr>screen_y := screen_y t + 1, screen_x := 0\<rparr> in
      if screen_y t \<ge> NUM_ROWS then do {
        t \<leftarrow> scroll_up t;
        t \<leftarrow> clean_one_line t (NUM_ROWS - 1);
        Some (t\<lparr>screen_y := NUM_ROWS - 1\<rparr>)
      } else Some t)"

section \<open>Characters in the foreground\<close>

definition putc :: "u8 \<Rightarrow> tty \<Rightarrow> tty option" where
  "putc c t =
     (if c = of_char CHR 0x0A \<or> c = of_char CHR 0x0D
      then Some (t\<lparr>screen_y := screen_y t + 1, screen_x := 0\<rparr>)
      else do {
        t \<leftarrow> vput t (cell (screen_x t) (screen_y t)) c;
        t \<leftarrow> put_attrib t (cur_display_terminal_id t) (cell (screen_x t) (screen_y t));
        (let x = cmod (screen_x t + 1) NUM_COLS in
         Some (t\<lparr>screen_x := x,
                 screen_y := cmod (screen_y t + cdiv x NUM_COLS) NUM_ROWS\<rparr>))
      })"

text \<open>\<open>screen_x %= NUM_COLS; screen_y = (screen_y + screen_x/NUM_COLS) % NUM_ROWS;\<close>\<close>

definition normalize :: "tty \<Rightarrow> tty" where
  "normalize t =
     (let t = t\<lparr>screen_x := cmod (screen_x t) NUM_COLS\<rparr> in
      t\<lparr>screen_y := cmod (screen_y t + cdiv (screen_x t) NUM_COLS) NUM_ROWS\<rparr>)"

definition put_cell :: "u8 \<Rightarrow> tty \<Rightarrow> tty option" where
  "put_cell c t = do {
     t \<leftarrow> vput t (cell (screen_x t) (screen_y t)) c;
     put_attrib t (cur_display_terminal_id t) (cell (screen_x t) (screen_y t))
   }"

definition backspace :: "tty \<Rightarrow> tty option" where
  "backspace t =
     (if enter_or_overflow t = 1 then do {
        t \<leftarrow> put_cell 0 (if screen_x t \<noteq> 0 then t\<lparr>screen_x := screen_x t - 1\<rparr> else t);
        Some (normalize t)
      } else do {
        t \<leftarrow> put_cell 0 (t\<lparr>screen_x := screen_x t - 1\<rparr>);
        (let t = normalize t in
         if screen_x t \<le> 0
         then Some (t\<lparr>screen_x := NUM_COLS, screen_y := screen_y t - 1, enter_or_overflow := 1\<rparr>)
         else Some t)
      })"

definition put_normal :: "u8 \<Rightarrow> tty \<Rightarrow> tty option" where
  "put_normal c t = do {
     t \<leftarrow> put_cell c t;
     (let t = t\<lparr>screen_x := screen_x t + 1\<rparr> in do {
        t \<leftarrow> (if screen_x t \<ge> NUM_COLS
             then do { t \<leftarrow> newline t; Some (t\<lparr>enter_or_overflow := 0\<rparr>) } else Some t);
        Some (normalize t)
      })
   }"

definition putc_modf :: "u8 \<Rightarrow> tty \<Rightarrow> tty option" where
  "putc_modf c t =
     (if c = 0 then Some t
      else do {
        t \<leftarrow> (if c = of_char CHR 0x0A \<or> c = of_char CHR 0x0D
             then do { t \<leftarrow> newline t; Some (t\<lparr>enter_or_overflow := 1\<rparr>) }
             else if c = of_char CHR 0x09 then Some t
             else if c = of_char CHR 0x08 then backspace t
             else put_normal c t);
        Some (new_cursor (screen_x t) (screen_y t) t)
      })"

section \<open>Characters in the background\<close>

text \<open>
  The background variant moves the cursor of the running terminal and draws the character there,
  but it puts the attribute byte at the cell of the foreground cursor.
\<close>

definition set_cursor :: "int \<Rightarrow> int \<Rightarrow> tty \<Rightarrow> tty" where
  "set_cursor x y t = t\<lparr>terminals := (terminals t)(running_terminal t :=
     (terminals t (running_terminal t))\<lparr>cursor_x := x, cursor_y := y\<rparr>)\<rparr>"

definition back_x :: "tty \<Rightarrow> int" where
  "back_x t = cursor_x (terminals t (running_terminal t))"

definition back_y :: "tty \<Rightarrow> int" where
  "back_y t = cursor_y (terminals t (running_terminal t))"

definition newline_backstage :: "tty \<Rightarrow> tty option" where
  "newline_backstage t =
     (let t = set_cursor 0 (back_y t + 1) t in
      if back_y t \<ge> NUM_ROWS then do {
        t \<leftarrow> scroll_up t;
        t \<leftarrow> clean_one_line t (NUM_ROWS - 1);
        Some (set_cursor (back_x t) (NUM_ROWS - 1) t)
      } else Some t)"

definition normalize_backstage :: "tty \<Rightarrow> tty" where
  "normalize_backstage t =
     (let x = cmod (back_x t) NUM_COLS in
      set_cursor x (cmod (back_y t + cdiv x NUM_COLS) NUM_ROWS) t)"

definition put_cell_backstage :: "u8 \<Rightarrow> tty \<Rightarrow> tty option" where
  "put_cell_backstage c t = do {
     t \<leftarrow> vput t (cell (back_x t) (back_y t)) c;
     put_attrib t (word_of_int (terminal_now t + 1)) (cell (screen_x t) (screen_y t))
   }"

definition backspace_backstage :: "tty \<Rightarrow> tty option" where
  "backspace_backstage t =
     (if enter_or_overflow t = 1 then do {
        t \<leftarrow> put_cell_backstage 0
             (if back_x t \<noteq> 0 then set_cursor (back_x t - 1) (back_y t) t else t);
        Some (normalize_backstage t)
      } else do {
        t \<leftarrow> put_cell_backstage 0 (set_cursor (back_x t - 1) (back_y t) t);
        (let t = normalize_backstage t in
         if back_x t \<le> 0
         then Some ((set_cursor NUM_COLS (back_y t - 1) t)\<lparr>enter_or_overflow := 1\<rparr>)
         else Some t)
      })"

definition putc_backstage :: "u8 \<Rightarrow> tty \<Rightarrow> tty option" where
  "putc_backstage c t =
     (if c = of_char CHR 0x0A \<or> c = of_char CHR 0x0D
      then do { t \<leftarrow> newline_backstage t; Some (t\<lparr>enter_or_overflow := 1\<rparr>) }
      else if c = of_char CHR 0x09 then Some t
      else if c = of_char CHR 0x08 then backspace_backstage t
      else do {
        t \<leftarrow> put_cell_backstage c t;
        (let t = set_cursor (back_x t + 1) (back_y t) t in do {
           t \<leftarrow> (if back_x t \<ge> NUM_COLS
                then do { t \<leftarrow> newline_backstage t; Some (t\<lparr>enter_or_overflow := 0\<rparr>) } else Some t);
           Some (normalize_backstage t)
         })
      })"

section \<open>puts and printf\<close>

function puts_loop :: "u8 list \<Rightarrow> nat \<Rightarrow> tty \<Rightarrow> (nat \<times> tty) option" where
  "puts_loop s index t =
     (case buf_get s index of
        None \<Rightarrow> None
      | Some c \<Rightarrow>
          if c \<noteq> 0 then do { t \<leftarrow> putc_modf c t; puts_loop s (Suc index) t } else Some (index, t))"
  by pat_completeness auto
termination
  by (relation "measure (\<lambda>(s, index, t). length s - index)") (auto dest: buf_get_SomeD)

declare puts_loop.simps [simp del]

definition puts :: "u8 list \<Rightarrow> tty \<Rightarrow> (nat \<times> tty) option" where
  "puts s t = puts_loop s 0 t"

text \<open>The variable arguments of \<open>printf\<close>: a machine word or a pointer to a string.\<close>

datatype parg = Word_Arg u32 | Str_Arg "u8 list"

fun next_word :: "parg list \<Rightarrow> (u32 \<times> parg list) option" where
  "next_word (Word_Arg w # args) = Some (w, args)"
| "next_word _ = None"

fun next_string :: "parg list \<Rightarrow> (u8 list \<times> parg list) option" where
  "next_string (Str_Arg s # args) = Some (s, args)"
| "next_string _ = None"

function zero_fill :: "u8 list \<Rightarrow> nat \<Rightarrow> u8 list option" where
  "zero_fill conv_buf i =
     (if i < 8 then do { b \<leftarrow> buf_put conv_buf i (of_char CHR ''0''); zero_fill b (Suc i) }
      else Some conv_buf)"
  by pat_completeness auto
termination by (relation "measure (\<lambda>(b, i). 8 - i)") auto

declare zero_fill.simps [simp del]

text \<open>
  One conversion, as the string it hands to \<open>puts\<close> (or the character to \<open>putc_modf\<close>) and the
  arguments left. \<open>conv_buf\<close> is the uninitialised local array.
\<close>

definition hex_conversion :: "u8 list \<Rightarrow> bool \<Rightarrow> u32 \<Rightarrow> u8 list option" where
  "hex_conversion conv_buf alternate w =
     (if \<not> alternate then itoa w conv_buf 16
      else do {
        high \<leftarrow> itoa w (drop 8 conv_buf) 16;
        starting_index \<leftarrow> strlen high;
        b \<leftarrow> zero_fill (take 8 conv_buf @ high) starting_index;
        Some (drop starting_index b)
      })"

definition int_conversion :: "u8 list \<Rightarrow> u32 \<Rightarrow> u8 list option" where
  "int_conversion conv_buf value =
     (if value <s 0 then do {
        b \<leftarrow> buf_put conv_buf 0 (of_char CHR ''-'');
        d \<leftarrow> itoa (- value) (tl b) 10;
        Some (hd b # d)
      } else itoa value conv_buf 10)"

text \<open>
  The conversion after a \<open>%\<close>: \<open>fmt\<close> starts at the byte the switch looks at, and the result holds
  the number of format bytes used. A NUL there is the default case: it is skipped like any other.
\<close>

fun format_char_switch ::
    "u8 list \<Rightarrow> bool \<Rightarrow> u8 list \<Rightarrow> parg list \<Rightarrow> tty \<Rightarrow> (nat \<times> parg list \<times> tty) option" where
  "format_char_switch conv_buf alternate [] args t = None"
| "format_char_switch conv_buf alternate (c # fmt) args t =
     (if c = of_char CHR ''%'' then do { t \<leftarrow> putc_modf c t; Some (1, args, t) }
      else if c = of_char CHR ''#'' then do {
        (n, args, t) \<leftarrow> format_char_switch conv_buf True fmt args t;
        Some (Suc n, args, t)
      }
      else if c = of_char CHR ''x'' then do {
        (w, args) \<leftarrow> next_word args;
        s \<leftarrow> hex_conversion conv_buf alternate w;
        (_, t) \<leftarrow> puts s t;
        Some (1, args, t)
      }
      else if c = of_char CHR ''u'' then do {
        (w, args) \<leftarrow> next_word args;
        s \<leftarrow> itoa w (take 36 conv_buf) 10;
        (_, t) \<leftarrow> puts s t;
        Some (1, args, t)
      }
      else if c = of_char CHR ''d'' then do {
        (w, args) \<leftarrow> next_word args;
        s \<leftarrow> int_conversion (take 36 conv_buf) w;
        (_, t) \<leftarrow> puts s t;
        Some (1, args, t)
      }
      else if c = of_char CHR ''c'' then do {
        (w, args) \<leftarrow> next_word args;
        t \<leftarrow> putc_modf (ucast w) t;
        Some (1, args, t)
      }
      else if c = of_char CHR ''s'' then do {
        (s, args) \<leftarrow> next_string args;
        (_, t) \<leftarrow> puts s t;
        Some (1, args, t)
      }
      else Some (1, args, t))"

lemma format_char_switch_pos:
  "format_char_switch cb alt fmt args t = Some (n, args', t') \<Longrightarrow> 0 < n"
  by (cases fmt) (auto simp: bind_eq_Some_conv split: if_splits)

function printf_loop ::
    "u8 list \<Rightarrow> u8 list \<Rightarrow> nat \<Rightarrow> parg list \<Rightarrow> tty \<Rightarrow> (nat \<times> tty) option" where
  "printf_loop conv_buf format i args t =
     (case buf_get format i of
        None \<Rightarrow> None
      | Some c \<Rightarrow>
          if c = 0 then Some (i, t)
          else if c = of_char CHR ''%''
          then (case format_char_switch conv_buf False (drop (Suc i) format) args t of
                  None \<Rightarrow> None
                | Some (n, args, t) \<Rightarrow> printf_loop conv_buf format (Suc i + n) args t)
          else (case putc_modf c t of
                  None \<Rightarrow> None
                | Some t \<Rightarrow> printf_loop conv_buf format (Suc i) args t))"
  by pat_completeness auto
termination
  by (relation "measure (\<lambda>(cb, format, i, args, t). length format - i)")
    (auto dest: buf_get_SomeD)

declare printf_loop.simps [simp del]

definition printf :: "u8 list \<Rightarrow> u8 list \<Rightarrow> parg list \<Rightarrow> tty \<Rightarrow> (nat \<times> tty) option" where
  "printf conv_buf format args t = printf_loop conv_buf format 0 args t"

end
