(* ===== verification/Console_Props.thy ===== *)
theory Console_Props
  imports Console
begin

text \<open>
  The console keeps its cursor on the screen and never draws outside the video page; what a
  printed character, a newline and a scroll do to the text on the screen; and where the handling of
  overflowing lines goes wrong.
\<close>

section \<open>Drawing changes only the mapped video page\<close>

text \<open>The character at column \<open>c\<close> of row \<open>r\<close> of the page that is drawn on.\<close>

definition screen_text :: "tty \<Rightarrow> nat \<Rightarrow> nat \<Rightarrow> u8" where
  "screen_text t c r = vram t (video_page t) (2 * (80 * r + c))"

definition drawn :: "tty \<Rightarrow> tty \<Rightarrow> bool" where
  "drawn t t' \<longleftrightarrow> (\<exists>v. t' = t\<lparr>vram := v\<rparr> \<and> (\<forall>p. p \<noteq> video_page t \<longrightarrow> v p = vram t p))"

lemma drawn_refl [simp]: "drawn t t"
  unfolding drawn_def by (rule exI [of _ "vram t"]) simp

lemma video_vram [simp]:
  "video_mapped (t\<lparr>vram := v\<rparr>) = video_mapped t" "video_page (t\<lparr>vram := v\<rparr>) = video_page t"
  by (simp_all add: video_mapped_def video_page_def video_frame_def)

lemma video_cursor [simp]:
  "video_mapped (t\<lparr>screen_x := x\<rparr>) = video_mapped t" "video_page (t\<lparr>screen_x := x\<rparr>) = video_page t"
  "video_mapped (t\<lparr>screen_y := y\<rparr>) = video_mapped t" "video_page (t\<lparr>screen_y := y\<rparr>) = video_page t"
  "video_mapped (t\<lparr>enter_or_overflow := e\<rparr>) = video_mapped t"
  "video_page (t\<lparr>enter_or_overflow := e\<rparr>) = video_page t"
  by (simp_all add: video_mapped_def video_page_def video_frame_def)

lemma drawn_sel:
  assumes "drawn t t'"
  shows "screen_x t' = screen_x t" "screen_y t' = screen_y t"
    "enter_or_overflow t' = enter_or_overflow t" "video_mapped t' = video_mapped t"
    "video_page t' = video_page t" "cur_display_terminal_id t' = cur_display_terminal_id t"
  using assms by (auto simp: drawn_def)

lemma drawn_trans: "drawn t t1 \<Longrightarrow> drawn t1 t2 \<Longrightarrow> drawn t t2"
  by (auto simp: drawn_def)

lemma vput_eq:
  "video_mapped t \<Longrightarrow> 0 \<le> off \<Longrightarrow> off < 4096 \<Longrightarrow> vput t off c =
     Some (t\<lparr>vram := (vram t)(video_page t := (vram t (video_page t))(nat off := c))\<rparr>)"
  by (simp add: vput_def)

lemma vput_drawn: "vput t off c = Some t' \<Longrightarrow> drawn t t'"
  by (auto simp: vput_def drawn_def split: if_splits)

text \<open>An attribute byte is at an odd address, so it never changes a character.\<close>

lemma put_attrib_ok:
  assumes "video_mapped t" "0 \<le> off" "off < 4095" "even off"
  shows "\<exists>t'. put_attrib t tid off = Some t' \<and> drawn t t' \<and>
    (\<forall>k. even k \<longrightarrow> vram t' (video_page t) k = vram t (video_page t) k)"
proof -
  have odd: "odd (nat (off + 1))" using assms(2,4) by (simp add: even_nat_iff)
  have "\<exists>t'. vput t (off + 1) a = Some t' \<and> drawn t t' \<and>
      (\<forall>k. even k \<longrightarrow> vram t' (video_page t) k = vram t (video_page t) k)" for a
    using assms odd by (auto simp: vput_eq drawn_def)
  then show ?thesis by (simp add: put_attrib_def)
qed

lemma put_cell_ok:
  assumes "video_mapped t" "0 \<le> NUM_COLS * screen_y t + screen_x t"
    and "NUM_COLS * screen_y t + screen_x t \<le> 2000"
  shows "\<exists>t'. put_cell c t = Some t' \<and> drawn t t' \<and>
    (\<forall>k. even k \<longrightarrow> vram t' (video_page t) k =
       (if k = nat (cell (screen_x t) (screen_y t)) then c else vram t (video_page t) k))"
proof -
  let ?off = "cell (screen_x t) (screen_y t)"
  let ?t1 = "t\<lparr>vram := (vram t)(video_page t := (vram t (video_page t))(nat ?off := c))\<rparr>"
  have off: "0 \<le> ?off" "?off < 4095" "even ?off" using assms by (simp_all add: cell_def)
  have v: "vput t ?off c = Some ?t1" using assms(1) off by (simp add: vput_eq)
  obtain t' where a: "put_attrib ?t1 (cur_display_terminal_id t) ?off = Some t'" "drawn ?t1 t'"
    "\<forall>k. even k \<longrightarrow> vram t' (video_page t) k = vram ?t1 (video_page t) k"
    using put_attrib_ok [of ?t1 ?off "cur_display_terminal_id t"] assms(1) off by auto
  have "put_cell c t = Some t'" using v a(1) by (simp add: put_cell_def)
  moreover have "drawn t t'" using drawn_trans [OF vput_drawn [OF v] a(2)] .
  ultimately show ?thesis using a(3) by auto
qed

lemma line_attrib_ok:
  assumes "video_mapped t" "0 \<le> NUM_COLS * screen_y t + screen_x t"
    and "NUM_COLS * screen_y t + screen_x t \<le> 2000" "i < 80"
  shows "\<exists>t'. line_attrib t i = Some t' \<and> drawn t t' \<and>
    (\<forall>k. even k \<longrightarrow> vram t' (video_page t) k = vram t (video_page t) k)"
  using put_attrib_ok [of t "cell (screen_x t) (screen_y t)" "cur_display_terminal_id t"]
    put_attrib_ok [of t "2 * int i" 3] assms
  by (auto simp: line_attrib_def cell_def)

lemma clean_one_line_loop_ok:
  assumes "0 \<le> y" "y < 25" "i \<le> 80"
  shows "video_mapped t \<Longrightarrow> 0 \<le> NUM_COLS * screen_y t + screen_x t \<Longrightarrow>
    NUM_COLS * screen_y t + screen_x t \<le> 2000 \<Longrightarrow>
    \<exists>t'. clean_one_line_loop t y i = Some t' \<and> drawn t t' \<and>
      (\<forall>k. even k \<longrightarrow> vram t' (video_page t) k =
        (if nat (cell (int i) y) \<le> k \<and> k < nat (cell 80 y) then 0x20 else vram t (video_page t) k))"
  using assms
proof (induction "80 - i" arbitrary: i t)
  case 0
  then have "i = 80" by simp
  then show ?case by (intro exI [of _ t]) (subst clean_one_line_loop.simps, auto)
next
  case (Suc n)
  then have i: "i < 80" and n: "n = 80 - Suc i" by arith+
  let ?off = "cell (int i) y" and ?cur = "cell (screen_x t) (screen_y t)"
  let ?t1 = "t\<lparr>vram := (vram t)(video_page t := (vram t (video_page t))(nat ?off := 0x20))\<rparr>"
  have off: "0 \<le> ?off" "?off < 4096" using Suc.prems i by (simp_all add: cell_def)
  have v: "vput t ?off 0x20 = Some ?t1" using Suc.prems(1) off by (simp add: vput_eq)
  obtain t2 where t2: "line_attrib ?t1 i = Some t2" and d2: "drawn ?t1 t2"
    and e2: "\<And>k. even k \<Longrightarrow> vram t2 (video_page t) k = vram ?t1 (video_page t) k"
    using line_attrib_ok [of ?t1 i] Suc.prems i by auto
  note sel = drawn_sel [OF d2]
  have step: "clean_one_line_loop t y i = clean_one_line_loop t2 y (Suc i)"
    using i v t2 by (subst clean_one_line_loop.simps) simp
  have "\<exists>t'. clean_one_line_loop t2 y (Suc i) = Some t' \<and> drawn t2 t' \<and>
      (\<forall>k. even k \<longrightarrow> vram t' (video_page t2) k =
        (if nat (cell (int (Suc i)) y) \<le> k \<and> k < nat (cell 80 y) then 0x20
         else vram t2 (video_page t2) k))"
    using Suc.prems i n sel by (intro Suc.hyps(1)) auto
  then obtain t' where t': "clean_one_line_loop t2 y (Suc i) = Some t'" "drawn t2 t'"
    and e': "\<And>k. even k \<Longrightarrow> vram t' (video_page t) k =
      (if nat (cell (int (Suc i)) y) \<le> k \<and> k < nat (cell 80 y) then 0x20 else vram t2 (video_page t) k)"
    using sel by auto
  have "drawn t t'" using drawn_trans [OF drawn_trans [OF vput_drawn [OF v] d2] t'(2)] .
  moreover have "vram t' (video_page t) k =
      (if nat ?off \<le> k \<and> k < nat (cell 80 y) then 0x20 else vram t (video_page t) k)"
    if k: "even k" for k
  proof -
    have c: "nat (cell (int (Suc i)) y) = nat ?off + 2" "nat ?off + 2 \<le> nat (cell 80 y)"
      using Suc.prems i by (simp_all add: cell_def)
    have ev: "even (nat ?off)" using Suc.prems by (simp add: cell_def even_nat_iff)
    have "k \<noteq> Suc (nat ?off)" using k ev by auto
    then show ?thesis using e' [OF k] e2 [OF k] c by (auto simp: Suc_le_eq)
  qed
  ultimately show ?case using step t'(1) by auto
qed

lemma clean_one_line_ok:
  assumes "video_mapped t" "0 \<le> NUM_COLS * screen_y t + screen_x t"
    and "NUM_COLS * screen_y t + screen_x t \<le> 2000" "0 \<le> y" "y < 25"
  shows "\<exists>t'. clean_one_line t y = Some t' \<and> drawn t t' \<and>
      (\<forall>k. even k \<longrightarrow> vram t' (video_page t) k =
        (if nat (cell 0 y) \<le> k \<and> k < nat (cell 80 y) then 0x20 else vram t (video_page t) k))"
  using clean_one_line_loop_ok [of y 0 t] assms by (simp add: clean_one_line_def)

text \<open>\<open>flush_screen\<close> blanks the 25 lines and puts the cursor into the corner.\<close>

lemma flush_loop_ok:
  "i \<le> 25 \<Longrightarrow> video_mapped t \<Longrightarrow> 0 \<le> NUM_COLS * screen_y t + screen_x t \<Longrightarrow>
   NUM_COLS * screen_y t + screen_x t \<le> 2000 \<Longrightarrow>
   \<exists>t'. flush_loop t i = Some t' \<and> drawn t t' \<and>
     (\<forall>k. even k \<longrightarrow> vram t' (video_page t) k =
        (if 160 * i \<le> k \<and> k < 4000 then 0x20 else vram t (video_page t) k))"
proof (induction "25 - i" arbitrary: i t)
  case 0
  then show ?case by (intro exI [of _ t]) (subst flush_loop.simps, auto)
next
  case (Suc n)
  then have i: "i < 25" "n = 25 - Suc i" "Suc i \<le> 25" by arith+
  obtain t1 where t1: "clean_one_line t (int i) = Some t1" "drawn t t1"
      "\<forall>k. even k \<longrightarrow> vram t1 (video_page t) k =
        (if nat (cell 0 (int i)) \<le> k \<and> k < nat (cell 80 (int i)) then 0x20 else vram t (video_page t) k)"
    using clean_one_line_ok [of t "int i"] Suc.prems i by auto
  note sel = drawn_sel [OF t1(2)]
  obtain t' where t': "flush_loop t1 (Suc i) = Some t'" "drawn t1 t'"
      "\<forall>k. even k \<longrightarrow> vram t' (video_page t1) k =
        (if 160 * Suc i \<le> k \<and> k < 4000 then 0x20 else vram t1 (video_page t1) k)"
    using Suc.hyps(1) [OF i(2,3), of t1] Suc.prems sel by auto
  have "nat (cell 0 (int i)) = 160 * i" "nat (cell 80 (int i)) = 160 * Suc i" by (simp_all add: cell_def)
  then have "\<forall>k. even k \<longrightarrow> vram t' (video_page t) k =
      (if 160 * i \<le> k \<and> k < 4000 then 0x20 else vram t (video_page t) k)"
    using t1(3) t'(3) i(1) unfolding sel by auto
  moreover have "flush_loop t i = Some t'" using i(1) t1(1) t'(1) by (subst flush_loop.simps) simp
  ultimately show ?case using drawn_trans [OF t1(2) t'(2)] by blast
qed

lemma flush_screen_ok:
  assumes "video_mapped t" "0 \<le> NUM_COLS * screen_y t + screen_x t" "NUM_COLS * screen_y t + screen_x t \<le> 2000"
  shows "\<exists>v. flush_screen t = Some ((new_cursor 0 0 (t\<lparr>vram := v\<rparr>))\<lparr>screen_x := 0, screen_y := 0\<rparr>) \<and>
    (\<forall>p. p \<noteq> video_page t \<longrightarrow> v p = vram t p) \<and> (\<forall>c < 80. \<forall>r < 25. v (video_page t) (2 * (80 * r + c)) = 0x20)"
proof -
  obtain t' where t': "flush_loop t 0 = Some t'" "drawn t t'"
      "\<forall>k. even k \<longrightarrow> vram t' (video_page t) k = (if 160 * 0 \<le> k \<and> k < 4000 then 0x20 else vram t (video_page t) k)"
    using flush_loop_ok [of 0 t] assms by auto
  then obtain v where "t' = t\<lparr>vram := v\<rparr>" "\<forall>p. p \<noteq> video_page t \<longrightarrow> v p = vram t p" by (auto simp: drawn_def)
  then show ?thesis using t'(1,3) by (intro exI [of _ v]) (auto simp: flush_screen_def)
qed

section \<open>Newlines and scrolling\<close>

text \<open>What \<open>newline\<close> leaves alone: everything but the cursor and the page that is drawn on.\<close>

definition moved :: "tty \<Rightarrow> tty \<Rightarrow> bool" where
  "moved t t' \<longleftrightarrow> t' = t\<lparr>vram := vram t', screen_x := screen_x t', screen_y := screen_y t'\<rparr> \<and>
     (\<forall>p. p \<noteq> video_page t \<longrightarrow> vram t' p = vram t p)"

lemma moved_sel:
  assumes "moved t t'"
  shows "enter_or_overflow t' = enter_or_overflow t" "video_mapped t' = video_mapped t"
    "video_page t' = video_page t" "cur_display_terminal_id t' = cur_display_terminal_id t"
proof -
  have "t' = t\<lparr>vram := vram t', screen_x := screen_x t', screen_y := screen_y t'\<rparr>" (is "_ = ?u")
    using assms by (simp add: moved_def)
  moreover have "enter_or_overflow ?u = enter_or_overflow t" "video_mapped ?u = video_mapped t"
    "video_page ?u = video_page t" "cur_display_terminal_id ?u = cur_display_terminal_id t"
    by simp_all
  ultimately show "enter_or_overflow t' = enter_or_overflow t" "video_mapped t' = video_mapped t"
    "video_page t' = video_page t" "cur_display_terminal_id t' = cur_display_terminal_id t"
    by metis+
qed

definition scrolled_text :: "tty \<Rightarrow> nat \<Rightarrow> nat \<Rightarrow> u8" where
  "scrolled_text t c r = (if r < 24 then screen_text t c (Suc r) else 0x20)"

lemma newline_ok:
  assumes m: "video_mapped t" and y: "-1 \<le> screen_y t" "screen_y t < 25"
  shows "\<exists>t'. newline t = Some t' \<and> moved t t' \<and> screen_x t' = 0 \<and>
    screen_y t' = min 24 (screen_y t + 1) \<and>
    (\<forall>c < 80. \<forall>r < 25. screen_text t' c r =
       (if screen_y t = 24 then scrolled_text t c r else screen_text t c r))"
proof (cases "screen_y t = 24")
  case False
  then have "newline t = Some (t\<lparr>screen_y := screen_y t + 1, screen_x := 0\<rparr>)"
    using y by (simp add: newline_def)
  moreover have "moved t (t\<lparr>screen_y := screen_y t + 1, screen_x := 0\<rparr>)"
    by (simp add: moved_def)
  ultimately show ?thesis using False y by (auto simp: screen_text_def)
next
  case True
  let ?t1 = "t\<lparr>screen_y := 25, screen_x := 0\<rparr>"
  let ?t2 = "?t1\<lparr>vram := (vram t)(video_page t :=
      (\<lambda>k. if k < 3840 then vram t (video_page t) (k + 160) else vram t (video_page t) k))\<rparr>"
  have s: "scroll_up ?t1 = Some ?t2" using m by (simp add: scroll_up_def cong: if_cong)
  obtain t3 where c: "clean_one_line ?t2 24 = Some t3" and d: "drawn ?t2 t3"
    and e: "\<And>k. even k \<Longrightarrow> vram t3 (video_page t) k =
      (if nat (cell 0 24) \<le> k \<and> k < nat (cell 80 24) then 0x20 else vram ?t2 (video_page t) k)"
    using clean_one_line_ok [of ?t2 24] m by auto
  have "newline t = Some (t3\<lparr>screen_y := 24\<rparr>)"
    using True s c by (simp add: newline_def Let_def)
  moreover have "moved t (t3\<lparr>screen_y := 24\<rparr>)"
    using d by (auto simp: drawn_def moved_def)
  moreover have "screen_x t3 = 0" using drawn_sel [OF d] by simp
  moreover have "screen_text (t3\<lparr>screen_y := 24\<rparr>) k r = scrolled_text t k r"
    if "k < 80" "r < 25" for k r
  proof -
    have "2 * (80 * r + k) + 160 = 2 * (80 * Suc r + k)" by simp
    then show ?thesis
      using that drawn_sel [OF d] e [of "2 * (80 * r + k)"]
      by (auto simp: screen_text_def scrolled_text_def cell_def add_ac)
  qed
  ultimately show ?thesis using True by auto
qed

section \<open>The cursor stays on the screen\<close>

text \<open>
  The cursor is on the screen, or one past the end of a line that backspacing came back to; and a
  line that was opened by an overflow is never the first one.
\<close>

definition console_inv :: "tty \<Rightarrow> bool" where
  "console_inv t \<longleftrightarrow> video_mapped t \<and>
     (enter_or_overflow t = 0 \<or> enter_or_overflow t = 1) \<and>
     (0 \<le> screen_x t \<and> screen_x t < 80 \<and> 0 \<le> screen_y t \<and> screen_y t < 25 \<or>
      screen_x t = 80 \<and> 0 \<le> screen_y t \<and> screen_y t < 24 \<and> enter_or_overflow t = 1) \<and>
     (enter_or_overflow t = 0 \<longrightarrow> 1 \<le> screen_y t)"

lemma normalize_id:
  "0 \<le> screen_x t \<Longrightarrow> screen_x t < 80 \<Longrightarrow> 0 \<le> screen_y t \<Longrightarrow> screen_y t < 25 \<Longrightarrow> normalize t = t"
  by (simp add: normalize_def Let_def)

lemma console_inv_cursor [simp]: "console_inv (new_cursor x y t) = console_inv t"
  by (simp add: console_inv_def new_cursor_def outb_csr_index_def outb_csr_data_def Let_def
      video_mapped_def video_frame_def)

lemma backspace_inv:
  assumes inv: "console_inv t"
  shows "\<exists>t'. backspace t = Some t' \<and> console_inv t'"
proof (cases "enter_or_overflow t = 1")
  case True
  let ?t1 = "if screen_x t \<noteq> 0 then t\<lparr>screen_x := screen_x t - 1\<rparr> else t"
  have r: "0 \<le> screen_x ?t1" "screen_x ?t1 < 80" "0 \<le> screen_y ?t1" "screen_y ?t1 < 25"
    "video_mapped ?t1" "enter_or_overflow ?t1 = 1"
    using inv True by (auto simp: console_inv_def)
  obtain t2 where p: "put_cell 0 ?t1 = Some t2" and d: "drawn ?t1 t2"
    using put_cell_ok [of ?t1 0] r by auto
  have "console_inv t2" "normalize t2 = t2"
    using drawn_sel [OF d] r by (auto simp: console_inv_def normalize_id)
  then show ?thesis using True p by (auto simp: backspace_def)
next
  case False
  let ?t1 = "t\<lparr>screen_x := screen_x t - 1\<rparr>"
  have f: "enter_or_overflow t = 0" "1 \<le> screen_y t" "screen_y t < 25" "0 \<le> screen_x t"
    "screen_x t < 80" "video_mapped t"
    using inv False by (auto simp: console_inv_def)
  obtain t2 where p: "put_cell 0 ?t1 = Some t2" and d: "drawn ?t1 t2"
    using put_cell_ok [of ?t1 0] f by auto
  note sel = drawn_sel [OF d]
  show ?thesis
  proof (cases "screen_x t \<le> 1")
    case True
    have "screen_x (normalize t2) \<le> 0" "screen_y (normalize t2) = screen_y t"
      using sel f True by (auto simp: normalize_def Let_def cmod_def cdiv_def)
    then show ?thesis
      using False p f sel by (auto simp: backspace_def Let_def console_inv_def normalize_def)
  next
    case F: False
    then have "normalize t2 = t2" using sel f by (simp add: normalize_id)
    then show ?thesis using F False p f sel by (auto simp: backspace_def Let_def console_inv_def)
  qed
qed

lemma put_normal_inv:
  assumes inv: "console_inv t"
  shows "\<exists>t'. put_normal c t = Some t' \<and> console_inv t'"
proof -
  have m: "video_mapped t" and r: "0 \<le> screen_x t" "screen_x t \<le> 80" "0 \<le> screen_y t"
    "screen_y t < 25" "NUM_COLS * screen_y t + screen_x t \<le> 2000"
    using inv by (auto simp: console_inv_def)
  obtain t1 where p: "put_cell c t = Some t1" and d: "drawn t t1"
    using put_cell_ok [of t c] m r by auto
  note sel = drawn_sel [OF d]
  show ?thesis
  proof (cases "screen_x t + 1 < 80")
    case True
    then have "normalize (t1\<lparr>screen_x := screen_x t1 + 1\<rparr>) = t1\<lparr>screen_x := screen_x t1 + 1\<rparr>"
      using sel r by (simp add: normalize_id)
    then show ?thesis
      using True p inv sel by (auto simp: put_normal_def Let_def console_inv_def)
  next
    case False
    let ?t2 = "t1\<lparr>screen_x := screen_x t1 + 1\<rparr>"
    obtain t3 where n: "newline ?t2 = Some t3" "moved ?t2 t3" "screen_x t3 = 0"
      "screen_y t3 = min 24 (screen_y t + 1)"
      using newline_ok [of ?t2] m r sel by auto
    have "normalize (t3\<lparr>enter_or_overflow := 0\<rparr>) = t3\<lparr>enter_or_overflow := 0\<rparr>"
      using n r by (simp add: normalize_id)
    then show ?thesis
      using False p n r m sel moved_sel [OF n(2)] by (auto simp: put_normal_def Let_def console_inv_def)
  qed
qed

lemma putc_modf_inv:
  assumes inv: "console_inv t"
  shows "\<exists>t'. putc_modf c t = Some t' \<and> console_inv t'"
proof -
  have m: "video_mapped t" and r: "0 \<le> screen_y t" "screen_y t < 25"
    using inv by (auto simp: console_inv_def)
  obtain t1 where n: "newline t = Some t1" "moved t t1" "screen_x t1 = 0"
      "screen_y t1 = min 24 (screen_y t + 1)"
    using newline_ok [of t] m r by auto
  then have "console_inv (t1\<lparr>enter_or_overflow := 1\<rparr>)"
    using moved_sel [OF n(2)] m r by (auto simp: console_inv_def)
  then show ?thesis
    using n(1) backspace_inv [OF inv] put_normal_inv [OF inv, of c] inv
    by (auto simp: putc_modf_def)
qed

section \<open>Text on the screen\<close>

text \<open>The CRT registers name the cell of the cursor.\<close>

definition cursor_shown :: "tty \<Rightarrow> bool" where
  "cursor_shown t \<longleftrightarrow>
     uint (csr_regs t 0x0E) * 256 + uint (csr_regs t 0x0F) = NUM_COLS * screen_y t + screen_x t"

lemma new_cursor_sel [simp]:
  "screen_x (new_cursor x y t) = screen_x t" "screen_y (new_cursor x y t) = screen_y t"
  "vram (new_cursor x y t) = vram t" "enter_or_overflow (new_cursor x y t) = enter_or_overflow t"
  "video_page (new_cursor x y t) = video_page t" "video_mapped (new_cursor x y t) = video_mapped t"
  "keyboard_buffer (new_cursor x y t) = keyboard_buffer t" "kb_buf_idx (new_cursor x y t) = kb_buf_idx t"
  by (simp_all add: new_cursor_def outb_csr_index_def outb_csr_data_def Let_def
      video_page_def video_frame_def video_mapped_def)

lemma screen_text_cursor [simp]: "screen_text (new_cursor x y t) = screen_text t"
  by (simp add: screen_text_def fun_eq_iff)

lemma ucast_and_255: "(ucast (0xFF AND w :: u16) :: u8) = ucast w"
proof -
  have m: "(0xFF :: u16) = mask 8" by (simp add: mask_eq_exp_minus_1)
  show ?thesis unfolding m by (rule bit_word_eqI) (simp add: bit_simps del: mask_numeral)
qed
lemma cursor_bytes: "uint (ucast (0xFF AND drop_bit 8 p) :: u8) * 256 + uint (ucast (0xFF AND p :: u16) :: u8) = uint p"
proof -
  have "uint p < 65536" using uint_lt2p [of p] by simp
  then have "uint p div 256 < 256" by (simp add: div_less_iff_less_mult)
  moreover have "0 \<le> uint p div 256" by (simp add: pos_imp_zdiv_nonneg_iff)
  ultimately have "uint p div 256 mod 256 = uint p div 256" by (rule mod_pos_pos_trivial [rotated])
  moreover have "uint (ucast (drop_bit 8 p) :: u8) = uint p div 256 mod 256"
    by (simp only: unsigned_ucast_eq unsigned_drop_bit_eq drop_bit_eq_div take_bit_eq_mod) (simp add: uint_div)
  moreover have "uint (ucast p :: u8) = uint p mod 256"
    by (simp only: unsigned_ucast_eq take_bit_eq_mod) simp
  ultimately show ?thesis unfolding ucast_and_255 by simp
qed

lemma cell_inj:
  assumes "0 \<le> k" "k < 80" "0 \<le> x" "x < 80"
  shows "(80 * l + k = 80 * y + x) \<longleftrightarrow> (k = x \<and> l = (y::int))"
proof
  assume e: "80 * l + k = 80 * y + x"
  have "k = (80 * l + k) mod 80" using assms by simp
  also have "\<dots> = x" unfolding e using assms by simp
  finally show "k = x \<and> l = y" using e by simp
qed simp

lemma new_cursor_shown:
  assumes "0 \<le> NUM_COLS * screen_y t + screen_x t" "NUM_COLS * screen_y t + screen_x t < 65536"
  shows "cursor_shown (new_cursor (screen_x t) (screen_y t) t)"
proof -
  let ?p = "NUM_COLS * screen_y t + screen_x t"
  let ?w = "word_of_int (screen_y t * NUM_COLS + screen_x t) :: u16"
  have "uint (word_of_int p :: u16) = p" if "0 \<le> p" "p < 65536" for p
    using that by (simp add: uint_word_of_int)
  from this [of "screen_y t * NUM_COLS + screen_x t"] have w: "uint ?w = ?p"
    using assms by (simp only: mult.commute)
  show ?thesis
    using cursor_bytes [of ?w] w
    by (simp add: cursor_shown_def new_cursor_def outb_csr_index_def outb_csr_data_def Let_def)
qed

lemma screen_text_sel [simp]:
  "screen_text (t\<lparr>screen_x := x\<rparr>) = screen_text t" "screen_text (t\<lparr>screen_y := y\<rparr>) = screen_text t"
  "screen_text (t\<lparr>enter_or_overflow := e\<rparr>) = screen_text t"
  by (simp_all add: screen_text_def fun_eq_iff)

lemma put_cell_text:
  assumes "video_mapped t" "0 \<le> NUM_COLS * screen_y t + screen_x t"
    and "NUM_COLS * screen_y t + screen_x t \<le> 2000"
  shows "\<exists>t'. put_cell c t = Some t' \<and> drawn t t' \<and>
    (\<forall>k < 80. \<forall>r. screen_text t' k r =
       (if int (80 * r + k) = NUM_COLS * screen_y t + screen_x t then c else screen_text t k r))"
proof -
  obtain t' where p: "put_cell c t = Some t'" and d: "drawn t t'"
    and e: "\<And>k. even k \<Longrightarrow> vram t' (video_page t) k =
       (if k = nat (cell (screen_x t) (screen_y t)) then c else vram t (video_page t) k)"
    using put_cell_ok [OF assms] by blast
  have "(2 * (80 * r + k) = nat (cell (screen_x t) (screen_y t))) =
      (int (80 * r + k) = NUM_COLS * screen_y t + screen_x t)" for r k
    using assms(2) by (auto simp: cell_def)
  then show ?thesis using p d e drawn_sel [OF d] by (auto simp: screen_text_def)
qed

text \<open>A character that is printed, not interpreted.\<close>

definition printable :: "u8 \<Rightarrow> bool" where
  "printable c \<longleftrightarrow> c \<notin> {0, of_char CHR 0x08, of_char CHR 0x09, of_char CHR 0x0A, of_char CHR 0x0D}"

lemma putc_modf_printable:
  "printable c \<Longrightarrow> putc_modf c t =
     map_option (\<lambda>t. new_cursor (screen_x t) (screen_y t) t) (put_normal c t)"
  by (cases "put_normal c t") (simp_all add: putc_modf_def printable_def)

lemma putc_modf_inside:
  assumes m: "video_mapped t" and c: "printable c"
    and r: "0 \<le> screen_x t" "screen_x t < 79" "0 \<le> screen_y t" "screen_y t < 25"
  shows "\<exists>t'. putc_modf c t = Some t' \<and> screen_x t' = screen_x t + 1 \<and> screen_y t' = screen_y t \<and>
    enter_or_overflow t' = enter_or_overflow t \<and> video_mapped t' \<and> cursor_shown t' \<and>
    (\<forall>k < 80. \<forall>l. screen_text t' k l =
       (if int k = screen_x t \<and> int l = screen_y t then c else screen_text t k l))"
proof -
  obtain t1 where p: "put_cell c t = Some t1" and d: "drawn t t1"
    and e: "\<And>k l. k < 80 \<Longrightarrow> screen_text t1 k l =
       (if int (80 * l + k) = NUM_COLS * screen_y t + screen_x t then c else screen_text t k l)"
    using put_cell_text [of t c] m r by auto
  note sel = drawn_sel [OF d]
  let ?t2 = "t1\<lparr>screen_x := screen_x t1 + 1\<rparr>"
  have n: "normalize ?t2 = ?t2" using sel r by (simp add: normalize_id)
  have q: "put_normal c t = Some ?t2" using p n sel r by (simp add: put_normal_def Let_def)
  have pos: "(int (80 * l + k) = NUM_COLS * screen_y t + screen_x t) \<longleftrightarrow>
      int k = screen_x t \<and> int l = screen_y t" if "k < 80" for k l
    using cell_inj [of "int k" "screen_x t" "int l" "screen_y t"] that r by simp
  have "cursor_shown (new_cursor (screen_x ?t2) (screen_y ?t2) ?t2)"
    by (rule new_cursor_shown) (use sel r in auto)
  then show ?thesis
    using putc_modf_printable [OF c, of t] q sel m e pos by simp
qed

lemma put_normal_at_end:
  assumes m: "video_mapped t" and r: "79 \<le> screen_x t" "screen_x t \<le> 80"
    "0 \<le> screen_y t" "screen_y t < 25" "NUM_COLS * screen_y t + screen_x t \<le> 2000"
  shows "\<exists>t1 t'. put_cell c t = Some t1 \<and> drawn t t1 \<and> put_normal c t = Some t' \<and>
    screen_x t' = 0 \<and> screen_y t' = min 24 (screen_y t + 1) \<and> enter_or_overflow t' = 0 \<and>
    video_mapped t' \<and>
    (\<forall>k < 80. \<forall>l < 25. screen_text t' k l =
       (if screen_y t = 24 then scrolled_text t1 k l else screen_text t1 k l))"
proof -
  obtain t1 where p: "put_cell c t = Some t1" and d: "drawn t t1"
    using put_cell_text [of t c] m r by auto
  note sel = drawn_sel [OF d]
  let ?t2 = "t1\<lparr>screen_x := screen_x t1 + 1\<rparr>"
  obtain t3 where n: "newline ?t2 = Some t3" "moved ?t2 t3" "screen_x t3 = 0"
      "screen_y t3 = min 24 (screen_y t + 1)"
    and e: "\<And>k l. k < 80 \<Longrightarrow> l < 25 \<Longrightarrow> screen_text t3 k l =
       (if screen_y t = 24 then scrolled_text ?t2 k l else screen_text ?t2 k l)"
    using newline_ok [of ?t2] m r sel by auto
  have id: "normalize (t3\<lparr>enter_or_overflow := 0\<rparr>) = t3\<lparr>enter_or_overflow := 0\<rparr>"
    using n r by (simp add: normalize_id)
  have "put_normal c t = Some (t3\<lparr>enter_or_overflow := 0\<rparr>)"
    using p n id r sel by (simp add: put_normal_def Let_def)
  moreover have "screen_text (t3\<lparr>enter_or_overflow := 0\<rparr>) k l =
      (if screen_y t = 24 then scrolled_text t1 k l else screen_text t1 k l)" if "k < 80" "l < 25" for k l
    using e [OF that] that by (simp add: scrolled_text_def)
  ultimately show ?thesis
    using p d n sel m moved_sel [OF n(2)] by (intro exI [of _ t1] exI) auto
qed

section \<open>Properties\<close>

definition demo_tty :: tty where
  "demo_tty = \<lparr>page_directory = (\<lambda>_. 0), page_table_vid = (\<lambda>_. 0xB8003),
     page_table_vidpage = (\<lambda>_. 0), screen_x = 1, screen_y = 3, enter_or_overflow = 0, vram = (\<lambda>_ _. 0x20),
     csr_index = 0, csr_regs = (\<lambda>_. 0),
     cur_display_terminal_id = 1, terminal_now = 0,
     terminals = (\<lambda>i. \<lparr>terminal_id = int i, cursor_x = 0, cursor_y = 0, pidarray = (\<lambda>_. 0),
        cur_pid_idx = 0, kb_buf_idx_terminal = 0, keyboard_buffer_terminal = replicate 128 0\<rparr>),
     keyboard_buffer = replicate 128 0, kb_buf_idx = 0, enter_position = 0,
     command_list = (\<lambda>_ _. replicate 50 0), command_total = (\<lambda>_. 0), command_count = (\<lambda>_. 0)\<rparr>"

lemma demo_tty_ok [simp]: "video_mapped demo_tty" "console_inv demo_tty" "video_page demo_tty = 0"
proof -
  have "video_frame demo_tty = 0xB8" by (simp add: video_frame_def demo_tty_def)
  moreover have "page_table_vid demo_tty 0xB8 AND 1 = 1" by (simp add: demo_tty_def)
  ultimately show m: "video_mapped demo_tty" and "video_page demo_tty = 0"
    by (simp_all add: video_mapped_def video_page_def)
  show "console_inv demo_tty" unfolding console_inv_def using m by (simp add: demo_tty_def)
qed

text \<open>
  Printing any byte with \<open>putc_modf\<close> never writes outside the video page and keeps the console
  invariant: the cursor stays on the screen (or one past the end of a line that backspacing came
  back to), and a line opened by an overflow is never the first one.
\<close>

theorem putc_modf_safe:
  assumes "console_inv t"
  shows "\<exists>t'. putc_modf c t = Some t' \<and> console_inv t'"
  by (rule putc_modf_inv [OF assms])

theorem putc_modf_safe_witness:
  "\<exists>t'. putc_modf (of_char CHR 0x08) demo_tty = Some t' \<and> console_inv t'"
  by (rule putc_modf_safe [OF demo_tty_ok(2)])

text \<open>
  A printed character inside a line changes exactly one cell of the text on the screen, the one
  under the cursor; the cursor moves one column to the right, and the CRT registers show it there.
\<close>

theorem putc_modf_prints:
  assumes "video_mapped t" and "printable c"
    and "0 \<le> screen_x t" "screen_x t < 79" "0 \<le> screen_y t" "screen_y t < 25"
  shows "\<exists>t'. putc_modf c t = Some t' \<and> screen_x t' = screen_x t + 1 \<and> screen_y t' = screen_y t \<and>
    cursor_shown t' \<and>
    (\<forall>k < 80. \<forall>l. screen_text t' k l =
       (if int k = screen_x t \<and> int l = screen_y t then c else screen_text t k l))"
  using putc_modf_inside [OF assms] by blast

theorem putc_modf_prints_witness:
  "\<exists>t'. putc_modf 0x41 demo_tty = Some t' \<and> screen_x t' = 2 \<and> cursor_shown t'"
  using putc_modf_prints [OF demo_tty_ok(1), where c = "0x41"] by (auto simp: printable_def demo_tty_def)

text \<open>
  A newline on the last row scrolls: every row takes the text of the row below it, the last row
  is blank, and the cursor is at its start. On any other row it only moves the cursor.
\<close>

theorem newline_scrolls:
  assumes "video_mapped t" "0 \<le> screen_y t" "screen_y t < 25"
  shows "\<exists>t'. newline t = Some t' \<and> screen_x t' = 0 \<and> screen_y t' = min 24 (screen_y t + 1) \<and>
    (\<forall>c < 80. \<forall>r < 25. screen_text t' c r =
       (if screen_y t < 24 then screen_text t c r
        else if r < 24 then screen_text t c (Suc r) else 0x20))"
  using newline_ok [of t] assms by (auto simp: scrolled_text_def)

theorem newline_scrolls_witness:
  "\<exists>t'. newline (demo_tty\<lparr>screen_y := 24\<rparr>) = Some t' \<and> screen_y t' = 24 \<and>
    screen_text t' 5 24 = 0x20"
  using newline_scrolls [of "demo_tty\<lparr>screen_y := 24\<rparr>"] by auto

text \<open>
  After a line has overflowed, erasing its first character leaves the cursor one past the end of
  the line before. The next character is drawn, but the overflow it causes puts the cursor back on
  the cell it was drawn in: the character typed after it overwrites it.
\<close>

theorem backspace_at_overflow_loses_char:
  assumes inv: "console_inv t" and o: "enter_or_overflow t = 0" "screen_x t = 1"
    and ab: "printable a" "printable b"
  shows "\<exists>t1 t2 t3. putc_modf (of_char CHR 0x08) t = Some t1 \<and> putc_modf a t1 = Some t2 \<and>
    putc_modf b t2 = Some t3 \<and> screen_text t2 0 (nat (screen_y t)) = a \<and>
    screen_text t3 0 (nat (screen_y t)) = b \<and> screen_x t3 = 1 \<and> screen_y t3 = screen_y t"
proof -
  have m: "video_mapped t" and y: "1 \<le> screen_y t" "screen_y t < 25"
    using inv o by (auto simp: console_inv_def)
  let ?t0 = "t\<lparr>screen_x := 0\<rparr>"
  obtain t0 where p: "put_cell 0 ?t0 = Some t0" and d: "drawn ?t0 t0"
    using put_cell_text [of ?t0 0] m y by auto
  note sel = drawn_sel [OF d]
  have nt: "normalize t0 = t0" using sel y by (simp add: normalize_id)
  let ?t1 = "t0\<lparr>screen_x := 80, screen_y := screen_y t - 1, enter_or_overflow := 1\<rparr>"
  have bs: "putc_modf (of_char CHR 0x08) t = Some (new_cursor 80 (screen_y t - 1) ?t1)"
    using p nt sel o by (simp add: putc_modf_def backspace_def Let_def)
  let ?c = "new_cursor 80 (screen_y t - 1) ?t1"
  obtain t4 t5 where n: "put_cell a ?c = Some t4" "drawn ?c t4" "put_normal a ?c = Some t5"
    "screen_x t5 = 0" "screen_y t5 = screen_y t" "video_mapped t5"
    and e: "\<And>k l. k < 80 \<Longrightarrow> l < 25 \<Longrightarrow> screen_text t5 k l = screen_text t4 k l"
    using put_normal_at_end [of ?c a] m y sel by auto
  have "screen_text t4 0 (nat (screen_y t)) = a"
    using put_cell_text [of ?c a] n(1) m y sel by auto
  then have t5: "screen_text t5 0 (nat (screen_y t)) = a" using e y by simp
  let ?t2 = "new_cursor (screen_x t5) (screen_y t5) t5"
  obtain t6 where "putc_modf b ?t2 = Some t6" "screen_x t6 = 1" "screen_y t6 = screen_y t"
    "\<And>k l. k < 80 \<Longrightarrow> screen_text t6 k l =
       (if int k = 0 \<and> int l = screen_y t then b else screen_text t5 k l)"
    using putc_modf_inside [of ?t2 b] ab n y by auto
  then show ?thesis
    using bs n(3) t5 ab(1) y by (intro exI [of _ ?c] exI [of _ ?t2] exI [of _ t6])
      (simp add: putc_modf_printable)
qed

theorem backspace_at_overflow_loses_char_witness:
  "\<exists>t1 t2 t3. putc_modf (of_char CHR 0x08) demo_tty = Some t1 \<and> putc_modf 0x61 t1 = Some t2 \<and>
    putc_modf 0x62 t2 = Some t3 \<and> screen_text t2 0 3 = 0x61 \<and> screen_text t3 0 3 = 0x62"
  using backspace_at_overflow_loses_char [OF demo_tty_ok(2), where a = "0x61" and b = "0x62"]
  by (auto simp: printable_def demo_tty_def)

text \<open>
  Clearing the screen does not forget that the line went on from the one above: when a character is typed
  after it and erased, the cursor goes into row -1, behind the end of a line that does not exist.
\<close>

lemma clear_keeps_overflow:
  assumes "video_mapped t" "0 \<le> NUM_COLS * screen_y t + screen_x t" "NUM_COLS * screen_y t + screen_x t \<le> 2000"
    and o: "enter_or_overflow t = 0" and c: "printable c"
  shows "\<exists>t1 t2 t3. flush_screen t = Some t1 \<and> putc_modf c t1 = Some t2 \<and>
    putc_modf (of_char CHR 0x08) t2 = Some t3 \<and> screen_x t3 = 80 \<and> screen_y t3 = -1"
proof -
  obtain v where v: "flush_screen t = Some ((new_cursor 0 0 (t\<lparr>vram := v\<rparr>))\<lparr>screen_x := 0, screen_y := 0\<rparr>)"
    using flush_screen_ok [OF assms(1-3)] by blast
  let ?t1 = "(new_cursor 0 0 (t\<lparr>vram := v\<rparr>))\<lparr>screen_x := 0, screen_y := 0\<rparr>"
  have m: "video_mapped ?t1" "enter_or_overflow ?t1 = 0" using assms(1) o by simp_all
  obtain t2 where p: "put_cell c ?t1 = Some t2" and d: "drawn ?t1 t2"
    using put_cell_ok [of ?t1 c] m by auto
  note sel = drawn_sel [OF d]
  have n: "normalize (t2\<lparr>screen_x := 1\<rparr>) = t2\<lparr>screen_x := 1\<rparr>" using sel by (simp add: normalize_id)
  let ?t2 = "new_cursor 1 0 (t2\<lparr>screen_x := 1\<rparr>)"
  have c2: "putc_modf c ?t1 = Some ?t2"
    using p n sel c by (simp add: putc_modf_printable put_normal_def Let_def)
  have m2: "video_mapped (?t2\<lparr>screen_x := 0\<rparr>)" using sel m by simp
  obtain t3 where p3: "put_cell 0 (?t2\<lparr>screen_x := 0\<rparr>) = Some t3" and d3: "drawn (?t2\<lparr>screen_x := 0\<rparr>) t3"
    using put_cell_ok [of "?t2\<lparr>screen_x := 0\<rparr>" 0] m2 sel by auto
  note sel3 = drawn_sel [OF d3]
  have "normalize t3 = t3" using sel3 sel by (simp add: normalize_id)
  then have "putc_modf (of_char CHR 0x08) ?t2 =
      Some (new_cursor 80 (-1) (t3\<lparr>screen_x := 80, screen_y := -1, enter_or_overflow := 1\<rparr>))"
    using p3 sel3 sel m(2) by (simp add: putc_modf_def backspace_def Let_def)
  then show ?thesis using v c2 by (intro exI conjI) (assumption | simp)+
qed

text \<open>\<open>test_interrupts\<close> changes every character and no attribute.\<close>

definition count_cells :: "nat \<Rightarrow> (nat \<Rightarrow> u8) \<Rightarrow> nat \<Rightarrow> u8" where
  "count_cells i page off = (if even off \<and> 2 * i \<le> off \<and> off < 4000 then page off + 1 else page off)"

lemma count_cells_step:
  "i < 2000 \<Longrightarrow> count_cells (Suc i) (page(2 * i := page (2 * i) + 1)) = count_cells i page"
proof (rule ext)
  fix off assume "i < 2000"
  then show "count_cells (Suc i) (page(2 * i := page (2 * i) + 1)) off = count_cells i page off"
    by (cases "off = 2 * i") (auto simp: count_cells_def elim!: evenE)
qed

lemma test_interrupts_loop_eq:
  "video_mapped t \<Longrightarrow> i \<le> 2000 \<Longrightarrow> test_interrupts_loop t i =
   Some (t\<lparr>vram := (vram t)(video_page t := count_cells i (vram t (video_page t)))\<rparr>)"
proof (induction t i rule: test_interrupts_loop.induct)
  case (1 t i)
  show ?case
  proof (cases "i < 2000")
    case True
    let ?p = "video_page t"
    let ?t = "t\<lparr>vram := (vram t)(?p := (vram t ?p)(2 * i := vram t ?p (2 * i) + 1))\<rparr>"
    have "vput t (2 * int i) (vram t ?p (2 * i) + 1) = Some ?t"
      using 1(2) True by (simp add: vput_def nat_mult_distrib)
    moreover have "video_mapped ?t" "video_page ?t = ?p"
      using 1(2) by (simp_all add: video_mapped_def video_page_def video_frame_def)
    ultimately show ?thesis
      using 1(1) [OF True, of ?t] True by (subst test_interrupts_loop.simps) (simp add: count_cells_step fun_upd_same del: fun_upd_apply)
  next
    case False
    then have "count_cells i page = page" for page using 1(3) by (auto simp: count_cells_def fun_eq_iff)
    then show ?thesis using False by (subst test_interrupts_loop.simps) simp
  qed
qed

lemma test_interrupts_eq:
  "video_mapped t \<Longrightarrow> test_interrupts t = Some (t\<lparr>vram := (vram t)(video_page t := count_cells 0 (vram t (video_page t)))\<rparr>)"
  by (simp add: test_interrupts_def test_interrupts_loop_eq)

end
