(* ===== verification/Terminal.thy ===== *)
theory Terminal
  imports Console_Props
begin

text \<open>
  The terminal driver of \<open>student-distrib/terminal.c\<close>: line input with the command history, output,
  and saving and restoring the three terminals. \<open>terminal_init\<close> and \<open>terminal_shift\<close>, which touch
  the processes too, are in the theory Scheduler.
\<close>

abbreviation "TERMINAL_BUF_SIZE \<equiv> 128 :: int"

definition terminal_open :: "u8 list \<Rightarrow> int" where
  "terminal_open filename = 0"

definition terminal_close :: "int \<Rightarrow> int" where
  "terminal_close fd = 0"

section \<open>Reading a line\<close>

fun enter_search :: "u8 list \<Rightarrow> nat \<Rightarrow> nat option" where
  "enter_search [] i = None"
| "enter_search (temp # rest) i =
     (if temp = of_char CHR 0x0A \<or> temp = of_char CHR 0x0D then Some i
      else enter_search rest (Suc i))"

definition detect_enter_signal :: "tty \<Rightarrow> int \<times> tty" where
  "detect_enter_signal t =
     (case enter_search (take KB_BUF_SIZE (keyboard_buffer t)) 0 of
        Some i \<Rightarrow> (1, t\<lparr>enter_position := int i\<rparr>)
      | None \<Rightarrow> (0, t))"

text \<open>
  The command is stored without its newline, in the next row of the history of the terminal. A row
  has 50 bytes and a terminal 50 rows; \<open>strlen(keyboard_buffer)-1\<close> is unsigned.
\<close>

definition remember_command :: "nat \<Rightarrow> tty \<Rightarrow> tty option" where
  "remember_command k t = do {
     n \<leftarrow> strlen (keyboard_buffer t);
     require (0 \<le> command_total t k);
     (let m = unat (of_nat n - 1 :: u32); row = nat (command_total t k) in do {
        line \<leftarrow> arr_get 50 (command_list t k) row;
        line \<leftarrow> strncpy line (keyboard_buffer t) m;
        line \<leftarrow> buf_put line m 0;
        Some (t\<lparr>command_list := (command_list t)(k := (command_list t k)(row := line))\<rparr>)
      })
   }"

text \<open>\<open>if (real_read_number > enter_position) real_read_number = enter_position + 1\<close>, unsigned.\<close>

definition line_count :: "u32 \<Rightarrow> int \<Rightarrow> u32" where
  "line_count real_read_number pos =
     (if real_read_number > word_of_int pos then word_of_int (pos + 1) else real_read_number)"

definition terminal_take_line :: "u8 list \<Rightarrow> u32 \<Rightarrow> tty \<Rightarrow> (int \<times> u8 list \<times> tty) option" where
  "terminal_take_line buf real_read_number t =
     (let k = unat (cur_display_terminal_id t - 1) in do {
        t \<leftarrow> (if k < 3 then remember_command k t else Some t);
        require (k < 3);
        (let t = t\<lparr>command_total := (command_total t)(k := command_total t k + 1)\<rparr>;
             t = t\<lparr>command_count := (command_count t)(k := command_total t k)\<rparr>;
             n = line_count real_read_number (enter_position t)
         in do {
           buf \<leftarrow> strncpy buf (keyboard_buffer t) (unat n);
           Some (sint n, buf, t\<lparr>keyboard_buffer := replicate KB_BUF_SIZE 0\<rparr>)
         })
      })"

text \<open>
  The waiting loop: each round looks for a line that ends with a newline, in the terminal that is
  displayed, and otherwise lets the interrupts of that round run.
\<close>

fun terminal_read_loop ::
    "(tty \<Rightarrow> tty option) list \<Rightarrow> u8 list \<Rightarrow> u32 \<Rightarrow> tty \<Rightarrow> (int \<times> u8 list \<times> tty) waiting option" where
  "terminal_read_loop irqs buf real_read_number t =
     (case detect_enter_signal t of
        (found, t) \<Rightarrow>
          if found \<noteq> 0 \<and> cur_display_terminal_id t - 1 = word_of_int (terminal_now t)
          then map_option Returns (terminal_take_line buf real_read_number t)
          else (case irqs of
                  [] \<Rightarrow> Some Waits
                | irq # irqs \<Rightarrow>
                    (case irq t of None \<Rightarrow> None
                     | Some t \<Rightarrow> terminal_read_loop irqs buf real_read_number t)))"

declare terminal_read_loop.simps [simp del]

definition terminal_read ::
    "(tty \<Rightarrow> tty option) list \<Rightarrow> u8 list option \<Rightarrow> int \<Rightarrow> tty
     \<Rightarrow> (int \<times> u8 list option \<times> tty) waiting option" where
  "terminal_read irqs buf num t =
     (case buf of
        None \<Rightarrow> Some (Returns (-1, None, t))
      | Some b \<Rightarrow>
          (case terminal_read_loop irqs b
                  (if num > TERMINAL_BUF_SIZE then 128 else word_of_int num) t of
             None \<Rightarrow> None
           | Some Waits \<Rightarrow> Some Waits
           | Some (Returns (n, b, t)) \<Rightarrow> Some (Returns (n, Some b, t))))"

section \<open>Writing\<close>

text \<open>\<open>i < num\<close> compares an unsigned index, so a negative \<open>num\<close> is a large one.\<close>

function terminal_write_loop :: "u8 list \<Rightarrow> nat \<Rightarrow> nat \<Rightarrow> tty \<Rightarrow> tty option" where
  "terminal_write_loop buf num i t =
     (if i < num then do {
        character \<leftarrow> buf_get buf i;
        t \<leftarrow> (if word_of_int (terminal_now t) = cur_display_terminal_id t - 1
             then putc_modf character t else putc_backstage character t);
        terminal_write_loop buf num (Suc i) t
      } else Some t)"
  by pat_completeness auto
termination by (relation "measure (\<lambda>(buf, num, i, t). num - i)") auto

declare terminal_write_loop.simps [simp del]

definition prompt :: "u8 list" where
  "prompt = ascii ''391OS> '' @ [0]"

definition terminal_write :: "u8 list option \<Rightarrow> int \<Rightarrow> tty \<Rightarrow> (int \<times> tty) option" where
  "terminal_write buf num t =
     (case buf of
        None \<Rightarrow> do {
          (_, t) \<leftarrow> puts (ascii ''NULL pointer invalid'' @ [0]) t;
          Some (-1, t)
        }
      | Some b \<Rightarrow> do {
          r \<leftarrow> strncmp prompt b 7;
          t \<leftarrow> (if r = 0 then putc_modf (of_char CHR 0x0A) t else Some t);
          t \<leftarrow> terminal_write_loop b (unat (word_of_int num :: u32)) 0 t;
          t \<leftarrow> (if num < 0
               then do { (_, t) \<leftarrow> puts (ascii ''no sense'' @ [0]) t; Some t } else Some t);
          Some (num, t)
        })"

section \<open>Saving and restoring a terminal\<close>

definition frame_at :: "tty \<Rightarrow> nat \<Rightarrow> nat" where
  "frame_at t v = unat (drop_bit 12 (page_table_vid t v))"

definition frame_mapped :: "tty \<Rightarrow> nat \<Rightarrow> bool" where
  "frame_mapped t v \<longleftrightarrow> page_table_vid t v AND 1 = 1 \<and>
     VIDEO_FRAME \<le> frame_at t v \<and> frame_at t v < VIDEO_FRAME + 4"

text \<open>\<open>memcpy\<close> of a whole page from the virtual page \<open>src\<close> to the virtual page \<open>dst\<close>.\<close>

definition copy_page :: "nat \<Rightarrow> nat \<Rightarrow> tty \<Rightarrow> tty option" where
  "copy_page dst src t = do {
     require (frame_mapped t dst \<and> frame_mapped t src);
     Some (t\<lparr>vram := (vram t)(frame_at t dst - VIDEO_FRAME :=
       (\<lambda>k. if k < PG_SIZE_4KB then vram t (frame_at t src - VIDEO_FRAME) k
            else vram t (frame_at t dst - VIDEO_FRAME) k))\<rparr>)
   }"

definition terminal_init_helpfunction :: "int \<Rightarrow> tty \<Rightarrow> tty" where
  "terminal_init_helpfunction tid t =
     (let a = get_terminal_addr tid in
      t\<lparr>terminals := (terminals t)(a := (terminals t a)\<lparr>cursor_x := 0, cursor_y := 0\<rparr>)\<rparr>)"

definition terminal_store :: "int \<Rightarrow> tty \<Rightarrow> tty option" where
  "terminal_store tid t =
     (let a = get_terminal_addr tid;
          t = t\<lparr>terminals := (terminals t)(a := (terminals t a)
                \<lparr>cursor_x := get_cursor_x t, cursor_y := get_cursor_y t,
                 kb_buf_idx_terminal := sint (kb_buf_idx t),
                 keyboard_buffer_terminal := keyboard_buffer t\<rparr>)\<rparr>
      in copy_page (VIDEO_FRAME + nat tid) VIDEO_FRAME t)"

definition terminal_load :: "int \<Rightarrow> tty \<Rightarrow> tty option" where
  "terminal_load tid t =
     (let a = terminals t (get_terminal_addr tid);
          t = change_cursor_x (cursor_x a) t;
          t = change_cursor_y (cursor_y a) t;
          t = new_cursor (cursor_x a) (cursor_y a) t;
          t = t\<lparr>kb_buf_idx := word_of_int (kb_buf_idx_terminal a),
                keyboard_buffer := keyboard_buffer_terminal a\<rparr>
      in copy_page VIDEO_FRAME (VIDEO_FRAME + nat tid) t)"

end
