(* ===== verification/Terminal_Props.thy ===== *)
theory Terminal_Props
  imports Terminal
begin

text \<open>
  Reading a typed line, its place in the command history, and saving and restoring a terminal.
\<close>

section \<open>A buffered line\<close>

definition line_char :: "u8 \<Rightarrow> bool" where
  "line_char c \<longleftrightarrow> c \<notin> {0, of_char CHR 0x0A, of_char CHR 0x0D}"

text \<open>
  The keyboard buffer after \<open>line\<close> and Enter; \<open>stale\<close> is what an erased longer line left behind.
\<close>

definition line_buffered :: "u8 list \<Rightarrow> u8 list \<Rightarrow> u8 list \<Rightarrow> bool" where
  "line_buffered kb line stale \<longleftrightarrow>
     (\<exists>z. kb = line @ of_char CHR 0x0A # stale @ 0 # z) \<and> length kb = KB_BUF_SIZE \<and>
     list_all line_char line \<and> 0 \<notin> set stale"

lemma enter_search_line:
  "list_all line_char line \<Longrightarrow>
   enter_search (line @ of_char CHR 0x0A # rest) i = Some (i + length line)"
  by (induction line arbitrary: i) (auto simp: line_char_def)

lemma line_buffered_enter:
  "line_buffered (keyboard_buffer t) line stale \<Longrightarrow>
   detect_enter_signal t = (1, t\<lparr>enter_position := int (length line)\<rparr>)"
  using enter_search_line [of line] by (auto simp: line_buffered_def detect_enter_signal_def)

lemma line_buffered_cstr:
  assumes "line_buffered kb line stale"
  shows "nul_terminated kb" "cstr kb = line @ of_char CHR 0x0A # stale"
    "length line + 2 \<le> KB_BUF_SIZE"
proof -
  obtain z where kb: "kb = (line @ of_char CHR 0x0A # stale) @ 0 # z" and l: "length kb = 128"
    and nz: "0 \<notin> set line" "0 \<notin> set stale"
    using assms by (auto simp: line_buffered_def list_all_iff line_char_def)
  show "nul_terminated kb" by (simp add: kb nul_terminated_def)
  show "cstr kb = line @ of_char CHR 0x0A # stale"
    unfolding kb using nz by (intro cstr_append_nul) auto
  show "length line + 2 \<le> KB_BUF_SIZE" using l by (simp add: kb)
qed

text \<open>The row of the history that the command goes to.\<close>

definition history_line :: "u8 list \<Rightarrow> u8 list \<Rightarrow> u8 list" where
  "history_line line stale = (if stale = [] then line else line @ of_char CHR 0x0A # butlast stale)"

lemma remember_command_eq:
  assumes kb: "line_buffered (keyboard_buffer t) line stale"
    and k: "0 \<le> command_total t k" "command_total t k < 50"
    and row: "length (command_list t k (nat (command_total t k))) = 50"
    and fit: "length line + length stale < 50"
  shows "\<exists>r. remember_command k t = Some (t\<lparr>command_list := (command_list t)
      (k := (command_list t k)(nat (command_total t k) := r))\<rparr>) \<and>
    length r = 50 \<and> cstr r = history_line line stale"
proof -
  let ?c = "line @ of_char CHR 0x0A # stale" and ?m = "length line + length stale"
  let ?row = "command_list t k (nat (command_total t k))"
  note c = line_buffered_cstr [OF kb]
  have m: "unat (of_nat (length ?c) - 1 :: u32) = ?m"
    using unat_of_nat_u32 [of ?m] fit by simp
  have tm: "take ?m ?c = history_line line stale"
    by (cases stale rule: rev_cases) (simp_all add: history_line_def butlast_append)
  have lh: "length (history_line line stale) = ?m" using tm [symmetric] by simp
  have nz: "0 \<notin> set (history_line line stale)"
    unfolding tm [symmetric] c(2) [symmetric] using cstr_nonzero in_set_takeD by metis
  have s: "strncpy ?row (keyboard_buffer t) ?m = Some (history_line line stale @ drop ?m ?row)"
    using strncpy_eq [of ?m ?row "keyboard_buffer t"] fit row c tm lh by (simp add: pad_to_length)
  let ?r = "history_line line stale @ 0 # drop (Suc ?m) ?row"
  have "buf_put (history_line line stale @ drop ?m ?row) ?m 0 = Some ?r"
    using fit row lh by (simp add: buf_put_def list_update_append drop_Cons_nth)
  moreover have "nat (command_total t k) < 50" using k by simp
  ultimately have "remember_command k t = Some (t\<lparr>command_list := (command_list t)
      (k := (command_list t k)(nat (command_total t k) := ?r))\<rparr>)"
    using c k s m by (simp add: remember_command_def buf_simps Let_def)
  moreover have "length ?r = 50" using fit row lh by simp
  ultimately show ?thesis using cstr_append_nul [OF nz] by blast
qed

lemma terminal_take_line_eq:
  assumes kb: "line_buffered (keyboard_buffer t) line stale"
    and cur: "cur_display_terminal_id t = of_nat (Suc k)" "k < 3"
    and hist: "0 \<le> command_total t k" "command_total t k < 50"
      "length (command_list t k (nat (command_total t k))) = 50" "length line + length stale < 50"
    and pos: "enter_position t = int (length line)"
    and n: "n = min (unat r) (Suc (length line))" "n \<le> length buf"
  shows "\<exists>t'. terminal_take_line buf r t =
      Some (int n, take n (line @ [of_char CHR 0x0A]) @ drop n buf, t') \<and>
    keyboard_buffer t' = replicate KB_BUF_SIZE 0 \<and>
    command_total t' k = command_total t k + 1 \<and> command_count t' k = command_total t k + 1 \<and>
    cstr (command_list t' k (nat (command_total t k))) = history_line line stale"
proof -
  note c = line_buffered_cstr [OF kb]
  have k: "unat (cur_display_terminal_id t - 1) = k"
    using cur by (simp add: unat_of_nat take_bit_nat_eq_self)
  obtain row where rem: "remember_command k t = Some (t\<lparr>command_list := (command_list t)
      (k := (command_list t k)(nat (command_total t k) := row))\<rparr>)"
    and row: "cstr row = history_line line stale"
    using remember_command_eq [OF kb hist] by blast
  have wp: "unat (word_of_int (int (length line)) :: u32) = length line"
    "unat (word_of_int (int (length line) + 1) :: u32) = Suc (length line)"
    using unat_of_nat_u32 [of "length line"] unat_of_nat_u32 [of "Suc (length line)"] c(3)
    by (simp_all add: add.commute)
  have "(r > word_of_int (int (length line))) = (length line < unat r)"
    using wp by (simp add: word_less_nat_alt)
  then have un: "unat (line_count r (int (length line))) = n"
    using n(1) wp by (simp add: line_count_def min_def)
  have sn: "sint (line_count r (int (length line))) = int n"
    by (rule sint_of_unat [OF un]) (use n(1) c(3) in simp)
  have "take n (cstr (keyboard_buffer t)) = take n (line @ [of_char CHR 0x0A])"
    using n(1) by (simp add: c(2) min_def take_Cons')
  moreover have "length (take n (line @ [of_char CHR 0x0A])) = n" using n(1) by simp
  ultimately have s: "strncpy buf (keyboard_buffer t) n =
      Some (take n (line @ [of_char CHR 0x0A]) @ drop n buf)"
    using strncpy_eq [OF n(2), of "keyboard_buffer t"] c(1) by (simp add: pad_to_length)
  show ?thesis
    using rem row cur(2) s sn un pos by (simp add: terminal_take_line_def k Let_def)
qed

lemma terminal_read_eq:
  assumes kb: "line_buffered (keyboard_buffer t) line stale"
    and cur: "cur_display_terminal_id t = of_nat (Suc k)" "terminal_now t = int k" "k < 3"
    and hist: "0 \<le> command_total t k" "command_total t k < 50"
      "length (command_list t k (nat (command_total t k))) = 50" "length line + length stale < 50"
    and n: "0 \<le> num" "num < 2 ^ 31" "n = min (nat num) (Suc (length line))" "n \<le> length buf"
  shows "\<exists>t'. terminal_read irqs (Some buf) num t =
      Some (Returns (int n, Some (take n (line @ [of_char CHR 0x0A]) @ drop n buf), t')) \<and>
    keyboard_buffer t' = replicate KB_BUF_SIZE 0 \<and>
    command_total t' k = command_total t k + 1 \<and> command_count t' k = command_total t k + 1 \<and>
    cstr (command_list t' k (nat (command_total t k))) = history_line line stale"
proof -
  let ?r = "if num > TERMINAL_BUF_SIZE then 128 else word_of_int num :: u32"
  let ?t = "t\<lparr>enter_position := int (length line)\<rparr>"
  have "unat (word_of_int num :: u32) = nat num"
    using n(1,2) by (simp add: unsigned_of_int take_bit_int_eq_self)
  then have r: "n = min (unat ?r) (Suc (length line))"
    using n(1,3) line_buffered_cstr(3) [OF kb] by (simp add: min_def) linarith
  obtain t' where t': "terminal_take_line buf ?r ?t =
      Some (int n, take n (line @ [of_char CHR 0x0A]) @ drop n buf, t')"
    "keyboard_buffer t' = replicate KB_BUF_SIZE 0"
    "command_total t' k = command_total t k + 1" "command_count t' k = command_total t k + 1"
    "cstr (command_list t' k (nat (command_total t k))) = history_line line stale"
    using terminal_take_line_eq [of ?t line stale k n ?r buf] kb cur(1,3) hist r n(4) by auto
  have d: "cur_display_terminal_id ?t - 1 = word_of_int (terminal_now ?t)" using cur by simp
  have "terminal_read_loop irqs buf ?r t = map_option Returns (terminal_take_line buf ?r ?t)"
    using line_buffered_enter [OF kb] d by (subst terminal_read_loop.simps) simp
  with t' show ?thesis by (auto simp: terminal_read_def)
qed

text \<open>
  Neither \<open>terminal_read\<close> nor the keyboard limits a line or a history to what \<open>command_list\<close> holds: a
  line of 50 characters or more, and the line after 50 remembered ones, are stored behind their row.
\<close>

lemma remember_command_overflow:
  assumes kb: "line_buffered (keyboard_buffer t) line []" and row: "\<forall>i < 50. length (command_list t k i) = 50"
    and over: "50 \<le> length line \<or> 50 \<le> command_total t k"
  shows "remember_command k t = None"
proof -
  note c = line_buffered_cstr [OF kb]
  have m: "unat (of_nat (Suc (length line)) - 1 :: u32) = length line"
    using unat_of_nat_u32 [of "length line"] c(3) by simp
  have put: "strncpy r (keyboard_buffer t) (length line) = Some r' \<Longrightarrow> buf_put r' (length line) 0 = None"
    if "length r = 50" "50 \<le> length line" for r r'
  proof (cases "50 < length line")
    case True
    then show "strncpy r (keyboard_buffer t) (length line) = Some r' \<Longrightarrow> ?thesis"
      using strncpy_overflow [of r "length line" "keyboard_buffer t"] that(1) by simp
  next
    case False
    then have n: "length line = 50" using that(2) by simp
    assume "strncpy r (keyboard_buffer t) (length line) = Some r'"
    then have "length r' = 50"
      using strncpy_eq [of 50 r "keyboard_buffer t"] c(1) that(1) n by (auto simp: c(2) pad_to_def)
    then show ?thesis using n by (simp add: buf_put_out)
  qed
  show ?thesis
  proof (cases "0 \<le> command_total t k \<and> command_total t k < 50")
    case False
    then show ?thesis using c over by (auto simp: remember_command_def Let_def arr_get_def)
  next
    case True
    then have "nat (command_total t k) < 50" by linarith
    then have "length (command_list t k (nat (command_total t k))) = 50" using row by blast
    note p = put [OF this]
    have "nat (command_total t k) < 50" "\<not> command_total t k < 0" "50 \<le> length line"
      using True over by linarith+
    with p show ?thesis
      using c(1,2) m by (auto simp: remember_command_def Let_def arr_get_def split: bind_splits)
  qed
qed

lemma terminal_read_overflow:
  assumes kb: "line_buffered (keyboard_buffer t) line []" and row: "\<forall>i < 50. length (command_list t k i) = 50"
    and over: "50 \<le> length line \<or> 50 \<le> command_total t k"
    and cur: "cur_display_terminal_id t = of_nat (Suc k)" "terminal_now t = int k" "k < 3"
  shows "terminal_read irqs (Some buf) num t = None"
proof -
  let ?t = "t\<lparr>enter_position := int (length line)\<rparr>"
  have u: "unat (cur_display_terminal_id t - 1) = k"
    using cur by (simp add: unat_of_nat take_bit_nat_eq_self)
  have d: "cur_display_terminal_id ?t - 1 = word_of_int (terminal_now ?t)" using cur by simp
  have "remember_command k ?t = None" using assms(1-3) by (intro remember_command_overflow) simp_all
  then have "terminal_take_line buf r ?t = None" for r
    using cur(3) u by (simp add: terminal_take_line_def Let_def)
  then have "terminal_read_loop irqs buf r t = None" for r
    using line_buffered_enter [OF kb] d by (subst terminal_read_loop.simps) simp
  then show ?thesis by (simp add: terminal_read_def)
qed

section \<open>Saving and restoring\<close>

lemma frame_at_sel [simp]:
  "frame_mapped (t\<lparr>vram := v\<rparr>) = frame_mapped t" "frame_at (t\<lparr>vram := v\<rparr>) = frame_at t"
  "frame_mapped (t\<lparr>terminals := a\<rparr>) = frame_mapped t" "frame_at (t\<lparr>terminals := a\<rparr>) = frame_at t"
  "frame_mapped (t\<lparr>kb_buf_idx := i, keyboard_buffer := b\<rparr>) = frame_mapped t"
  "frame_at (t\<lparr>kb_buf_idx := i, keyboard_buffer := b\<rparr>) = frame_at t"
  "frame_mapped (new_cursor x y t) = frame_mapped t" "frame_at (new_cursor x y t) = frame_at t"
  "frame_mapped (change_cursor_x x t) = frame_mapped t" "frame_at (change_cursor_x x t) = frame_at t"
  "frame_mapped (change_cursor_y x t) = frame_mapped t" "frame_at (change_cursor_y x t) = frame_at t"
  by (simp_all add: frame_mapped_def frame_at_def fun_eq_iff new_cursor_def outb_csr_index_def
      outb_csr_data_def Let_def change_cursor_x_def change_cursor_y_def)

text \<open>The identity mapping that \<open>paging_init\<close> and \<open>terminal_shift\<close> set up for the video pages.\<close>

definition identity_mapped :: "tty \<Rightarrow> nat \<Rightarrow> bool" where
  "identity_mapped t v \<longleftrightarrow> frame_mapped t v \<and> frame_at t v = v"

lemma terminal_store_eq:
  assumes "identity_mapped t 0xB8" "identity_mapped t (0xB8 + n)" "n \<in> {1, 2, 3}"
  shows "\<exists>t'. terminal_store (int n) t = Some t' \<and>
    terminals t' = (terminals t)(n := (terminals t n)\<lparr>cursor_x := screen_x t, cursor_y := screen_y t,
       kb_buf_idx_terminal := sint (kb_buf_idx t), keyboard_buffer_terminal := keyboard_buffer t\<rparr>) \<and>
    (\<forall>p. p \<noteq> n \<longrightarrow> vram t' p = vram t p) \<and>
    (\<forall>k < 4096. vram t' n k = vram t 0 k)"
proof -
  have a: "get_terminal_addr (int n) = n" using assms(3) by (auto simp: get_terminal_addr_def)
  show ?thesis
    using assms by (simp add: terminal_store_def a Let_def copy_page_def identity_mapped_def
        get_cursor_x_def get_cursor_y_def)
qed

lemma terminal_load_eq:
  assumes "identity_mapped t 0xB8" "identity_mapped t (0xB8 + n)" "n \<in> {1, 2, 3}"
  shows "\<exists>t'. terminal_load (int n) t = Some t' \<and>
    screen_x t' = cursor_x (terminals t n) \<and> screen_y t' = cursor_y (terminals t n) \<and>
    kb_buf_idx t' = word_of_int (kb_buf_idx_terminal (terminals t n)) \<and>
    keyboard_buffer t' = keyboard_buffer_terminal (terminals t n) \<and>
    terminals t' = terminals t \<and>
    (\<forall>p. p \<noteq> 0 \<longrightarrow> vram t' p = vram t p) \<and> (\<forall>k < 4096. vram t' 0 k = vram t n k)"
proof -
  have a: "get_terminal_addr (int n) = n" using assms(3) by (auto simp: get_terminal_addr_def)
  show ?thesis
    using assms by (simp add: terminal_load_def a Let_def copy_page_def identity_mapped_def
        change_cursor_x_def change_cursor_y_def new_cursor_def outb_csr_index_def outb_csr_data_def
        frame_mapped_def frame_at_def)
qed

section \<open>Properties\<close>

definition demo_line_tty :: tty where
  "demo_line_tty = demo_tty\<lparr>keyboard_buffer := ascii ''ls'' @ 0x0A # ascii ''x'' @ replicate 124 0\<rparr>"

lemma demo_line_buffered: "line_buffered (keyboard_buffer demo_line_tty) (ascii ''ls'') (ascii ''x'')"
proof -
  have "replicate 124 (0 :: u8) = 0 # replicate 123 0" using replicate_Suc [of 123 "0 :: u8"] by simp
  then show ?thesis
    unfolding line_buffered_def
    by (intro conjI exI [of _ "replicate 123 0"]) (simp_all add: demo_line_tty_def line_char_def)
qed

text \<open>
  When the displayed terminal holds a typed line and its process reads, \<open>terminal_read\<close> returns
  without waiting: the caller gets the line with its newline, cut to the number of bytes asked for,
  the keyboard buffer is cleared and one entry is added to the history of that terminal.
\<close>

theorem terminal_read_line:
  assumes "line_buffered (keyboard_buffer t) line stale"
    and "cur_display_terminal_id t = of_nat (Suc k)" "terminal_now t = int k" "k < 3"
    and "0 \<le> command_total t k" "command_total t k < 50"
      "length (command_list t k (nat (command_total t k))) = 50" "length line + length stale < 50"
    and "0 \<le> num" "num < 2 ^ 31" "n = min (nat num) (Suc (length line))" "n \<le> length buf"
  shows "\<exists>t'. terminal_read irqs (Some buf) num t =
      Some (Returns (int n, Some (take n (line @ [of_char CHR 0x0A]) @ drop n buf), t')) \<and>
    keyboard_buffer t' = replicate KB_BUF_SIZE 0 \<and> command_total t' k = command_total t k + 1"
  using terminal_read_eq [OF assms] by blast

theorem terminal_read_line_witness:
  "\<exists>t'. terminal_read [] (Some (replicate 5 7)) 10 demo_line_tty =
     Some (Returns (3, Some [0x6C, 0x73, 0x0A, 7, 7], t'))"
  using terminal_read_line [OF demo_line_buffered, where k = 0 and num = 10 and n = 3
      and buf = "replicate 5 7"]
  by (auto simp: demo_line_tty_def demo_tty_def numeral_eq_Suc)

text \<open>
  The history does not always remember the line that was typed: bytes of an erased longer line
  that still follow the newline in the keyboard buffer become part of the remembered command, which
  then contains the newline and all but the last of them.
\<close>

theorem terminal_history_stale:
  assumes "line_buffered (keyboard_buffer t) line stale" "stale \<noteq> []"
    and "cur_display_terminal_id t = of_nat (Suc k)" "terminal_now t = int k" "k < 3"
    and "0 \<le> command_total t k" "command_total t k < 50"
      "length (command_list t k (nat (command_total t k))) = 50" "length line + length stale < 50"
    and "128 \<le> length buf"
  shows "\<exists>n b t'. terminal_read irqs (Some buf) 128 t = Some (Returns (n, b, t')) \<and>
    cstr (command_list t' k (nat (command_total t k))) = line @ of_char CHR 0x0A # butlast stale"
proof -
  have "min (nat 128) (Suc (length line)) \<le> length buf" using assms(10) by simp
  then show ?thesis
    using terminal_read_eq [OF assms(1,3-9) _ _ refl, of 128 buf irqs] assms(2)
    by (auto simp: history_line_def)
qed

theorem terminal_history_stale_witness:
  "\<exists>n b t'. terminal_read [] (Some (replicate 128 0)) 128 demo_line_tty = Some (Returns (n, b, t')) \<and>
    cstr (command_list t' 0 0) = ascii ''ls'' @ [0x0A]"
  using terminal_history_stale [OF demo_line_buffered, where k = 0 and buf = "replicate 128 0"]
  by (auto simp: demo_line_tty_def demo_tty_def)

text \<open>
  C36. Switching terminals loses nothing: after \<open>terminal_store\<close>, and anything that touches neither
  the saved record nor the background page of that terminal, \<open>terminal_load\<close> brings back its cursor,
  its half-typed line and the whole screen.
\<close>

theorem terminal_store_load:
  assumes n: "n \<in> {1, 2, 3}"
    and i: "identity_mapped t 0xB8" "identity_mapped t (0xB8 + n)"
      "identity_mapped t1 0xB8" "identity_mapped t1 (0xB8 + n)"
    and s: "terminal_store (int n) t = Some t0"
    and same: "terminals t1 n = terminals t0 n" "vram t1 n = vram t0 n"
  shows "\<exists>t'. terminal_load (int n) t1 = Some t' \<and> screen_x t' = screen_x t \<and>
    screen_y t' = screen_y t \<and> kb_buf_idx t' = kb_buf_idx t \<and>
    keyboard_buffer t' = keyboard_buffer t \<and> (\<forall>k < 4096. vram t' 0 k = vram t 0 k)"
proof -
  have a: "terminals t0 n = (terminals t n)\<lparr>cursor_x := screen_x t, cursor_y := screen_y t,
       kb_buf_idx_terminal := sint (kb_buf_idx t), keyboard_buffer_terminal := keyboard_buffer t\<rparr>"
    "\<forall>k < 4096. vram t0 n k = vram t 0 k"
    using terminal_store_eq [OF i(1,2) n] s by auto
  show ?thesis
    using terminal_load_eq [OF i(3,4) n] a same by auto
qed

theorem terminal_store_load_witness:
  "\<exists>t0 t'. terminal_store 2 (demo_tty\<lparr>page_table_vid := \<lambda>i. of_nat i * 4096 + 1\<rparr>) = Some t0 \<and>
    terminal_load 2 (t0\<lparr>screen_x := 70, kb_buf_idx := 9\<rparr>) = Some t' \<and>
    screen_x t' = 1 \<and> screen_y t' = 3 \<and> kb_buf_idx t' = 0"
proof -
  let ?t = "demo_tty\<lparr>page_table_vid := \<lambda>i. of_nat i * 4096 + 1\<rparr>"
  have i: "identity_mapped u 0xB8" "identity_mapped u 0xBA"
    if "page_table_vid u = (\<lambda>i. of_nat i * 4096 + 1)" for u
    using that by (simp_all add: identity_mapped_def frame_mapped_def frame_at_def)
  obtain t0 where s: "terminal_store 2 ?t = Some t0"
    using terminal_store_eq [of ?t 2] i [of ?t] by auto
  have pt: "page_table_vid t0 = (\<lambda>i. of_nat i * 4096 + 1)"
    using s by (auto simp: terminal_store_def Let_def copy_page_def split: if_splits)
  show ?thesis
    using terminal_store_load [of 2 ?t "t0\<lparr>screen_x := 70, kb_buf_idx := 9\<rparr>" t0] s i pt
    by (auto simp: demo_tty_def)
qed

end
