(* ===== verification/I8259.thy ===== *)
theory I8259
  imports Prelude
begin

text \<open>
  The interrupt controller driver of \<open>student-distrib/i8259.c\<close>: the two mask variables and the
  sequence of port writes (port, byte), oldest first.
\<close>

record pic =
  master_mask :: u8
  slave_mask :: u8
  pic_writes :: "(nat \<times> u8) list"

abbreviation "MASTER_8259_PORT \<equiv> 0x20 :: nat"
abbreviation "SLAVE_8259_PORT \<equiv> 0xA0 :: nat"
abbreviation "EOI \<equiv> 0x60 :: u8"

definition pic_reset :: pic where
  "pic_reset = \<lparr>master_mask = 0xFF, slave_mask = 0xFF, pic_writes = []\<rparr>"

definition pic_outb :: "u8 \<Rightarrow> nat \<Rightarrow> pic \<Rightarrow> pic" where
  "pic_outb v port p = p\<lparr>pic_writes := pic_writes p @ [(port, v)]\<rparr>"

definition enable_irq :: "u32 \<Rightarrow> pic \<Rightarrow> pic" where
  "enable_irq irq_num p =
     (if irq_num \<ge> 16 then p
      else if irq_num \<ge> 8 then
        (let bit_mask = ucast (push_bit (unat (irq_num - 8)) (1 :: u32)) :: u8;
             p = p\<lparr>slave_mask := NOT bit_mask AND slave_mask p\<rparr>
         in pic_outb (slave_mask p) (SLAVE_8259_PORT + 1) p)
      else
        (let bit_mask = ucast (push_bit (unat irq_num) (1 :: u32)) :: u8;
             p = p\<lparr>master_mask := NOT bit_mask AND master_mask p\<rparr>
         in pic_outb (master_mask p) (MASTER_8259_PORT + 1) p))"

definition disable_irq :: "u32 \<Rightarrow> pic \<Rightarrow> pic" where
  "disable_irq irq_num p =
     (if irq_num \<ge> 16 then p
      else if irq_num \<ge> 8 then
        (let bit_mask = ucast (push_bit (unat (irq_num - 8)) (1 :: u32)) :: u8;
             p = p\<lparr>slave_mask := bit_mask OR slave_mask p\<rparr>
         in pic_outb (slave_mask p) (SLAVE_8259_PORT + 1) p)
      else
        (let bit_mask = ucast (push_bit (unat irq_num) (1 :: u32)) :: u8;
             p = p\<lparr>master_mask := bit_mask OR master_mask p\<rparr>
         in pic_outb (master_mask p) (MASTER_8259_PORT + 1) p))"

definition send_eoi :: "u32 \<Rightarrow> pic \<Rightarrow> pic" where
  "send_eoi irq_num p =
     (if irq_num \<ge> 16 then p
      else
        (let (irq_num, p) =
           (if irq_num \<ge> 8
            then (2, pic_outb (EOI OR ucast (irq_num - 8)) SLAVE_8259_PORT p)
            else (irq_num, p))
         in pic_outb (EOI OR ucast irq_num) MASTER_8259_PORT p))"

definition i8259_init :: "pic \<Rightarrow> pic" where
  "i8259_init p =
     (let p = pic_outb (master_mask p) (MASTER_8259_PORT + 1) p;
          p = pic_outb (slave_mask p) (SLAVE_8259_PORT + 1) p;
          p = pic_outb 0x11 MASTER_8259_PORT p;
          p = pic_outb 0x20 (MASTER_8259_PORT + 1) p;
          p = pic_outb 0x04 (MASTER_8259_PORT + 1) p;
          p = pic_outb 0x01 (MASTER_8259_PORT + 1) p;
          p = pic_outb 0x11 SLAVE_8259_PORT p;
          p = pic_outb 0x28 (SLAVE_8259_PORT + 1) p;
          p = pic_outb 0x02 (SLAVE_8259_PORT + 1) p;
          p = pic_outb 0x01 (SLAVE_8259_PORT + 1) p
      in enable_irq 2 p)"

section \<open>Masks as sets of lines\<close>

text \<open>The interrupt lines the masks leave open.\<close>

definition irq_enabled :: "pic \<Rightarrow> nat \<Rightarrow> bool" where
  "irq_enabled p i \<longleftrightarrow> i < 16 \<and>
     \<not> (if i < 8 then bit (master_mask p) i else bit (slave_mask p) (i - 8))"

text \<open>Each mask register of the chips was last written with the mask variable.\<close>

definition last_write :: "nat \<Rightarrow> (nat \<times> u8) list \<Rightarrow> u8 option" where
  "last_write port ws = map_of (rev ws) port"

lemma last_write_snoc [simp]:
  "last_write port (ws @ [(q, v)]) = (if q = port then Some v else last_write port ws)"
  by (simp add: last_write_def)

lemma bit_mask_iff_u8:
  "n < 8 \<Longrightarrow> i < 8 \<Longrightarrow> bit (ucast (push_bit n (1 :: u32)) :: u8) i \<longleftrightarrow> i = n"
  by (auto simp: bit_simps)

lemma irq_num_cases:
  fixes n :: u32
  assumes "unat n < 16"
  obtains (master) "unat n < 8" "\<not> n \<ge> 8" "\<not> n \<ge> 16"
    | (slave) "8 \<le> unat n" "n \<ge> 8" "\<not> n \<ge> 16" "unat (n - 8) = unat n - 8"
proof (cases "unat n < 8")
  case True
  then show ?thesis by (intro master) (simp_all add: word_le_nat_alt)
next
  case False
  then have "n \<ge> 8" by (simp add: word_le_nat_alt)
  moreover from this have "unat (n - 8) = unat n - 8" by (simp add: unat_sub)
  ultimately show ?thesis using assms False by (intro slave) (simp_all add: word_le_nat_alt)
qed

lemma enable_irq_enabled:
  assumes "unat n < 16"
  shows "irq_enabled (enable_irq n p) i \<longleftrightarrow> irq_enabled p i \<or> i = unat n"
  using assms
proof (cases rule: irq_num_cases)
  case master
  then show ?thesis
    by (auto simp: enable_irq_def irq_enabled_def pic_outb_def Let_def bit_simps)
next
  case slave
  then show ?thesis using assms
    by (auto simp: enable_irq_def irq_enabled_def pic_outb_def Let_def bit_simps)
qed

lemma disable_irq_enabled:
  assumes "unat n < 16"
  shows "irq_enabled (disable_irq n p) i \<longleftrightarrow> irq_enabled p i \<and> i \<noteq> unat n"
  using assms
proof (cases rule: irq_num_cases)
  case master
  then show ?thesis
    by (auto simp: disable_irq_def irq_enabled_def pic_outb_def Let_def bit_simps)
next
  case slave
  then show ?thesis using assms
    by (auto simp: disable_irq_def irq_enabled_def pic_outb_def Let_def bit_simps)
qed

lemma enable_irq_out: "16 \<le> unat n \<Longrightarrow> enable_irq n p = p" "16 \<le> unat n \<Longrightarrow> disable_irq n p = p"
  by (simp_all add: enable_irq_def disable_irq_def word_le_nat_alt)

section \<open>Properties\<close>

text \<open>
  \<open>enable_irq\<close> opens and \<open>disable_irq\<close> closes exactly the line they are given, for each of the
  16 lines, and both ignore any other number; masking a line and opening it again is the identity
  on the set of open lines of a controller in which it was open.
\<close>

theorem irq_masks_exact:
  "irq_enabled (enable_irq n p) i = (irq_enabled p i \<or> (i < 16 \<and> i = unat n)) \<and>
   irq_enabled (disable_irq n p) i = (irq_enabled p i \<and> \<not> (i < 16 \<and> i = unat n)) \<and>
   irq_enabled (enable_irq n (disable_irq n p)) i = (irq_enabled p i \<or> (i < 16 \<and> i = unat n))"
proof (cases "unat n < 16")
  case True
  then show ?thesis
    by (auto simp: enable_irq_enabled disable_irq_enabled)
next
  case False
  then show ?thesis by (auto simp: enable_irq_out)
qed

text \<open>
  The initialisation programs both controllers for vectors 0x20 to 0x2F with the slave on line
  2, leaves exactly line 2 open on the master side, and the last byte sent to the master's data
  port is the mask; the slave's mask is not sent again after its initialisation words.
\<close>

theorem i8259_init_state:
  "(\<forall>i. irq_enabled (i8259_init pic_reset) i \<longleftrightarrow> i = 2) \<and>
   pic_writes (i8259_init pic_reset) =
     [(0x21, 0xFF), (0xA1, 0xFF), (0x20, 0x11), (0x21, 0x20), (0x21, 0x04), (0x21, 0x01),
      (0xA0, 0x11), (0xA1, 0x28), (0xA1, 0x02), (0xA1, 0x01), (0x21, 0xFB)] \<and>
   last_write 0x21 (pic_writes (i8259_init pic_reset)) = Some (master_mask (i8259_init pic_reset)) \<and>
   last_write 0xA1 (pic_writes (i8259_init pic_reset)) \<noteq> Some (slave_mask (i8259_init pic_reset))"
proof -
  let ?p = "pic_outb 0x01 0xA1 (pic_outb 0x02 0xA1 (pic_outb 0x28 0xA1 (pic_outb 0x11 0xA0
    (pic_outb 0x01 0x21 (pic_outb 0x04 0x21 (pic_outb 0x20 0x21 (pic_outb 0x11 0x20
    (pic_outb 0xFF 0xA1 (pic_outb 0xFF 0x21 pic_reset)))))))))"
  have i: "i8259_init pic_reset = enable_irq 2 ?p"
    by (simp add: i8259_init_def Let_def pic_reset_def pic_outb_def)
  have b: "bit (0xFF :: u8) n \<longleftrightarrow> n < 8" for n
  proof -
    have m: "(0xFF :: u8) = mask 8" by (simp add: mask_eq_exp_minus_1)
    show ?thesis unfolding m by (simp add: bit_mask_iff del: mask_numeral)
  qed
  have mm: "master_mask ?p = 0xFF" "slave_mask ?p = 0xFF"
    by (simp_all add: pic_outb_def pic_reset_def)
  have "\<not> irq_enabled ?p k" for k
    unfolding irq_enabled_def mm b by auto
  then have "\<forall>k. irq_enabled (i8259_init pic_reset) k \<longleftrightarrow> k = 2"
    unfolding i by (simp add: enable_irq_enabled)
  moreover have "pic_writes (i8259_init pic_reset) =
     [(0x21, 0xFF), (0xA1, 0xFF), (0x20, 0x11), (0x21, 0x20), (0x21, 0x04), (0x21, 0x01),
      (0xA0, 0x11), (0xA1, 0x28), (0xA1, 0x02), (0xA1, 0x01), (0x21, 0xFB)]"
    "master_mask (i8259_init pic_reset) = 0xFB" "slave_mask (i8259_init pic_reset) = 0xFF"
    unfolding i by (simp_all add: enable_irq_def pic_outb_def pic_reset_def Let_def)
  ultimately show ?thesis by (simp add: last_write_def)
qed

text \<open>
  An end of interrupt for a line of the slave acknowledges that line at the slave and line 2 at
  the master, one for the master only that line, and one for a line that does not exist writes
  nothing.
\<close>

theorem send_eoi_writes:
  "pic_writes (send_eoi n p) = pic_writes p @
     (if unat n < 8 then [(MASTER_8259_PORT, EOI OR of_nat (unat n))]
      else if unat n < 16 then [(SLAVE_8259_PORT, EOI OR of_nat (unat n - 8)), (MASTER_8259_PORT, 0x62)]
      else [])"
proof (cases "unat n < 16")
  case True
  then show ?thesis
  proof (cases rule: irq_num_cases)
    case master
    then show ?thesis by (simp add: send_eoi_def pic_outb_def)
  next
    case slave
    have "ucast (n - 8) = (of_nat (unat n - 8) :: u8)"
      using slave(4) by (metis of_nat_unat)
    with slave True show ?thesis by (simp add: send_eoi_def pic_outb_def Let_def)
  qed
next
  case False
  then show ?thesis by (simp add: send_eoi_def word_le_nat_alt)
qed

end
