(* ===== verification/Rtc.thy ===== *)
theory Rtc
  imports I8259
begin

text \<open>
  The real-time clock driver of \<open>student-distrib/rtc.c\<close>: the virtualised periodic interrupt
  (\<open>counter\<close>, \<open>rtc_ct\<close>, \<open>rtc_flg\<close>) and the CMOS registers behind ports 0x70 and 0x71. The index port
  selects a register (its top bit only disables NMIs) and an access to the data port selects
  register D again, which is why the driver selects its register before every access.

  \<open>rtc_irqs\<close> is no variable of the program: it is the number of periodic interrupts that the chip has
  raised. Nothing reads it; it measures how long a program waits.
\<close>

record rtc =
  counter :: u32
  rtc_flg :: u32
  rtc_ct :: u32
  cmos_index :: u8
  cmos :: "u8 \<Rightarrow> u8"
  rtc_irqs :: nat

abbreviation "RTC_A_REG \<equiv> 0x8B :: u8"
abbreviation "RTC_B_REG \<equiv> 0x8B :: u8"
abbreviation "RTC_C_REG \<equiv> 0x8C :: u8"
abbreviation "RTC_FREQ_INITI \<equiv> 1024 :: int"
abbreviation "RTC_FREQ_ACTU \<equiv> 2 :: int"

definition cmos_select :: "u8 \<Rightarrow> rtc \<Rightarrow> rtc" where
  "cmos_select v r = r\<lparr>cmos_index := v AND 0x7F\<rparr>"

definition cmos_in :: "rtc \<Rightarrow> u8 \<times> rtc" where
  "cmos_in r = (cmos r (cmos_index r), r\<lparr>cmos_index := 0x0D\<rparr>)"

definition cmos_out :: "u8 \<Rightarrow> rtc \<Rightarrow> rtc" where
  "cmos_out v r = r\<lparr>cmos := (cmos r)(cmos_index r := v), cmos_index := 0x0D\<rparr>"

section \<open>The interrupt handler and the blocking read\<close>

definition rtc_handler :: "rtc \<times> pic \<Rightarrow> rtc \<times> pic" where
  "rtc_handler s =
     (case s of (r, p) \<Rightarrow>
        let r = r\<lparr>counter := counter r - 1, rtc_irqs := Suc (rtc_irqs r)\<rparr>;
            r = (if counter r = 0 then r\<lparr>counter := rtc_ct r, rtc_flg := 1\<rparr> else r);
            r = cmos_select RTC_C_REG r;
            (_, r) = cmos_in r
        in (r, send_eoi 8 p))"

text \<open>\<open>while(rtc_flg==0);\<close> under the given number of RTC interrupts.\<close>

fun rtc_wait :: "nat \<Rightarrow> rtc \<times> pic \<Rightarrow> (nat \<times> rtc \<times> pic) waiting" where
  "rtc_wait ticks s =
     (if rtc_flg (fst s) = 0
      then (case ticks of 0 \<Rightarrow> Waits | Suc n \<Rightarrow> rtc_wait n (rtc_handler s))
      else Returns (ticks, s))"

declare rtc_wait.simps [simp del]

definition rtc_read :: "nat \<Rightarrow> rtc \<times> pic \<Rightarrow> (int \<times> nat \<times> rtc \<times> pic) waiting" where
  "rtc_read ticks s =
     (case rtc_wait ticks ((fst s)\<lparr>rtc_flg := 0\<rparr>, snd s) of
        Waits \<Rightarrow> Waits
      | Returns (n, s) \<Rightarrow> Returns (0, n, s))"

section \<open>Setting the frequency\<close>

definition rtc_open :: "u8 list \<Rightarrow> rtc \<Rightarrow> int \<times> rtc" where
  "rtc_open filename r = (0, r\<lparr>rtc_ct := word_of_int (RTC_FREQ_INITI div RTC_FREQ_ACTU)\<rparr>)"

definition rtc_close :: "int \<Rightarrow> int" where
  "rtc_close fd = 0"

text \<open>The four bytes of an \<open>int32_t\<close> in memory, least significant first.\<close>

definition load_u32 :: "u8 list \<Rightarrow> u32 option" where
  "load_u32 b =
     (case b of
        b0 # b1 # b2 # b3 # _ \<Rightarrow>
          Some (ucast b0 OR push_bit 8 (ucast b1) OR push_bit 16 (ucast b2) OR push_bit 24 (ucast b3))
      | _ \<Rightarrow> None)"

definition rtc_write :: "u8 list option \<Rightarrow> int \<Rightarrow> rtc \<Rightarrow> (int \<times> rtc) option" where
  "rtc_write buf len r =
     (case buf of
        None \<Rightarrow> Some (-1, r)
      | Some b \<Rightarrow>
          if len \<noteq> 4 then Some (-1, r)
          else do {
            freq \<leftarrow> load_u32 b;
            (if sint freq > RTC_FREQ_INITI then Some (-1, r)
             else if freq AND (freq - 1) \<noteq> 0 then Some (-1, r)
             else do {
               require (freq \<noteq> 0);
               Some (0, r\<lparr>rtc_ct := word_of_int (cdiv RTC_FREQ_INITI (sint freq))\<rparr>)
             })
          })"

text \<open>
  The loop of \<open>rtc_rate_change\<close> counts the shifts until its argument is zero; the shift of a
  negative number never gets there, and the loop does not return.
\<close>

partial_function (option) log2_loop :: "int \<Rightarrow> int \<Rightarrow> int option" where
  "log2_loop temp result =
     (if temp \<noteq> 0 then log2_loop (temp div 2) (result + 1) else Some result)"

definition rtc_rate :: "int \<Rightarrow> int option" where
  "rtc_rate freq_set = do {
     result \<leftarrow> log2_loop (freq_set div 2) 0;
     Some ((15 - result + 1) AND 0x0F)
   }"

definition rtc_rate_change :: "int \<Rightarrow> rtc \<Rightarrow> rtc option" where
  "rtc_rate_change freq_set r = do {
     rate \<leftarrow> rtc_rate freq_set;
     (if rate < 3 then Some r
      else
        (let r = cmos_select RTC_A_REG r;
             (prev, r) = cmos_in r;
             r = cmos_select RTC_A_REG r
         in Some (cmos_out ((prev AND 0xF0) OR word_of_int rate) r)))
   }"

definition rtc_init :: "rtc \<times> pic \<Rightarrow> (rtc \<times> pic) option" where
  "rtc_init s =
     (case s of (r, p) \<Rightarrow>
        let r = cmos_select RTC_B_REG r;
            (prev, r) = cmos_in r;
            r = cmos_select RTC_B_REG r;
            r = cmos_out (prev OR 0x40) r;
            r = cmos_select RTC_A_REG r;
            (prev, r) = cmos_in r;
            r = cmos_select RTC_A_REG r;
            r = cmos_out ((prev AND 0xF0) OR 15) r;
            r = r\<lparr>counter := word_of_int (RTC_FREQ_INITI div RTC_FREQ_ACTU), rtc_flg := 0\<rparr>;
            r = r\<lparr>rtc_ct := counter r\<rparr>;
            p = enable_irq 8 p
        in do { r \<leftarrow> rtc_rate_change 1024 r; Some (r, p) })"

section \<open>The virtual clock\<close>

lemma rtc_handler_sel [simp]:
  "rtc_ct (fst (rtc_handler s)) = rtc_ct (fst s)"
  "cmos (fst (rtc_handler s)) = cmos (fst s)"
  "rtc_irqs (fst (rtc_handler s)) = Suc (rtc_irqs (fst s))"
  "snd (rtc_handler s) = send_eoi 8 (snd s)"
  by (simp_all add: rtc_handler_def cmos_select_def cmos_in_def Let_def split: prod.splits)

lemma rtc_handler_tick:
  "counter (fst s) \<noteq> 1 \<Longrightarrow> counter (fst (rtc_handler s)) = counter (fst s) - 1 \<and>
     rtc_flg (fst (rtc_handler s)) = rtc_flg (fst s)"
  "counter (fst s) = 1 \<Longrightarrow> counter (fst (rtc_handler s)) = rtc_ct (fst s) \<and>
     rtc_flg (fst (rtc_handler s)) = 1"
  by (auto simp: rtc_handler_def cmos_select_def cmos_in_def Let_def split: prod.splits)

lemma rtc_wait_flag: "rtc_flg (fst s) \<noteq> 0 \<Longrightarrow> rtc_wait n s = Returns (n, s)"
  by (subst rtc_wait.simps) simp

lemma rtc_wait_step: "rtc_flg (fst s) = 0 \<Longrightarrow> rtc_wait (Suc n) s = rtc_wait n (rtc_handler s)"
  by (subst rtc_wait.simps) simp

lemma rtc_wait_0: "rtc_flg (fst s) = 0 \<Longrightarrow> rtc_wait 0 s = Waits"
  by (subst rtc_wait.simps) simp

lemma rtc_wait_eq:
  "rtc_flg (fst s) = 0 \<Longrightarrow> unat (counter (fst s)) = Suc c \<Longrightarrow>
   (ticks \<le> c \<longrightarrow> rtc_wait ticks s = Waits) \<and>
   (c < ticks \<longrightarrow> (\<exists>r p. rtc_wait ticks s = Returns (ticks - Suc c, r, p) \<and>
      counter r = rtc_ct (fst s) \<and> rtc_ct r = rtc_ct (fst s) \<and> rtc_irqs r = rtc_irqs (fst s) + Suc c))"
proof (induction ticks arbitrary: s c)
  case 0
  then show ?case by (simp add: rtc_wait_0)
next
  case (Suc n)
  have step: "rtc_wait (Suc n) s = rtc_wait n (rtc_handler s)"
    using Suc.prems(1) by (rule rtc_wait_step)
  show ?case
  proof (cases c)
    case 0
    then have one: "counter (fst s) = 1" using Suc.prems(2) by (simp add: word_unat_eq_iff)
    note h = rtc_handler_tick(2) [OF one]
    have "rtc_wait n (rtc_handler s) = Returns (n, rtc_handler s)"
      using h by (simp add: rtc_wait_flag)
    then show ?thesis
      using 0 step h rtc_handler_sel [of s] by (cases "rtc_handler s") auto
  next
    case (Suc c')
    have "counter (fst s) \<noteq> 1" using Suc Suc.prems(2) by auto
    note h = rtc_handler_tick(1) [OF this]
    have "counter (fst s) \<noteq> 0" using Suc.prems(2) by auto
    then have "unat (counter (fst s) - 1) = unat (counter (fst s)) - 1" by (rule unat_minus_one)
    then have "unat (counter (fst (rtc_handler s))) = Suc c'"
      using h Suc Suc.prems(2) by simp
    from Suc.IH [OF _ this] show ?thesis
      using h Suc step Suc.prems(1) by auto
  qed
qed

section \<open>Logarithms\<close>

lemma log2_loop_negative:
  assumes "log2_loop temp result = Some n"
  shows "0 \<le> temp"
  using assms
proof (rule log2_loop.raw_induct [where P = "\<lambda>temp result n. 0 \<le> temp", rotated])
  fix f and temp result n :: int
  assume IH: "\<And>temp result n. f temp result = Some n \<Longrightarrow> 0 \<le> temp"
    and r: "(if temp \<noteq> 0 then f (temp div 2) (result + 1) else Some result) = Some n"
  show "0 \<le> temp"
  proof (cases "temp = 0")
    case False
    with r have "f (temp div 2) (result + 1) = Some n" by simp
    from IH [OF this] show ?thesis by (simp add: pos_imp_zdiv_nonneg_iff)
  qed simp
qed

lemma log2_loop_power: "log2_loop (2 ^ k) result = Some (result + int k + 1)"
proof (induction k arbitrary: result)
  case 0
  show ?case by (subst log2_loop.simps, subst log2_loop.simps) simp
next
  case (Suc k)
  have "log2_loop (2 ^ Suc k) result = log2_loop (2 ^ k) (result + 1)"
    by (subst log2_loop.simps) simp
  with Suc show ?case by simp
qed

section \<open>Properties\<close>

lemma rtc_read_eq:
  assumes c: "unat (counter (fst s)) = Suc c"
  shows "(ticks \<le> c \<longrightarrow> rtc_read ticks s = Waits) \<and>
    (c < ticks \<longrightarrow> (\<exists>r p. rtc_read ticks s = Returns (0, ticks - Suc c, r, p) \<and>
       counter r = rtc_ct (fst s) \<and> rtc_ct r = rtc_ct (fst s) \<and> rtc_irqs r = rtc_irqs (fst s) + Suc c))"
  using rtc_wait_eq [of "((fst s)\<lparr>rtc_flg := 0\<rparr>, snd s)" c ticks] c
  by (auto simp: rtc_read_def)

definition demo_rtc :: rtc where
  "demo_rtc = \<lparr>counter = 3, rtc_flg = 1, rtc_ct = 512, cmos_index = 0, cmos = (\<lambda>_. 0x26), rtc_irqs = 0\<rparr>"

text \<open>
  C40. \<open>rtc_read\<close> returns after exactly as many RTC interrupts as the countdown holds, not earlier and
  not later, and the countdown then starts again from the period the process has set.
\<close>

theorem rtc_read_waits_for_countdown:
  assumes "counter (fst s) \<noteq> 0"
  shows "(ticks < unat (counter (fst s)) \<longrightarrow> rtc_read ticks s = Waits) \<and>
    (unat (counter (fst s)) \<le> ticks \<longrightarrow>
      (\<exists>r p. rtc_read ticks s = Returns (0, ticks - unat (counter (fst s)), r, p) \<and>
        counter r = rtc_ct (fst s) \<and> rtc_ct r = rtc_ct (fst s)))"
proof -
  have "unat (counter (fst s)) \<noteq> 0" using assms by (simp add: unat_eq_zero)
  then obtain c where c: "unat (counter (fst s)) = Suc c" by (cases "unat (counter (fst s))") auto
  from rtc_read_eq [OF c, of ticks] show ?thesis unfolding c by (auto simp: less_Suc_eq_le Suc_le_eq)
qed

theorem rtc_read_waits_for_countdown_witness:
  "rtc_read 2 (demo_rtc, pic_reset) = Waits \<and>
   (\<exists>r p. rtc_read 5 (demo_rtc, pic_reset) = Returns (0, 2, r, p) \<and> counter r = 512)"
  using rtc_read_waits_for_countdown [of "(demo_rtc, pic_reset)" 2]
    rtc_read_waits_for_countdown [of "(demo_rtc, pic_reset)" 5]
  by (auto simp: demo_rtc_def)

text \<open>
  Writing a frequency of \<open>2^k\<close> Hz, \<open>k \<le> 10\<close>, succeeds, and from the next expiry on every read of the
  clock takes exactly \<open>1024 / 2^k\<close> interrupts of the 1024 Hz hardware clock.
\<close>

theorem rtc_write_sets_period:
  assumes k: "k \<le> 10" and b: "load_u32 b = Some (2 ^ k)" and c: "unat (counter r) = Suc c" "c < m"
  shows "\<exists>r1 n s2. rtc_write (Some b) 4 r = Some (0, r1) \<and>
    rtc_read m (r1, p) = Returns (0, n, s2) \<and>
    (rtc_read l s2 = Waits \<longleftrightarrow> l < 1024 div 2 ^ k)"
proof -
  have pw: "unat (2 ^ k :: u32) = 2 ^ k"
  proof -
    have "(2 :: nat) ^ k \<le> 2 ^ 10" using k by (intro power_increasing) simp_all
    then show ?thesis using unat_of_nat_u32 [of "2 ^ k"] by simp
  qed
  have le: "(2 :: nat) ^ k \<le> 1024" using k power_increasing [of k 10 "2 :: nat"] by simp
  have s: "sint (2 ^ k :: u32) = 2 ^ k" using sint_of_unat [OF pw] le by simp
  have "(2 :: u32) ^ k AND (2 ^ k - 1) = 0"
    by (rule bit_word_eqI) (auto simp: bit_simps simp flip: mask_eq_exp_minus_1)
  moreover have "\<not> (2 :: int) ^ k > 1024" using le by (metis linorder_not_less numeral_power_le_of_nat_cancel_iff of_nat_numeral of_nat_power)
  moreover have "(2 :: u32) ^ k \<noteq> 0" using pw by (metis power_not_zero unat_0 zero_neq_numeral)
  moreover have "cdiv 1024 (2 ^ k) = 2 ^ (10 - k)"
    using k power_diff [of "2 :: int" k 10] by (simp add: cdiv_def)
  ultimately have w: "rtc_write (Some b) 4 r = Some (0, r\<lparr>rtc_ct := word_of_int (2 ^ (10 - k))\<rparr>)"
    using b s by (simp add: rtc_write_def)
  let ?r1 = "r\<lparr>rtc_ct := word_of_int (2 ^ (10 - k))\<rparr>"
  obtain r2 p2 where r2: "rtc_read m (?r1, p) = Returns (0, m - Suc c, r2, p2)"
    "counter r2 = word_of_int (2 ^ (10 - k))"
    using rtc_read_eq [of "(?r1, p)" c m] c by auto
  have d: "unat (counter r2) = 1024 div 2 ^ k"
  proof -
    have "unat (2 ^ (10 - k) :: u32) = 2 ^ (10 - k)"
      using unat_of_nat_u32 [of "2 ^ (10 - k)"] power_increasing [of "10 - k" 10 "2 :: nat"] by simp
    moreover have "(1024 :: nat) div 2 ^ k = 2 ^ (10 - k)"
      using k power_diff [of "2 :: nat" k 10] by simp
    ultimately show ?thesis using r2(2) by simp
  qed
  have "0 < (1024 :: nat) div 2 ^ k" using le by (simp add: div_greater_zero_iff)
  then obtain c2 where c2: "unat (counter (fst (r2, p2))) = Suc c2"
    using d by (cases "(1024 :: nat) div 2 ^ k") auto
  have "rtc_read l (r2, p2) = Waits \<longleftrightarrow> l < 1024 div 2 ^ k"
    using rtc_read_eq [OF c2, of l] c2 d by (cases "l \<le> c2") auto
  with w r2(1) show ?thesis by blast
qed

theorem rtc_write_sets_period_witness:
  "\<exists>r1 n s2. rtc_write (Some [0, 2, 0, 0]) 4 demo_rtc = Some (0, r1) \<and>
    rtc_read 3 (r1, pic_reset) = Returns (0, n, s2) \<and> (rtc_read 1 s2 = Waits \<longleftrightarrow> (1 :: nat) < 2)"
  using rtc_write_sets_period [where k = 9 and b = "[0, 2, 0, 0]" and r = demo_rtc and c = 2
      and m = 3 and l = 1 and p = pic_reset]
  by (simp add: load_u32_def demo_rtc_def)

text \<open>
  Two frequencies that no power of two is pass the check of \<open>rtc_write\<close>: zero divides by zero,
  and the smallest \<open>int32_t\<close> sets a period of zero.
\<close>

theorem rtc_write_accepts_bad_frequency:
  "rtc_write (Some [0, 0, 0, 0]) 4 r = None \<and>
   rtc_write (Some [0, 0, 0, 0x80]) 4 r = Some (0, r\<lparr>rtc_ct := 0\<rparr>)"
  by (simp add: rtc_write_def load_u32_def cdiv_def)

lemma rtc_rate_change_cmos:
  "rtc_rate_change freq r = Some r' \<Longrightarrow> k \<noteq> 0x0B \<Longrightarrow> cmos r' k = cmos r k"
  by (auto simp: rtc_rate_change_def Let_def cmos_select_def cmos_in_def cmos_out_def
      bind_eq_Some_conv split: if_splits)

lemma rtc_rate_1024: "rtc_rate 1024 = Some 6"
proof -
  have "log2_loop (2 ^ 9) 0 = Some 10" by (subst log2_loop_power) simp
  then show ?thesis by (simp add: rtc_rate_def)
qed

text \<open>
  The clock never programs its rate: register A of the CMOS keeps its value through \<open>rtc_init\<close>
  and every \<open>rtc_rate_change\<close> (the driver's name for it is the number of register B, whose low bits
  get the rate instead).
\<close>

theorem rtc_init_leaves_register_a:
  "\<exists>r' p'. rtc_init (r, p) = Some (r', p') \<and> cmos r' 0x0A = cmos r 0x0A \<and>
     cmos r' 0x0B = (((cmos r 0x0B OR 0x40) AND 0xF0 OR 15) AND 0xF0) OR 6 \<and>
     counter r' = 512 \<and> rtc_ct r' = 512 \<and> (irq_enabled p i \<longrightarrow> irq_enabled p' i) \<and> irq_enabled p' 8"
  by (simp add: rtc_init_def rtc_rate_change_def rtc_rate_1024 Let_def cmos_select_def cmos_in_def
      cmos_out_def enable_irq_enabled)

theorem rtc_init_leaves_register_a_witness:
  "\<exists>r' p'. rtc_init (demo_rtc, pic_reset) = Some (r', p') \<and> cmos r' 0x0A = 0x26 \<and>
     cmos r' 0x0B = 0x66"
  using rtc_init_leaves_register_a [where r = demo_rtc and p = pic_reset and i = 0]
  by (auto simp: demo_rtc_def)

text \<open>
  For a power of two from 2 to 8192 Hz the rate \<open>rtc_rate_change\<close> computes is the one at which the
  hardware, which divides 32768 Hz by \<open>2^(rate-1)\<close>, runs at that frequency; for a negative
  frequency the loop that computes it does not end.
\<close>

theorem rtc_rate_matches_frequency:
  "(\<forall>k \<in> {1..13}. rtc_rate (2 ^ k) = Some (16 - int k) \<and>
      drop_bit (nat (16 - int k - 1)) (32768 :: int) = 2 ^ k) \<and>
   (\<forall>f < 0. rtc_rate f = None)"
proof (intro conjI ballI allI impI)
  fix k :: nat assume k: "k \<in> {1..13}"
  then obtain j where j: "k = Suc j" by (cases k) auto
  have "log2_loop (2 ^ j) 0 = Some (int k)" by (subst log2_loop_power) (simp add: j)
  moreover have "(16 - int k) AND 15 = 16 - int k"
  proof -
    have "(16 - int k) AND mask 4 = (16 - int k) mod 2 ^ 4"
      by (simp only: take_bit_eq_mask [symmetric] take_bit_eq_mod)
    also have "\<dots> = 16 - int k" by (rule mod_pos_pos_trivial) (use k in auto)
    finally show ?thesis by (simp add: mask_eq_exp_minus_1)
  qed
  ultimately show "rtc_rate (2 ^ k) = Some (16 - int k)" by (simp add: rtc_rate_def j)
  have n: "nat (16 - int k - 1) = 15 - k" using k by auto
  have "(32768 :: int) div 2 ^ (15 - k) = 2 ^ (15 - (15 - k))"
    using power_diff [of "2 :: int" "15 - k" 15] by simp
  then show "drop_bit (nat (16 - int k - 1)) (32768 :: int) = 2 ^ k"
    unfolding n using k by (simp add: drop_bit_eq_div)
next
  fix f :: int assume f: "f < 0"
  have "\<not> 0 \<le> f div 2" using f by (simp add: pos_imp_zdiv_nonneg_iff)
  then have "log2_loop (f div 2) 0 = None"
    using log2_loop_negative [of "f div 2" 0] by (cases "log2_loop (f div 2) 0") auto
  then show "rtc_rate f = None" by (simp add: rtc_rate_def)
qed

theorem rtc_rate_matches_frequency_witness: "rtc_rate 1024 = Some 6 \<and> rtc_rate (-5) = None"
proof -
  have "\<forall>k \<in> {1..13}. rtc_rate (2 ^ k) = Some (16 - int k)"
    using rtc_rate_matches_frequency by blast
  then have "rtc_rate (2 ^ 10) = Some (16 - int 10)" by (rule bspec) simp
  moreover have "rtc_rate (-5) = None" using rtc_rate_matches_frequency by simp
  ultimately show ?thesis by simp
qed

end
