(* ===== verification/Console_Frame.thy ===== *)
theory Console_Frame
  imports Terminal
begin

text \<open>
  What drawing never touches: which terminal runs, which one is on the display, the typed line, the
  command history and the page table. The lemmas follow the call graph of the console from \<open>vput\<close> up
  to \<open>terminal_write\<close>; saving and restoring a terminal keeps only the turn.
\<close>

definition same_turn :: "tty \<Rightarrow> tty \<Rightarrow> bool" where
  "same_turn t t' \<longleftrightarrow>
     terminal_now t' = terminal_now t \<and> cur_display_terminal_id t' = cur_display_terminal_id t"

definition same_input :: "tty \<Rightarrow> tty \<Rightarrow> bool" where
  "same_input t t' \<longleftrightarrow> same_turn t t' \<and> page_table_vid t' = page_table_vid t \<and>
     keyboard_buffer t' = keyboard_buffer t \<and> kb_buf_idx t' = kb_buf_idx t \<and>
     command_list t' = command_list t \<and> command_total t' = command_total t \<and> command_count t' = command_count t"

lemma same_refl [simp, intro]: "same_turn t t" "same_input t t"
  by (simp_all add: same_turn_def same_input_def)

lemma same_turn_trans: "same_turn t u \<Longrightarrow> same_turn u v \<Longrightarrow> same_turn t v"
  by (simp add: same_turn_def)

lemma same_input_trans: "same_input t u \<Longrightarrow> same_input u v \<Longrightarrow> same_input t v"
  by (auto simp: same_input_def intro: same_turn_trans)

lemma same_input_turn: "same_input t u \<Longrightarrow> same_turn t u"
  by (simp add: same_input_def)

lemma same_turn_upd [simp]:
  "same_turn t (u\<lparr>screen_x := x\<rparr>) = same_turn t u" "same_turn t (u\<lparr>screen_y := y\<rparr>) = same_turn t u"
  "same_turn t (u\<lparr>vram := v\<rparr>) = same_turn t u" "same_turn t (u\<lparr>terminals := a\<rparr>) = same_turn t u"
  "same_turn t (new_cursor x y u) = same_turn t u"
  "same_turn t (u\<lparr>kb_buf_idx := i\<rparr>) = same_turn t u" "same_turn t (u\<lparr>keyboard_buffer := b\<rparr>) = same_turn t u"
  "same_turn t (u\<lparr>page_table_vid := pt\<rparr>) = same_turn t u"
  "same_turn t (change_cursor_x x u) = same_turn t u" "same_turn t (change_cursor_y y u) = same_turn t u"
  by (simp_all add: same_turn_def new_cursor_def outb_csr_index_def outb_csr_data_def Let_def
      change_cursor_x_def change_cursor_y_def)

lemma same_turn_arg [simp]:
  "same_turn (u\<lparr>terminals := a\<rparr>) t = same_turn u t" "same_turn (new_cursor x y u) t = same_turn u t"
  "same_turn (u\<lparr>kb_buf_idx := i\<rparr>) t = same_turn u t"
  "same_turn (u\<lparr>keyboard_buffer := b\<rparr>) t = same_turn u t" "same_turn (u\<lparr>page_table_vid := pt\<rparr>) t = same_turn u t"
  "same_turn (change_cursor_x x u) t = same_turn u t" "same_turn (change_cursor_y y u) t = same_turn u t"
  by (simp_all add: same_turn_def new_cursor_def outb_csr_index_def outb_csr_data_def Let_def
      change_cursor_x_def change_cursor_y_def)

lemma same_input_upd [simp]:
  "same_input t (u\<lparr>screen_x := x\<rparr>) = same_input t u" "same_input t (u\<lparr>screen_y := y\<rparr>) = same_input t u"
  "same_input t (u\<lparr>enter_or_overflow := e\<rparr>) = same_input t u" "same_input t (u\<lparr>vram := v\<rparr>) = same_input t u"
  "same_input t (u\<lparr>terminals := a\<rparr>) = same_input t u" "same_input t (new_cursor x y u) = same_input t u"
  "same_input t (set_cursor x y u) = same_input t u" "same_input t (normalize u) = same_input t u"
  "same_input t (normalize_backstage u) = same_input t u"
  by (simp_all add: same_input_def same_turn_def new_cursor_def outb_csr_index_def outb_csr_data_def Let_def
      set_cursor_def normalize_def normalize_backstage_def)

lemma same_input_arg [simp]:
  "same_input (u\<lparr>screen_x := x\<rparr>) t = same_input u t" "same_input (u\<lparr>screen_y := y\<rparr>) t = same_input u t"
  "same_input (u\<lparr>terminals := a\<rparr>) t = same_input u t" "same_input (set_cursor x y u) t = same_input u t"
  "same_input (new_cursor x y u) t = same_input u t"
  by (simp_all add: same_input_def same_turn_def new_cursor_def outb_csr_index_def outb_csr_data_def Let_def
      set_cursor_def)

lemma vput_input: "vput t off c = Some t' \<Longrightarrow> same_input t t'"
  by (auto simp: vput_def split: bind_splits if_splits)

lemma put_attrib_input: "put_attrib t tid off = Some t' \<Longrightarrow> same_input t t'"
  by (auto simp: put_attrib_def split: if_splits dest: vput_input)

lemma put_cell_input: "put_cell c t = Some t' \<Longrightarrow> same_input t t'"
  by (auto simp: put_cell_def split: bind_splits dest!: vput_input put_attrib_input intro: same_input_trans)

lemma put_cell_backstage_input: "put_cell_backstage c t = Some t' \<Longrightarrow> same_input t t'"
  by (auto simp: put_cell_backstage_def split: bind_splits dest!: vput_input put_attrib_input
      intro: same_input_trans)

lemma line_attrib_input: "line_attrib t i = Some t' \<Longrightarrow> same_input t t'"
  by (auto simp: line_attrib_def split: if_splits dest: put_attrib_input)

lemma clean_one_line_input: "clean_one_line t y = Some t' \<Longrightarrow> same_input t t'"
proof -
  have "clean_one_line_loop t y i = Some t' \<Longrightarrow> same_input t t'" for i
  proof (induction t y i rule: clean_one_line_loop.induct)
    case (1 t y i)
    from 1(2) show ?case
      by (subst (asm) clean_one_line_loop.simps)
        (auto split: bind_splits if_splits dest: vput_input line_attrib_input
          intro: same_input_trans [OF _ 1(1)] same_input_trans [OF same_input_trans 1(1)])
  qed
  then show "clean_one_line t y = Some t' \<Longrightarrow> ?thesis" by (simp add: clean_one_line_def)
qed

lemma clear_input: "clear t = Some t' \<Longrightarrow> same_input t t'"
proof -
  have "clear_loop t i = Some t' \<Longrightarrow> same_input t t'" for i t'
  proof (induction t i rule: clear_loop.induct)
    case (1 t i)
    from 1(2) show ?case
      by (subst (asm) clear_loop.simps)
        (auto split: bind_splits if_splits dest: vput_input put_attrib_input
          intro: same_input_trans [OF _ 1(1)] same_input_trans [OF same_input_trans 1(1)])
  qed
  then show "clear t = Some t' \<Longrightarrow> ?thesis" by (auto simp: clear_def split: bind_splits)
qed

lemma scroll_up_input: "scroll_up t = Some t' \<Longrightarrow> same_input t t'"
  by (auto simp: scroll_up_def split: bind_splits if_splits)

lemma newline_input: "newline t = Some t' \<Longrightarrow> same_input t t'"
  by (auto simp: newline_def Let_def split: bind_splits if_splits dest!: scroll_up_input clean_one_line_input
      intro: same_input_trans)

lemma newline_backstage_input: "newline_backstage t = Some t' \<Longrightarrow> same_input t t'"
  by (auto simp: newline_backstage_def Let_def split: bind_splits if_splits
      dest!: scroll_up_input clean_one_line_input intro: same_input_trans)

lemma backspace_input: "backspace t = Some t' \<Longrightarrow> same_input t t'"
  by (auto simp: backspace_def Let_def split: bind_splits if_splits dest!: put_cell_input)

lemma backspace_backstage_input: "backspace_backstage t = Some t' \<Longrightarrow> same_input t t'"
  by (auto simp: backspace_backstage_def Let_def split: bind_splits if_splits dest!: put_cell_backstage_input)

lemma put_normal_input: "put_normal c t = Some t' \<Longrightarrow> same_input t t'"
  by (auto simp: put_normal_def Let_def split: bind_splits if_splits dest!: put_cell_input newline_input
      intro: same_input_trans)

lemma putc_modf_input: "putc_modf c t = Some t' \<Longrightarrow> same_input t t'"
  by (auto simp: putc_modf_def split: bind_splits if_splits
      dest!: newline_input backspace_input put_normal_input)

lemma putc_backstage_input: "putc_backstage c t = Some t' \<Longrightarrow> same_input t t'"
  by (auto simp: putc_backstage_def Let_def split: bind_splits if_splits
      dest!: newline_backstage_input backspace_backstage_input put_cell_backstage_input intro: same_input_trans)

lemma puts_input: "puts s t = Some (n, t') \<Longrightarrow> same_input t t'"
proof -
  have "puts_loop s i t = Some (n, t') \<Longrightarrow> same_input t t'" for i
  proof (induction s i t rule: puts_loop.induct)
    case (1 s i t)
    from 1(2) show ?case
      by (subst (asm) puts_loop.simps)
        (auto split: option.splits bind_splits if_splits dest: putc_modf_input
          intro: same_input_trans [OF _ 1(1)] same_input_trans [OF same_input_trans 1(1)])
  qed
  then show "puts s t = Some (n, t') \<Longrightarrow> ?thesis" by (simp add: puts_def)
qed

lemma terminal_write_loop_input: "terminal_write_loop buf n i t = Some t' \<Longrightarrow> same_input t t'"
proof (induction buf n i t rule: terminal_write_loop.induct)
  case (1 buf n i t)
  from 1(2) show ?case
    by (subst (asm) terminal_write_loop.simps)
      (auto split: bind_splits if_splits dest: putc_modf_input putc_backstage_input
        intro: same_input_trans [OF _ 1(1)] same_input_trans [OF same_input_trans 1(1)])
qed

lemma terminal_write_input: "terminal_write buf n t = Some (r, t') \<Longrightarrow> same_input t t'"
  by (auto simp: terminal_write_def split: option.splits bind_splits if_splits
      dest!: putc_modf_input terminal_write_loop_input puts_input intro: same_input_trans)

lemmas clear_turn = clear_input [THEN same_input_turn]
lemmas terminal_write_turn = terminal_write_input [THEN same_input_turn]

lemma copy_page_turn: "copy_page dst src t = Some t' \<Longrightarrow> same_turn t t'"
  by (auto simp: copy_page_def split: bind_splits if_splits)

lemma terminal_store_turn: "terminal_store tid t = Some t' \<Longrightarrow> same_turn t t'"
  by (auto simp: terminal_store_def Let_def dest!: copy_page_turn)

lemma terminal_load_turn: "terminal_load tid t = Some t' \<Longrightarrow> same_turn t t'"
  by (auto simp: terminal_load_def Let_def dest!: copy_page_turn)

end
