(* ===== verification/Process.thy ===== *)
theory Process
  imports Filesys Terminal Rtc
begin

text \<open>
  Processes, \<open>student-distrib/systemcall.c\<close>: process control blocks at fixed addresses below 8 MB,
  \<open>execute\<close> (command parsing, the ELF check, allocation of a process id, loading and the switch to
  user mode) and \<open>halt\<close>. The state of the whole kernel is the record \<open>kernel\<close>.

  Entering user mode (\<open>iret\<close>) and the jump back into the parent's \<open>execute\<close> are the values of type
  \<open>control\<close>. Uninitialised local variables are the fields of \<open>exec_locals\<close>; \<open>store_esp\<close> and
  \<open>store_ebp\<close> are assembly that reads two registers, given there as well.
\<close>

section \<open>State\<close>

abbreviation "PCB_SIZE \<equiv> 8 :: nat"
abbreviation "MAX_PROCESS \<equiv> 6 :: nat"
abbreviation "MAX_ARG_LEN \<equiv> 100 :: nat"
abbreviation "STACK_8KB \<equiv> 0x2000 :: u32"
abbreviation "ONE_SAPCE \<equiv> 4 :: u32"
abbreviation "FD_BUSY \<equiv> 1 :: u32"
abbreviation "FIRST_FILE_FD \<equiv> 2 :: int"
abbreviation "KERNEL_DS \<equiv> 0x18 :: u16"

datatype file_opt_table_t =
  NULL_opt_table | stdin_opt_table | stdout_opt_table | RTC_opt_table | DIR_opt_table | REG_FILE_opt_table

record file_array_t =
  table_ptr :: file_opt_table_t
  fd_inode :: u32
  file_pos :: u32
  flg :: u32
  fd_name :: "u8 list"                \<comment> \<open>\<open>char name[32]\<close>\<close>

record pcb_t =
  pcb_ebp :: u32
  pcb_esp :: u32
  esp_ret :: u32
  ebp_ret :: u32
  eip_user :: u32
  esp_user :: u32
  parent_id :: u32
  pcb_id :: u32
  func :: u32
  pending_signals :: "nat \<Rightarrow> int"    \<comment> \<open>\<open>sigqueue_t pending_signals[20]\<close>\<close>
  block :: u32
  pcb_arg :: "u8 list"                \<comment> \<open>\<open>char arg[100]\<close>\<close>
  file_array :: "nat \<Rightarrow> file_array_t"

record kernel =
  kfs :: fs
  ktty :: tty
  krtc :: rtc
  kpic :: pic
  pcbs :: "u32 \<Rightarrow> pcb_t"              \<comment> \<open>by address\<close>
  id_array :: "nat \<Rightarrow> int"            \<comment> \<open>6 entries\<close>
  parent_array :: "nat \<Rightarrow> int"        \<comment> \<open>3 entries\<close>
  pcb_array :: "nat \<Rightarrow> int"           \<comment> \<open>3 entries\<close>
  tss_esp0 :: u32
  tss_ss0 :: u16
  program_img :: "nat \<Rightarrow> u8 list"     \<comment> \<open>each process's page from \<open>PROGIMG_ADDR\<close> on\<close>

section \<open>Process control blocks\<close>

definition get_pcb_addr :: "u32 \<Rightarrow> u32" where
  "get_pcb_addr pid = PROGRAM_START_ADDR - (pid + 1) * STACK_8KB"

definition get_cur_pcb_addr :: "kernel \<Rightarrow> u32 option" where
  "get_cur_pcb_addr k = do {
     require (0 \<le> terminal_now (ktty k));
     pid \<leftarrow> arr_get 3 (pcb_array k) (nat (terminal_now (ktty k)));
     Some (get_pcb_addr (word_of_int pid))
   }"

text \<open>The six blocks exist; any other address is not a block.\<close>

definition is_pcb :: "u32 \<Rightarrow> bool" where
  "is_pcb a \<longleftrightarrow> a \<in> set (map (\<lambda>i. get_pcb_addr (of_nat i)) [0..<MAX_PROCESS])"

definition load_pcb :: "kernel \<Rightarrow> u32 \<Rightarrow> pcb_t option" where
  "load_pcb k a = (if is_pcb a then Some (pcbs k a) else None)"

definition store_pcb :: "u32 \<Rightarrow> pcb_t \<Rightarrow> kernel \<Rightarrow> kernel option" where
  "store_pcb a p k = (if is_pcb a then Some (k\<lparr>pcbs := (pcbs k)(a := p)\<rparr>) else None)"

function pcb_init_loop :: "nat \<Rightarrow> (nat \<Rightarrow> file_array_t) \<Rightarrow> nat \<Rightarrow> file_array_t" where
  "pcb_init_loop i fa =
     (if i < PCB_SIZE then
        pcb_init_loop (Suc i) (fa(i := (fa i)\<lparr>flg := 0, file_pos := 0, fd_inode := 0, table_ptr := NULL_opt_table\<rparr>))
      else fa)"
  by pat_completeness auto
termination by (relation "measure (\<lambda>(i, fa). PCB_SIZE - i)") auto

declare pcb_init_loop.simps [simp del]

definition pcb_initialize :: "pcb_t \<Rightarrow> pcb_t" where
  "pcb_initialize pcb =
     (let pcb = pcb\<lparr>esp_ret := 0, ebp_ret := 0, eip_user := 0, esp_user := 0, pcb_ebp := 0, pcb_esp := 0,
                    parent_id := 0, pcb_id := 0\<rparr>;
          fa = pcb_init_loop 0 (file_array pcb);
          fa = fa(0 := (fa 0)\<lparr>table_ptr := stdin_opt_table, flg := 1\<rparr>);
          fa = fa(1 := (fa 1)\<lparr>table_ptr := stdout_opt_table, flg := 1\<rparr>)
      in pcb\<lparr>file_array := fa\<rparr>)"

section \<open>Parsing the command\<close>

abbreviation "BLANK \<equiv> 0x20 :: u8"

function skip_blanks :: "u8 list \<Rightarrow> nat \<Rightarrow> nat \<Rightarrow> nat option" where
  "skip_blanks command file_len i =
     (if i < file_len then do {
        c \<leftarrow> buf_get command i;
        (if c = BLANK then skip_blanks command file_len (Suc i) else Some i)
      } else Some i)"
  by pat_completeness auto
termination by (relation "measure (\<lambda>(command, n, i). n - i)") auto

declare skip_blanks.simps [simp del]

lemma skip_blanks_le: "skip_blanks command n i = Some j \<Longrightarrow> i \<le> j"
proof (induction command n i rule: skip_blanks.induct)
  case (1 command n i)
  from "1.prems" show ?case
    by (subst (asm) skip_blanks.simps) (auto split: if_splits bind_splits dest!: "1.IH" simp: Suc_le_eq)
qed

text \<open>The program name; \<open>Inl\<close> is the early return.\<close>

function parse_name ::
    "u8 list \<Rightarrow> nat \<Rightarrow> nat \<Rightarrow> nat \<Rightarrow> u8 list \<Rightarrow> (int + nat \<times> nat \<times> u8 list) option" where
  "parse_name command file_len i u fname =
     (if i < file_len then
        (case (if i = 0 \<and> buf_get command i = Some BLANK then skip_blanks command file_len i else Some i) of
           None \<Rightarrow> None
         | Some j \<Rightarrow>
             if i = 0 \<and> buf_get command i = Some BLANK \<and> j = file_len then Some (Inl (-1))
             else (case buf_get command j of
                None \<Rightarrow> None
              | Some c \<Rightarrow>
                  if c = BLANK then Some (Inr (j, u, fname))
                  else (case buf_put fname u c of
                     None \<Rightarrow> None
                   | Some fname \<Rightarrow> parse_name command file_len (Suc j) (Suc u) fname)))
      else Some (Inr (i, u, fname)))"
  by pat_completeness auto
termination
  by (relation "measure (\<lambda>(command, n, i, u, f). n - i)")
    (auto split: if_splits dest!: skip_blanks_le)

declare parse_name.simps [simp del]

function copy_arg :: "u8 list \<Rightarrow> nat \<Rightarrow> nat \<Rightarrow> nat \<Rightarrow> u8 list \<Rightarrow> u8 list option" where
  "copy_arg command file_len i u arg =
     (if u < MAX_ARG_LEN \<and> i < file_len then do {
        c \<leftarrow> buf_get command i;
        (if c \<noteq> BLANK
         then do { arg \<leftarrow> buf_put arg u c; copy_arg command file_len (Suc i) (Suc u) arg }
         else Some arg)
      } else Some arg)"
  by pat_completeness auto
termination by (relation "measure (\<lambda>(command, n, i, u, arg). n - i)") auto

declare copy_arg.simps [simp del]

text \<open>
  The argument: a quoted string goes to \<open>arg_echo\<close> without its first and its last character, anything
  else up to the next blank to \<open>arg\<close>. The length \<open>strlen(command)-i-2\<close> is an unsigned one.
\<close>

definition parse_arg ::
    "u8 list \<Rightarrow> nat \<Rightarrow> nat \<Rightarrow> u8 list \<Rightarrow> (bool \<times> u8 list \<times> u8 list) option" where
  "parse_arg command file_len i arg_echo =
     (let arg = replicate MAX_ARG_LEN 0 in
      if i \<noteq> file_len then do {
        c \<leftarrow> buf_get command i;
        (if c = BLANK then do {
           i \<leftarrow> skip_blanks command file_len i;
           (if i < file_len then do {
              c \<leftarrow> buf_get command i;
              (if c = of_char CHR 0x22 then do {
                 n \<leftarrow> strlen command;
                 (let m = unat (of_nat n - of_nat i - 2 :: u32) in do {
                    arg_echo \<leftarrow> strncpy arg_echo (drop (i + 1) command) m;
                    arg_echo \<leftarrow> buf_put arg_echo m 0;
                    Some (True, arg, arg_echo)
                 })
               }
               else do {
                 arg \<leftarrow> copy_arg command file_len i 0 arg;
                 Some (False, arg, arg_echo)
               })
            } else Some (False, arg, arg_echo))
         } else Some (False, arg, arg_echo))
      } else Some (False, arg, arg_echo))"

section \<open>execute\<close>

datatype control =
    Return int                        \<comment> \<open>back to the caller\<close>
  | Iret_user u32 u32                 \<comment> \<open>to user mode: \<open>eip\<close> and \<open>esp\<close>\<close>
  | Jump_return u32 u32               \<comment> \<open>to \<open>RETURN\<close> in \<open>execute\<close>, with \<open>esp\<close> and \<open>ebp\<close>; \<open>execute\<close> then returns 0\<close>

record exec_locals =
  l_file_name :: "u8 list"            \<comment> \<open>32 bytes\<close>
  l_arg_echo :: "u8 list"             \<comment> \<open>1000000 bytes\<close>
  l_dentry :: dentry_t
  l_buf :: "u8 list"                  \<comment> \<open>5 bytes\<close>
  l_esp :: u32                        \<comment> \<open>\<open>store_esp()\<close>\<close>
  l_ebp :: u32                        \<comment> \<open>\<open>store_ebp()\<close>\<close>

definition ELF :: "u8 list" where
  "ELF = [0x7f, 0x45, 0x4c, 0x46]"

definition execute_check :: "exec_locals \<Rightarrow> u8 list \<Rightarrow> fs \<Rightarrow> (int + u32) option" where
  "execute_check l fname fs = do {
     (r, dentry) \<leftarrow> read_dentry_by_name fs (Some fname) (Some (l_dentry l));
     (if r = -1 then Some (Inl (-1))
      else do {
        dentry \<leftarrow> dentry;
        (let inode_n = inode_num dentry in do {
           (re, buf) \<leftarrow> read_data fs inode_n 0 (Some (l_buf l)) 4;
           (if re = -1 then Some (Inl (-1))
            else do {
              buf \<leftarrow> buf;
              b0 \<leftarrow> buf_get buf 0;
              b1 \<leftarrow> buf_get buf 1;
              b2 \<leftarrow> buf_get buf 2;
              b3 \<leftarrow> buf_get buf 3;
              (if b0 \<noteq> ELF ! 0 \<or> b1 \<noteq> ELF ! 1 \<or> b2 \<noteq> ELF ! 2 \<or> b3 \<noteq> ELF ! 3
               then Some (Inl (-1)) else Some (Inr inode_n))
            })
        })
      })
   }"

text \<open>The first free process id; 6 when there is none.\<close>

function free_id :: "(nat \<Rightarrow> int) \<Rightarrow> nat \<Rightarrow> nat" where
  "free_id ids i = (if i < MAX_PROCESS then if ids i = 0 then i else free_id ids (Suc i) else i)"
  by pat_completeness auto
termination by (relation "measure (\<lambda>(ids, i). MAX_PROCESS - i)") auto

declare free_id.simps [simp del]

text \<open>Mapping the process's page and copying the program into it.\<close>

definition load_program :: "nat \<Rightarrow> u32 \<Rightarrow> kernel \<Rightarrow> kernel option" where
  "load_program pid inode_n k =
     (let k = k\<lparr>ktty := map_program (of_nat pid) (ktty k)\<rparr> in do {
        inode \<leftarrow> arr_get (unat (Num_Inodes (kfs k))) (inode_ptr (kfs k)) (unat inode_n);
        (_, img) \<leftarrow> read_data (kfs k) inode_n 0 (Some (program_img k pid)) (inode_length inode);
        img \<leftarrow> img;
        Some (k\<lparr>program_img := (program_img k)(pid := img)\<rparr>)
      })"

text \<open>The control block of the new process and the bookkeeping of the displayed terminal.\<close>

definition create_pcb :: "nat \<Rightarrow> bool \<Rightarrow> u8 list \<Rightarrow> u8 list \<Rightarrow> kernel \<Rightarrow> (u32 \<times> kernel) option" where
  "create_pcb pid flg_echo arg arg_echo k =
     (let a = get_pcb_addr (of_nat pid);
          term = unat (cur_display_terminal_id (ktty k) - 1) in do {
        pcb \<leftarrow> load_pcb k a;
        (let pcb = (pcb_initialize pcb)\<lparr>pcb_id := of_nat pid\<rparr> in do {
           pa \<leftarrow> arr_put 3 (pcb_array k) term (int pid);
           par \<leftarrow> arr_get 3 (parent_array k) term;
           (let pcb = pcb\<lparr>parent_id := (if par = -1 then pcb_id pcb else word_of_int par)\<rparr> in do {
              arg' \<leftarrow> strncpy (pcb_arg pcb) (if flg_echo then arg_echo else arg) MAX_ARG_LEN;
              k \<leftarrow> store_pcb a (pcb\<lparr>pcb_arg := arg'\<rparr>) k;
              Some (a, k\<lparr>pcb_array := pa, parent_array := (parent_array k)(term := int pid)\<rparr>)
           })
        })
      })"

text \<open>Entry point, kernel stack, user stack, and the registers to return to.\<close>

definition enter_user :: "exec_locals \<Rightarrow> u32 \<Rightarrow> nat \<Rightarrow> kernel \<Rightarrow> (control \<times> kernel) option" where
  "enter_user l a pid k = do {
     pcb \<leftarrow> load_pcb k a;
     eip \<leftarrow> load_u32 (drop 24 (program_img k pid));
     (let pcb = pcb\<lparr>eip_user := eip\<rparr>;
          esp_kernel = PROGRAM_START_ADDR - ONE_SAPCE - STACK_8KB * pcb_id pcb;
          pcb = pcb\<lparr>esp_user := VIR_ADDR + PAGE_4MB - ONE_SAPCE, esp_ret := l_esp l, ebp_ret := l_ebp l\<rparr> in do {
        k \<leftarrow> store_pcb a pcb (k\<lparr>tss_esp0 := esp_kernel, tss_ss0 := KERNEL_DS\<rparr>);
        Some (Iret_user (eip_user pcb) (esp_user pcb), k)
      })
   }"

definition execute :: "exec_locals \<Rightarrow> u8 list \<Rightarrow> kernel \<Rightarrow> (control \<times> kernel) option" where
  "execute l command k = do {
     file_len \<leftarrow> strlen command;
     (if file_len = 0 then Some (Return (-1), k)
      else do {
        p \<leftarrow> parse_name command file_len 0 0 (l_file_name l);
        (case p of
           Inl r \<Rightarrow> Some (Return r, k)
         | Inr (i, u, fname) \<Rightarrow> do {
             fname \<leftarrow> buf_put fname u 0;
             (flg_echo, arg, arg_echo) \<leftarrow> parse_arg command file_len i (l_arg_echo l);
             c \<leftarrow> execute_check l fname (kfs k);
             (case c of
                Inl r \<Rightarrow> Some (Return r, k)
              | Inr inode_n \<Rightarrow>
                  let pid = free_id (id_array k) 0 in
                  if pid = MAX_PROCESS then Some (Return (-1), k)
                  else do {
                    k \<leftarrow> load_program pid inode_n (k\<lparr>id_array := (id_array k)(pid := 1)\<rparr>);
                    (a, k) \<leftarrow> create_pcb pid flg_echo arg arg_echo k;
                    enter_user l a pid k
                  })
           })
      })
   }"

section \<open>halt\<close>

definition halt_paging :: "u32 \<Rightarrow> tty \<Rightarrow> tty" where
  "halt_paging parent t =
     (let addr_for_pt = PAGE_4MB * (parent + 2) in
      t\<lparr>page_directory := (page_directory t)(32 := addr_for_pt OR PRESENT OR R_W OR U_S OR PS)\<rparr>)"

function close_fds :: "nat \<Rightarrow> (nat \<Rightarrow> file_array_t) \<Rightarrow> nat \<Rightarrow> file_array_t" where
  "close_fds i fa = (if i < PCB_SIZE then close_fds (Suc i) (fa(i := (fa i)\<lparr>flg := 0\<rparr>)) else fa)"
  by pat_completeness auto
termination by (relation "measure (\<lambda>(i, fa). PCB_SIZE - i)") auto

declare close_fds.simps [simp del]

text \<open>
  \<open>status\<close> is not used. \<open>pcb_array[terminal_now] == cur_pcb_addr->id\<close> compares as unsigned words.
\<close>

definition halt :: "u8 \<Rightarrow> kernel \<Rightarrow> (control \<times> kernel) option" where
  "halt status k = do {
     a \<leftarrow> get_cur_pcb_addr k;
     cur \<leftarrow> load_pcb k a;
     (if pcb_id cur = parent_id cur
      then Some (Iret_user (eip_user cur) (esp_user cur), k)
      else do {
        par \<leftarrow> load_pcb k (get_pcb_addr (parent_id cur));
        (let term = nat (terminal_now (ktty k));
             pa = (pcb_array k)(term := sint (parent_id cur));
             k = k\<lparr>pcb_array := pa, parent_array := (parent_array k)(term := sint (parent_id par))\<rparr> in do {
           ids \<leftarrow> (if word_of_int (pa term) = pcb_id cur
                  then arr_put MAX_PROCESS (id_array k) term 1
                  else arr_put MAX_PROCESS (id_array k) (unat (pcb_id cur)) 0);
           k \<leftarrow> store_pcb a (cur\<lparr>file_array := close_fds 0 (file_array cur)\<rparr>) (k\<lparr>id_array := ids\<rparr>);
           Some (Jump_return (esp_ret cur) (ebp_ret cur),
             k\<lparr>ktty := halt_paging (parent_id cur) (ktty k), tss_ss0 := KERNEL_DS,
               tss_esp0 := PROGRAM_START_ADDR - pcb_id par * STACK_8KB - 4\<rparr>)
         })
      })
   }"

end
