(* ===== verification/Scheduler.thy ===== *)
theory Scheduler
  imports Process
begin

text \<open>
  Round robin between the three terminals, \<open>student-distrib/pit.c\<close>, and the two operations of
  \<open>student-distrib/terminal.c\<close> that start and display terminals, \<open>terminal_init\<close> and \<open>terminal_shift\<close>.

  The switch of \<open>esp\<close> and \<open>ebp\<close> at the end of \<open>pit_handler\<close> is the value \<open>Switch_stack\<close>; the registers
  that it saves are parameters. \<open>cli\<close> and \<open>sti\<close> are left out.
\<close>

section \<open>The timer\<close>

abbreviation "PIT_BASE_FREQ \<equiv> 1193182 :: int"

definition pit_init :: "pic \<Rightarrow> (nat \<times> u8) list \<times> pic" where
  "pit_init p =
     (let ticks_between_interrupt = word_of_int (PIT_BASE_FREQ div 82) :: u16;
          lobyte = ucast (ticks_between_interrupt AND 0xF) :: u8;
          hibyte = ucast (drop_bit 8 ticks_between_interrupt) :: u8
      in ([(0x43, 0x36), (0x40, lobyte), (0x40, hibyte)], enable_irq 0 p))"

section \<open>Round robin\<close>

datatype switch = Keep_stack | Switch_stack u32 u32

text \<open>The search for the next terminal with a process does not end when there is none.\<close>

partial_function (option) next_terminal :: "(nat \<Rightarrow> int) \<Rightarrow> nat \<Rightarrow> nat option" where
  "next_terminal pa t = (if pa t = -1 then next_terminal pa ((t + 1) mod 3) else Some t)"

definition video_entry :: "u32 \<Rightarrow> u32" where
  "video_entry frame = frame OR PRESENT OR R_W OR U_S"

text \<open>The displayed terminal draws on the display, every other one on its background page.\<close>

definition map_video :: "nat \<Rightarrow> tty \<Rightarrow> tty" where
  "map_video now t =
     (let e = (if (of_nat now :: u32) = cur_display_terminal_id t - 1
               then video_entry VIDEO_MEM_BASE else video_entry (VIDEO_MEM_T1 + of_nat now * 0x1000))
      in t\<lparr>page_table_vid := (page_table_vid t)(VIDEO_FRAME := e),
           page_table_vidpage := (page_table_vidpage t)(VIDEO_FRAME := e)\<rparr>)"

definition pit_handler :: "u32 \<Rightarrow> u32 \<Rightarrow> kernel \<Rightarrow> (switch \<times> kernel) option" where
  "pit_handler esp ebp k =
     (let k = k\<lparr>kpic := send_eoi 0 (kpic k)\<rparr> in do {
        cur \<leftarrow> get_cur_pcb_addr k;
        now \<leftarrow> next_terminal (pcb_array k) ((nat (terminal_now (ktty k)) + 1) mod 3);
        (let k = k\<lparr>ktty := (ktty k)\<lparr>terminal_now := int now\<rparr>\<rparr>;
             nxt = get_pcb_addr (word_of_int (pcb_array k now)) in do {
           next_pcb \<leftarrow> load_pcb k nxt;
           cur_pcb \<leftarrow> load_pcb k cur;
           (if pcb_id next_pcb = pcb_id cur_pcb then Some (Keep_stack, k)
            else
              let k = k\<lparr>ktty := map_video now (map_program (pcb_id next_pcb) (ktty k)),
                        tss_esp0 := PROGRAM_START_ADDR - ONE_SAPCE - STACK_8KB * pcb_id next_pcb,
                        tss_ss0 := KERNEL_DS\<rparr> in do {
                k \<leftarrow> store_pcb cur (cur_pcb\<lparr>pcb_esp := esp, pcb_ebp := ebp\<rparr>) k;
                next_pcb \<leftarrow> load_pcb k nxt;
                Some (Switch_stack (pcb_esp next_pcb) (pcb_ebp next_pcb), k)
              })
         })
      })"

section \<open>Terminals\<close>

definition set_terminal_id :: "nat \<Rightarrow> int \<Rightarrow> tty \<Rightarrow> tty" where
  "set_terminal_id a tid t = t\<lparr>terminals := (terminals t)(a := (terminals t a)\<lparr>terminal_id := tid\<rparr>)\<rparr>"

definition terminal_init :: "kernel \<Rightarrow> kernel option" where
  "terminal_init k = do {
     t \<leftarrow> terminal_store 1 (set_terminal_id 1 1 ((ktty k)\<lparr>cur_display_terminal_id := 1\<rparr>));
     t \<leftarrow> terminal_store 2 (set_terminal_id 2 2 t);
     t \<leftarrow> terminal_store 3 (set_terminal_id 3 3 t);
     Some (k\<lparr>ktty := t, pcb_array := (pcb_array k)(0 := 0, 1 := -1, 2 := -1)\<rparr>)
   }"

text \<open>
  Displaying terminal 2 or 3: the first time its shell is started, and if that fails the previous
  terminal is displayed again. \<open>esp\<close> and \<open>ebp\<close> are the registers saved for the interrupted process.
\<close>

definition shell :: "u8 list" where
  "shell = ascii ''shell'' @ [0]"

definition show_or_start ::
    "exec_locals \<Rightarrow> u32 \<Rightarrow> u32 \<Rightarrow> nat \<Rightarrow> int \<Rightarrow> u32 \<Rightarrow> kernel \<Rightarrow> (control \<times> kernel) option" where
  "show_or_start l esp ebp slot terminal_last cur_display_last k =
     (if pcb_array k slot = -1 then do {
        t \<leftarrow> clear (ktty k);
        (let k = k\<lparr>ktty := t\<rparr> in do {
           a \<leftarrow> get_cur_pcb_addr k;
           cur_pcb \<leftarrow> load_pcb k a;
           k \<leftarrow> store_pcb a (cur_pcb\<lparr>pcb_esp := esp, pcb_ebp := ebp\<rparr>) k;
           kb \<leftarrow> buf_put (keyboard_buffer (ktty k)) 0 0;
           (let t = (ktty k)\<lparr>terminal_now := sint (cur_display_terminal_id (ktty k) - 1),
                             kb_buf_idx := 0, keyboard_buffer := kb\<rparr> in do {
              (c, k) \<leftarrow> execute l shell (k\<lparr>ktty := t\<rparr>);
              (if c = Return (-1) then do {
                 t \<leftarrow> terminal_load (sint cur_display_last)
                       ((ktty k)\<lparr>terminal_now := terminal_last, cur_display_terminal_id := cur_display_last\<rparr>);
                 Some (Return 0, k\<lparr>ktty := t\<rparr>)
               }
               else Some (c, k))
            })
         })
      }
      else do {
        t \<leftarrow> terminal_load (sint (cur_display_terminal_id (ktty k))) (ktty k);
        Some (Return 0, k\<lparr>ktty := t\<rparr>)
      })"

text \<open>The \<open>switch\<close> over the terminal that is to be displayed.\<close>

definition show_terminal ::
    "exec_locals \<Rightarrow> u32 \<Rightarrow> u32 \<Rightarrow> int \<Rightarrow> u32 \<Rightarrow> kernel \<Rightarrow> (control \<times> kernel) option" where
  "show_terminal l esp ebp terminal_last cur_display_last k =
     (if cur_display_terminal_id (ktty k) = 1 then do {
        t \<leftarrow> terminal_load (sint (cur_display_terminal_id (ktty k))) (ktty k);
        Some (Return 0, k\<lparr>ktty := t\<rparr>)
      }
      else if cur_display_terminal_id (ktty k) = 2
      then show_or_start l esp ebp 1 terminal_last cur_display_last k
      else if cur_display_terminal_id (ktty k) = 3
      then show_or_start l esp ebp 2 terminal_last cur_display_last k
      else Some (Return 0, k))"

definition map_background :: "tty \<Rightarrow> tty" where
  "map_background t = t\<lparr>page_table_vid := (page_table_vid t)
     (VIDEO_FRAME := video_entry (VIDEO_MEM_T1 + word_of_int (terminal_now t) * 0x1000))\<rparr>"

text \<open>When a shell has been entered, what follows the \<open>switch\<close> waits until that shell halts.\<close>

definition terminal_shift ::
    "exec_locals \<Rightarrow> u32 \<Rightarrow> u32 \<Rightarrow> int \<Rightarrow> kernel \<Rightarrow> (control \<times> kernel) option" where
  "terminal_shift l esp ebp tid k =
     (let terminal_last = terminal_now (ktty k);
          cur_display_last = cur_display_terminal_id (ktty k) in
      if word_of_int tid = cur_display_terminal_id (ktty k) then Some (Return 0, k)
      else do {
        t \<leftarrow> terminal_store (sint (cur_display_terminal_id (ktty k)))
               ((ktty k)\<lparr>page_table_vid := (page_table_vid (ktty k))(VIDEO_FRAME := video_entry VIDEO_MEM_BASE)\<rparr>);
        (c, k) \<leftarrow> show_terminal l esp ebp terminal_last cur_display_last
                    (k\<lparr>ktty := t\<lparr>cur_display_terminal_id := word_of_int tid\<rparr>\<rparr>);
        (case c of
           Return _ \<Rightarrow> Some (Return 0, k\<lparr>ktty := map_background (ktty k)\<rparr>)
         | _ \<Rightarrow> Some (c, k))
      })"

end
