(* ===== verification/Syscall.thy ===== *)
theory Syscall
  imports Process
begin

text \<open>
  The system calls of \<open>student-distrib/systemcall.c\<close> on file descriptors, arguments and signals, with
  \<open>file_read\<close>, \<open>file_write\<close> and \<open>dir_read\<close> of \<open>student-distrib/filesys.c\<close>, which use the descriptor of
  the running process, and the dispatch of \<open>systemcall_asm.S\<close>.

  The functions that HOL or the models of the drivers already name carry the prefix \<open>sys_\<close>. Messages
  printed on errors are left out. A call through a NULL function pointer is a fault (\<open>None\<close>).
\<close>

section \<open>The descriptors of the running process\<close>

definition load_fd :: "kernel \<Rightarrow> u32 \<Rightarrow> int \<Rightarrow> file_array_t option" where
  "load_fd k a fd = do {
     pcb \<leftarrow> load_pcb k a;
     require (0 \<le> fd);
     arr_get PCB_SIZE (file_array pcb) (nat fd)
   }"

definition store_fd :: "u32 \<Rightarrow> int \<Rightarrow> file_array_t \<Rightarrow> kernel \<Rightarrow> kernel option" where
  "store_fd a fd f k = do {
     pcb \<leftarrow> load_pcb k a;
     require (0 \<le> fd);
     fa \<leftarrow> arr_put PCB_SIZE (file_array pcb) (nat fd) f;
     store_pcb a (pcb\<lparr>file_array := fa\<rparr>) k
   }"

section \<open>Regular files\<close>

definition file_read :: "int \<Rightarrow> u8 list option \<Rightarrow> int \<Rightarrow> kernel \<Rightarrow> (int \<times> u8 list option \<times> kernel) option" where
  "file_read fd buf len k =
     (case buf of
        None \<Rightarrow> Some (-1, None, k)
      | Some b \<Rightarrow> do {
          a \<leftarrow> get_cur_pcb_addr k;
          (if a = 0 then Some (-1, Some b, k)
           else do {
             f \<leftarrow> load_fd k a fd;
             (bytes_read, buf) \<leftarrow> read_data (kfs k) (fd_inode f) (file_pos f) (Some b) (word_of_int len);
             k \<leftarrow> store_fd a fd (f\<lparr>file_pos := file_pos f + word_of_int bytes_read\<rparr>) k;
             Some (bytes_read, buf, k)
           })
        })"

definition file_write :: "int \<Rightarrow> u8 list option \<Rightarrow> int \<Rightarrow> kernel \<Rightarrow> (int \<times> kernel) option" where
  "file_write fd buf len k =
     (case buf of
        None \<Rightarrow> Some (-1, k)
      | Some b \<Rightarrow> do {
          a \<leftarrow> get_cur_pcb_addr k;
          (if a = 0 then Some (-1, k)
           else do {
             f \<leftarrow> load_fd k a fd;
             (bytes_write, fs) \<leftarrow> write_data (kfs k) (fd_inode f) (file_pos f) (Some b) (word_of_int len);
             k \<leftarrow> store_fd a fd (f\<lparr>file_pos := file_pos f + word_of_int bytes_write\<rparr>) (k\<lparr>kfs := fs\<rparr>);
             Some (bytes_write, k)
           })
        })"

section \<open>The directory\<close>

text \<open>
  The memory of a directory entry: a name of 32 characters has no NUL of its own, and \<open>strlen\<close> reads
  on into the fields behind it.
\<close>

definition bytes_of_u32 :: "u32 \<Rightarrow> u8 list" where
  "bytes_of_u32 w = [ucast w, ucast (drop_bit 8 w), ucast (drop_bit 16 w), ucast (drop_bit 24 w)]"

definition dentry_bytes :: "dentry_t \<Rightarrow> u8 list" where
  "dentry_bytes d =
     file_name d @ bytes_of_u32 (file_type d) @ bytes_of_u32 (inode_num d) @ dentry_reserved d"

text \<open>The number of characters that \<open>dir_read\<close> copies; \<open>strlen(dentry.file_name)<l\<close> compares unsigned.\<close>

definition dir_read_length :: "int \<Rightarrow> nat \<Rightarrow> int" where
  "dir_read_length len n =
     (let l = (if len > int MAX_NAME_LEN then int MAX_NAME_LEN else len)
      in if (of_nat n :: u32) < word_of_int l then int n else l)"

text \<open>\<open>dentry0\<close> is the uninitialised local \<open>dentry\<close>.\<close>

definition dir_read ::
    "dentry_t \<Rightarrow> int \<Rightarrow> u8 list option \<Rightarrow> int \<Rightarrow> kernel \<Rightarrow> (int \<times> u8 list option \<times> kernel) option" where
  "dir_read dentry0 fd buf len k =
     (case buf of
        None \<Rightarrow> Some (-1, None, k)
      | Some b \<Rightarrow> do {
          a \<leftarrow> get_cur_pcb_addr k;
          (if a = 0 then Some (-1, Some b, k)
           else do {
             f \<leftarrow> load_fd k a fd;
             (let file_index = file_pos f in
              if file_index = get_Num_Dentry (kfs k) then Some (0, Some b, k)
              else do {
                (result, dentry) \<leftarrow> read_dentry_by_index (kfs k) file_index (Some dentry0);
                (if result = -1 then Some (-1, Some b, k)
                 else do {
                   dentry \<leftarrow> dentry;
                   n \<leftarrow> strlen (dentry_bytes dentry);
                   (let l = dir_read_length len n in do {
                      b \<leftarrow> strncpy b (dentry_bytes dentry) (unat (word_of_int l :: u32));
                      require (0 \<le> l);
                      b \<leftarrow> buf_put b (nat l) 0;
                      k \<leftarrow> store_fd a fd (f\<lparr>file_pos := file_pos f + 1\<rparr>) k;
                      Some (l, Some b, k)
                   })
                 })
              })
           })
        })"

section \<open>open and close\<close>

function free_fd :: "(nat \<Rightarrow> file_array_t) \<Rightarrow> nat \<Rightarrow> nat option" where
  "free_fd fa fd =
     (if fd < PCB_SIZE then
        if flg (fa fd) = FD_BUSY then (if fd = PCB_SIZE - 1 then None else free_fd fa (Suc fd)) else Some fd
      else Some fd)"
  by pat_completeness auto
termination by (relation "measure (\<lambda>(fa, fd). PCB_SIZE - fd)") auto

declare free_fd.simps [simp del]

text \<open>
  The uninitialised locals: \<open>filename\<close> and \<open>dentry\<close> of \<open>open\<close> and \<open>file_create\<close>, and the \<open>dentry\<close> of
  the driver's \<open>open\<close> or \<open>dir_read\<close>.
\<close>

record call_locals =
  l_filename :: "u8 list"
  l_open_dentry :: dentry_t
  l_inner_dentry :: dentry_t

definition opt_table_of :: "u32 \<Rightarrow> file_opt_table_t option" where
  "opt_table_of t =
     (if t = RTC_TYPE then Some RTC_opt_table
      else if t = DIRECTORY_TYPE then Some DIR_opt_table
      else if t = REGULAR_FILE_TYPE then Some REG_FILE_opt_table
      else None)"

text \<open>\<open>table_ptr->open(filename)\<close> for the three tables that \<open>open\<close> installs.\<close>

definition call_open :: "call_locals \<Rightarrow> file_opt_table_t \<Rightarrow> u8 list \<Rightarrow> kernel \<Rightarrow> (int \<times> kernel) option" where
  "call_open l t filename k =
     (case t of
        RTC_opt_table \<Rightarrow> (case rtc_open filename (krtc k) of (r, rtc) \<Rightarrow> Some (r, k\<lparr>krtc := rtc\<rparr>))
      | DIR_opt_table \<Rightarrow> do { r \<leftarrow> dir_open (kfs k) (Some filename) (l_inner_dentry l); Some (r, k) }
      | REG_FILE_opt_table \<Rightarrow> do { r \<leftarrow> file_open (kfs k) (Some filename) (l_inner_dentry l); Some (r, k) }
      | stdin_opt_table \<Rightarrow> Some (terminal_open filename, k)
      | _ \<Rightarrow> None)"

definition sys_open :: "call_locals \<Rightarrow> u8 list option \<Rightarrow> kernel \<Rightarrow> (int \<times> kernel) option" where
  "sys_open l fname k = do {
     a \<leftarrow> get_cur_pcb_addr k;
     (if a = 0 then Some (-1, k)
      else
        (case fname of
           None \<Rightarrow> Some (-1, k)
         | Some fname \<Rightarrow> do {
             n \<leftarrow> strlen fname;
             (if n = 0 then Some (-1, k)
              else do {
                filename \<leftarrow> copy_filename fname (l_filename l);
                pcb \<leftarrow> load_pcb k a;
                (case free_fd (file_array pcb) (nat FIRST_FILE_FD) of
                   None \<Rightarrow> Some (-1, k)
                 | Some fd \<Rightarrow> do {
                     (r, dentry) \<leftarrow> read_dentry_by_name (kfs k) (Some filename) (Some (l_open_dentry l));
                     f \<leftarrow> load_fd k a (int fd);
                     (if r = -1 then do {
                        nm \<leftarrow> strcpy (fd_name f) filename;
                        k \<leftarrow> store_fd a (int fd) (f\<lparr>table_ptr := REG_FILE_opt_table, file_pos := 0,
                               fd_inode := -1, flg := FD_BUSY, fd_name := nm\<rparr>) k;
                        Some (int fd, k)
                      }
                      else do {
                        dentry \<leftarrow> dentry;
                        (case opt_table_of (file_type dentry) of
                           None \<Rightarrow> Some (-1, k)
                         | Some t \<Rightarrow> do {
                             k \<leftarrow> store_fd a (int fd) (f\<lparr>table_ptr := t, file_pos := 0, flg := FD_BUSY,
                                    fd_inode := inode_num dentry\<rparr>) k;
                             (r, k) \<leftarrow> call_open l t filename k;
                             Some (if r \<noteq> -1 then int fd else -1, k)
                           })
                      })
                   })
              })
           }))
   }"

definition call_close :: "file_opt_table_t \<Rightarrow> int \<Rightarrow> int option" where
  "call_close t fd =
     (case t of
        NULL_opt_table \<Rightarrow> None
      | stdin_opt_table \<Rightarrow> Some (terminal_close fd)
      | stdout_opt_table \<Rightarrow> Some (terminal_close fd)
      | RTC_opt_table \<Rightarrow> Some (rtc_close fd)
      | DIR_opt_table \<Rightarrow> Some (dir_close fd)
      | REG_FILE_opt_table \<Rightarrow> Some (file_close fd))"

definition sys_close :: "int \<Rightarrow> kernel \<Rightarrow> (int \<times> kernel) option" where
  "sys_close fd k =
     (if fd < FIRST_FILE_FD \<or> fd \<ge> int PCB_SIZE then Some (-1, k)
      else do {
        a \<leftarrow> get_cur_pcb_addr k;
        (if a = 0 then Some (-1, k)
         else do {
           f \<leftarrow> load_fd k a fd;
           (if flg f = 0 then Some (-1, k)
            else do {
              k \<leftarrow> store_fd a fd (f\<lparr>flg := 0, file_pos := 0, fd_inode := 0\<rparr>) k;
              r \<leftarrow> call_close (table_ptr f) fd;
              Some (if r \<noteq> -1 then 0 else -1, k)
            })
         })
      })"

section \<open>read and write\<close>

text \<open>
  \<open>table_ptr->read\<close>. A read of the terminal or of the clock waits for interrupts: \<open>irqs\<close> are the
  changes that the keyboard interrupts make, \<open>ticks\<close> is the number of clock interrupts.
\<close>

definition call_read ::
    "call_locals \<Rightarrow> (tty \<Rightarrow> tty option) list \<Rightarrow> nat \<Rightarrow> file_opt_table_t \<Rightarrow> int \<Rightarrow> u8 list option \<Rightarrow> int \<Rightarrow> kernel
     \<Rightarrow> (int \<times> u8 list option \<times> kernel) waiting option" where
  "call_read l irqs ticks t fd buf nbytes k =
     (case t of
        NULL_opt_table \<Rightarrow> None
      | RTC_opt_table \<Rightarrow>
          Some (case rtc_read ticks (krtc k, kpic k) of
                  Waits \<Rightarrow> Waits
                | Returns (r, _, rtc, pic) \<Rightarrow> Returns (r, buf, k\<lparr>krtc := rtc, kpic := pic\<rparr>))
      | DIR_opt_table \<Rightarrow> map_option Returns (dir_read (l_inner_dentry l) fd buf nbytes k)
      | REG_FILE_opt_table \<Rightarrow> map_option Returns (file_read fd buf nbytes k)
      | _ \<Rightarrow> do {
          w \<leftarrow> terminal_read irqs buf nbytes (ktty k);
          Some (case w of
                  Waits \<Rightarrow> Waits
                | Returns (r, buf, t) \<Rightarrow> Returns (r, buf, k\<lparr>ktty := t\<rparr>))
        })"

definition sys_read ::
    "call_locals \<Rightarrow> (tty \<Rightarrow> tty option) list \<Rightarrow> nat \<Rightarrow> int \<Rightarrow> u8 list option \<Rightarrow> int \<Rightarrow> kernel
     \<Rightarrow> (int \<times> u8 list option \<times> kernel) waiting option" where
  "sys_read l irqs ticks fd buf nbytes k =
     (if buf = None then Some (Returns (-1, buf, k))
      else if nbytes < 0 \<or> fd < 0 \<or> fd \<ge> int PCB_SIZE \<or> fd = 1 then Some (Returns (-1, buf, k))
      else do {
        a \<leftarrow> get_cur_pcb_addr k;
        (if a = 0 then Some (Returns (-1, buf, k))
         else do {
           f \<leftarrow> load_fd k a fd;
           (if fd_inode f = -1 then do {
              (_, k) \<leftarrow> sys_close fd k;
              Some (Returns (-1, buf, k))
            }
            else if flg f = FD_BUSY then call_read l irqs ticks (table_ptr f) fd buf nbytes k
            else Some (Returns (-1, buf, k)))
         })
      })"

definition call_write :: "file_opt_table_t \<Rightarrow> int \<Rightarrow> u8 list option \<Rightarrow> int \<Rightarrow> kernel \<Rightarrow> (int \<times> kernel) option" where
  "call_write t fd buf nbytes k =
     (case t of
        NULL_opt_table \<Rightarrow> None
      | stdin_opt_table \<Rightarrow> None
      | stdout_opt_table \<Rightarrow> do { (r, t) \<leftarrow> terminal_write buf nbytes (ktty k); Some (r, k\<lparr>ktty := t\<rparr>) }
      | RTC_opt_table \<Rightarrow> do { (r, rtc) \<leftarrow> rtc_write buf nbytes (krtc k); Some (r, k\<lparr>krtc := rtc\<rparr>) }
      | DIR_opt_table \<Rightarrow> Some (dir_write fd buf nbytes, k)
      | REG_FILE_opt_table \<Rightarrow> file_write fd buf nbytes k)"

text \<open>A descriptor opened on a missing name gets a new file; then the write goes through its table.\<close>

definition create_missing :: "call_locals \<Rightarrow> u32 \<Rightarrow> int \<Rightarrow> file_array_t \<Rightarrow> kernel \<Rightarrow> kernel option" where
  "create_missing l a fd f k =
     (if fd_inode f = -1 then do {
        (r, fs) \<leftarrow> file_create (l_filename l) (l_open_dentry l) (fd_name f) (kfs k);
        store_fd a fd (f\<lparr>fd_inode := word_of_int r\<rparr>) (k\<lparr>kfs := fs\<rparr>)
      } else Some k)"

definition write_busy :: "u32 \<Rightarrow> int \<Rightarrow> file_array_t \<Rightarrow> u8 list option \<Rightarrow> int \<Rightarrow> kernel \<Rightarrow> (int \<times> kernel) option" where
  "write_busy a fd f buf nbytes k =
     (if flg f = FD_BUSY then do {
        (r, k) \<leftarrow> call_write (table_ptr f) fd buf nbytes k;
        (if r \<noteq> -1 then do {
           f \<leftarrow> load_fd k a fd;
           k \<leftarrow> store_fd a fd (f\<lparr>file_pos := file_pos f + word_of_int r\<rparr>) k;
           Some (r, k)
         } else Some (r, k))
      }
      else Some (-1, k))"

definition sys_write :: "call_locals \<Rightarrow> int \<Rightarrow> u8 list option \<Rightarrow> int \<Rightarrow> kernel \<Rightarrow> (int \<times> kernel) option" where
  "sys_write l fd buf nbytes k =
     (if buf = None then Some (-1, k)
      else if nbytes < 0 \<or> fd \<le> 0 \<or> fd \<ge> int PCB_SIZE then Some (-1, k)
      else do {
        a \<leftarrow> get_cur_pcb_addr k;
        (if a = 0 then Some (-1, k)
         else do {
           f \<leftarrow> load_fd k a fd;
           k \<leftarrow> create_missing l a fd f k;
           write_busy a fd f buf nbytes k
         })
      })"

section \<open>Arguments and removal\<close>

definition getargs :: "u8 list option \<Rightarrow> int \<Rightarrow> kernel \<Rightarrow> (int \<times> u8 list option) option" where
  "getargs buf nbytes k =
     (case buf of
        None \<Rightarrow> Some (-1, None)
      | Some b \<Rightarrow> do {
          a \<leftarrow> get_cur_pcb_addr k;
          pcb \<leftarrow> load_pcb k a;
          n \<leftarrow> strlen (pcb_arg pcb);
          (if n = 0 then Some (-1, Some b)
           else
             let nbytes = (if nbytes > int MAX_ARG_LEN then int MAX_ARG_LEN else nbytes) in do {
               b \<leftarrow> strncpy b (pcb_arg pcb) (unat (word_of_int nbytes :: u32));
               Some (0, Some b)
             })
        })"

definition sys_remove :: "call_locals \<Rightarrow> u8 list option \<Rightarrow> kernel \<Rightarrow> (int \<times> kernel) option" where
  "sys_remove l filename k = do {
     (res, fs) \<leftarrow> file_remove (kfs k) filename (l_inner_dentry l);
     Some (res, k\<lparr>kfs := fs\<rparr>)
   }"

definition undefined_call :: int where
  "undefined_call = -1"

section \<open>Signals\<close>

abbreviation "MAX_PENDING \<equiv> 20 :: nat"

function pending_end :: "(nat \<Rightarrow> int) \<Rightarrow> nat \<Rightarrow> nat option" where
  "pending_end sigs i =
     (case arr_get MAX_PENDING sigs i of
        None \<Rightarrow> None
      | Some s \<Rightarrow> if s \<noteq> -999 then pending_end sigs (Suc i) else Some i)"
  by pat_completeness auto
termination
  by (relation "measure (\<lambda>(sigs, i). MAX_PENDING - i)") (auto dest: arr_get_SomeD)

declare pending_end.simps [simp del]

definition send_sig_info :: "int \<Rightarrow> kernel \<Rightarrow> kernel option" where
  "send_sig_info signal k = do {
     a \<leftarrow> get_cur_pcb_addr k;
     (if signal > 5 \<or> signal < 1 then Some k
      else do {
        pcb \<leftarrow> load_pcb k a;
        i \<leftarrow> pending_end (pending_signals pcb) 0;
        store_pcb a (pcb\<lparr>pending_signals := (pending_signals pcb)(i := signal)\<rparr>) k
      })
   }"

definition kill :: "int \<Rightarrow> kernel \<Rightarrow> (control \<times> kernel) option" where
  "kill signum k = halt 255 k"

definition check_pengding :: "kernel \<Rightarrow> int option" where
  "check_pengding k = do {
     a \<leftarrow> get_cur_pcb_addr k;
     pcb \<leftarrow> load_pcb k a;
     Some (if pending_signals pcb 0 = -999 then 0 else 1)
   }"

text \<open>
  \<open>kill_addr\<close> is the address of \<open>kill\<close>; \<open>run\<close> is what the handler at an address, which is code of
  the user, does to the kernel's state.
\<close>

definition set_handler ::
    "u32 \<Rightarrow> (u32 \<Rightarrow> int \<Rightarrow> kernel \<Rightarrow> kernel option) \<Rightarrow> int \<Rightarrow> u32 \<Rightarrow> kernel \<Rightarrow> (control \<times> kernel) option" where
  "set_handler kill_addr run signum handler_address k = do {
     a \<leftarrow> get_cur_pcb_addr k;
     (if handler_address = 0 then
        (if signum = 0 \<or> signum = 1 \<or> signum = 2 then do {
           pcb \<leftarrow> load_pcb k a;
           k \<leftarrow> store_pcb a (pcb\<lparr>func := kill_addr\<rparr>) k;
           kill signum k
         }
         else Some (Return (-1), k))
      else do {
        pcb \<leftarrow> load_pcb k a;
        k \<leftarrow> store_pcb a (pcb\<lparr>func := handler_address\<rparr>) k;
        k \<leftarrow> run handler_address signum k;
        Some (Return (-1), k)
      })
   }"

definition sigreturn :: int where
  "sigreturn = -1"

section \<open>Dispatch\<close>

datatype syscall =
    Undefined | Halt | Execute | Read | Write | Open | Close | Getargs | Vidmap | Remove

definition syscall_jump_table :: "syscall list" where
  "syscall_jump_table =
     [Undefined, Halt, Execute, Read, Write, Open, Close, Getargs, Vidmap, Undefined, Undefined, Remove]"

text \<open>\<open>None\<close> is \<open>SYSCALL_FAIL\<close>: the call returns -1 without calling anything.\<close>

definition syscall_handler :: "u32 \<Rightarrow> syscall option" where
  "syscall_handler eax =
     (if eax \<ge> 12 then None else if eax = 0 then None else Some (syscall_jump_table ! unat eax))"

end
