(* ===== verification/Process_Tree.thy ===== *)
theory Process_Tree
  imports Process
begin

text \<open>
  What \<open>execute\<close> and \<open>halt\<close> do to the processes: the effect of a successful \<open>execute\<close>, the lineage of
  the process running in each terminal, and the invariant that both operations keep.
\<close>

section \<open>Addresses of the control blocks\<close>

lemma pcb_addr_unat: "i < MAX_PROCESS \<Longrightarrow> unat (get_pcb_addr (of_nat i)) = 0x7FE000 - i * 0x2000"
proof -
  assume "i < MAX_PROCESS"
  then have "i = 0 \<or> i = 1 \<or> i = 2 \<or> i = 3 \<or> i = 4 \<or> i = 5" by arith
  then show ?thesis by (auto simp: get_pcb_addr_def)
qed

lemma pcb_addr_eq_iff [simp]:
  "i < MAX_PROCESS \<Longrightarrow> j < MAX_PROCESS \<Longrightarrow>
   (get_pcb_addr (of_nat i) = get_pcb_addr (of_nat j)) = (i = j)"
  using pcb_addr_unat [of i] pcb_addr_unat [of j] by (auto simp: word_unat_eq_iff)

lemma is_pcb_addr [simp]: "i < MAX_PROCESS \<Longrightarrow> is_pcb (get_pcb_addr (of_nat i))"
  unfolding is_pcb_def by simp

lemma unat_pid [simp]: "i < MAX_PROCESS \<Longrightarrow> unat (of_nat i :: u32) = i"
  by (simp add: unat_of_nat)

lemma pid_eq_iff [simp]: "i < MAX_PROCESS \<Longrightarrow> j < MAX_PROCESS \<Longrightarrow> (of_nat i = (of_nat j :: u32)) = (i = j)"
  by (metis unat_pid)

lemma sint_pid [simp]: "i < MAX_PROCESS \<Longrightarrow> sint (of_nat i :: u32) = int i"
  by (rule sint_of_unat) simp_all

section \<open>A fresh control block\<close>

lemma pcb_init_loop_eq:
  "pcb_init_loop n fa = (\<lambda>i. if n \<le> i \<and> i < PCB_SIZE
     then (fa i)\<lparr>flg := 0, file_pos := 0, fd_inode := 0, table_ptr := NULL_opt_table\<rparr> else fa i)"
proof (induction n fa rule: pcb_init_loop.induct)
  case (1 n fa)
  let ?fa = "fa(n := (fa n)\<lparr>flg := 0, file_pos := 0, fd_inode := 0, table_ptr := NULL_opt_table\<rparr>)"
  show ?case
  proof (cases "n < PCB_SIZE")
    case True
    then have "pcb_init_loop n fa = pcb_init_loop (Suc n) ?fa" by (subst pcb_init_loop.simps) simp
    also note "1" [OF True]
    finally show ?thesis using True by (auto simp: fun_eq_iff Suc_le_eq)
  next
    case False
    then show ?thesis by (subst pcb_init_loop.simps) (auto simp: fun_eq_iff)
  qed
qed

section \<open>Allocation of a process id\<close>

lemma free_id_spec:
  "i \<le> MAX_PROCESS \<Longrightarrow> free_id ids i \<le> MAX_PROCESS \<and> i \<le> free_id ids i \<and>
     (\<forall>j. i \<le> j \<longrightarrow> j < free_id ids i \<longrightarrow> ids j \<noteq> 0) \<and>
     (free_id ids i < MAX_PROCESS \<longrightarrow> ids (free_id ids i) = 0)"
proof (induction ids i rule: free_id.induct)
  case (1 ids i)
  show ?case
  proof (cases "i < MAX_PROCESS \<and> ids i \<noteq> 0")
    case True
    then have e: "free_id ids i = free_id ids (Suc i)" by (subst free_id.simps) simp
    have ih: "free_id ids (Suc i) \<le> MAX_PROCESS" "Suc i \<le> free_id ids (Suc i)"
        "\<And>j. Suc i \<le> j \<Longrightarrow> j < free_id ids (Suc i) \<Longrightarrow> ids j \<noteq> 0"
        "free_id ids (Suc i) < MAX_PROCESS \<Longrightarrow> ids (free_id ids (Suc i)) = 0"
      using "1.IH" True by simp_all
    have "ids j \<noteq> 0" if "i \<le> j" "j < free_id ids (Suc i)" for j
      using True that ih(3) [of j] by (cases "j = i") simp_all
    with ih show ?thesis unfolding e by simp
  next
    case False
    then have "free_id ids i = i" by (subst free_id.simps) auto
    with "1.prems" False show ?thesis by auto
  qed
qed

interpretation id_slots: first_free "\<lambda>ids. if free_id ids 0 < MAX_PROCESS then Some (free_id ids 0) else None"
  "\<lambda>ids j. ids j \<noteq> 0" 0 MAX_PROCESS
proof
  fix ids :: "nat \<Rightarrow> int" and i
  assume "(if free_id ids 0 < MAX_PROCESS then Some (free_id ids 0) else None) = Some i"
  then have "i = free_id ids 0" "i < MAX_PROCESS" by (simp_all split: if_splits)
  then show "0 \<le> i \<and> i < MAX_PROCESS \<and> \<not> ids i \<noteq> 0 \<and> (\<forall>j. 0 \<le> j \<longrightarrow> j < i \<longrightarrow> ids j \<noteq> 0)"
    using free_id_spec [of 0 ids] by simp
next
  fix ids :: "nat \<Rightarrow> int" and j
  assume "(if free_id ids 0 < MAX_PROCESS then Some (free_id ids 0) else None) = None"
  then have "MAX_PROCESS \<le> free_id ids 0" by (simp split: if_splits)
  then show "0 \<le> j \<Longrightarrow> j < MAX_PROCESS \<Longrightarrow> ids j \<noteq> 0" using free_id_spec [of 0 ids] by simp
qed

lemma free_id_full:
  "free_id ids 0 = MAX_PROCESS \<longleftrightarrow> (\<forall>j < MAX_PROCESS. ids j \<noteq> 0)"
  using free_id_spec [of 0 ids] by (metis le0 le_neq_implies_less order_refl)

section \<open>The effect of execute\<close>

abbreviation the_pcb :: "kernel \<Rightarrow> nat \<Rightarrow> pcb_t" where
  "the_pcb k p \<equiv> pcbs k (get_pcb_addr (of_nat p))"

definition display_slot :: "kernel \<Rightarrow> nat" where
  "display_slot k = unat (cur_display_terminal_id (ktty k) - 1)"

definition parent_of_new :: "kernel \<Rightarrow> nat \<Rightarrow> u32" where
  "parent_of_new k pid =
     (if parent_array k (display_slot k) = -1 then of_nat pid
      else word_of_int (parent_array k (display_slot k)))"

text \<open>Everything \<open>execute\<close> changes when it enters the new process \<open>pid\<close>.\<close>

definition entered :: "exec_locals \<Rightarrow> nat \<Rightarrow> kernel \<Rightarrow> kernel \<Rightarrow> bool" where
  "entered l pid k k' \<longleftrightarrow>
     pid < MAX_PROCESS \<and> free_id (id_array k) 0 = pid \<and> display_slot k < 3 \<and>
     id_array k' = (id_array k)(pid := 1) \<and>
     pcb_array k' = (pcb_array k)(display_slot k := int pid) \<and>
     parent_array k' = (parent_array k)(display_slot k := int pid) \<and>
     (\<forall>a. a \<noteq> get_pcb_addr (of_nat pid) \<longrightarrow> pcbs k' a = pcbs k a) \<and>
     pcb_id (the_pcb k' pid) = of_nat pid \<and>
     parent_id (the_pcb k' pid) = parent_of_new k pid \<and>
     esp_ret (the_pcb k' pid) = l_esp l \<and> ebp_ret (the_pcb k' pid) = l_ebp l \<and>
     esp_user (the_pcb k' pid) = 0x83FFFFC \<and>
     file_array (the_pcb k' pid) = file_array (pcb_initialize (the_pcb k pid)) \<and>
     kfs k' = kfs k \<and> krtc k' = krtc k \<and> kpic k' = kpic k \<and>
     ktty k' = map_program (of_nat pid) (ktty k) \<and>
     (\<forall>q. q \<noteq> pid \<longrightarrow> program_img k' q = program_img k q) \<and>
     tss_ss0 k' = KERNEL_DS \<and> tss_esp0 k' = 0x7FFFFC - 0x2000 * of_nat pid"

lemma load_program_effect:
  assumes "load_program pid n k = Some k'"
  obtains img where "k' = k\<lparr>ktty := map_program (of_nat pid) (ktty k), program_img := (program_img k)(pid := img)\<rparr>"
  using assms by (auto simp: load_program_def Let_def split: bind_splits)

lemma create_pcb_effect:
  assumes "create_pcb pid e arg arg_echo k = Some (a, k')" and "pid < MAX_PROCESS"
  obtains arg' where "display_slot k < 3" "a = get_pcb_addr (of_nat pid)"
    "k' = k\<lparr>pcbs := (pcbs k)(a := (pcb_initialize (the_pcb k pid))
         \<lparr>pcb_id := of_nat pid, parent_id := parent_of_new k pid, pcb_arg := arg'\<rparr>),
       pcb_array := (pcb_array k)(display_slot k := int pid),
       parent_array := (parent_array k)(display_slot k := int pid)\<rparr>"
  using assms
  by (auto simp: create_pcb_def Let_def load_pcb_def store_pcb_def arr_put_def arr_get_def
      display_slot_def parent_of_new_def split: bind_splits if_splits)

lemma enter_user_effect:
  assumes "enter_user l a pid k = Some (c, k')"
  obtains eip where "c = Iret_user eip 0x83FFFFC"
    "k' = k\<lparr>pcbs := (pcbs k)(a := (pcbs k a)\<lparr>eip_user := eip, esp_user := 0x83FFFFC,
         esp_ret := l_esp l, ebp_ret := l_ebp l\<rparr>),
       tss_esp0 := 0x7FFFFC - 0x2000 * pcb_id (pcbs k a), tss_ss0 := KERNEL_DS\<rparr>"
  using assms
  by (auto simp: enter_user_def Let_def load_pcb_def store_pcb_def split: bind_splits if_splits)

lemma parse_name_error: "parse_name cmd n i u f = Some (Inl r) \<Longrightarrow> r = -1"
proof (induction "n - i" arbitrary: i u f rule: less_induct)
  case less
  from less.prems show ?case
    by (subst (asm) parse_name.simps)
      (auto split: if_splits option.splits dest!: skip_blanks_le elim!: less.hyps [rotated])
qed

lemma execute_cases:
  assumes "execute l command k = Some (c, k')"
  shows "(c = Return (-1) \<and> k' = k) \<or>
    (\<exists>eip. c = Iret_user eip 0x83FFFFC \<and> eip = eip_user (the_pcb k' (free_id (id_array k) 0)) \<and>
       entered l (free_id (id_array k) 0) k k')"
proof -
  note neg = parse_name_error
  have chk: "execute_check l f fs = Some (Inl r) \<Longrightarrow> r = -1" for f fs r
    by (auto simp: execute_check_def Let_def split: bind_splits if_splits)
  let ?pid = "free_id (id_array k) 0"
  have le: "?pid \<le> MAX_PROCESS" using free_id_spec [of 0 "id_array k"] by simp
  from assms consider "c = Return (-1)" "k' = k"
    | n e arg arg_echo k1 a k2 where "?pid \<noteq> MAX_PROCESS"
        "load_program ?pid n (k\<lparr>id_array := (id_array k)(?pid := 1)\<rparr>) = Some k1"
        "create_pcb ?pid e arg arg_echo k1 = Some (a, k2)" "enter_user l a ?pid k2 = Some (c, k')"
    unfolding execute_def Let_def
    by (auto split: bind_splits if_splits sum.splits prod.splits dest: neg chk)
  then show ?thesis
  proof cases
    case 1
    then show ?thesis by simp
  next
    case 2
    have pid: "?pid < MAX_PROCESS" using 2(1) le by simp
    obtain img where k1: "k1 = k\<lparr>id_array := (id_array k)(?pid := 1), ktty := map_program (of_nat ?pid) (ktty k),
        program_img := (program_img k)(?pid := img)\<rparr>"
      by (rule load_program_effect [OF 2(2)]) simp
    have s: "display_slot k1 = display_slot k" "parent_of_new k1 ?pid = parent_of_new k ?pid"
      unfolding k1 by (simp_all add: display_slot_def parent_of_new_def map_program_def Let_def)
    obtain arg' where k2: "display_slot k1 < 3" "a = get_pcb_addr (of_nat ?pid)"
      "k2 = k1\<lparr>pcbs := (pcbs k1)(a := (pcb_initialize (the_pcb k1 ?pid))
           \<lparr>pcb_id := of_nat ?pid, parent_id := parent_of_new k1 ?pid, pcb_arg := arg'\<rparr>),
         pcb_array := (pcb_array k1)(display_slot k1 := int ?pid),
         parent_array := (parent_array k1)(display_slot k1 := int ?pid)\<rparr>"
      by (rule create_pcb_effect [OF 2(3) pid])
    obtain eip where e: "c = Iret_user eip 0x83FFFFC"
      "k' = k2\<lparr>pcbs := (pcbs k2)(a := (pcbs k2 a)\<lparr>eip_user := eip, esp_user := 0x83FFFFC,
           esp_ret := l_esp l, ebp_ret := l_ebp l\<rparr>),
         tss_esp0 := 0x7FFFFC - 0x2000 * pcb_id (pcbs k2 a), tss_ss0 := KERNEL_DS\<rparr>"
      by (rule enter_user_effect [OF 2(4)])
    have "entered l ?pid k k'"
      unfolding entered_def e(2) k2(3) s using pid k2(1,2) s by (simp add: k1)
    moreover have "eip = eip_user (the_pcb k' ?pid)"
      unfolding e(2) using k2(2) by simp
    ultimately show ?thesis using e(1) by blast
  qed
qed

section \<open>The effect of halt\<close>

text \<open>Everything \<open>halt\<close> changes when the process \<open>p\<close> ends and its parent \<open>q\<close> goes on.\<close>

definition running_slot :: "kernel \<Rightarrow> nat" where
  "running_slot k = nat (terminal_now (ktty k))"

definition left :: "nat \<Rightarrow> nat \<Rightarrow> kernel \<Rightarrow> kernel \<Rightarrow> bool" where
  "left p q k k' \<longleftrightarrow>
     id_array k' = (id_array k)(p := 0) \<and>
     pcb_array k' = (pcb_array k)(running_slot k := int q) \<and>
     parent_array k' = (parent_array k)(running_slot k := sint (parent_id (the_pcb k q))) \<and>
     pcbs k' = (pcbs k)(get_pcb_addr (of_nat p) :=
       (the_pcb k p)\<lparr>file_array := close_fds 0 (file_array (the_pcb k p))\<rparr>) \<and>
     kfs k' = kfs k \<and> krtc k' = krtc k \<and> kpic k' = kpic k \<and> program_img k' = program_img k \<and>
     ktty k' = halt_paging (of_nat q) (ktty k) \<and>
     tss_ss0 k' = KERNEL_DS \<and> tss_esp0 k' = 0x7FFFFC - 0x2000 * pcb_id (the_pcb k q)"

lemma cur_pcb_addr:
  "0 \<le> terminal_now (ktty k) \<Longrightarrow> running_slot k < 3 \<Longrightarrow> pcb_array k (running_slot k) = int p \<Longrightarrow>
   get_cur_pcb_addr k = Some (get_pcb_addr (of_nat p))"
  by (simp add: get_cur_pcb_addr_def running_slot_def arr_get_in)

lemma halt_leaves:
  assumes "0 \<le> terminal_now (ktty k)" "running_slot k < 3" "pcb_array k (running_slot k) = int p"
    and "p < MAX_PROCESS" "q < MAX_PROCESS" "p \<noteq> q"
    and "pcb_id (the_pcb k p) = of_nat p" "parent_id (the_pcb k p) = of_nat q"
  shows "\<exists>k'. halt status k = Some (Jump_return (esp_ret (the_pcb k p)) (ebp_ret (the_pcb k p)), k') \<and>
    left p q k k'"
proof -
  have "(of_nat q :: u32) \<noteq> of_nat p" "(of_nat p :: u32) \<noteq> of_nat q" using assms(4-6) by simp_all
  then show ?thesis
    using assms cur_pcb_addr [OF assms(1-3)]
    by (simp add: halt_def load_pcb_def store_pcb_def Let_def arr_put_in left_def running_slot_def
        del: pid_eq_iff)
qed

lemma halt_restarts:
  assumes "0 \<le> terminal_now (ktty k)" "running_slot k < 3" "pcb_array k (running_slot k) = int p"
    and "p < MAX_PROCESS" "parent_id (the_pcb k p) = pcb_id (the_pcb k p)"
  shows "halt status k = Some (Iret_user (eip_user (the_pcb k p)) (esp_user (the_pcb k p)), k)"
  using assms cur_pcb_addr [OF assms(1-3)] by (simp add: halt_def load_pcb_def)

section \<open>The lineage of a terminal\<close>

text \<open>From a process to its parent, up to a first process, which is its own parent.\<close>

fun lineage :: "kernel \<Rightarrow> nat list \<Rightarrow> bool" where
  "lineage k [] = False"
| "lineage k [p] = (parent_id (the_pcb k p) = of_nat p)"
| "lineage k (p # q # ps) = (parent_id (the_pcb k p) = of_nat q \<and> lineage k (q # ps))"

lemma lineage_frame:
  "lineage k ps \<Longrightarrow> \<forall>p \<in> set ps. parent_id (the_pcb k' p) = parent_id (the_pcb k p) \<Longrightarrow> lineage k' ps"
  by (induction k ps rule: lineage.induct) simp_all

lemma lineage_suffix: "lineage k (xs @ p # ps) \<Longrightarrow> lineage k (p # ps)"
proof (induction xs)
  case (Cons x xs)
  then show ?case by (cases xs) simp_all
qed simp

text \<open>
  Terminal \<open>t\<close> is idle, or runs the first process of its lineage \<open>ps t\<close> and remembers one process of
  the lineage as the parent of the next one; the lineages are made of different, busy processes.
\<close>

definition slot_ok :: "kernel \<Rightarrow> nat \<Rightarrow> nat list \<Rightarrow> bool" where
  "slot_ok k t ps \<longleftrightarrow>
     (ps = [] \<and> pcb_array k t = -1 \<and> parent_array k t = -1) \<or>
     (lineage k ps \<and> pcb_array k t = int (hd ps) \<and> (\<exists>a \<in> set ps. parent_array k t = int a))"

definition family_ok :: "kernel \<Rightarrow> (nat \<Rightarrow> nat list) \<Rightarrow> bool" where
  "family_ok k ps \<longleftrightarrow>
     (\<forall>t < 3. slot_ok k t (ps t) \<and> distinct (ps t) \<and>
        (\<forall>p \<in> set (ps t). p < MAX_PROCESS \<and> id_array k p = 1 \<and> pcb_id (the_pcb k p) = of_nat p)) \<and>
     (\<forall>s < 3. \<forall>t < 3. s \<noteq> t \<longrightarrow> set (ps s) \<inter> set (ps t) = {})"

definition proc_inv :: "kernel \<Rightarrow> bool" where
  "proc_inv k \<longleftrightarrow> (\<exists>ps. family_ok k ps)"

lemma lineage_nonempty: "lineage k ps \<Longrightarrow> ps \<noteq> []"
  by (cases ps) simp_all

lemma family_memberD:
  "family_ok k ps \<Longrightarrow> t < 3 \<Longrightarrow> p \<in> set (ps t) \<Longrightarrow>
   p < MAX_PROCESS \<and> id_array k p = 1 \<and> pcb_id (the_pcb k p) = of_nat p"
  unfolding family_ok_def by blast

lemma family_slotD: "family_ok k ps \<Longrightarrow> t < 3 \<Longrightarrow> slot_ok k t (ps t) \<and> distinct (ps t)"
  unfolding family_ok_def by blast

lemma family_disjointD:
  "family_ok k ps \<Longrightarrow> s < 3 \<Longrightarrow> t < 3 \<Longrightarrow> s \<noteq> t \<Longrightarrow> set (ps s) \<inter> set (ps t) = {}"
  unfolding family_ok_def by blast

text \<open>One terminal gets a new lineage and the processes of the others are untouched.\<close>

lemma family_update:
  assumes fam: "family_ok k ps" and d: "d < 3"
    and new: "slot_ok k' d qs" "distinct qs"
      "\<forall>p \<in> set qs. p < MAX_PROCESS \<and> id_array k' p = 1 \<and> pcb_id (the_pcb k' p) = of_nat p"
    and apart: "\<forall>t < 3. t \<noteq> d \<longrightarrow> set qs \<inter> set (ps t) = {}"
    and same: "\<forall>t < 3. t \<noteq> d \<longrightarrow> pcb_array k' t = pcb_array k t \<and> parent_array k' t = parent_array k t \<and>
      (\<forall>p \<in> set (ps t). id_array k' p = id_array k p \<and> parent_id (the_pcb k' p) = parent_id (the_pcb k p) \<and>
         pcb_id (the_pcb k' p) = pcb_id (the_pcb k p))"
  shows "family_ok k' (ps(d := qs))"
proof -
  have "slot_ok k' t (ps t)" if "t < 3" "t \<noteq> d" for t
    using family_slotD [OF fam that(1)] same that lineage_frame [of k "ps t" k']
    unfolding slot_ok_def by auto
  then show ?thesis
    using fam new apart same unfolding family_ok_def by (auto simp: Int_commute)
qed

section \<open>Both operations keep the invariant\<close>

lemma execute_extends:
  assumes fam: "family_ok k ps" and ent: "entered l pid k k'"
  obtains qs where "family_ok k' (ps(display_slot k := qs))" "hd qs = pid"
proof -
  let ?d = "display_slot k"
  note e = ent [unfolded entered_def]
  have pid: "pid < MAX_PROCESS" and d: "?d < 3" using e by auto
  have free: "id_array k pid = 0"
    using e free_id_spec [of 0 "id_array k"] by auto
  have out: "pid \<notin> set (ps t)" if "t < 3" for t
    using family_memberD [OF fam that, of pid] free by auto
  have other: "the_pcb k' p = the_pcb k p" "id_array k' p = id_array k p"
    if "p \<in> set (ps t)" "t < 3" for p t
  proof -
    have "p \<noteq> pid" "p < MAX_PROCESS" using that out family_memberD [OF fam that(2,1)] by auto
    then show "the_pcb k' p = the_pcb k p" "id_array k' p = id_array k p" using e pid by simp_all
  qed
  obtain qs where qs: "lineage k' (pid # qs)" "distinct (pid # qs)" "set qs \<subseteq> set (ps ?d)"
  proof -
    from family_slotD [OF fam d] consider
        (idle) "ps ?d = []" "parent_array k ?d = -1"
      | (busy) a where "lineage k (ps ?d)" "a \<in> set (ps ?d)" "parent_array k ?d = int a"
      unfolding slot_ok_def by auto
    then show ?thesis
    proof cases
      case idle
      then have "lineage k' [pid]" using e by (simp add: parent_of_new_def)
      then show ?thesis using that [of "[]"] by simp
    next
      case busy
      then obtain xs ys where sp: "ps ?d = xs @ a # ys" by (meson split_list)
      have "lineage k (a # ys)" using busy(1) unfolding sp by (rule lineage_suffix)
      then have "lineage k' (a # ys)"
        by (rule lineage_frame) (use other [OF _ d] in \<open>auto simp: sp\<close>)
      moreover have "parent_id (the_pcb k' pid) = of_nat a"
        using e busy(3) by (simp add: parent_of_new_def)
      moreover have "distinct (a # ys)" using family_slotD [OF fam d] unfolding sp by auto
      ultimately show ?thesis
        using that [of "a # ys"] out [OF d] unfolding sp by auto
    qed
  qed
  have "family_ok k' (ps(?d := pid # qs))"
  proof (rule family_update [OF fam d])
    show "slot_ok k' ?d (pid # qs)" using e qs(1) by (simp add: slot_ok_def)
    show "\<forall>p \<in> set (pid # qs). p < MAX_PROCESS \<and> id_array k' p = 1 \<and> pcb_id (the_pcb k' p) = of_nat p"
      using e pid qs(3) other [OF _ d] family_memberD [OF fam d] by auto
    show "\<forall>t < 3. t \<noteq> ?d \<longrightarrow> set (pid # qs) \<inter> set (ps t) = {}"
      using out qs(3) family_disjointD [OF fam d] by fastforce
    show "\<forall>t < 3. t \<noteq> ?d \<longrightarrow> pcb_array k' t = pcb_array k t \<and> parent_array k' t = parent_array k t \<and>
      (\<forall>p \<in> set (ps t). id_array k' p = id_array k p \<and> parent_id (the_pcb k' p) = parent_id (the_pcb k p) \<and>
         pcb_id (the_pcb k' p) = pcb_id (the_pcb k p))"
      using e other by auto
  qed (use qs(2) in auto)
  then show ?thesis using that by simp
qed

lemma halt_shrinks:
  assumes fam: "family_ok k ps" and run: "0 \<le> terminal_now (ktty k)" "running_slot k < 3"
    and busy: "pcb_array k (running_slot k) \<noteq> -1"
    and h: "halt status k = Some (c, k')"
  shows "(\<exists>p. ps (running_slot k) = [p] \<and> c = Iret_user (eip_user (the_pcb k p)) (esp_user (the_pcb k p)) \<and> k' = k) \<or>
    (\<exists>p q qs. ps (running_slot k) = p # q # qs \<and> left p q k k' \<and>
       c = Jump_return (esp_ret (the_pcb k p)) (ebp_ret (the_pcb k p)) \<and>
       family_ok k' (ps(running_slot k := q # qs)))"
proof -
  let ?t = "running_slot k"
  have lin: "lineage k (ps ?t)" "pcb_array k ?t = int (hd (ps ?t))"
    using family_slotD [OF fam run(2)] busy unfolding slot_ok_def by auto
  then obtain p rest where ps: "ps ?t = p # rest" by (cases "ps ?t") simp_all
  have p: "p < MAX_PROCESS" "pcb_id (the_pcb k p) = of_nat p" "pcb_array k ?t = int p"
    using family_memberD [OF fam run(2), of p] lin(2) ps by auto
  show ?thesis
  proof (cases rest)
    case Nil
    then have "parent_id (the_pcb k p) = pcb_id (the_pcb k p)" using lin(1) ps p by simp
    from halt_restarts [OF run p(3,1) this, of status] show ?thesis using h ps Nil by auto
  next
    case (Cons q qs)
    have q: "q < MAX_PROCESS" "p \<noteq> q" "parent_id (the_pcb k p) = of_nat q" "lineage k (q # qs)"
      using family_memberD [OF fam run(2), of q] family_slotD [OF fam run(2)] lin(1) ps Cons by auto
    from halt_leaves [OF run p(3,1) q(1,2) p(2) q(3), of status] h
    have c: "c = Jump_return (esp_ret (the_pcb k p)) (ebp_ret (the_pcb k p))" and l: "left p q k k'" by auto
    note e = l [unfolded left_def]
    have other: "parent_id (the_pcb k' r) = parent_id (the_pcb k r)" "pcb_id (the_pcb k' r) = pcb_id (the_pcb k r)" for r
      using e by simp_all
    have free: "id_array k' r = id_array k r" if "r \<noteq> p" for r using e that by simp
    have "family_ok k' (ps(?t := q # qs))"
    proof (rule family_update [OF fam run(2)])
      have "lineage k' (q # qs)" by (rule lineage_frame [OF q(4)]) (simp add: other)
      moreover obtain r where "r \<in> set (q # qs)" "parent_id (the_pcb k q) = of_nat r" "r < MAX_PROCESS"
        using q(1,4) family_memberD [OF fam run(2)] ps Cons by (cases qs) auto
      ultimately show "slot_ok k' ?t (q # qs)" using e by (auto simp: slot_ok_def)
      show "\<forall>r \<in> set (q # qs). r < MAX_PROCESS \<and> id_array k' r = 1 \<and> pcb_id (the_pcb k' r) = of_nat r"
      proof
        fix r assume r: "r \<in> set (q # qs)"
        then have "r \<noteq> p" using family_slotD [OF fam run(2)] ps Cons by auto
        with r show "r < MAX_PROCESS \<and> id_array k' r = 1 \<and> pcb_id (the_pcb k' r) = of_nat r"
          using family_memberD [OF fam run(2), of r] ps Cons by (simp add: other free)
      qed
      show "\<forall>t < 3. t \<noteq> ?t \<longrightarrow> set (q # qs) \<inter> set (ps t) = {}"
        using family_disjointD [OF fam run(2)] ps Cons by fastforce
      show "\<forall>t < 3. t \<noteq> ?t \<longrightarrow> pcb_array k' t = pcb_array k t \<and> parent_array k' t = parent_array k t \<and>
        (\<forall>r \<in> set (ps t). id_array k' r = id_array k r \<and> parent_id (the_pcb k' r) = parent_id (the_pcb k r) \<and>
           pcb_id (the_pcb k' r) = pcb_id (the_pcb k r))"
      proof (intro allI impI conjI ballI)
        fix t r assume t: "t < 3" "t \<noteq> ?t" and r: "r \<in> set (ps t)"
        have "r \<noteq> p" using family_disjointD [OF fam run(2) t(1)] t(2) r ps by auto
        then show "id_array k' r = id_array k r" by (rule free)
      qed (use e other in auto)
    qed (use family_slotD [OF fam run(2)] ps Cons in auto)
    then show ?thesis using ps Cons c l by blast
  qed
qed

end
