(* ===== verification/Syscall_Lemmas.thy ===== *)
theory Syscall_Lemmas
  imports Syscall Process_Tree Filesys_Dir Filesys_Update
begin

text \<open>
  The running process's descriptors: what the table operations do to them, and the effect of \<open>open\<close>,
  \<open>close\<close>, \<open>read\<close> and \<open>write\<close> on one descriptor.
\<close>

section \<open>The running process\<close>

definition current :: "kernel \<Rightarrow> u32 \<Rightarrow> bool" where
  "current k a \<longleftrightarrow> get_cur_pcb_addr k = Some a \<and> is_pcb a"

abbreviation fds :: "kernel \<Rightarrow> u32 \<Rightarrow> nat \<Rightarrow> file_array_t" where
  "fds k a \<equiv> file_array (pcbs k a)"

definition set_fd :: "u32 \<Rightarrow> nat \<Rightarrow> file_array_t \<Rightarrow> kernel \<Rightarrow> kernel" where
  "set_fd a fd f k = k\<lparr>pcbs := (pcbs k)(a := (pcbs k a)\<lparr>file_array := (fds k a)(fd := f)\<rparr>)\<rparr>"

lemma is_pcb_nonzero: "is_pcb a \<Longrightarrow> a \<noteq> 0"
  by (auto simp: is_pcb_def get_pcb_addr_def upt_rec)

lemma currentD: "current k a \<Longrightarrow> get_cur_pcb_addr k = Some a" "current k a \<Longrightarrow> a \<noteq> 0"
  "current k a \<Longrightarrow> load_pcb k a = Some (pcbs k a)"
  by (simp_all add: current_def is_pcb_nonzero load_pcb_def)

lemma current_set_fd [simp]: "current (set_fd a fd f k) b = current k b"
  by (simp add: current_def get_cur_pcb_addr_def set_fd_def)

lemma current_fs [simp]: "current (k\<lparr>kfs := fs\<rparr>) b = current k b"
  by (simp add: current_def get_cur_pcb_addr_def)

lemma current_rtc [simp]: "current (k\<lparr>krtc := r\<rparr>) b = current k b"
  by (simp add: current_def get_cur_pcb_addr_def)

lemma set_fd_simps [simp]:
  "kfs (set_fd a fd f k) = kfs k" "krtc (set_fd a fd f k) = krtc k" "ktty (set_fd a fd f k) = ktty k"
  "kpic (set_fd a fd f k) = kpic k"
  "fds (set_fd a fd f k) a = (fds k a)(fd := f)"
  "set_fd a fd f (k\<lparr>kfs := fs\<rparr>) = (set_fd a fd f k)\<lparr>kfs := fs\<rparr>"
  "set_fd a fd g (set_fd a fd f k) = set_fd a fd g k"
  by (simp_all add: set_fd_def)

lemma load_fd_current:
  "current k a \<Longrightarrow> load_fd k a (int fd) = (if fd < PCB_SIZE then Some (fds k a fd) else None)"
  by (simp add: load_fd_def currentD arr_get_def)

lemma store_fd_current:
  "current k a \<Longrightarrow> fd < PCB_SIZE \<Longrightarrow> store_fd a (int fd) f k = Some (set_fd a fd f k)"
  by (simp add: store_fd_def load_pcb_def arr_put_def store_pcb_def set_fd_def current_def)

lemma store_fd_fs:
  "current k a \<Longrightarrow> fd < PCB_SIZE \<Longrightarrow>
   store_fd a (int fd) f (k\<lparr>kfs := fs\<rparr>) = Some ((set_fd a fd f k)\<lparr>kfs := fs\<rparr>)"
  using store_fd_current [of "k\<lparr>kfs := fs\<rparr>" a fd f] by simp

lemmas fd_simps = load_fd_current store_fd_current store_fd_fs currentD

section \<open>Finding a free descriptor\<close>

lemma free_fd_spec:
  "i < PCB_SIZE \<Longrightarrow>
   (case free_fd fa i of
      None \<Rightarrow> \<forall>j. i \<le> j \<longrightarrow> j < PCB_SIZE \<longrightarrow> flg (fa j) = FD_BUSY
    | Some fd \<Rightarrow> i \<le> fd \<and> fd < PCB_SIZE \<and> flg (fa fd) \<noteq> FD_BUSY \<and>
        (\<forall>j. i \<le> j \<longrightarrow> j < fd \<longrightarrow> flg (fa j) = FD_BUSY))"
proof (induction fa i rule: free_fd.induct)
  case (1 fa i)
  show ?case
  proof (cases "flg (fa i) = FD_BUSY")
    case False
    with "1.prems" show ?thesis by (subst free_fd.simps) simp
  next
    case busy: True
    show ?thesis
    proof (cases "i = PCB_SIZE - 1")
      case True
      then have "free_fd fa i = None" using busy by (subst free_fd.simps) simp
      moreover have "j = i" if "i \<le> j" "j < PCB_SIZE" for j using that True by simp
      ultimately show ?thesis using busy by auto
    next
      case False
      then have e: "free_fd fa i = free_fd fa (Suc i)"
        using busy "1.prems" by (subst free_fd.simps) simp
      have "Suc i < PCB_SIZE" using False "1.prems" by simp
      note ih = "1.IH" [OF "1.prems" busy False this]
      have "j = i \<or> Suc i \<le> j" if "i \<le> j" for j using that by auto
      then show ?thesis unfolding e using ih busy by (fastforce split: option.splits)
    qed
  qed
qed

lemma free_fd_SomeD:
  "free_fd fa 2 = Some fd \<Longrightarrow> 2 \<le> fd \<and> fd < PCB_SIZE \<and> flg (fa fd) \<noteq> FD_BUSY \<and>
     (\<forall>j. 2 \<le> j \<longrightarrow> j < fd \<longrightarrow> flg (fa j) = FD_BUSY)"
  using free_fd_spec [of 2 fa] by simp

interpretation fd_slots: first_free "\<lambda>fa. free_fd fa 2" "\<lambda>fa j. flg (fa j) = FD_BUSY" 2 PCB_SIZE
proof
  fix fa :: "nat \<Rightarrow> file_array_t" and i j
  note spec = free_fd_spec [of 2 fa]
  show "free_fd fa 2 = Some i \<Longrightarrow> 2 \<le> i \<and> i < PCB_SIZE \<and> flg (fa i) \<noteq> FD_BUSY \<and>
      (\<forall>j. 2 \<le> j \<longrightarrow> j < i \<longrightarrow> flg (fa j) = FD_BUSY)"
    using spec by simp
  show "free_fd fa 2 = None \<Longrightarrow> 2 \<le> j \<Longrightarrow> j < PCB_SIZE \<Longrightarrow> flg (fa j) = FD_BUSY"
    using spec by simp
qed

section \<open>open\<close>

definition locals_ok :: "call_locals \<Rightarrow> bool" where
  "locals_ok l \<longleftrightarrow> length (l_filename l) = MAX_NAME_LEN \<and> dentry_ok (l_open_dentry l) \<and> dentry_ok (l_inner_dentry l)"

text \<open>Opening the clock sets its period to the default of 2 Hz.\<close>

definition opened_clock :: "file_opt_table_t \<Rightarrow> rtc \<Rightarrow> rtc" where
  "opened_clock t r = (if t = RTC_opt_table then r\<lparr>rtc_ct := 512\<rparr> else r)"

lemma call_open_result:
  assumes "dir_ok (kfs k)" "dentry_ok (l_inner_dentry l)" "nul_terminated f" "length (cstr f) \<le> MAX_NAME_LEN"
    and "find_from (dir_names (kfs k)) (cstr f) 0 = Some i" "opt_table_of ty = Some t"
  shows "\<exists>r. call_open l t f k = Some (r, k\<lparr>krtc := opened_clock t (krtc k)\<rparr>) \<and> r \<noteq> -1"
proof (cases "t = RTC_opt_table")
  case True
  then show ?thesis by (simp add: call_open_def rtc_open_def opened_clock_def)
next
  case False
  then have "call_open l t f k = Some (r, k\<lparr>krtc := opened_clock t (krtc k)\<rparr>) \<and> r \<noteq> -1" if "r = (if t = DIR_opt_table then int i else 0)" for r
    using assms(6) read_dentry_by_name_eq [OF assms(1-4)] assms(5) that
    by (auto simp: opt_table_of_def call_open_def dir_open_def file_open_def opened_clock_def split: if_splits)
  then show ?thesis by blast
qed

lemma sys_open_result:
  assumes cur: "current k a" and ok: "dir_ok (kfs k)" "locals_ok l"
    and f: "nul_terminated f" "clean_name f \<noteq> []" "length (clean_name f) < MAX_NAME_LEN"
    and i: "find_from (dir_names (kfs k)) (clean_name f) 0 = Some i"
    and t: "opt_table_of (file_type (dentry_array (kfs k) i)) = Some t"
    and fd: "free_fd (fds k a) 2 = Some fd"
  shows "sys_open l (Some f) k = Some (int fd,
      (set_fd a fd ((fds k a fd)\<lparr>table_ptr := t, file_pos := 0, flg := FD_BUSY,
         fd_inode := inode_num (dentry_array (kfs k) i)\<rparr>) k)\<lparr>krtc := opened_clock t (krtc k)\<rparr>)"
proof -
  let ?f = "(fds k a fd)\<lparr>table_ptr := t, file_pos := 0, flg := FD_BUSY,
         fd_inode := inode_num (dentry_array (kfs k) i)\<rparr>"
  obtain b where b: "copy_filename f (l_filename l) = Some b" "nul_terminated b" "cstr b = clean_name f"
    using copy_filename_eq [of f "l_filename l"] f(1,3) ok(2) by (auto simp: locals_ok_def)
  have ne: "cstr f \<noteq> []" using f(2) by (auto simp: clean_name_def)
  have rd: "read_dentry_by_name (kfs k) (Some b) (Some (l_open_dentry l)) =
      Some (int i, Some (copied_dentry (dentry_array (kfs k) i) (l_open_dentry l)))"
    using read_dentry_by_name_eq [of "kfs k" "l_open_dentry l" b] ok b f(3) i by (simp add: locals_ok_def)
  have fd8: "fd < PCB_SIZE" using free_fd_SomeD [OF fd] by simp
  let ?k = "set_fd a fd ?f k"
  obtain r where c: "call_open l t b ?k = Some (r, ?k\<lparr>krtc := opened_clock t (krtc k)\<rparr>)" "r \<noteq> -1"
    using call_open_result [of ?k l b i, OF _ _ b(2) _ _ t] ok b(3) f(3) i by (auto simp: locals_ok_def)
  show ?thesis
    using cur f(1) ne b(1) fd rd t c(1,2) fd8
    by (simp add: sys_open_def fd_simps copied_dentry_def)
qed

lemma sys_open_existing:
  assumes cur: "current k a" and ok: "dir_ok (kfs k)" "locals_ok l"
    and f: "nul_terminated f" "clean_name f \<noteq> []" "length (clean_name f) < MAX_NAME_LEN"
    and i: "find_from (dir_names (kfs k)) (clean_name f) 0 = Some i"
    and t: "opt_table_of (file_type (dentry_array (kfs k) i)) = Some t"
    and fd: "free_fd (fds k a) 2 = Some fd"
  shows "\<exists>rtc. sys_open l (Some f) k = Some (int fd,
      (set_fd a fd ((fds k a fd)\<lparr>table_ptr := t, file_pos := 0, flg := FD_BUSY,
         fd_inode := inode_num (dentry_array (kfs k) i)\<rparr>) k)\<lparr>krtc := rtc\<rparr>) \<and>
    (t \<noteq> RTC_opt_table \<longrightarrow> rtc = krtc k)"
  using sys_open_result [OF assms] by (auto simp: opened_clock_def)

lemma sys_open_missing:
  assumes cur: "current k a" and ok: "dir_ok (kfs k)" "locals_ok l"
    and f: "nul_terminated f" "clean_name f \<noteq> []" "length (clean_name f) < MAX_NAME_LEN"
    and i: "clean_name f \<notin> set (dir_names (kfs k))"
    and fd: "free_fd (fds k a) 2 = Some fd" and nm: "length (fd_name (fds k a fd)) = MAX_NAME_LEN"
  shows "\<exists>nm. sys_open l (Some f) k = Some (int fd,
      set_fd a fd ((fds k a fd)\<lparr>table_ptr := REG_FILE_opt_table, file_pos := 0, fd_inode := -1,
         flg := FD_BUSY, fd_name := nm\<rparr>) k) \<and> nul_terminated nm \<and> cstr nm = clean_name f"
proof -
  obtain b where b: "copy_filename f (l_filename l) = Some b" "nul_terminated b" "cstr b = clean_name f"
    using copy_filename_eq [of f "l_filename l"] f(1,3) ok(2) by (auto simp: locals_ok_def)
  have ne: "cstr f \<noteq> []" using f(2) by (auto simp: clean_name_def)
  have rd: "read_dentry_by_name (kfs k) (Some b) (Some (l_open_dentry l)) = Some (-1, Some (l_open_dentry l))"
    using read_dentry_by_name_eq [of "kfs k" "l_open_dentry l" b] ok b f(3) i
    by (simp add: locals_ok_def find_from_def)
  have fd8: "fd < PCB_SIZE" using free_fd_SomeD [OF fd] by simp
  let ?nm = "clean_name f @ 0 # drop (Suc (length (clean_name f))) (fd_name (fds k a fd))"
  have "strcpy (fd_name (fds k a fd)) b = Some ?nm"
    using strcpy_loop_eq [of 0 b "fd_name (fds k a fd)"] b f(3) nm by (simp add: strcpy_def)
  then have "sys_open l (Some f) k = Some (int fd,
      set_fd a fd ((fds k a fd)\<lparr>table_ptr := REG_FILE_opt_table, file_pos := 0, fd_inode := -1,
         flg := FD_BUSY, fd_name := ?nm\<rparr>) k)"
    using cur f(1) ne b(1) fd rd fd8 by (simp add: sys_open_def fd_simps)
  moreover have "cstr ?nm = clean_name f"
    using clean_name_nonzero [of f] by (auto simp: cstr_def intro!: takeWhile_append2 [THEN trans])
  ultimately show ?thesis by (intro exI [of _ ?nm]) (simp add: nul_terminated_def)
qed

lemma sys_open_full:
  assumes "current k a" "free_fd (fds k a) 2 = None" "nul_terminated f" "clean_name f \<noteq> []"
    and "length (clean_name f) < length (l_filename l)"
  shows "sys_open l (Some f) k = Some (-1, k)"
proof -
  obtain b where "copy_filename f (l_filename l) = Some b"
    using copy_filename_eq [OF assms(3,5)] by auto
  moreover have "cstr f \<noteq> []" using assms(4) by (auto simp: clean_name_def)
  ultimately show ?thesis using assms(1-3) by (simp add: sys_open_def fd_simps)
qed

section \<open>close\<close>

text \<open>The operation tables are finitely many, so a statement about all of them is a conjunction.\<close>

instantiation file_opt_table_t :: enum
begin

definition
  "enum_file_opt_table_t = [NULL_opt_table, stdin_opt_table, stdout_opt_table, RTC_opt_table, DIR_opt_table, REG_FILE_opt_table]"

definition
  "enum_all_file_opt_table_t P \<longleftrightarrow> list_all P (enum_class.enum :: file_opt_table_t list)"

definition
  "enum_ex_file_opt_table_t P \<longleftrightarrow> list_ex P (enum_class.enum :: file_opt_table_t list)"

instance
proof
  show u: "(UNIV :: file_opt_table_t set) = set enum_class.enum"
    by (auto simp: enum_file_opt_table_t_def intro: file_opt_table_t.exhaust)
  show "distinct (enum_class.enum :: file_opt_table_t list)" by (simp add: enum_file_opt_table_t_def)
  show "enum_class.enum_all P \<longleftrightarrow> Ball UNIV P" "enum_class.enum_ex P \<longleftrightarrow> Bex UNIV P" for P :: "file_opt_table_t \<Rightarrow> bool"
    unfolding u by (simp_all add: enum_all_file_opt_table_t_def enum_ex_file_opt_table_t_def list_all_iff list_ex_iff)
qed

end

lemma all_tables: "(\<forall>t :: file_opt_table_t. P t) \<longleftrightarrow> list_all P enum_class.enum"
  by (simp add: list_all_iff UNIV_enum [symmetric])

lemma call_close_eq: "\<forall>t. call_close t fd = (if t = NULL_opt_table then None else Some 0)"
  by (simp add: all_tables enum_file_opt_table_t_def call_close_def terminal_close_def rtc_close_def dir_close_def file_close_def)

lemma sys_close_eq:
  assumes "current k a"
  shows "sys_close fd k =
    (if 2 \<le> fd \<and> fd < int PCB_SIZE \<and> flg (fds k a (nat fd)) \<noteq> 0
     then if table_ptr (fds k a (nat fd)) = NULL_opt_table then None
       else Some (0, set_fd a (nat fd) ((fds k a (nat fd))\<lparr>flg := 0, file_pos := 0, fd_inode := 0\<rparr>) k)
     else Some (-1, k))"
proof (cases "2 \<le> fd \<and> fd < int PCB_SIZE")
  case True
  then obtain n where n: "fd = int n" "n < PCB_SIZE" using nonneg_int_cases [of fd] by fastforce
  then show ?thesis
    using assms True n by (simp add: sys_close_def fd_simps call_close_eq)
next
  case False
  then show ?thesis by (auto simp: sys_close_def not_le not_less)
qed

section \<open>read and write of regular files\<close>

definition reg_fd :: "file_array_t \<Rightarrow> bool" where
  "reg_fd f \<longleftrightarrow> table_ptr f = REG_FILE_opt_table \<and> flg f = FD_BUSY \<and> fd_inode f \<noteq> -1"

lemma sys_read_reg:
  assumes cur: "current k a" and fd: "fd < PCB_SIZE" "fd \<noteq> 1" "reg_fd (fds k a fd)" and n: "0 \<le> n"
  shows "sys_read l irqs ticks (int fd) (Some b) n k =
    (case read_data (kfs k) (fd_inode (fds k a fd)) (file_pos (fds k a fd)) (Some b) (word_of_int n) of
       None \<Rightarrow> None
     | Some (r, buf) \<Rightarrow> Some (Returns (r, buf,
         set_fd a fd ((fds k a fd)\<lparr>file_pos := file_pos (fds k a fd) + word_of_int r\<rparr>) k)))"
  using assms
  by (simp add: sys_read_def fd_simps reg_fd_def call_read_def file_read_def split: option.splits prod.splits)

lemma sys_write_reg:
  assumes cur: "current k a" and fd: "fd < PCB_SIZE" "0 < fd" "reg_fd (fds k a fd)" and n: "0 \<le> n"
    and w: "write_data (kfs k) (fd_inode (fds k a fd)) (file_pos (fds k a fd)) (Some b) (word_of_int n) = Some (r, fs)"
    and r: "r \<noteq> -1"
  shows "sys_write l (int fd) (Some b) n k = Some (r,
    (set_fd a fd ((fds k a fd)\<lparr>file_pos := file_pos (fds k a fd) + 2 * word_of_int r\<rparr>) k)\<lparr>kfs := fs\<rparr>)"
proof -
  let ?f = "fds k a fd"
  let ?k = "(set_fd a fd (?f\<lparr>file_pos := file_pos ?f + word_of_int r\<rparr>) k)\<lparr>kfs := fs\<rparr>"
  have "call_write (table_ptr ?f) (int fd) (Some b) n k = Some (r, ?k)"
    using cur fd w by (simp add: call_write_def reg_fd_def file_write_def fd_simps)
  moreover have "current ?k a" using cur by simp
  moreover have "fds ?k a fd = ?f\<lparr>file_pos := file_pos ?f + word_of_int r\<rparr>"
    using set_fd_simps(5) [of a fd "?f\<lparr>file_pos := file_pos ?f + word_of_int r\<rparr>" k] by simp
  ultimately show ?thesis
    using cur fd n r by (simp add: sys_write_def create_missing_def write_busy_def fd_simps reg_fd_def add.assoc)
qed

text \<open>A first write to a name that does not exist goes on as a write to the new file.\<close>

lemma sys_write_create:
  assumes cur: "current k a" and fd: "fd < PCB_SIZE" "0 < fd" "flg (fds k a fd) = FD_BUSY" "fd_inode (fds k a fd) = -1"
    and n: "0 \<le> n"
    and c: "file_create (l_filename l) (l_open_dentry l) (fd_name (fds k a fd)) (kfs k) = Some (int (unat x), fs)"
    and x: "x \<noteq> -1"
  shows "sys_write l (int fd) (Some b) n k =
    sys_write l (int fd) (Some b) n ((set_fd a fd ((fds k a fd)\<lparr>fd_inode := x\<rparr>) k)\<lparr>kfs := fs\<rparr>)"
proof -
  let ?k = "(set_fd a fd ((fds k a fd)\<lparr>fd_inode := x\<rparr>) k)\<lparr>kfs := fs\<rparr>"
  have "current ?k a" "fds ?k a fd = (fds k a fd)\<lparr>fd_inode := x\<rparr>"
    using cur by (simp_all add: set_fd_def current_def get_cur_pcb_addr_def)
  then show ?thesis
    using assms by (simp add: sys_write_def create_missing_def write_busy_def fd_simps)
qed

section \<open>Well-formed descriptor tables\<close>

text \<open>
  The first two descriptors are the terminal, and a descriptor in use has an operation table with the
  operations that the calls go through.
\<close>

definition fds_ok :: "(nat \<Rightarrow> file_array_t) \<Rightarrow> bool" where
  "fds_ok fa \<longleftrightarrow>
     (\<forall>i < PCB_SIZE. flg (fa i) = 0 \<or>
        (flg (fa i) = FD_BUSY \<and> table_ptr (fa i) \<noteq> NULL_opt_table \<and> (table_ptr (fa i) = stdin_opt_table \<longrightarrow> i = 0)))"

lemma fds_okD:
  "fds_ok fa \<Longrightarrow> i < PCB_SIZE \<Longrightarrow> flg (fa i) = 0 \<or> flg (fa i) = FD_BUSY"
  "fds_ok fa \<Longrightarrow> i < PCB_SIZE \<Longrightarrow> flg (fa i) \<noteq> 0 \<Longrightarrow> table_ptr (fa i) \<noteq> NULL_opt_table"
  "fds_ok fa \<Longrightarrow> i < PCB_SIZE \<Longrightarrow> flg (fa i) \<noteq> 0 \<Longrightarrow> 0 < i \<Longrightarrow> table_ptr (fa i) \<noteq> stdin_opt_table"
  unfolding fds_ok_def by force+

lemma fds_ok_upd:
  "fds_ok fa \<Longrightarrow> (flg f = 0 \<or> (flg f = FD_BUSY \<and> table_ptr f \<noteq> NULL_opt_table \<and>
     (table_ptr f = stdin_opt_table \<longrightarrow> i = 0))) \<Longrightarrow> fds_ok (fa(i := f))"
  unfolding fds_ok_def by simp

lemma fds_ok_same:
  "fds_ok fa \<Longrightarrow> i < PCB_SIZE \<Longrightarrow> flg f = flg (fa i) \<Longrightarrow> table_ptr f = table_ptr (fa i) \<Longrightarrow>
   fds_ok (fa(i := f))"
  unfolding fds_ok_def by simp

lemma fds_ok_fresh: "fds_ok (file_array (pcb_initialize pcb))"
  by (auto simp: fds_ok_def pcb_initialize_def Let_def pcb_init_loop_eq)

lemma load_fd_SomeD:
  "load_fd k a fd = Some f \<Longrightarrow> 0 \<le> fd \<and> nat fd < PCB_SIZE \<and> f = fds k a (nat fd)"
  by (auto simp: load_fd_def load_pcb_def dest: arr_get_SomeD split: bind_splits if_splits)

lemma store_fd_SomeD:
  "store_fd a fd f k = Some k' \<Longrightarrow> 0 \<le> fd \<and> nat fd < PCB_SIZE \<and> k' = set_fd a (nat fd) f k"
  by (auto simp: store_fd_def load_pcb_def store_pcb_def set_fd_def dest!: arr_put_SomeD split: bind_splits if_splits)

lemma file_read_fds:
  assumes "file_read fd buf n k = Some (r, b, k')" "current k a" "fds_ok (fds k a)"
  shows "fds_ok (fds k' a)"
  using assms
  by (auto simp: file_read_def currentD split: option.splits bind_splits if_splits
      dest!: load_fd_SomeD store_fd_SomeD intro!: fds_ok_same)

lemma dir_read_fds:
  assumes "dir_read d fd buf n k = Some (r, b, k')" "current k a" "fds_ok (fds k a)"
  shows "fds_ok (fds k' a)"
  using assms
  by (auto simp: dir_read_def Let_def currentD split: option.splits bind_splits if_splits
      dest!: load_fd_SomeD store_fd_SomeD intro!: fds_ok_same)

lemma file_write_fds:
  assumes "file_write fd buf n k = Some (r, k')" "current k a" "fds_ok (fds k a)"
  shows "fds_ok (fds k' a) \<and> current k' a"
  using assms
  by (auto simp: file_write_def currentD split: option.splits bind_splits if_splits
      dest!: load_fd_SomeD store_fd_SomeD intro!: fds_ok_same)

lemma call_write_fds:
  assumes "call_write t fd buf n k = Some (r, k')" "current k a" "fds_ok (fds k a)"
  shows "fds_ok (fds k' a)"
  using assms file_write_fds
  by (auto simp: call_write_def split: file_opt_table_t.splits bind_splits)

lemma sys_close_fds:
  assumes "current k a" "fds_ok (fds k a)"
  shows "\<exists>r k'. sys_close fd k = Some (r, k') \<and> fds_ok (fds k' a)"
proof (cases "2 \<le> fd \<and> fd < int PCB_SIZE \<and> flg (fds k a (nat fd)) \<noteq> 0")
  case True
  then have "table_ptr (fds k a (nat fd)) \<noteq> NULL_opt_table" by (intro fds_okD(2) [OF assms(2)]) auto
  then show ?thesis using True assms by (simp add: sys_close_eq [OF assms(1)] fds_ok_upd)
next
  case False
  show ?thesis using assms unfolding sys_close_eq [OF assms(1)] if_not_P [OF False] by simp
qed

lemma sys_read_fds:
  assumes "sys_read l irqs ticks fd buf n k = Some (Returns (r, b, k'))" "current k a" "fds_ok (fds k a)"
  shows "fds_ok (fds k' a)"
  using assms sys_close_fds [OF assms(2,3), of fd]
  by (auto simp: sys_read_def call_read_def currentD split: file_opt_table_t.splits bind_splits if_splits waiting.splits
      dest: file_read_fds dir_read_fds)

lemma create_missing_fds:
  assumes "create_missing l a fd (fds k a (nat fd)) k = Some k'" "current k a" "fds_ok (fds k a)"
  shows "fds_ok (fds k' a) \<and> current k' a"
  using assms
  by (auto simp: create_missing_def split: bind_splits if_splits dest!: store_fd_SomeD intro!: fds_ok_same)

lemma write_busy_fds:
  assumes "write_busy a fd f buf n k = Some (r, k')" "current k a" "fds_ok (fds k a)"
  shows "fds_ok (fds k' a)"
proof (cases "flg f = FD_BUSY")
  case True
  then obtain r1 k1 where c: "call_write (table_ptr f) fd buf n k = Some (r1, k1)"
    using assms(1) by (auto simp: write_busy_def split: bind_splits)
  have "fds_ok (fds k1 a)" by (rule call_write_fds [OF c assms(2,3)])
  then show ?thesis
    using assms(1) c True
    by (auto simp: write_busy_def split: if_splits bind_splits
        dest!: load_fd_SomeD store_fd_SomeD intro!: fds_ok_same)
next
  case False
  then show ?thesis using assms by (simp add: write_busy_def)
qed

lemma sys_write_fds:
  assumes "sys_write l fd buf n k = Some (r, k')" "current k a" "fds_ok (fds k a)"
  shows "fds_ok (fds k' a)"
  using assms create_missing_fds [OF _ assms(2,3), of l fd] write_busy_fds
  by (auto simp: sys_write_def currentD [OF assms(2)] split: bind_splits if_splits dest!: load_fd_SomeD)

lemma call_open_fds: "call_open l t f k = Some (r, k') \<Longrightarrow> pcbs k' = pcbs k"
  by (auto simp: call_open_def split: file_opt_table_t.splits bind_splits prod.splits)

lemma sys_open_fds:
  assumes "sys_open l f k = Some (r, k')" "current k a" "fds_ok (fds k a)"
  shows "fds_ok (fds k' a)"
proof -
  have t: "opt_table_of ty = Some t \<Longrightarrow> t \<noteq> NULL_opt_table \<and> t \<noteq> stdin_opt_table" for ty t
    by (auto simp: opt_table_of_def split: if_splits)
  show ?thesis
    using assms t
    by (auto simp: sys_open_def currentD split: option.splits bind_splits if_splits
        dest!: load_fd_SomeD store_fd_SomeD call_open_fds intro!: fds_ok_upd)
qed

section \<open>Reading the directory\<close>

lemma small_type_bytes: "ty \<le> 2 \<Longrightarrow> 0 \<in> set (bytes_of_u32 ty)"
proof -
  assume "ty \<le> 2"
  then have "unat ty = 0 \<or> unat ty = 1 \<or> unat ty = 2" by (simp add: word_le_nat_alt) arith
  then have "ty = 0 \<or> ty = 1 \<or> ty = 2" by (simp add: word_unat_eq_iff)
  then show ?thesis by (auto simp: bytes_of_u32_def)
qed

text \<open>\<open>strlen\<close> and \<open>strncpy\<close> on the copied entry see its name, whatever follows it.\<close>

lemma dentry_bytes_name:
  assumes "file_type e \<le> 2" and d: "d' = copied_dentry e d"
  shows "nul_terminated (dentry_bytes d')" "take MAX_NAME_LEN (cstr (dentry_bytes d')) = entry_name e"
    "min MAX_NAME_LEN (length (cstr (dentry_bytes d'))) = length (entry_name e)"
proof -
  let ?n = "entry_name e"
  let ?t = "bytes_of_u32 (file_type e) @ bytes_of_u32 (inode_num e) @ dentry_reserved d"
  have z: "0 \<notin> set ?n"
    unfolding entry_name_def using cstr_nonzero in_set_takeD by metis
  have len: "length ?n \<le> MAX_NAME_LEN" by (simp add: entry_name_def)
  have b: "dentry_bytes d' = ?n @ replicate (MAX_NAME_LEN - length ?n) 0 @ ?t"
    using len by (simp add: d dentry_bytes_def copied_dentry_def pad_to_def)
  show "nul_terminated (dentry_bytes d')"
    unfolding b using small_type_bytes [OF assms(1)] by (simp add: nul_terminated_def)
  have c: "cstr (dentry_bytes d') = ?n @ cstr (replicate (MAX_NAME_LEN - length ?n) 0 @ ?t)"
    unfolding b using z by (auto simp: cstr_def intro!: takeWhile_append2)
  have "length ?n = MAX_NAME_LEN \<or> cstr (replicate (MAX_NAME_LEN - length ?n) 0 @ ?t) = []"
    using len by (cases "MAX_NAME_LEN - length ?n") auto
  then show "take MAX_NAME_LEN (cstr (dentry_bytes d')) = ?n"
    "min MAX_NAME_LEN (length (cstr (dentry_bytes d'))) = length ?n"
    unfolding c using len by auto
qed

lemma dir_read_entry:
  assumes cur: "current k a" and fd: "fd < PCB_SIZE" and ok: "dir_ok (kfs k)" "dentry_ok d0"
    and p: "unat (file_pos (fds k a fd)) = p" "p < unat (Num_Dentry (kfs k))"
    and ty: "file_type (dentry_array (kfs k) p) \<le> 2"
    and n: "32 \<le> n" "length (entry_name (dentry_array (kfs k) p)) < length b"
    and r: "length (dentry_reserved d0) = 24"
  defines "nm \<equiv> entry_name (dentry_array (kfs k) p)"
  shows "dir_read d0 (int fd) (Some b) n k = Some (int (length nm), Some (nm @ 0 # drop (Suc (length nm)) b),
    set_fd a fd ((fds k a fd)\<lparr>file_pos := file_pos (fds k a fd) + 1\<rparr>) k)"
proof -
  let ?d = "copied_dentry (dentry_array (kfs k) p) d0"
  let ?s = "dentry_bytes ?d"
  note nb = dentry_bytes_name [OF ty refl, of d0, folded nm_def]
  have ne: "file_pos (fds k a fd) \<noteq> Num_Dentry (kfs k)" using p by auto
  have rd: "read_dentry_by_index (kfs k) (file_pos (fds k a fd)) (Some d0) = Some (0, Some ?d)"
    using read_dentry_by_index_eq [OF ok] p by simp
  have l32: "length nm \<le> 32" using nb(3) by (metis min.cobounded1)
  let ?L = "length (cstr ?s)"
  have "length ?s = 64"
    using ok(2) r by (simp add: dentry_bytes_def copied_dentry_def bytes_of_u32_def)
  then have lb: "?L < 2 ^ 32"
    using length_takeWhile_le [of "\<lambda>c. c \<noteq> 0" ?s] by (simp add: cstr_def)
  have l: "dir_read_length n ?L = int (length nm)"
    using nb(3) lb n(1) by (auto simp: dir_read_length_def Let_def word_less_nat_alt unat_of_nat_u32)
  have w: "unat (word_of_int (int (length nm)) :: u32) = length nm" using l32 by (simp add: unat_of_nat)
  have "take (length nm) (cstr ?s) = nm"
    using nb(2,3) by (cases "?L \<le> 32") auto
  then have cp: "strncpy b ?s (length nm) = Some (nm @ drop (length nm) b)"
    using nb(1) n(2) by (simp add: strncpy_eq pad_to_length nm_def)
  have put: "buf_put (nm @ drop (length nm) b) (length nm) 0 = Some (nm @ 0 # drop (Suc (length nm)) b)"
    using n(2) by (simp add: buf_simps nm_def list_update_append drop_Cons_nth)
  show ?thesis
    using cur fd ne rd nb(1) cp put w
    unfolding dir_read_def get_Num_Dentry_def Let_def
    by (simp add: fd_simps l)
qed

end
