(* ===== verification/Command_Parse.thy ===== *)
theory Command_Parse
  imports Process
begin

text \<open>
  What the two parsing loops of \<open>execute\<close> compute: the first word of the command is the program's
  name, the second one its argument.
\<close>

definition word_chars :: "u8 list \<Rightarrow> bool" where
  "word_chars w \<longleftrightarrow> BLANK \<notin> set w \<and> 0 \<notin> set w"

lemma word_chars_simps [simp]:
  "word_chars []" "word_chars (c # w) \<longleftrightarrow> c \<noteq> BLANK \<and> c \<noteq> 0 \<and> word_chars w"
  by (auto simp: word_chars_def)

lemma buf_get_drop: "drop i cmd = c # rest \<Longrightarrow> buf_get cmd i = Some c"
  by (metis buf_get_in drop_all list.distinct(1) not_less nth_via_drop)

lemma drop_Suc_drop: "drop i cmd = c # rest \<Longrightarrow> drop (Suc i) cmd = rest"
  by (metis drop_Suc list.sel(3) tl_drop)

lemma skip_blanks_run:
  "drop i cmd = replicate m BLANK @ c # rest \<Longrightarrow> i + m \<le> n \<Longrightarrow> i + m < n \<longrightarrow> c \<noteq> BLANK \<Longrightarrow>
   skip_blanks cmd n i = Some (i + m)"
proof (induction m arbitrary: i)
  case 0
  then show ?case
    by (subst skip_blanks.simps) (auto simp: buf_get_drop [of i cmd c])
next
  case (Suc m)
  then have d: "drop i cmd = BLANK # replicate m BLANK @ c # rest" by simp
  have "skip_blanks cmd n (Suc i) = Some (Suc i + m)"
    using Suc.prems by (intro Suc.IH drop_Suc_drop [OF d, THEN trans]) auto
  with Suc.prems show ?case
    by (subst skip_blanks.simps) (simp add: buf_get_drop [OF d])
qed

lemma parse_name_word:
  "drop i cmd = w @ c # rest \<Longrightarrow> word_chars w \<Longrightarrow> i = 0 \<longrightarrow> w \<noteq> [] \<Longrightarrow> i + length w \<le> n \<Longrightarrow>
   (i + length w < n \<longrightarrow> c = BLANK) \<Longrightarrow> u + length w \<le> length f \<Longrightarrow>
   parse_name cmd n i u f = Some (Inr (i + length w, u + length w, take u f @ w @ drop (u + length w) f))"
proof (induction w arbitrary: i u f)
  case Nil
  then have i: "i \<noteq> 0" and g: "buf_get cmd i = Some c" by (simp_all add: buf_get_drop)
  with Nil show ?case by (subst parse_name.simps) simp
next
  case (Cons x w)
  then have d: "drop i cmd = x # w @ c # rest" by simp
  have "parse_name cmd n (Suc i) (Suc u) (f[u := x]) =
      Some (Inr (Suc i + length w, Suc u + length w,
        take (Suc u) (f[u := x]) @ w @ drop (Suc u + length w) (f[u := x])))"
    using Cons.prems by (intro Cons.IH drop_Suc_drop [OF d, THEN trans]) auto
  with Cons.prems show ?case
    by (subst parse_name.simps) (simp add: buf_get_drop [OF d] buf_simps take_Suc_update)
qed

text \<open>Blanks before the name are skipped.\<close>

lemma parse_name_blanks:
  assumes "cmd = replicate a BLANK @ w @ c # rest" "word_chars w" "w \<noteq> []" "a + length w \<le> n"
    and "a + length w < n \<longrightarrow> c = BLANK" "length w \<le> length f"
  shows "parse_name cmd n 0 0 f = Some (Inr (a + length w, length w, w @ drop (length w) f))"
proof (cases a)
  case 0
  then show ?thesis using assms parse_name_word [of 0 cmd w c rest n 0 f] by simp
next
  case (Suc b)
  obtain x v where w: "w = x # v" using assms(3) by (cases w) auto
  have d: "drop a cmd = x # v @ c # rest" using assms(1) w by simp
  have s: "skip_blanks cmd n 0 = Some a"
    using skip_blanks_run [of 0 cmd a x "v @ c # rest" n] assms w by simp
  have "parse_name cmd n (Suc a) 1 (f[0 := x]) =
      Some (Inr (Suc a + length v, 1 + length v, take 1 (f[0 := x]) @ v @ drop (1 + length v) (f[0 := x])))"
    using assms w by (intro parse_name_word drop_Suc_drop [OF d, THEN trans]) auto
  moreover have "take 1 (f[0 := x]) = [x]" using assms w by (cases f) simp_all
  moreover have "buf_get cmd 0 = Some BLANK" using assms(1) Suc by (simp add: buf_simps)
  moreover have "buf_get cmd a = Some x" "buf_put f 0 x = Some (f[0 := x])" "0 < n" "a \<noteq> n" "x \<noteq> BLANK"
    "length (x # v) \<le> length f"
    using buf_get_drop [OF d] buf_put_in [of 0 f x] assms(2,4,6) w by (cases f; auto)+
  ultimately show ?thesis
    using s w by (subst parse_name.simps) simp
qed

lemma copy_arg_word:
  "drop i cmd = v @ c # rest \<Longrightarrow> word_chars v \<Longrightarrow> i + length v \<le> n \<Longrightarrow>
   (i + length v < n \<and> u + length v < MAX_ARG_LEN \<longrightarrow> c = BLANK) \<Longrightarrow>
   u + length v \<le> MAX_ARG_LEN \<Longrightarrow> length arg = MAX_ARG_LEN \<Longrightarrow>
   copy_arg cmd n i u arg = Some (take u arg @ v @ drop (u + length v) arg)"
proof (induction v arbitrary: i u arg)
  case Nil
  then have g: "buf_get cmd i = Some c" by (simp add: buf_get_drop)
  with Nil show ?case by (subst copy_arg.simps) auto
next
  case (Cons x v)
  then have d: "drop i cmd = x # v @ c # rest" by simp
  have "copy_arg cmd n (Suc i) (Suc u) (arg[u := x]) =
      Some (take (Suc u) (arg[u := x]) @ v @ drop (Suc u + length v) (arg[u := x]))"
    using Cons.prems by (intro Cons.IH drop_Suc_drop [OF d, THEN trans]) auto
  with Cons.prems show ?case
    by (subst copy_arg.simps) (simp add: buf_get_drop [OF d] buf_simps take_Suc_update)
qed

lemma parse_arg_word:
  assumes "drop i cmd = replicate (Suc b) BLANK @ v @ c # rest" "word_chars v" "v \<noteq> []" "hd v \<noteq> 0x22"
    and "i + Suc b + length v \<le> n" "i + Suc b + length v < n \<longrightarrow> c = BLANK"
  shows "parse_arg cmd n i echo = Some (False, pad_to MAX_ARG_LEN (take MAX_ARG_LEN v), echo)"
proof -
  obtain x y where v: "v = x # y" using assms(3) by (cases v) auto
  have g: "buf_get cmd i = Some BLANK" using assms(1) by (intro buf_get_drop) simp
  have s: "skip_blanks cmd n i = Some (i + Suc b)"
    using assms v by (intro skip_blanks_run [of i cmd "Suc b" x "y @ c # rest"]) auto
  have d: "drop (i + Suc b) cmd = v @ c # rest"
    using arg_cong [OF assms(1), of "drop (Suc b)"] by (simp add: add.commute del: replicate_Suc)
  have x: "buf_get cmd (i + Suc b) = Some x" using d v by (intro buf_get_drop) simp
  let ?w = "take MAX_ARG_LEN v"
  obtain c' rest' where r: "drop MAX_ARG_LEN v @ c # rest = c' # rest'"
    by (cases "drop MAX_ARG_LEN v @ c # rest") simp_all
  have d': "drop (i + Suc b) cmd = ?w @ c' # rest'" unfolding d r [symmetric] by simp
  have w: "word_chars ?w" using assms(2) by (auto simp: word_chars_def dest: in_set_takeD)
  have "length v < MAX_ARG_LEN \<Longrightarrow> c' = c" using r by simp
  then have "copy_arg cmd n (i + Suc b) 0 (replicate MAX_ARG_LEN 0) =
      Some (take 0 (replicate MAX_ARG_LEN 0) @ ?w @ drop (0 + length ?w) (replicate MAX_ARG_LEN 0))"
    using assms(5,6) by (intro copy_arg_word [OF d' w]) auto
  then show ?thesis
    using g s x assms(4,5) v unfolding parse_arg_def Let_def
    by (simp add: pad_to_def)
qed

text \<open>A quotation mark that ends the command makes the length of the quoted string wrap around.\<close>

lemma parse_arg_open_quote:
  assumes "drop i cmd = [BLANK, 0x22, 0]" "0 \<notin> set (take i cmd)" "length echo < 2 ^ 32 - 1"
  shows "parse_arg cmd (i + 2) i echo = None"
proof -
  have g: "buf_get cmd i = Some BLANK" by (rule buf_get_drop [OF assms(1)])
  have s: "skip_blanks cmd (i + 2) i = Some (i + 1)"
    using skip_blanks_run [of i cmd 1 "0x22" "[0]" "i + 2"] assms(1) by simp
  have d: "drop (i + 1) cmd = [0x22, 0]" "drop (i + 1 + 1) cmd = [0]"
    using drop_Suc_drop [OF assms(1)] drop_Suc_drop [of "i + 1" cmd "0x22" "[0]"] by simp_all
  have q: "buf_get cmd (i + 1) = Some 0x22" by (rule buf_get_drop [OF d(1)])
  have cmd: "cmd = take i cmd @ [BLANK, 0x22, 0]" by (metis assms(1) append_take_drop_id)
  have i: "i \<le> length cmd" using assms(1) by (cases "i \<le> length cmd") auto
  have "strlen cmd = Some (i + 2)"
  proof -
    have "nul_terminated cmd" by (subst cmd) (simp add: nul_terminated_def)
    moreover have "cstr cmd = take i cmd @ [BLANK, 0x22]"
      using assms(2) by (subst cmd) (auto simp: cstr_def intro!: takeWhile_append2 [THEN trans])
    ultimately show ?thesis using i by simp
  qed
  moreover have "unat (of_nat (i + 2) - of_nat (i + 1) - 2 :: u32) = 2 ^ 32 - 1"
  proof -
    have "of_nat (i + 2) - of_nat (i + 1) - 2 = (0xFFFFFFFF :: u32)" by simp
    then show ?thesis by (simp only:) simp
  qed
  moreover have "strncpy echo (drop (i + 1 + 1) cmd) (2 ^ 32 - 1) = None"
    by (rule strncpy_overflow [OF assms(3)])
  ultimately show ?thesis
    using g s q unfolding parse_arg_def Let_def by simp
qed

end
