(* ===== verification/Process_Props.thy ===== *)
theory Process_Props
  imports Process_Tree Command_Parse Filesys_Props Console_Props
begin

text \<open>
  What users of \<open>execute\<close> and \<open>halt\<close> rely on: the process invariant, the return to the parent, the
  failure cases, the parsing of commands, and where the bookkeeping of parents goes wrong.
\<close>

section \<open>A small machine for the witnesses\<close>

definition demo_prog_entry :: dentry_t where
  "demo_prog_entry = \<lparr>file_name = ascii ''s'' @ replicate 31 0, file_type = REGULAR_FILE_TYPE,
     inode_num = 0, dentry_reserved = replicate 24 0\<rparr>"

definition demo_prog_fs :: fs where
  "demo_prog_fs = demo_fs\<lparr>dentry_array := (\<lambda>_. demo_prog_entry),
     inode_ptr := (\<lambda>_. \<lparr>inode_length = 4, data_block_idx = (\<lambda>_. 0)\<rparr>),
     data_block_ptr := (\<lambda>_ j. if j < 4 then ELF ! j else 0)\<rparr>"

definition demo_pcb :: pcb_t where
  "demo_pcb = \<lparr>pcb_ebp = 0, pcb_esp = 0, esp_ret = 0, ebp_ret = 0, eip_user = 0, esp_user = 0,
     parent_id = 0, pcb_id = 0, func = 0, pending_signals = (\<lambda>_. 0), block = 0,
     pcb_arg = replicate 100 0,
     file_array = (\<lambda>_. \<lparr>table_ptr = NULL_opt_table, fd_inode = 0, file_pos = 0, flg = 0,
        fd_name = replicate 32 0\<rparr>)\<rparr>"

definition demo_kernel :: kernel where
  "demo_kernel = \<lparr>kfs = demo_prog_fs, ktty = demo_tty, krtc = demo_rtc, kpic = pic_reset,
     pcbs = (\<lambda>_. demo_pcb), id_array = (\<lambda>_. 0)(0 := 1), parent_array = (\<lambda>_. -1)(0 := 0),
     pcb_array = (\<lambda>_. -1)(0 := 0), tss_esp0 = 0x7FFFFC, tss_ss0 = 0x18,
     program_img = (\<lambda>_. replicate 28 0)\<rparr>"

definition demo_locals :: exec_locals where
  "demo_locals = \<lparr>l_file_name = replicate 32 0, l_arg_echo = replicate 4 0, l_dentry = demo_prog_entry,
     l_buf = replicate 5 0, l_esp = 0x7FFF00, l_ebp = 0x7FFF80\<rparr>"

lemma demo_locals_sel: "l_esp demo_locals = 0x7FFF00" "l_ebp demo_locals = 0x7FFF80"
  by (simp_all add: demo_locals_def)

lemma demo_execute:
  "\<exists>k. execute demo_locals (ascii ''s'' @ [0]) demo_kernel = Some (Iret_user 0 0x83FFFFC, k)"
proof -
  have "map_option fst (execute demo_locals (ascii ''s'' @ [0]) demo_kernel) = Some (Iret_user 0 0x83FFFFC)"
    by code_simp
  then show ?thesis by auto
qed

lemma demo_family [simp]: "family_ok demo_kernel (\<lambda>t. if t = 0 then [0] else [])"
  by (auto simp: family_ok_def slot_ok_def demo_kernel_def demo_pcb_def)

lemma demo_slots [simp]:
  "running_slot demo_kernel = 0" "display_slot demo_kernel = 0" "terminal_now (ktty demo_kernel) = 0"
  "pcb_array demo_kernel 0 = 0" "parent_array demo_kernel 0 = 0"
  by (simp_all add: running_slot_def display_slot_def demo_kernel_def demo_tty_def)

section \<open>The page of the process that goes on\<close>

lemma halt_frame:
  assumes "unat pid < 6"
  defines "e \<equiv> PAGE_4MB * (pid + 2) OR PRESENT OR R_W OR U_S OR PS"
  shows "e AND PRESENT = 1" "e AND PS \<noteq> 0" "e AND U_S \<noteq> 0"
    "e AND 0xFFC00000 = PROGRAM_START_ADDR + pid * PAGE_4MB"
    "(PROGRAM_START_ADDR + pid * PAGE_4MB) AND 0x3FFFFF = 0"
proof -
  have "unat pid = 0 \<or> unat pid = 1 \<or> unat pid = 2 \<or> unat pid = 3 \<or> unat pid = 4 \<or> unat pid = 5"
    using assms(1) by arith
  then have "pid = 0 \<or> pid = 1 \<or> pid = 2 \<or> pid = 3 \<or> pid = 4 \<or> pid = 5"
    by (simp add: word_unat_eq_iff)
  then show "e AND PRESENT = 1" "e AND PS \<noteq> 0" "e AND U_S \<noteq> 0"
    "e AND 0xFFC00000 = PROGRAM_START_ADDR + pid * PAGE_4MB"
    "(PROGRAM_START_ADDR + pid * PAGE_4MB) AND 0x3FFFFF = 0"
    unfolding e_def by (elim disjE; simp)+
qed

lemma translate_halt_paging:
  "unat pid < 6 \<Longrightarrow> translate v w (halt_paging pid t) va =
    (if 0x8000000 \<le> va \<and> va < 0x8400000
     then Some (PROGRAM_START_ADDR + pid * PAGE_4MB + (va - VIR_ADDR), True) else translate v w t va)"
  using translate_user_entry [OF halt_frame, of pid v w t va] by (simp add: halt_paging_def Let_def)

section \<open>What a new process finds\<close>

lemma entered_files:
  assumes "entered l pid k k'"
  shows "\<forall>fd < PCB_SIZE. flg (file_array (the_pcb k' pid) fd) = (if fd < 2 then FD_BUSY else 0) \<and>
    table_ptr (file_array (the_pcb k' pid) fd) =
      (if fd = 0 then stdin_opt_table else if fd = 1 then stdout_opt_table else NULL_opt_table) \<and>
    file_pos (file_array (the_pcb k' pid) fd) = 0 \<and> fd_inode (file_array (the_pcb k' pid) fd) = 0"
  using assms by (auto simp: entered_def pcb_initialize_def pcb_init_loop_eq Let_def less_2_cases_iff)

lemma entered_page:
  assumes "entered l pid k k'"
  shows "\<forall>va. 0x8000000 \<le> va \<and> va < 0x8400000 \<longrightarrow>
    translate v w (ktty k') va = Some (PROGRAM_START_ADDR + of_nat pid * PAGE_4MB + (va - VIR_ADDR), True)"
  using assms by (simp add: entered_def translate_map_program)

section \<open>Properties\<close>

text \<open>
  C4. \<open>execute\<close> either refuses, with -1 and the kernel state unchanged (messages on the console aside),
  or enters the program: it takes the lowest free process id, gives the new process a control block in
  which of the eight descriptors exactly 0 and 1 are open, as standard input and output, maps the page of
  that id at 128 MB, sets the kernel stack, and changes no other process, the file system or the devices.
\<close>

theorem execute_refuses_or_enters:
  assumes "execute l command k = Some (c, k')"
  shows "(c = Return (-1) \<and> k' = k) \<or>
    (\<exists>pid < MAX_PROCESS. id_array k pid = 0 \<and> (\<forall>i < pid. id_array k i \<noteq> 0) \<and>
       c = Iret_user (eip_user (the_pcb k' pid)) 0x83FFFFC \<and> entered l pid k k' \<and>
       (\<forall>fd < PCB_SIZE. flg (file_array (the_pcb k' pid) fd) = (if fd < 2 then FD_BUSY else 0) \<and>
          table_ptr (file_array (the_pcb k' pid) fd) =
            (if fd = 0 then stdin_opt_table else if fd = 1 then stdout_opt_table else NULL_opt_table) \<and>
          file_pos (file_array (the_pcb k' pid) fd) = 0 \<and> fd_inode (file_array (the_pcb k' pid) fd) = 0) \<and>
       (\<forall>va. 0x8000000 \<le> va \<and> va < 0x8400000 \<longrightarrow>
          translate v w (ktty k') va = Some (PROGRAM_START_ADDR + of_nat pid * PAGE_4MB + (va - VIR_ADDR), True)))"
proof -
  let ?pid = "free_id (id_array k) 0"
  have "?pid < MAX_PROCESS \<Longrightarrow> id_array k ?pid = 0" "\<forall>i < ?pid. id_array k i \<noteq> 0"
    using free_id_spec [of 0 "id_array k"] by auto
  moreover have "entered l ?pid k k' \<Longrightarrow> ?pid < MAX_PROCESS" by (simp add: entered_def)
  ultimately show ?thesis using execute_cases [OF assms] entered_files entered_page by blast
qed

theorem execute_refuses_or_enters_witness:
  "\<exists>k. execute demo_locals (ascii ''s'' @ [0]) demo_kernel = Some (Iret_user 0 0x83FFFFC, k) \<and>
     (\<exists>pid < MAX_PROCESS. entered demo_locals pid demo_kernel k \<and> flg (file_array (the_pcb k pid) 2) = 0)"
proof -
  obtain k where k: "execute demo_locals (ascii ''s'' @ [0]) demo_kernel = Some (Iret_user 0 0x83FFFFC, k)"
    using demo_execute by blast
  from execute_refuses_or_enters [OF k, of 0 0] obtain pid where "pid < MAX_PROCESS" "entered demo_locals pid demo_kernel k"
      "\<forall>fd < PCB_SIZE. flg (file_array (the_pcb k pid) fd) = (if fd < 2 then FD_BUSY else 0)"
    by auto
  then show ?thesis using k by auto
qed

text \<open>
  C3. When a program is run from the process of the displayed terminal and then halts, control is back
  behind the caller's \<open>execute\<close> with the caller's registers, the process id is free again and no process
  that was there has changed. Running is then the process \<open>q\<close> that the terminal had booked as parent: its
  page is mapped, its kernel stack is in the task state, and the parent of \<open>q\<close> is booked for the next
  program. So everything is as before when the caller is the one that was booked. A shell
  that was itself run from a shell is not, once a first program of its own has halted: that is the defect
  of \<open>nested_shell_loses_parent\<close>.
\<close>

theorem execute_then_halt:
  assumes inv: "proc_inv k"
    and here: "terminal_now (ktty k) = int t" "t < 3" "display_slot k = t"
    and busy: "pcb_array k t = int p"
    and exec: "execute l command k = Some (Iret_user eip esp, k1)"
  shows "\<exists>q k2. parent_array k t = int q \<and> q < MAX_PROCESS \<and>
    halt status k1 = Some (Jump_return (l_esp l) (l_ebp l), k2) \<and>
    id_array k2 = id_array k \<and> pcb_array k2 = (pcb_array k)(t := int q) \<and>
    parent_array k2 = (parent_array k)(t := sint (parent_id (the_pcb k q))) \<and>
    (\<forall>r < MAX_PROCESS. id_array k r \<noteq> 0 \<longrightarrow> the_pcb k2 r = the_pcb k r) \<and> kfs k2 = kfs k \<and>
    tss_esp0 k2 = 0x7FFFFC - 0x2000 * of_nat q \<and>
    (\<forall>va. 0x8000000 \<le> va \<and> va < 0x8400000 \<longrightarrow>
       translate v w (ktty k2) va = Some (PROGRAM_START_ADDR + of_nat q * PAGE_4MB + (va - VIR_ADDR), True)) \<and>
    (q = p \<longrightarrow> pcb_array k2 = pcb_array k)"
proof -
  from inv obtain ps where fam: "family_ok k ps" unfolding proc_inv_def by blast
  from family_slotD [OF fam here(2)] busy obtain q where par: "parent_array k t = int q" "q \<in> set (ps t)"
    by (auto simp: slot_ok_def)
  have p: "q < MAX_PROCESS" "id_array k q = 1" "pcb_id (the_pcb k q) = of_nat q"
    using family_memberD [OF fam here(2) par(2)] by auto
  obtain n where ent: "entered l n k k1" using execute_cases [OF exec] by auto
  note e = ent [unfolded entered_def]
  have n: "n < MAX_PROCESS" "id_array k n = 0" using e free_id_spec [of 0 "id_array k"] by auto
  have np: "n \<noteq> q" using n p by auto
  have now: "terminal_now (ktty k1) = int t" using e here by (simp add: map_program_def Let_def)
  then have run: "0 \<le> terminal_now (ktty k1)" "running_slot k1 = t" by (simp_all add: running_slot_def)
  have same: "the_pcb k1 r = the_pcb k r" if "r < MAX_PROCESS" "r \<noteq> n" for r using e n that by simp
  have "parent_id (the_pcb k1 n) = of_nat q" using e par here by (simp add: parent_of_new_def)
  from halt_leaves [of k1 n q status, OF run(1) _ _ n(1) p(1) np _ this] run here e
  obtain k2 where k2: "halt status k1 = Some (Jump_return (esp_ret (the_pcb k1 n)) (ebp_ret (the_pcb k1 n)), k2)"
      and l: "left n q k1 k2" by auto
  note f = l [unfolded left_def]
  have "id_array k2 = id_array k" "pcb_array k2 = (pcb_array k)(t := int q)" "kfs k2 = kfs k"
    using e f n here run by (simp_all add: fun_eq_iff)
  moreover have "parent_array k2 = (parent_array k)(t := sint (parent_id (the_pcb k q)))"
    using e f here run same [OF p(1)] np by (simp add: fun_eq_iff)
  moreover have "the_pcb k2 r = the_pcb k r" if "r < MAX_PROCESS" "id_array k r \<noteq> 0" for r
  proof -
    have "r \<noteq> n" using that n by auto
    then show ?thesis using f n that(1) same by simp
  qed
  moreover have "tss_esp0 k2 = 0x7FFFFC - 0x2000 * of_nat q" using f np p same by simp
  moreover have "ktty k2 = halt_paging (of_nat q) (ktty k1)" using f by simp
  ultimately show ?thesis
    using k2 e p(1) par(1) busy by (intro exI [of _ q] exI [of _ k2]) (auto simp: translate_halt_paging)
qed

theorem execute_then_halt_witness:
  "\<exists>k1 k2. execute demo_locals (ascii ''s'' @ [0]) demo_kernel = Some (Iret_user 0 0x83FFFFC, k1) \<and>
     halt 7 k1 = Some (Jump_return 0x7FFF00 0x7FFF80, k2) \<and> pcb_array k2 0 = 0"
proof -
  obtain k1 where k1: "execute demo_locals (ascii ''s'' @ [0]) demo_kernel = Some (Iret_user 0 0x83FFFFC, k1)"
    using demo_execute by blast
  have "proc_inv demo_kernel" unfolding proc_inv_def using demo_family by blast
  from execute_then_halt [OF this _ _ _ _ k1, where t = 0 and p = 0 and status = 7 and v = 0 and w = 0]
  obtain k2 where "halt 7 k1 = Some (Jump_return 0x7FFF00 0x7FFF80, k2)" "pcb_array k2 = pcb_array demo_kernel"
    by (auto simp: demo_locals_sel)
  then show ?thesis using k1 by auto
qed

text \<open>
  Defect: when a program ends whose parent \<open>q\<close> is itself the child of \<open>r\<close>, \<open>halt\<close> records \<open>r\<close> as
  the parent of the next process although \<open>q\<close> is running again. The next program \<open>q\<close> starts gets \<open>r\<close>
  as its parent, so that its own \<open>halt\<close> skips \<open>q\<close>.
\<close>

theorem nested_shell_loses_parent:
  assumes fam: "family_ok k ps" and t: "t < 3" "terminal_now (ktty k) = int t" "display_slot k = t"
    and ps: "ps t = p # q # r # rs"
    and h: "halt status k = Some (c, k1)"
    and exec: "execute l command k1 = Some (Iret_user eip esp, k2)"
  shows "pcb_array k1 t = int q \<and> r \<noteq> q \<and>
    (\<exists>n. pcb_array k2 t = int n \<and> parent_id (the_pcb k2 n) = of_nat r)"
proof -
  have run: "0 \<le> terminal_now (ktty k)" "running_slot k = t" using t by (simp_all add: running_slot_def)
  have lin: "lineage k (ps t)" "pcb_array k t \<noteq> -1" "distinct (ps t)"
    using family_slotD [OF fam t(1)] ps by (auto simp: slot_ok_def)
  have l: "left p q k k1" using halt_shrinks [OF fam run(1) _ _ h] run t lin ps by auto
  note f = l [unfolded left_def]
  have r: "r < MAX_PROCESS" "parent_id (the_pcb k q) = of_nat r"
    using family_memberD [OF fam t(1), of r] lin ps by auto
  have pa: "pcb_array k1 t = int q" "parent_array k1 t = int r" using f run r by simp_all
  have d: "display_slot k1 = t" using f t by (simp add: display_slot_def halt_paging_def Let_def)
  obtain n where ent: "entered l n k1 k2" using execute_cases [OF exec] by auto
  then have "pcb_array k2 t = int n" "parent_id (the_pcb k2 n) = of_nat r"
    using d pa by (simp_all add: entered_def parent_of_new_def)
  then show ?thesis using pa lin(3) ps by auto
qed

definition demo_nested :: kernel where
  "demo_nested = demo_kernel\<lparr>pcbs := (\<lambda>a. if a = get_pcb_addr 2 then demo_pcb\<lparr>pcb_id := 2, parent_id := 1\<rparr>
       else if a = get_pcb_addr 1 then demo_pcb\<lparr>pcb_id := 1, parent_id := 0\<rparr> else demo_pcb),
     id_array := (\<lambda>i. if i < 3 then 1 else 0), parent_array := (\<lambda>_. -1)(0 := 2),
     pcb_array := (\<lambda>_. -1)(0 := 2)\<rparr>"

lemma demo_nested_family: "family_ok demo_nested (\<lambda>t. if t = 0 then [2, 1, 0] else [])"
  by (auto simp: family_ok_def slot_ok_def demo_nested_def demo_kernel_def demo_pcb_def get_pcb_addr_def)

lemma demo_nested_run:
  "\<exists>c k1 k2. halt 0 demo_nested = Some (c, k1) \<and>
     execute demo_locals (ascii ''s'' @ [0]) k1 = Some (Iret_user 0 0x83FFFFC, k2)"
proof -
  have "map_option fst (Option.bind (halt 0 demo_nested) (\<lambda>(c, k). execute demo_locals (ascii ''s'' @ [0]) k)) =
      Some (Iret_user 0 0x83FFFFC)"
    by code_simp
  then show ?thesis by (auto split: bind_splits)
qed

theorem nested_shell_loses_parent_witness:
  "\<exists>c k1 k2 n. halt 0 demo_nested = Some (c, k1) \<and>
     execute demo_locals (ascii ''s'' @ [0]) k1 = Some (Iret_user 0 0x83FFFFC, k2) \<and>
     pcb_array k1 0 = 1 \<and> pcb_array k2 0 = int n \<and> parent_id (the_pcb k2 n) = 0"
proof -
  obtain c k1 k2 where h: "halt 0 demo_nested = Some (c, k1)"
    and e: "execute demo_locals (ascii ''s'' @ [0]) k1 = Some (Iret_user 0 0x83FFFFC, k2)"
    using demo_nested_run by blast
  from nested_shell_loses_parent [OF demo_nested_family _ _ _ _ h e, where t = 0 and p = 2 and q = 1 and r = 0 and rs = "[]"]
  obtain n where "pcb_array k1 0 = 1" "pcb_array k2 0 = int n" "parent_id (the_pcb k2 n) = 0"
    by (auto simp: demo_nested_def demo_kernel_def demo_tty_def display_slot_def)
  with h e show ?thesis by blast
qed

text \<open>
  Defect: \<open>execute\<close> books the new process in the terminal on the display, not in the one whose
  process asked for it. Called by a background terminal, it enters the program with the program's
  page mapped, while the caller's terminal goes on pointing to the caller's control block, so the
  program runs with the caller's file descriptors.
\<close>

theorem execute_books_on_display:
  assumes "display_slot k \<noteq> running_slot k"
    and "execute l command k = Some (Iret_user eip esp, k')"
  shows "get_cur_pcb_addr k' = get_cur_pcb_addr k \<and> pcb_array k' (running_slot k) = pcb_array k (running_slot k) \<and>
    (\<exists>pid. id_array k pid = 0 \<and> pcb_array k' (display_slot k) = int pid \<and>
       ktty k' = map_program (of_nat pid) (ktty k))"
proof -
  obtain n where "entered l n k k'" using execute_cases [OF assms(2)] by auto
  moreover from this have "id_array k n = 0"
    using free_id_spec [of 0 "id_array k"] by (auto simp: entered_def)
  ultimately show ?thesis
    using assms(1)
    by (auto simp: entered_def get_cur_pcb_addr_def running_slot_def arr_get_def map_program_def Let_def
        intro!: exI [of _ n])
qed

definition demo_background :: kernel where
  "demo_background = demo_kernel\<lparr>ktty := demo_tty\<lparr>cur_display_terminal_id := 2\<rparr>\<rparr>"

theorem execute_books_on_display_witness:
  "\<exists>k. execute demo_locals (ascii ''s'' @ [0]) demo_background = Some (Iret_user 0 0x83FFFFC, k) \<and>
     pcb_array k 0 = pcb_array demo_background 0"
proof -
  have "map_option fst (execute demo_locals (ascii ''s'' @ [0]) demo_background) = Some (Iret_user 0 0x83FFFFC)"
    by code_simp
  then obtain k where k: "execute demo_locals (ascii ''s'' @ [0]) demo_background = Some (Iret_user 0 0x83FFFFC, k)"
    by auto
  have "display_slot demo_background \<noteq> running_slot demo_background" "running_slot demo_background = 0"
    by (simp_all add: demo_background_def display_slot_def running_slot_def demo_tty_def)
  from execute_books_on_display [OF this(1) k] this(2) k show ?thesis by auto
qed

text \<open>
  C25. The command line: after blanks, the first word, of fewer than 32 characters, is the name of the
  program; the second, if it does not start with a quotation mark, is its argument, cut or padded with
  NULs to 100 bytes. What follows the second word, behind a blank, is ignored.
\<close>

theorem command_is_parsed:
  assumes "word_chars w" "w \<noteq> []" "length w < 32" and "word_chars v" "v \<noteq> []" "hd v \<noteq> 0x22"
    and "0 \<notin> set us" "us = [] \<or> hd us = BLANK"
    and "length f = 32" and cmd: "cmd = replicate a BLANK @ w @ replicate (Suc b) BLANK @ v @ us @ [0]"
  shows "\<exists>n i f'. strlen cmd = Some n \<and> parse_name cmd n 0 0 f = Some (Inr (i, length w, f')) \<and>
    cstr (f'[length w := 0]) = w \<and>
    parse_arg cmd n i echo = Some (False, pad_to 100 (take 100 v), echo)"
proof -
  let ?n = "length cmd - 1" and ?f = "w @ drop (length w) f"
  let ?line = "replicate a BLANK @ w @ replicate (Suc b) BLANK @ v @ us"
  have n: "?n = a + length w + Suc b + length v + length us" unfolding cmd by simp
  have z: "0 \<notin> set ?line" using assms(1,4,7) by (auto simp: word_chars_def)
  have c: "cmd = ?line @ [0]" unfolding cmd by simp
  have "nul_terminated cmd" unfolding c by (simp add: nul_terminated_def)
  moreover have "cstr cmd = ?line" unfolding c by (rule cstr_append_nul [OF z])
  ultimately have "strlen cmd = Some ?n" using n by simp
  moreover have "parse_name cmd ?n 0 0 f = Some (Inr (a + length w, length w, ?f))"
    using assms n by (intro parse_name_blanks [of cmd a w BLANK "replicate b BLANK @ v @ us @ [0]"]) auto
  moreover have "cstr (?f[length w := 0]) = w"
  proof -
    obtain x xs where "drop (length w) f = x # xs"
      using assms(3,9) by (cases "drop (length w) f") auto
    then have "?f[length w := 0] = w @ 0 # xs" by simp
    moreover have "0 \<notin> set w" using assms(1) by (simp add: word_chars_def)
    ultimately show ?thesis by (auto simp: cstr_def intro!: takeWhile_append2 [THEN trans])
  qed
  moreover have "parse_arg cmd ?n (a + length w) echo = Some (False, pad_to 100 (take 100 v), echo)"
  proof -
    obtain x rest where r: "us @ [0] = x # rest" by (cases us) auto
    have "drop (a + length w) cmd = replicate (Suc b) BLANK @ v @ x # rest" unfolding cmd r [symmetric] by simp
    moreover have "us \<noteq> [] \<longrightarrow> x = BLANK" using r assms(8) by (cases us) auto
    ultimately show ?thesis using assms(4-6) n by (intro parse_arg_word [of _ cmd b v x rest]) auto
  qed
  ultimately show ?thesis by blast
qed

theorem command_is_parsed_witness:
  "\<exists>n i f'. strlen (ascii '' cat frame0 x'' @ [0]) = Some n \<and>
     parse_name (ascii '' cat frame0 x'' @ [0]) n 0 0 (replicate 32 0) = Some (Inr (i, length (ascii ''cat''), f')) \<and>
     cstr (f'[length (ascii ''cat'') := 0]) = ascii ''cat'' \<and>
     parse_arg (ascii '' cat frame0 x'' @ [0]) n i [] = Some (False, pad_to 100 (take 100 (ascii ''frame0'')), [])"
  by (rule command_is_parsed [where a = 1 and b = 0 and us = "ascii '' x''"]) simp_all

text \<open>
  Defect: a command whose argument is a single quotation mark makes the length of the quoted
  string wrap around, and the copy runs out of its buffer whatever the state of the kernel.
\<close>

theorem lone_quote_overflows:
  assumes "word_chars w" "w \<noteq> []" "length w < 32" and "length (l_file_name l) = 32"
    and "length (l_arg_echo l) = 1000000"
  shows "execute l (w @ [BLANK, 0x22, 0]) k = None"
proof -
  let ?cmd = "w @ [BLANK, 0x22, 0]" and ?f = "w @ drop (length w) (l_file_name l)"
  have z: "0 \<notin> set w" using assms(1) by (simp add: word_chars_def)
  then have "cstr ?cmd = w @ [BLANK, 0x22]" by (auto simp: cstr_def intro!: takeWhile_append2 [THEN trans])
  then have n: "strlen ?cmd = Some (length w + 2)" by (simp add: nul_terminated_def)
  have p: "parse_name ?cmd (length w + 2) 0 0 (l_file_name l) = Some (Inr (length w, length w, ?f))"
    using assms parse_name_word [of 0 ?cmd w BLANK "[0x22, 0]" "length w + 2" 0 "l_file_name l"] by simp
  have "parse_arg ?cmd (length w + 2) (length w) (l_arg_echo l) = None"
    using z assms(5) by (intro parse_arg_open_quote) simp_all
  then show ?thesis using n p by (simp add: execute_def split: bind_splits)
qed

theorem lone_quote_overflows_witness:
  "execute \<lparr>l_file_name = replicate 32 0, l_arg_echo = replicate 1000000 0, l_dentry = demo_prog_entry,
      l_buf = replicate 5 0, l_esp = 0, l_ebp = 0\<rparr> (ascii ''echo'' @ [BLANK, 0x22, 0]) demo_kernel = None"
  by (rule lone_quote_overflows) simp_all

end
