(* ===== verification/Syscall_Props.thy ===== *)
theory Syscall_Props
  imports Syscall_Lemmas Process_Props
begin

text \<open>
  What a process can rely on when it uses descriptors: opening and closing, reading a file in pieces,
  creating a file by writing, listing the directory; and what it cannot, the position after a write.
\<close>

section \<open>A descriptor as a stream\<close>

text \<open>The abstract view of an open regular file: its contents and the position in them.\<close>

definition stream :: "kernel \<Rightarrow> u32 \<Rightarrow> nat \<Rightarrow> u8 list \<times> nat" where
  "stream k a fd = (file_contents (kfs k) (unat (fd_inode (fds k a fd))), unat (file_pos (fds k a fd)))"

fun stream_read :: "nat \<Rightarrow> u8 list \<times> nat \<Rightarrow> u8 list \<times> u8 list \<times> nat" where
  "stream_read n (c, p) = (take n (drop p c), c, p + min n (length c - p))"

definition reg_open :: "kernel \<Rightarrow> u32 \<Rightarrow> nat \<Rightarrow> bool" where
  "reg_open k a fd \<longleftrightarrow> current k a \<and> fd < PCB_SIZE \<and> 2 \<le> fd \<and> reg_fd (fds k a fd) \<and>
     (let i = unat (fd_inode (fds k a fd)) in
      i < unat (Num_Inodes (kfs k)) \<and> inode_ok (kfs k) (inode_ptr (kfs k) i) \<and>
      unat (file_pos (fds k a fd)) \<le> unat (inode_length (inode_ptr (kfs k) i)) \<and>
      unat (inode_length (inode_ptr (kfs k) i)) < MAX_NUM_DATA_BLK * BLK_SIZE)"

lemma length_file_contents: "length (file_contents fs i) = unat (inode_length (inode_ptr fs i))"
  by (simp add: file_contents_def)

lemma sys_read_stream:
  assumes op: "reg_open k a fd" and n: "n < 2 ^ 32" "n \<le> length b"
    and sr: "stream_read n (stream k a fd) = (out, st)"
  shows "\<exists>k'. sys_read l irqs ticks (int fd) (Some b) (int n) k =
      Some (Returns (int (length out), Some (out @ drop (length out) b), k')) \<and>
    reg_open k' a fd \<and> stream k' a fd = st \<and> kfs k' = kfs k"
proof -
  let ?f = "fds k a fd"
  let ?i = "unat (fd_inode ?f)" and ?p = "unat (file_pos ?f)"
  let ?c = "file_contents (kfs k) ?i"
  let ?m = "min n (length ?c - ?p)"
  note o = op [unfolded reg_open_def Let_def]
  have out: "out = take n (drop ?p ?c)" "st = (?c, ?p + ?m)" and lo: "length out = ?m"
    using sr by (auto simp: stream_def)
  have w: "unat (word_of_int (int n) :: u32) = n" using n(1) by (simp add: unat_of_nat)
  have rd: "read_data (kfs k) (fd_inode ?f) (file_pos ?f) (Some b) (word_of_int (int n)) =
      Some (int ?m, Some (take ?m (drop ?p ?c) @ drop ?m b))"
    using o n w by (intro read_data_eq) (auto simp: length_file_contents)
  have same: "take ?m (drop ?p ?c) = out" unfolding out(1) by (simp add: min_def)
  have pos: "unat (file_pos ?f + word_of_int (int ?m)) = ?p + ?m" "?p + ?m \<le> length ?c"
  proof -
    have "?p \<le> length ?c" using o by (simp add: length_file_contents)
    then have le: "?p + ?m \<le> length ?c" by arith
    moreover have "length ?c < 2 ^ 32" using o by (simp add: length_file_contents)
    ultimately have "unat (word_of_int (int ?m) :: u32) = ?m" "?p + ?m < 2 ^ 32"
      by (simp_all add: unat_of_nat)
    then show "unat (file_pos ?f + word_of_int (int ?m)) = ?p + ?m"
      using unat_add_u32 [of "file_pos ?f" "word_of_int (int ?m)"] by simp
    show "?p + ?m \<le> length ?c" by (rule le)
  qed
  let ?k' = "set_fd a fd (?f\<lparr>file_pos := file_pos ?f + word_of_int (int ?m)\<rparr>) k"
  have "sys_read l irqs ticks (int fd) (Some b) (int n) k = Some (Returns (int ?m, Some (out @ drop ?m b), ?k'))"
    using sys_read_reg [of k a fd "int n" l irqs ticks b] o rd same by simp
  moreover have "stream ?k' a fd = st"
    using pos out(2) by (simp add: stream_def)
  moreover have "reg_open ?k' a fd"
    using o pos unfolding reg_open_def Let_def by (simp add: reg_fd_def length_file_contents)
  ultimately show ?thesis unfolding lo by auto
qed

text \<open>A program that reads \<open>m\<close> times \<open>n\<close> bytes and puts the pieces together.\<close>

fun read_pieces :: "call_locals \<Rightarrow> int \<Rightarrow> nat \<Rightarrow> nat \<Rightarrow> kernel \<Rightarrow> (u8 list \<times> kernel) option" where
  "read_pieces l fd n 0 k = Some ([], k)"
| "read_pieces l fd n (Suc m) k =
     (case sys_read l [] 0 fd (Some (replicate n 0)) (int n) k of
        Some (Returns (r, Some b, k)) \<Rightarrow> do {
          (rest, k) \<leftarrow> read_pieces l fd n m k;
          Some (take (nat r) b @ rest, k)
        }
      | _ \<Rightarrow> None)"

lemma read_pieces_eq:
  assumes "n < 2 ^ 32"
  shows "reg_open k a fd \<Longrightarrow> stream k a fd = (c, p) \<Longrightarrow>
    \<exists>k'. read_pieces l (int fd) n m k = Some (take (m * n) (drop p c), k') \<and> kfs k' = kfs k"
proof (induction m arbitrary: k p)
  case 0
  then show ?case by simp
next
  case (Suc m)
  let ?out = "take n (drop p c)" and ?q = "p + min n (length c - p)"
  obtain k1 where k1: "sys_read l [] 0 (int fd) (Some (replicate n 0)) (int n) k =
        Some (Returns (int (length ?out), Some (?out @ drop (length ?out) (replicate n 0)), k1))"
      "reg_open k1 a fd" "stream k1 a fd = (c, ?q)" "kfs k1 = kfs k"
    using sys_read_stream [OF Suc.prems(1) assms, of "replicate n 0" ?out "(c, ?q)" l "[]" 0] Suc.prems(2)
    by (fastforce simp del: length_take length_drop)
  obtain k2 where k2: "read_pieces l (int fd) n m k1 = Some (take (m * n) (drop ?q c), k2)" "kfs k2 = kfs k1"
    using Suc.IH [OF k1(2,3)] by auto
  have "?out @ take (m * n) (drop ?q c) = take (Suc m * n) (drop p c)"
  proof (cases "n \<le> length c - p")
    case True
    then have "drop ?q c = drop n (drop p c)" by (simp add: add.commute)
    then show ?thesis by (simp add: take_add)
  next
    case False
    then show ?thesis by simp
  qed
  moreover have t: "take (nat (int (length xs))) (xs @ ys) = xs" for xs ys :: "u8 list" by simp
  have "read_pieces l (int fd) n (Suc m) k = Some (?out @ take (m * n) (drop ?q c), k2)"
    by (simp only: read_pieces.simps k1(1) k2(1) t option.case waiting.case prod.case Option.bind.bind_lunit)
  ultimately show ?case using k1(4) k2(2) by simp
qed

section \<open>Properties\<close>

definition demo_call :: call_locals where
  "demo_call = \<lparr>l_filename = replicate 32 0, l_open_dentry = blank_dentry, l_inner_dentry = blank_dentry\<rparr>"

definition demo_machine :: kernel where
  "demo_machine = demo_kernel\<lparr>kfs := demo_fs, pcbs := (\<lambda>_. pcb_initialize demo_pcb)\<rparr>"

abbreviation "pcb0 \<equiv> 0x7FE000 :: u32"

lemma demo_machine_simps [simp]:
  "current demo_machine pcb0" "kfs demo_machine = demo_fs" "locals_ok demo_call"
proof -
  have "is_pcb pcb0" using is_pcb_addr [of 0] by (simp add: get_pcb_addr_def)
  then show "current demo_machine pcb0"
    by (simp add: current_def get_cur_pcb_addr_def demo_machine_def demo_kernel_def demo_tty_def arr_get_def
        get_pcb_addr_def)
qed (simp_all add: demo_machine_def demo_call_def locals_ok_def dentry_ok_def blank_dentry_def)

lemma demo_fds [simp]:
  "fds demo_machine a i = (if i = 0 then \<lparr>table_ptr = stdin_opt_table, fd_inode = 0, file_pos = 0, flg = 1, fd_name = replicate 32 0\<rparr>
     else if i = 1 then \<lparr>table_ptr = stdout_opt_table, fd_inode = 0, file_pos = 0, flg = 1, fd_name = replicate 32 0\<rparr>
     else \<lparr>table_ptr = NULL_opt_table, fd_inode = 0, file_pos = 0, flg = 0, fd_name = replicate 32 0\<rparr>)"
proof -
  show ?thesis
    by (simp add: demo_machine_def pcb_initialize_def pcb_init_loop_eq Let_def demo_pcb_def)
qed

lemma demo_free_fd [simp]: "free_fd (fds demo_machine a) 2 = Some 2"
  by (subst free_fd.simps) simp

text \<open>
  C8. Reading refines the stream: reading an open regular file in \<open>m\<close> pieces of \<open>n\<close> bytes gives the
  next \<open>m * n\<close> bytes of its contents, or all there are, and does not change the file system.
\<close>

theorem read_in_pieces:
  assumes "reg_open k a fd" "n < 2 ^ 32" "stream k a fd = (c, p)"
  shows "\<exists>k'. read_pieces l (int fd) n m k = Some (take (m * n) (drop p c), k') \<and> kfs k' = kfs k"
  using read_pieces_eq [OF assms(2,1,3)] .

definition demo_reading :: kernel where
  "demo_reading = set_fd pcb0 2 \<lparr>table_ptr = REG_FILE_opt_table, fd_inode = 0, file_pos = 1, flg = 1,
     fd_name = replicate 32 0\<rparr> demo_machine"

theorem read_in_pieces_witness:
  "\<exists>k'. read_pieces demo_call 2 3 2 demo_reading = Some (ascii ''BCDE'', k')"
proof -
  have ok: "inode_ok demo_fs (demo_inodes 0)" using fs_inv_inode_ok [OF demo_inv, of 0] by simp
  have "reg_open demo_reading pcb0 2"
    using ok by (simp add: reg_open_def demo_reading_def reg_fd_def demo_inodes_def)
  moreover have "stream demo_reading pcb0 2 = (ascii ''ABCDE'', 1)"
    by (simp add: stream_def demo_reading_def)
  ultimately show ?thesis
    using read_in_pieces [of demo_reading pcb0 2 3 "ascii ''ABCDE''" 1 demo_call 2] by auto
qed

text \<open>
  C24. Opening an existing file takes the lowest free descriptor, ready to read the file's inode from
  its start; closing it frees the descriptor, and the other descriptors never change.
\<close>

theorem open_then_close:
  assumes "current k a" "dir_ok (kfs k)" "locals_ok l"
    and "nul_terminated f" "clean_name f \<noteq> []" "length (clean_name f) < MAX_NAME_LEN"
    and "find_from (dir_names (kfs k)) (clean_name f) 0 = Some i"
    and "opt_table_of (file_type (dentry_array (kfs k) i)) = Some t"
    and "free_fd (fds k a) 2 = Some fd"
  shows "\<exists>k1 k2. sys_open l (Some f) k = Some (int fd, k1) \<and> sys_close (int fd) k1 = Some (0, k2) \<and>
    2 \<le> fd \<and> fd < PCB_SIZE \<and> flg (fds k a fd) \<noteq> FD_BUSY \<and> (\<forall>j. 2 \<le> j \<longrightarrow> j < fd \<longrightarrow> flg (fds k a j) = FD_BUSY) \<and>
    table_ptr (fds k1 a fd) = t \<and> flg (fds k1 a fd) = FD_BUSY \<and> file_pos (fds k1 a fd) = 0 \<and>
    fd_inode (fds k1 a fd) = inode_num (dentry_array (kfs k) i) \<and>
    flg (fds k2 a fd) = 0 \<and> kfs k2 = kfs k \<and>
    (\<forall>j. j \<noteq> fd \<longrightarrow> fds k1 a j = fds k a j \<and> fds k2 a j = fds k a j)"
proof -
  note fd = free_fd_SomeD [OF assms(9)]
  have t: "t \<noteq> NULL_opt_table" using assms(8) by (auto simp: opt_table_of_def split: if_splits)
  obtain rtc where o: "sys_open l (Some f) k = Some (int fd,
      (set_fd a fd ((fds k a fd)\<lparr>table_ptr := t, file_pos := 0, flg := FD_BUSY,
         fd_inode := inode_num (dentry_array (kfs k) i)\<rparr>) k)\<lparr>krtc := rtc\<rparr>)" (is "_ = Some (_, ?k1)")
    using sys_open_existing [OF assms] by blast
  have f1: "fds ?k1 a fd = (fds k a fd)\<lparr>table_ptr := t, file_pos := 0, flg := FD_BUSY,
         fd_inode := inode_num (dentry_array (kfs k) i)\<rparr>" "current ?k1 a"
    using assms(1) by (simp_all add: set_fd_def current_def get_cur_pcb_addr_def)
  have c: "sys_close (int fd) ?k1 = Some (0, set_fd a fd ((fds ?k1 a fd)\<lparr>flg := 0, file_pos := 0, fd_inode := 0\<rparr>) ?k1)"
    using sys_close_eq [OF f1(2), of "int fd"] fd f1(1) t by simp
  show ?thesis
    by (intro exI conjI; (rule o c)?) (use fd in \<open>simp_all add: set_fd_def\<close>)
qed

theorem open_then_close_witness:
  "\<exists>k1 k2. sys_open demo_call (Some (ascii ''frame'' @ [0])) demo_machine = Some (2, k1) \<and>
     sys_close 2 k1 = Some (0, k2) \<and> flg (fds k2 pcb0 2) = 0"
proof -
  have cn: "clean_name (ascii ''frame'' @ [0]) = ascii ''frame''" by (simp add: clean_name_def)
  have "find_from (dir_names demo_fs) (ascii ''frame'') 0 = Some 0" by (simp add: find_from_def)
  then show ?thesis
    using open_then_close [of demo_machine pcb0 demo_call "ascii ''frame'' @ [0]" 0 REG_FILE_opt_table 2] cn
    by (auto simp: opt_table_of_def demo_entry_def)
qed

text \<open>
  C17. Opening a name that does not exist and writing to the descriptor creates the file: the name is
  appended to the directory as a regular file, and the file's contents are the bytes written.
\<close>

theorem write_creates_file:
  assumes cur: "current k a" and ok: "dir_ok (kfs k)" "inode_stack_ok (kfs k)" "fs_inv (kfs k)" "locals_ok l"
    and f: "nul_terminated f" "clean_name f \<noteq> []" "length (clean_name f) < MAX_NAME_LEN"
    and new: "clean_name f \<notin> set (dir_names (kfs k))"
    and fd: "free_fd (fds k a) 2 = Some fd" and nm: "length (fd_name (fds k a fd)) = MAX_NAME_LEN"
    and room: "unat (Num_Dentry (kfs k)) < MAX_NUM_DENTRY" "free_inodes (kfs k) = xs @ [x]"
    and x: "unat x < unat (Num_Inodes (kfs k))"
    and n: "n \<le> length b" "n \<le> MAX_NUM_DATA_BLK * BLK_SIZE" "ceil_div n BLK_SIZE \<le> length (free_blocks (kfs k))"
  shows "\<exists>k1 k2. sys_open l (Some f) k = Some (int fd, k1) \<and> kfs k1 = kfs k \<and>
    sys_write l (int fd) (Some b) (int n) k1 = Some (int n, k2) \<and>
    dir_entries (kfs k2) = dir_entries (kfs k) @ [(clean_name f, REGULAR_FILE_TYPE, x)] \<and>
    file_contents (kfs k2) (unat x) = take n b \<and> fd_inode (fds k2 a fd) = x"
proof -
  note d = free_fd_SomeD [OF fd]
  have fd8: "fd < PCB_SIZE" "2 \<le> fd" using d by auto
  obtain nm where o: "sys_open l (Some f) k = Some (int fd,
      set_fd a fd ((fds k a fd)\<lparr>table_ptr := REG_FILE_opt_table, file_pos := 0, fd_inode := -1,
         flg := FD_BUSY, fd_name := nm\<rparr>) k)" (is "_ = Some (_, ?k1)")
    and nm: "nul_terminated nm" "cstr nm = clean_name f"
    using sys_open_missing [OF cur ok(1,4) f new fd nm] by blast
  have cn: "clean_name nm = clean_name f" unfolding clean_name_def nm(2) by (simp add: clean_name_def takeWhile_idem)
  obtain fs1 arr where c: "file_create (l_filename l) (l_open_dentry l) nm (kfs k) = Some (int (unat x), fs1)"
      "dir_entries fs1 = dir_entries (kfs k) @ [(clean_name f, REGULAR_FILE_TYPE, x)]"
      "fs1 = (kfs k)\<lparr>Free_inode_list_len := Free_inode_list_len (kfs k) - 1, dentry_array := arr,
              Num_Dentry := Num_Dentry (kfs k) + 1\<rparr>"
    using file_create_eq [OF ok(1) _ _ nm(1) _ room(1) ok(2) room(2), of "l_open_dentry l" "l_filename l"]
      ok(4) f(3) cn by (auto simp: locals_ok_def)
  have inv: "fs_inv fs1" and fb: "free_blocks fs1 = free_blocks (kfs k)" and ni: "Num_Inodes fs1 = Num_Inodes (kfs k)"
    using ok(3) unfolding c(3)
    by (simp_all add: fs_inv_def block_owners_def free_blocks_def used_blocks_def inode_block_list_def)
  let ?n = "word_of_int (int n) :: u32"
  have w: "unat ?n = n" using n(2) by (simp add: unat_of_nat)
  have x1: "x \<noteq> -1" 
  proof
    assume "x = -1"
    then have "x = 0xFFFFFFFF" by simp
    then have "unat x = 4294967295" by (simp only:) simp
    then show False using x u32_le_max [of "Num_Inodes (kfs k)"] by simp
  qed
  have prem: "unat x < unat (Num_Inodes fs1)" "unat ?n \<le> length b" "unat ?n \<le> MAX_NUM_DATA_BLK * BLK_SIZE"
      "write_end ?n \<le> length (free_blocks fs1)"
    unfolding w fb ni using x n by simp_all
  from write_read_roundtrip [OF inv prem(1,2,2,3,4)] obtain fs2
    where w2: "write_data fs1 x 0 (Some b) ?n = Some (int n, fs2)" "file_contents fs2 (unat x) = take n b"
    unfolding w by blast
  have "Num_Dentry fs2 = Num_Dentry fs1 \<and> dentry_array fs2 = dentry_array fs1"
    by (rule write_data_directory [OF inv prem(1) _ prem(2,3) _ w2(1)]) (use prem(4) in simp_all)
  then have de: "dir_entries fs2 = dir_entries fs1" by (intro dir_entries_cong) simp_all
  let ?f1 = "fds ?k1 a fd"
  let ?k2 = "(set_fd a fd (?f1\<lparr>fd_inode := x\<rparr>) ?k1)\<lparr>kfs := fs1\<rparr>"
  have reg: "reg_fd (fds ?k2 a fd)" "fd_inode (fds ?k2 a fd) = x" "file_pos (fds ?k2 a fd) = 0"
      "current ?k2 a" "kfs ?k2 = fs1"
    using x1 cur by (simp_all add: set_fd_def reg_fd_def current_def get_cur_pcb_addr_def)
  let ?k3 = "(set_fd a fd ((fds ?k2 a fd)\<lparr>file_pos := file_pos (fds ?k2 a fd) + 2 * word_of_int (int n)\<rparr>) ?k2)
      \<lparr>kfs := fs2\<rparr>"
  have "sys_write l (int fd) (Some b) (int n) ?k1 = sys_write l (int fd) (Some b) (int n) ?k2"
    using cur fd8 c(1) x1 by (intro sys_write_create) simp_all
  also have "\<dots> = Some (int n, ?k3)"
    by (rule sys_write_reg) (use reg fd8 w2(1) in simp_all)
  finally have w3: "sys_write l (int fd) (Some b) (int n) ?k1 = Some (int n, ?k3)" .
  show ?thesis
    by (intro exI conjI; (rule o w3)?) (use c(2) de w2(2) in \<open>simp_all add: set_fd_def\<close>)
qed

theorem write_creates_file_witness:
  "\<exists>k1 k2. sys_open demo_call (Some (ascii ''log'' @ [0])) demo_machine = Some (2, k1) \<and>
     sys_write demo_call 2 (Some (ascii ''hello'')) 5 k1 = Some (5, k2) \<and>
     dir_names (kfs k2) = [ascii ''frame'', ascii ''log''] \<and> file_contents (kfs k2) 1 = ascii ''hello''"
proof -
  have cn: "clean_name (ascii ''log'' @ [0]) = ascii ''log''" by (simp add: clean_name_def)
  from write_creates_file [of demo_machine pcb0 demo_call "ascii ''log'' @ [0]" 2 "[]" 1 5 "ascii ''hello''"]
  obtain k1 k2 where "sys_open demo_call (Some (ascii ''log'' @ [0])) demo_machine = Some (2, k1)"
     "sys_write demo_call 2 (Some (ascii ''hello'')) 5 k1 = Some (5, k2)"
     "dir_entries (kfs k2) = dir_entries demo_fs @ [(ascii ''log'', REGULAR_FILE_TYPE, 1)]"
     "file_contents (kfs k2) 1 = ascii ''hello''"
    using cn demo_dir_ok demo_inv by (auto simp: ceil_div_def)
  moreover from this(3) have "dir_names (kfs k2) = dir_names demo_fs @ [ascii ''log'']"
    by (simp add: dir_names_def)
  ultimately show ?thesis by auto
qed

text \<open>
  Defect: both \<open>write\<close> and \<open>file_write\<close> advance the position, so it moves by twice the number of
  bytes written. After a first write of \<open>n\<close> bytes the position lies beyond the end of the file, and a
  second write, whatever its contents, stores nothing and returns 0.
\<close>

theorem second_write_is_lost:
  assumes cur: "current k a" and fd: "fd < PCB_SIZE" "0 < fd" "reg_fd (fds k a fd)" "file_pos (fds k a fd) = 0"
    and inv: "fs_inv (kfs k)" and ino: "unat (fd_inode (fds k a fd)) < unat (Num_Inodes (kfs k))"
    and n: "0 < n" "n \<le> length b" "n \<le> MAX_NUM_DATA_BLK * BLK_SIZE" "ceil_div n BLK_SIZE \<le> length (free_blocks (kfs k))"
  shows "\<exists>k1. sys_write l (int fd) (Some b) (int n) k = Some (int n, k1) \<and>
    unat (file_pos (fds k1 a fd)) = 2 * n \<and>
    (\<forall>l' b' m. \<exists>k2. sys_write l' (int fd) (Some b') (int m) k1 = Some (0, k2) \<and> kfs k2 = kfs k1)"
proof -
  let ?n = "word_of_int (int n) :: u32" and ?x = "fd_inode (fds k a fd)"
  have w: "unat ?n = n" using n(3) by (simp add: unat_of_nat)
  have prem: "unat ?n \<le> length b" "unat ?n \<le> MAX_NUM_DATA_BLK * BLK_SIZE" "write_end ?n \<le> length (free_blocks (kfs k))"
    unfolding w using n by simp_all
  from write_data_keeps [OF inv ino _ prem(1,2), of 0] write_read_roundtrip [OF inv ino prem(1,1,2,3)] prem(3)
  obtain fs1 where w1: "write_data (kfs k) ?x 0 (Some b) ?n = Some (int n, fs1)"
    and len: "inode_length (inode_ptr fs1 (unat ?x)) = ?n" "Num_Inodes fs1 = Num_Inodes (kfs k)"
    unfolding w by auto
  let ?k1 = "(set_fd a fd ((fds k a fd)\<lparr>file_pos := file_pos (fds k a fd) + 2 * ?n\<rparr>) k)\<lparr>kfs := fs1\<rparr>"
  have s1: "sys_write l (int fd) (Some b) (int n) k = Some (int n, ?k1)"
    by (rule sys_write_reg) (use cur fd w1 in simp_all)
  have pos: "unat (2 * ?n) = 2 * n"
    using n(3) w by (simp add: unat_word_ariths)
  have f1: "fds ?k1 a fd = (fds k a fd)\<lparr>file_pos := 2 * ?n\<rparr>" "current ?k1 a"
    using cur fd(4) by (simp_all add: set_fd_def current_def get_cur_pcb_addr_def)
  have "\<exists>k2. sys_write l' (int fd) (Some b') (int m) ?k1 = Some (0, k2) \<and> kfs k2 = fs1" for l' b' m
  proof -
    have "?n < 2 * ?n" using n(1) pos w by (simp add: word_less_nat_alt)
    then have "write_data fs1 ?x (2 * ?n) (Some b') (word_of_int (int m)) = Some (0, fs1)"
      using ino len by (simp add: write_data_def buf_simps word_less_nat_alt not_less)
    then have "sys_write l' (int fd) (Some b') (int m) ?k1 =
        Some (0, (set_fd a fd ((fds ?k1 a fd)\<lparr>file_pos := file_pos (fds ?k1 a fd) + 2 * word_of_int 0\<rparr>) ?k1)\<lparr>kfs := fs1\<rparr>)"
      using f1 fd by (intro sys_write_reg) (simp_all add: reg_fd_def)
    then show ?thesis by simp
  qed
  then show ?thesis
    by (intro exI [of _ ?k1]) (use s1 f1 pos in simp_all)
qed

definition demo_writing :: kernel where
  "demo_writing = set_fd pcb0 2 \<lparr>table_ptr = REG_FILE_opt_table, fd_inode = 1, file_pos = 0, flg = 1,
     fd_name = replicate 32 0\<rparr> demo_machine"

theorem second_write_is_lost_witness:
  "\<exists>k1 k2. sys_write demo_call 2 (Some (ascii ''hello'')) 5 demo_writing = Some (5, k1) \<and>
     sys_write demo_call 2 (Some (ascii ''world'')) 5 k1 = Some (0, k2) \<and> kfs k2 = kfs k1"
proof -
  have "current demo_writing pcb0" "reg_fd (fds demo_writing pcb0 2)" "fd_inode (fds demo_writing pcb0 2) = 1"
      "file_pos (fds demo_writing pcb0 2) = 0" "kfs demo_writing = demo_fs"
    by (simp_all add: demo_writing_def reg_fd_def)
  with second_write_is_lost [of demo_writing pcb0 2 5 "ascii ''hello''" demo_call] demo_inv
  obtain k1 where "sys_write demo_call 2 (Some (ascii ''hello'')) 5 demo_writing = Some (5, k1)"
    and k1: "\<forall>l' b' m. \<exists>k2. sys_write l' 2 (Some b') (int m) k1 = Some (0, k2) \<and> kfs k2 = kfs k1"
    by (auto simp: ceil_div_def)
  moreover have "\<exists>k2. sys_write demo_call 2 (Some (ascii ''world'')) 5 k1 = Some (0, k2) \<and> kfs k2 = kfs k1"
    using k1 [THEN spec, THEN spec, THEN spec, of demo_call "ascii ''world''" 5] by simp
  ultimately show ?thesis by blast
qed

text \<open>
  C18. The descriptor table stays well formed under every call on descriptors, so that a descriptor in
  use always has its operations; in particular \<open>close\<close>, whatever its argument, never calls through a
  NULL pointer.
\<close>

theorem descriptors_stay_wellformed:
  assumes "current k a" "fds_ok (fds k a)"
  shows "(\<forall>l f r k'. sys_open l f k = Some (r, k') \<longrightarrow> fds_ok (fds k' a)) \<and>
    (\<forall>fd. \<exists>r k'. sys_close fd k = Some (r, k') \<and> fds_ok (fds k' a)) \<and>
    (\<forall>l irqs ticks fd buf n r b k'.
       sys_read l irqs ticks fd buf n k = Some (Returns (r, b, k')) \<longrightarrow> fds_ok (fds k' a)) \<and>
    (\<forall>l fd buf n r k'. sys_write l fd buf n k = Some (r, k') \<longrightarrow> fds_ok (fds k' a))"
  using sys_open_fds [OF _ assms] sys_close_fds [OF assms] sys_read_fds [OF _ assms] sys_write_fds [OF _ assms]
  by (intro conjI allI impI) simp_all

theorem descriptors_stay_wellformed_witness:
  "\<exists>r k'. sys_close 5 demo_machine = Some (r, k') \<and> fds_ok (fds k' pcb0)"
proof -
  have "fds_ok (fds demo_machine pcb0)" by (simp add: fds_ok_def)
  from descriptors_stay_wellformed [OF demo_machine_simps(1) this] show ?thesis by blast
qed

text \<open>Reading the directory \<open>m\<close> times, as a program that lists it does, with a buffer of 33 bytes.\<close>

fun list_names :: "dentry_t \<Rightarrow> int \<Rightarrow> nat \<Rightarrow> kernel \<Rightarrow> u8 list list option" where
  "list_names d0 fd 0 k = Some []"
| "list_names d0 fd (Suc m) k = do {
     (r, b, k) \<leftarrow> dir_read d0 fd (Some (replicate 33 0)) 32 k;
     b \<leftarrow> b;
     (if r = 0 then Some [] else do {
        rest \<leftarrow> list_names d0 fd m k;
        Some (cstr b # rest)
      })
   }"

text \<open>
  Listing the directory: reads from a fresh descriptor return the names of the entries one after
  the other, in the order of the directory and cut to 32 characters, and then 0.
\<close>

theorem directory_listing:
  assumes cur: "current k a" and fd: "fd < PCB_SIZE"
    and ok: "dir_ok (kfs k)" "dentry_ok d0" "length (dentry_reserved d0) = 24"
    and ty: "\<forall>i < unat (Num_Dentry (kfs k)). file_type (dentry_array (kfs k) i) \<le> 2"
    and nm: "[] \<notin> set (dir_names (kfs k))"
    and p: "unat (file_pos (fds k a fd)) \<le> unat (Num_Dentry (kfs k))"
    and m: "unat (Num_Dentry (kfs k)) < unat (file_pos (fds k a fd)) + m"
  shows "list_names d0 (int fd) m k = Some (drop (unat (file_pos (fds k a fd))) (dir_names (kfs k)))"
  using cur p m ok(1) ty nm
proof (induction m arbitrary: k)
  case 0
  then show ?case by simp
next
  case (Suc m)
  let ?p = "unat (file_pos (fds k a fd))" and ?N = "unat (Num_Dentry (kfs k))"
  show ?case
  proof (cases "?p < ?N")
    case True
    let ?nm = "entry_name (dentry_array (kfs k) ?p)"
    let ?k = "set_fd a fd ((fds k a fd)\<lparr>file_pos := file_pos (fds k a fd) + 1\<rparr>) k"
    have l32: "length ?nm \<le> 32" by (simp add: entry_name_def)
    have z: "0 \<notin> set ?nm" unfolding entry_name_def using cstr_nonzero in_set_takeD by metis
    have lt: "length ?nm < length (replicate 33 (0 :: u8))" using l32 unfolding length_replicate by linarith
    have d: "dir_read d0 (int fd) (Some (replicate 33 0)) 32 k =
        Some (int (length ?nm), Some (?nm @ 0 # drop (Suc (length ?nm)) (replicate 33 0)), ?k)"
      by (rule dir_read_entry [OF Suc.prems(1) fd Suc.prems(4) ok(2) refl True _ _ lt ok(3)])
        (use Suc.prems(5) True in simp_all)
    have ne: "?nm \<noteq> []"
      using Suc.prems(6) True nth_mem [of ?p "dir_names (kfs k)"] by (auto simp: nth_dir_names)
    have pos: "unat (file_pos (fds k a fd) + 1) = Suc ?p"
      using True unat_add_u32 [of "file_pos (fds k a fd)" 1] u32_le_max [of "Num_Dentry (kfs k)"] by simp
    have "list_names d0 (int fd) m ?k = Some (drop (Suc ?p) (dir_names (kfs k)))"
      using Suc.IH [of ?k] Suc.prems True pos by simp
    moreover have "cstr (?nm @ 0 # drop (Suc (length ?nm)) (replicate 33 0)) = ?nm"
      using z by (auto simp: cstr_def intro!: takeWhile_append2 [THEN trans])
    moreover have "drop ?p (dir_names (kfs k)) = ?nm # drop (Suc ?p) (dir_names (kfs k))"
      using True by (simp add: drop_Cons_nth nth_dir_names)
    ultimately show ?thesis using d ne by simp
  next
    case False
    then have "file_pos (fds k a fd) = Num_Dentry (kfs k)" using Suc.prems(2) by (simp add: word_unat_eq_iff)
    then have "dir_read d0 (int fd) (Some (replicate 33 0)) 32 k = Some (0, Some (replicate 33 0), k)"
      using Suc.prems(1) fd by (simp add: dir_read_def fd_simps get_Num_Dentry_def)
    then show ?thesis using False by simp
  qed
qed

theorem directory_listing_witness:
  "list_names blank_dentry 2 2 demo_machine = Some [ascii ''frame'']"
proof -
  have "dentry_ok blank_dentry" "length (dentry_reserved blank_dentry) = 24"
    by (simp_all add: dentry_ok_def blank_dentry_def)
  with directory_listing [of demo_machine pcb0 2 blank_dentry 2] show ?thesis
    by (simp add: demo_entry_def)
qed

end
