(* ===== verification/Kernel_Steps.thy ===== *)
theory Kernel_Steps
  imports Console_Frame Scheduler Syscall_Props
begin

text \<open>
  The kernel as a transition system: programs started and halted, calls on files, and timer
  interrupts, in any order. In every reachable state the terminal that runs has a process, and the
  scheduler reaches every terminal.
\<close>

section \<open>Operations that leave the processes alone\<close>

definition same_tree :: "kernel \<Rightarrow> kernel \<Rightarrow> bool" where
  "same_tree k k' \<longleftrightarrow>
     id_array k' = id_array k \<and> pcb_array k' = pcb_array k \<and> parent_array k' = parent_array k \<and>
     terminal_now (ktty k') = terminal_now (ktty k) \<and>
     (\<forall>a. pcb_id (pcbs k' a) = pcb_id (pcbs k a) \<and> parent_id (pcbs k' a) = parent_id (pcbs k a))"

lemma same_tree_refl [simp]: "same_tree k k"
  by (simp add: same_tree_def)

lemma same_tree_trans: "same_tree k1 k2 \<Longrightarrow> same_tree k2 k3 \<Longrightarrow> same_tree k1 k3"
  by (simp add: same_tree_def)

lemma same_tree_upd [simp]:
  "same_tree k (set_fd a fd f k') = same_tree k k'"
  "same_tree k (k'\<lparr>kfs := fs\<rparr>) = same_tree k k'"
  "same_tree k (k'\<lparr>krtc := r\<rparr>) = same_tree k k'"
  "same_tree k (k'\<lparr>kpic := p\<rparr>) = same_tree k k'"
  "same_tree (set_fd a fd f k) k' = same_tree k k'"
  "same_tree (k\<lparr>kfs := fs\<rparr>) k' = same_tree k k'"
  "same_tree (k\<lparr>krtc := r\<rparr>) k' = same_tree k k'"
  by (auto simp: same_tree_def set_fd_def split: if_splits)

lemma family_same_tree: "same_tree k k' \<Longrightarrow> family_ok k ps \<Longrightarrow> family_ok k' ps"
proof -
  assume s: "same_tree k k'" and f: "family_ok k ps"
  have "lineage k' qs" if "lineage k qs" for qs
    by (rule lineage_frame [OF that]) (use s in \<open>simp add: same_tree_def\<close>)
  then show ?thesis using s f unfolding family_ok_def slot_ok_def same_tree_def by fastforce
qed

lemma file_read_tree: "file_read fd buf n k = Some (r, b, k') \<Longrightarrow> same_tree k k'"
  by (auto simp: file_read_def split: option.splits bind_splits if_splits dest!: store_fd_SomeD)

lemma dir_read_tree: "dir_read d fd buf n k = Some (r, b, k') \<Longrightarrow> same_tree k k'"
  by (auto simp: dir_read_def Let_def split: option.splits bind_splits if_splits dest!: store_fd_SomeD)

lemma file_write_tree: "file_write fd buf n k = Some (r, k') \<Longrightarrow> same_tree k k'"
  by (auto simp: file_write_def split: option.splits bind_splits if_splits dest!: store_fd_SomeD)

lemma sys_close_tree: "sys_close fd k = Some (r, k') \<Longrightarrow> same_tree k k'"
  by (auto simp: sys_close_def split: bind_splits if_splits dest!: store_fd_SomeD)

lemma call_read_tree:
  "call_read l irqs ticks t fd buf n k = Some (Returns (r, b, k')) \<Longrightarrow>
   terminal_now (ktty k') = terminal_now (ktty k) \<Longrightarrow> same_tree k k'"
  by (auto simp: call_read_def split: file_opt_table_t.splits bind_splits waiting.splits
      dest: file_read_tree dir_read_tree) (simp_all add: same_tree_def)

lemma sys_read_tree:
  "sys_read l irqs ticks fd buf n k = Some (Returns (r, b, k')) \<Longrightarrow>
   terminal_now (ktty k') = terminal_now (ktty k) \<Longrightarrow> same_tree k k'"
  by (auto simp: sys_read_def split: bind_splits if_splits dest: sys_close_tree call_read_tree)

lemma call_write_tree: "call_write t fd buf n k = Some (r, k') \<Longrightarrow> same_tree k k'"
  by (auto simp: call_write_def split: file_opt_table_t.splits bind_splits
      dest!: file_write_tree terminal_write_turn) (simp_all add: same_tree_def same_turn_def)

lemma sys_write_tree: "sys_write l fd buf n k = Some (r, k') \<Longrightarrow> same_tree k k'"
  by (auto simp: sys_write_def create_missing_def write_busy_def split: bind_splits if_splits
      dest!: store_fd_SomeD call_write_tree)

lemma call_open_tree: "call_open l t f k = Some (r, k') \<Longrightarrow> same_tree k k'"
  by (auto simp: call_open_def split: file_opt_table_t.splits bind_splits prod.splits)

lemma sys_open_tree: "sys_open l f k = Some (r, k') \<Longrightarrow> same_tree k k'"
  by (auto simp: sys_open_def split: option.splits bind_splits if_splits
      dest!: store_fd_SomeD call_open_tree)

lemma sys_remove_tree: "sys_remove l f k = Some (r, k') \<Longrightarrow> same_tree k k'"
  by (auto simp: sys_remove_def split: bind_splits)

lemmas call_trees = sys_open_tree sys_close_tree sys_read_tree sys_write_tree sys_remove_tree

section \<open>The timer interrupt\<close>

definition next_live :: "(nat \<Rightarrow> int) \<Rightarrow> nat \<Rightarrow> nat" where
  "next_live pa t =
     (if pa ((t + 1) mod 3) \<noteq> -1 then (t + 1) mod 3
      else if pa ((t + 2) mod 3) \<noteq> -1 then (t + 2) mod 3 else t)"

lemma next_terminal_step:
  "pa t \<noteq> -1 \<Longrightarrow> next_terminal pa t = Some t"
  "pa t = -1 \<Longrightarrow> next_terminal pa t = next_terminal pa ((t + 1) mod 3)"
  by (subst next_terminal.simps, simp)+

lemma three_slots: "(t :: nat) < 3 \<longleftrightarrow> t = 0 \<or> t = 1 \<or> t = 2"
  by auto

lemma next_live_at:
  "next_live pa 0 = (if pa 1 \<noteq> -1 then 1 else if pa 2 \<noteq> -1 then 2 else 0)"
  "next_live pa 1 = (if pa 2 \<noteq> -1 then 2 else if pa 0 \<noteq> -1 then 0 else 1)"
  "next_live pa 2 = (if pa 0 \<noteq> -1 then 0 else if pa 1 \<noteq> -1 then 1 else 2)"
  by (simp_all add: next_live_def numeral_2_eq_2 [symmetric])

lemma next_terminal_eq:
  assumes "t < 3" "pa t \<noteq> -1"
  shows "next_terminal pa ((t + 1) mod 3) = Some (next_live pa t)"
proof -
  note step = next_terminal_step(2) [of pa "(t + 1) mod 3"] next_terminal_step(2) [of pa "(t + 2) mod 3"]
  have r: "((t + 1) mod 3 + 1) mod 3 = (t + 2) mod 3" "((t + 2) mod 3 + 1) mod 3 = t"
    using assms(1) unfolding three_slots by auto
  show ?thesis
  proof (cases "pa ((t + 1) mod 3) = -1")
    case True
    then have "next_terminal pa ((t + 1) mod 3) = next_terminal pa ((t + 2) mod 3)"
      using step(1) r(1) by (simp only:)
    moreover have "next_terminal pa ((t + 2) mod 3) = Some (if pa ((t + 2) mod 3) \<noteq> -1 then (t + 2) mod 3 else t)"
    proof (cases "pa ((t + 2) mod 3) = -1")
      case True
      then show ?thesis using step(2) r(2) next_terminal_step(1) [of pa t, OF assms(2)] by (simp only: if_False not_True_eq_False HOL.refl)
    next
      case False
      then show ?thesis using next_terminal_step(1) [of pa "(t + 2) mod 3", OF False] by (simp only: if_True not_False_eq_True)
    qed
    ultimately show ?thesis using True by (simp only: next_live_def if_False not_True_eq_False HOL.refl)
  next
    case False
    then show ?thesis using next_terminal_step(1) [of pa "(t + 1) mod 3", OF False]
      by (simp only: next_live_def if_True not_False_eq_True HOL.refl)
  qed
qed

lemma next_live_props:
  "t < 3 \<Longrightarrow> pa t \<noteq> -1 \<Longrightarrow> next_live pa t < 3 \<and> pa (next_live pa t) \<noteq> -1"
  by (simp add: next_live_def)

lemma next_live_fair:
  assumes "t < 3" "s < 3" "pa t \<noteq> -1" "pa s \<noteq> -1"
  shows "s = next_live pa t \<or> s = next_live pa (next_live pa t) \<or>
    s = next_live pa (next_live pa (next_live pa t))"
proof -
  have s: "s = 0 \<or> s = 1 \<or> s = 2" using assms(2) three_slots by blast
  have t: "t = 0 \<or> t = 1 \<or> t = 2" using assms(1) three_slots by blast
  have l: "pa s \<noteq> -1" "pa t \<noteq> -1" using assms by simp_all
  from t show ?thesis
  proof (elim disjE)
    assume "t = 0"
    with s l show ?thesis
      by (cases "pa 1 = -1"; cases "pa 2 = -1") (auto simp del: One_nat_def simp: next_live_at)
  next
    assume "t = 1"
    with s l show ?thesis
      by (cases "pa 0 = -1"; cases "pa 2 = -1") (auto simp del: One_nat_def simp: next_live_at)
  next
    assume "t = 2"
    with s l show ?thesis
      by (cases "pa 0 = -1"; cases "pa 1 = -1") (auto simp del: One_nat_def simp: next_live_at)
  qed
qed

text \<open>A terminal with a process is running.\<close>

definition running_ok :: "kernel \<Rightarrow> bool" where
  "running_ok k \<longleftrightarrow> proc_inv k \<and> 0 \<le> terminal_now (ktty k) \<and> running_slot k < 3 \<and>
     pcb_array k (running_slot k) \<noteq> -1"

lemma slot_process:
  assumes "family_ok k ps" "t < 3" "pcb_array k t \<noteq> -1"
  obtains p where "p \<in> set (ps t)" "pcb_array k t = int p" "p < MAX_PROCESS" "pcb_id (the_pcb k p) = of_nat p"
proof -
  have "lineage k (ps t)" "pcb_array k t = int (hd (ps t))"
    using family_slotD [OF assms(1,2)] assms(3) by (auto simp: slot_ok_def)
  moreover from this(1) have "hd (ps t) \<in> set (ps t)" by (cases "ps t") simp_all
  ultimately show ?thesis using that family_memberD [OF assms(1,2)] by blast
qed

lemma running_current: "running_ok k \<Longrightarrow> \<exists>a. current k a"
proof -
  assume r: "running_ok k"
  then obtain ps where f: "family_ok k ps" unfolding running_ok_def proc_inv_def by blast
  have t: "running_slot k < 3" "pcb_array k (running_slot k) \<noteq> -1" "0 \<le> terminal_now (ktty k)"
    using r by (simp_all add: running_ok_def)
  obtain p where "pcb_array k (running_slot k) = int p" "p < MAX_PROCESS"
    by (rule slot_process [OF f t(1,2)])
  then show ?thesis
    using cur_pcb_addr [OF t(3,1)] by (auto simp: current_def)
qed

lemma pit_handler_eff:
  assumes run: "running_ok k"
  defines "now \<equiv> next_live (pcb_array k) (running_slot k)"
  shows "\<exists>c k'. pit_handler esp ebp k = Some (c, k') \<and> running_ok k' \<and> running_slot k' = now \<and>
    pcb_array k' = pcb_array k \<and>
    (now = running_slot k \<longrightarrow> c = Keep_stack \<and> ktty k' = ktty k) \<and>
    (now \<noteq> running_slot k \<longrightarrow>
       (\<exists>p < MAX_PROCESS. pcb_array k now = int p \<and>
          c = Switch_stack (pcb_esp (the_pcb k p)) (pcb_ebp (the_pcb k p)) \<and>
          ktty k' = map_video now (map_program (of_nat p) ((ktty k)\<lparr>terminal_now := int now\<rparr>)) \<and>
          tss_esp0 k' = 0x7FFFFC - 0x2000 * of_nat p))"
proof -
  let ?t = "running_slot k"
  obtain ps where f: "family_ok k ps" using run unfolding running_ok_def proc_inv_def by blast
  have t: "?t < 3" "pcb_array k ?t \<noteq> -1" "0 \<le> terminal_now (ktty k)"
    using run by (simp_all add: running_ok_def)
  have n: "now < 3" "pcb_array k now \<noteq> -1" using next_live_props [of "?t" "pcb_array k"] t(1,2) by (simp_all add: now_def)
  obtain p where p: "p \<in> set (ps ?t)" "pcb_array k ?t = int p" "p < MAX_PROCESS" "pcb_id (the_pcb k p) = of_nat p"
    by (rule slot_process [OF f t(1,2)])
  obtain q where q: "q \<in> set (ps now)" "pcb_array k now = int q" "q < MAX_PROCESS" "pcb_id (the_pcb k q) = of_nat q"
    by (rule slot_process [OF f n])
  have pq: "p = q \<longleftrightarrow> now = ?t"
  proof
    assume "p = q"
    then show "now = ?t" using family_disjointD [OF f t(1) n(1)] p(1) q(1) by auto
  qed (use p q in simp)
  have nt: "next_terminal (pcb_array k) ((nat (terminal_now (ktty k)) + 1) mod 3) = Some now"
    using next_terminal_eq [of "?t" "pcb_array k", OF t(1,2)]
    unfolding now_def running_slot_def .
  have tree: "same_tree k (k'\<lparr>ktty := (ktty k')\<lparr>terminal_now := terminal_now (ktty k)\<rparr>\<rparr>) \<Longrightarrow>
      terminal_now (ktty k') = int now \<Longrightarrow> running_ok k' \<and> running_slot k' = now \<and> pcb_array k' = pcb_array k" for k'
  proof -
    assume s: "same_tree k (k'\<lparr>ktty := (ktty k')\<lparr>terminal_now := terminal_now (ktty k)\<rparr>\<rparr>)"
      and now: "terminal_now (ktty k') = int now"
    have pa: "pcb_array k' = pcb_array k" using s by (simp add: same_tree_def)
    have "family_ok (k'\<lparr>ktty := (ktty k')\<lparr>terminal_now := terminal_now (ktty k)\<rparr>\<rparr>) ps"
      by (rule family_same_tree [OF s f])
    moreover have "same_tree (k'\<lparr>ktty := (ktty k')\<lparr>terminal_now := terminal_now (ktty k)\<rparr>\<rparr>)
        (k'\<lparr>ktty := (ktty k')\<lparr>terminal_now := terminal_now (ktty k)\<rparr>\<rparr>)" by simp
    ultimately have "family_ok k' ps"
      by (auto simp: family_ok_def slot_ok_def intro: lineage_frame)
    then show ?thesis using now pa n by (auto simp: running_ok_def proc_inv_def running_slot_def)
  qed
  let ?k1 = "k\<lparr>kpic := send_eoi 0 (kpic k), ktty := (ktty k)\<lparr>terminal_now := int now\<rparr>\<rparr>"
  have cur: "get_cur_pcb_addr k = Some (get_pcb_addr (of_nat p))"
    "get_cur_pcb_addr (k\<lparr>kpic := send_eoi 0 (kpic k)\<rparr>) = Some (get_pcb_addr (of_nat p))"
    using cur_pcb_addr [OF t(3,1) p(2)] by (simp_all add: get_cur_pcb_addr_def)
  show ?thesis
  proof (cases "now = ?t")
    case True
    then have "pit_handler esp ebp k = Some (Keep_stack, ?k1)"
      using cur nt p q pq by (simp add: pit_handler_def Let_def load_pcb_def)
    moreover have "running_ok ?k1 \<and> running_slot ?k1 = now \<and> pcb_array ?k1 = pcb_array k"
      by (rule tree) (simp_all add: same_tree_def)
    moreover have "ktty ?k1 = ktty k" using True t(3) by (simp add: running_slot_def)
    ultimately show ?thesis using True by auto
  next
    case False
    then have ne: "p \<noteq> q" "q \<noteq> p" using pq by auto
    let ?k2 = "?k1\<lparr>ktty := map_video now (map_program (of_nat q) (ktty ?k1)),
        tss_esp0 := PROGRAM_START_ADDR - ONE_SAPCE - STACK_8KB * of_nat q, tss_ss0 := KERNEL_DS,
        pcbs := (pcbs k)(get_pcb_addr (of_nat p) := (the_pcb k p)\<lparr>pcb_esp := esp, pcb_ebp := ebp\<rparr>)\<rparr>"
    have "pit_handler esp ebp k = Some (Switch_stack (pcb_esp (the_pcb k q)) (pcb_ebp (the_pcb k q)), ?k2)"
      using cur nt p q ne by (simp add: pit_handler_def Let_def load_pcb_def store_pcb_def)
    moreover have "running_ok ?k2 \<and> running_slot ?k2 = now \<and> pcb_array ?k2 = pcb_array k"
      by (rule tree) (auto simp: same_tree_def map_video_def map_program_def Let_def)
    ultimately show ?thesis using q False by auto
  qed
qed

section \<open>Steps\<close>

text \<open>
  A read that waits is interrupted, and its process goes on when the timer has come back to its
  terminal.
\<close>

inductive kernel_step :: "kernel \<Rightarrow> kernel \<Rightarrow> bool" where
  Execute: "execute l command k = Some (c, k') \<Longrightarrow> kernel_step k k'"
| Halt: "halt status k = Some (c, k') \<Longrightarrow> kernel_step k k'"
| Timer: "pit_handler esp ebp k = Some (c, k') \<Longrightarrow> kernel_step k k'"
| Open: "sys_open l f k = Some (r, k') \<Longrightarrow> kernel_step k k'"
| Close: "sys_close fd k = Some (r, k') \<Longrightarrow> kernel_step k k'"
| Read: "sys_read l irqs ticks fd buf n k = Some (Returns (r, b, k')) \<Longrightarrow>
    terminal_now (ktty k') = terminal_now (ktty k) \<Longrightarrow> kernel_step k k'"
| Write: "sys_write l fd buf n k = Some (r, k') \<Longrightarrow> kernel_step k k'"
| Remove: "sys_remove l f k = Some (r, k') \<Longrightarrow> kernel_step k k'"
| Display: "terminal_shift l esp ebp tid k = Some (c, k') \<Longrightarrow> kernel_step k k'"

inductive reachable :: "kernel \<Rightarrow> kernel \<Rightarrow> bool" for k where
  reach_refl: "reachable k k"
| reach_step: "reachable k k' \<Longrightarrow> kernel_step k' k'' \<Longrightarrow> reachable k k''"

inductive_cases reachableE: "reachable k k'"
inductive_simps kernel_step_iff: "kernel_step k k'"

lemma running_same_tree: "running_ok k \<Longrightarrow> same_tree k k' \<Longrightarrow> running_ok k'"
  using family_same_tree [of k k']
  by (auto simp: running_ok_def proc_inv_def running_slot_def same_tree_def)

text \<open>
  \<open>execute\<close> keeps the process invariant and the turn. After \<open>terminal_shift\<close> has given the turn to a
  terminal without a process, success gives that terminal one.
\<close>

lemma execute_turn:
  assumes "proc_inv k" and "execute l command k = Some (c, k')"
  shows "proc_inv k' \<and> same_turn (ktty k) (ktty k') \<and>
    (\<forall>t. pcb_array k t \<noteq> -1 \<longrightarrow> pcb_array k' t \<noteq> -1) \<and>
    (c \<noteq> Return (-1) \<longrightarrow> display_slot k < 3 \<and> pcb_array k' (display_slot k) \<noteq> -1)"
proof -
  obtain ps where f: "family_ok k ps" using assms(1) unfolding proc_inv_def by blast
  from execute_cases [OF assms(2)] show ?thesis
  proof
    assume "c = Return (-1) \<and> k' = k"
    then show ?thesis using assms(1) by simp
  next
    assume "\<exists>eip. c = Iret_user eip 0x83FFFFC \<and> eip = eip_user (the_pcb k' (free_id (id_array k) 0)) \<and>
       entered l (free_id (id_array k) 0) k k'"
    then have ent: "entered l (free_id (id_array k) 0) k k'" by blast
    from execute_extends [OF f ent] have "proc_inv k'" unfolding proc_inv_def by blast
    then show ?thesis using ent by (auto simp: entered_def same_turn_def map_program_def Let_def)
  qed
qed

lemma running_execute:
  "running_ok k \<Longrightarrow> execute l command k = Some (c, k') \<Longrightarrow> running_ok k'"
  using execute_turn [of k l command c k'] by (simp add: running_ok_def running_slot_def same_turn_def)

lemma running_halt:
  assumes r: "running_ok k" and h: "halt status k = Some (c, k')"
  shows "running_ok k'"
proof -
  obtain ps where f: "family_ok k ps" using r unfolding running_ok_def proc_inv_def by blast
  have t: "0 \<le> terminal_now (ktty k)" "running_slot k < 3" "pcb_array k (running_slot k) \<noteq> -1"
    using r by (simp_all add: running_ok_def)
  from halt_shrinks [OF f t h] show ?thesis
  proof
    assume "\<exists>p q qs. ps (running_slot k) = p # q # qs \<and> left p q k k' \<and>
       c = Jump_return (esp_ret (the_pcb k p)) (ebp_ret (the_pcb k p)) \<and>
       family_ok k' (ps(running_slot k := q # qs))"
    then obtain p q qs where l: "left p q k k'" and f': "family_ok k' (ps(running_slot k := q # qs))" by blast
    have "terminal_now (ktty k') = terminal_now (ktty k)" "pcb_array k' (running_slot k) = int q"
      using l by (simp_all add: left_def halt_paging_def Let_def)
    then show ?thesis using t f' by (auto simp: running_ok_def running_slot_def proc_inv_def)
  qed (use r in auto)
qed

lemma running_tty:
  "running_ok k \<Longrightarrow> same_turn (ktty k) t \<Longrightarrow> running_ok (k\<lparr>ktty := t\<rparr>)"
  by (erule running_same_tree) (simp add: same_tree_def same_turn_def)

lemma proc_inv_same_tree: "proc_inv k \<Longrightarrow> same_tree k k' \<Longrightarrow> proc_inv k'"
  using family_same_tree unfolding proc_inv_def by blast

lemma proc_inv_tty: "proc_inv (k\<lparr>ktty := t\<rparr>) = proc_inv k"
proof -
  have "lineage (k\<lparr>ktty := t\<rparr>) qs = lineage k qs" for qs
    by (induction k qs rule: lineage.induct) simp_all
  then show ?thesis by (simp add: proc_inv_def family_ok_def slot_ok_def)
qed

text \<open>
  Displaying another terminal: when its shell starts, the turn passes to it, and when the shell does
  not start, the turn goes back to the terminal that had it.
\<close>

lemma start_shell_steps:
  assumes "pcb_array k slot = -1" and "show_or_start l esp ebp slot now shown k = Some (c, k')"
  obtains t a cur k1 kb c1 k2 where "clear (ktty k) = Some t"
    "get_cur_pcb_addr (k\<lparr>ktty := t\<rparr>) = Some a" "load_pcb (k\<lparr>ktty := t\<rparr>) a = Some cur"
    "store_pcb a (cur\<lparr>pcb_esp := esp, pcb_ebp := ebp\<rparr>) (k\<lparr>ktty := t\<rparr>) = Some k1"
    "execute l shell (k1\<lparr>ktty := (ktty k1)\<lparr>
        terminal_now := sint (cur_display_terminal_id (ktty k1) - 1), kb_buf_idx := 0, keyboard_buffer := kb\<rparr>\<rparr>)
      = Some (c1, k2)"
    "if c1 = Return (-1)
     then c = Return 0 \<and> (\<exists>t. terminal_load (sint shown) ((ktty k2)\<lparr>terminal_now := now,
            cur_display_terminal_id := shown\<rparr>) = Some t \<and> k' = k2\<lparr>ktty := t\<rparr>)
     else c = c1 \<and> k' = k2"
  using assms by (auto simp: show_or_start_def Let_def split: bind_splits if_splits)

lemma running_show_or_start:
  assumes r: "running_ok k"
    and s: "cur_display_terminal_id (ktty k) = of_nat (Suc slot)" "slot = 1 \<or> slot = 2"
    and e: "show_or_start l esp ebp slot (terminal_now (ktty k)) shown k = Some (c, k')"
  shows "running_ok k'"
proof (cases "pcb_array k slot = -1")
  case False
  then obtain t where "terminal_load (sint (cur_display_terminal_id (ktty k))) (ktty k) = Some t"
      "k' = k\<lparr>ktty := t\<rparr>"
    using e by (auto simp: show_or_start_def split: bind_splits)
  then show ?thesis using running_tty [OF r] terminal_load_turn by blast
next
  case True
  obtain t a cur k1 kb c1 k2 where t: "clear (ktty k) = Some t"
      and a: "get_cur_pcb_addr (k\<lparr>ktty := t\<rparr>) = Some a" "load_pcb (k\<lparr>ktty := t\<rparr>) a = Some cur"
      and k1: "store_pcb a (cur\<lparr>pcb_esp := esp, pcb_ebp := ebp\<rparr>) (k\<lparr>ktty := t\<rparr>) = Some k1"
      and x: "execute l shell (k1\<lparr>ktty := (ktty k1)\<lparr>
            terminal_now := sint (cur_display_terminal_id (ktty k1) - 1), kb_buf_idx := 0, keyboard_buffer := kb\<rparr>\<rparr>)
          = Some (c1, k2)"
      and fin: "if c1 = Return (-1)
          then c = Return 0 \<and> (\<exists>t. terminal_load (sint shown) ((ktty k2)\<lparr>terminal_now := terminal_now (ktty k),
                 cur_display_terminal_id := shown\<rparr>) = Some t \<and> k' = k2\<lparr>ktty := t\<rparr>)
          else c = c1 \<and> k' = k2"
    by (rule start_shell_steps [OF True e])
  let ?k2 = "k1\<lparr>ktty := (ktty k1)\<lparr>terminal_now := sint (cur_display_terminal_id (ktty k1) - 1),
    kb_buf_idx := 0, keyboard_buffer := kb\<rparr>\<rparr>"
  have turn: "same_turn (ktty k) t" using clear_turn [OF t] .
  have tree: "same_tree k k1"
    using k1 a turn by (auto simp: store_pcb_def load_pcb_def same_tree_def same_turn_def split: if_splits)
  have k1t: "ktty k1 = t" using k1 by (auto simp: store_pcb_def split: if_splits)
  have inv: "proc_inv k1" using r proc_inv_same_tree [OF _ tree] by (simp add: running_ok_def)
  then have "proc_inv ?k2" by (simp add: proc_inv_tty)
  from execute_turn [OF this x] have inv2: "proc_inv k2" and turn2: "same_turn (ktty ?k2) (ktty k2)"
    and keep: "\<forall>t. pcb_array ?k2 t \<noteq> -1 \<longrightarrow> pcb_array k2 t \<noteq> -1"
    and started: "c1 \<noteq> Return (-1) \<longrightarrow> display_slot ?k2 < 3 \<and> pcb_array k2 (display_slot ?k2) \<noteq> -1"
    by blast+
  show ?thesis
  proof (cases "c1 = Return (-1)")
    case True
    then obtain t' where t': "terminal_load (sint shown) ((ktty k2)\<lparr>terminal_now := terminal_now (ktty k),
        cur_display_terminal_id := shown\<rparr>) = Some t'" "k' = k2\<lparr>ktty := t'\<rparr>"
      using fin by auto
    have "terminal_now t' = terminal_now (ktty k)"
      using terminal_load_turn [OF t'(1)] by (simp add: same_turn_def)
    then show ?thesis
      using r inv2 keep t'(2) tree by (simp add: running_ok_def running_slot_def proc_inv_tty same_tree_def)
  next
    case False
    have now: "display_slot ?k2 = slot" "sint (cur_display_terminal_id (ktty k1) - 1) = int slot"
      using s turn k1t by (auto simp: display_slot_def same_turn_def)
    have "terminal_now (ktty k2) = int slot" using turn2 now by (simp add: same_turn_def)
    then show ?thesis
      using False fin started inv2 now by (simp add: running_ok_def running_slot_def)
  qed
qed

lemma running_shift:
  assumes r: "running_ok k" and e: "terminal_shift l esp ebp tid k = Some (c, k')"
  shows "running_ok k'"
proof (cases "word_of_int tid = cur_display_terminal_id (ktty k)")
  case True
  then show ?thesis using e r by (simp add: terminal_shift_def)
next
  case False
  have fin: "running_ok (k\<lparr>ktty := (ktty k)\<lparr>page_table_vid := pt\<rparr>\<rparr>)" if "running_ok k" for k pt
    using running_tty [OF that, of "(ktty k)\<lparr>page_table_vid := pt\<rparr>"] by simp
  obtain t where t: "terminal_store (sint (cur_display_terminal_id (ktty k)))
      ((ktty k)\<lparr>page_table_vid := (page_table_vid (ktty k))(VIDEO_FRAME := video_entry VIDEO_MEM_BASE)\<rparr>) = Some t"
    using e False by (auto simp: terminal_shift_def Let_def split: bind_splits)
  let ?k = "k\<lparr>ktty := t\<lparr>cur_display_terminal_id := word_of_int tid\<rparr>\<rparr>"
  have "terminal_now t = terminal_now (ktty k)"
    using terminal_store_turn [OF t] by (simp add: same_turn_def)
  then have rk: "running_ok ?k" and now: "terminal_now (ktty ?k) = terminal_now (ktty k)"
    using running_same_tree [OF r, of ?k] by (simp_all add: same_tree_def)
  obtain c1 k1 where c1: "show_terminal l esp ebp (terminal_now (ktty k)) (cur_display_terminal_id (ktty k)) ?k =
        Some (c1, k1)"
      and k': "k' = k1 \<or> k' = k1\<lparr>ktty := map_background (ktty k1)\<rparr>"
    using e False t by (auto simp: terminal_shift_def Let_def split: bind_splits control.splits)
  note start = running_show_or_start [OF rk, unfolded now]
  have load: "same_turn (t\<lparr>cur_display_terminal_id := word_of_int tid\<rparr>) x \<Longrightarrow> running_ok (k\<lparr>ktty := x\<rparr>)" for x
    using running_tty [OF rk, of x] by simp
  have "running_ok k1"
    using c1 [unfolded show_terminal_def] rk start [of 1] start [of 2]
    by (auto split: if_splits bind_splits intro!: load dest!: terminal_load_turn)
  then show ?thesis using k' fin by (auto simp: map_background_def)
qed

lemma running_step: "kernel_step k k' \<Longrightarrow> running_ok k \<Longrightarrow> running_ok k'"
proof (induction rule: kernel_step.induct)
  case (Timer esp ebp k c k')
  then show ?case using pit_handler_eff [of k esp ebp] by auto
qed (blast intro: running_execute running_halt running_shift running_same_tree dest: call_trees)+

lemma reachable_running: "reachable k k' \<Longrightarrow> running_ok k \<Longrightarrow> running_ok k'"
  by (induction rule: reachable.induct) (blast intro: running_step)+

text \<open>The state in which \<open>entry\<close> starts the first shell.\<close>

definition boot_state :: "kernel \<Rightarrow> bool" where
  "boot_state k \<longleftrightarrow> terminal_now (ktty k) = 0 \<and> cur_display_terminal_id (ktty k) = 1 \<and>
     id_array k = (\<lambda>_. 0) \<and> pcb_array k = (\<lambda>_. -1)(0 := 0) \<and> parent_array k = (\<lambda>_. -1)(0 := 0)"

lemma boot_running:
  assumes b: "boot_state k" and e: "execute l command k = Some (Iret_user eip esp, k')"
  shows "running_ok k'"
proof -
  have z: "free_id (id_array k) 0 = 0" using b by (subst free_id.simps) (simp add: boot_state_def)
  then have ent: "entered l 0 k k'" using execute_cases [OF e] by auto
  have d: "display_slot k = 0" using b by (simp add: boot_state_def display_slot_def)
  have "parent_id (the_pcb k' 0) = 0" "pcb_id (the_pcb k' 0) = 0"
    using ent b d by (simp_all add: entered_def parent_of_new_def boot_state_def)
  then have "family_ok k' (\<lambda>t. if t = 0 then [0] else [])"
    using ent b d by (auto simp: family_ok_def slot_ok_def entered_def boot_state_def)
  then show ?thesis
    using ent b d by (auto simp: running_ok_def proc_inv_def running_slot_def entered_def boot_state_def
        map_program_def Let_def)
qed

section \<open>Successive timer interrupts\<close>

fun run_ticks :: "(u32 \<times> u32) list \<Rightarrow> kernel \<Rightarrow> kernel option" where
  "run_ticks [] k = Some k"
| "run_ticks ((esp, ebp) # regs) k = do { (_, k) \<leftarrow> pit_handler esp ebp k; run_ticks regs k }"

lemma run_ticks_eff:
  "running_ok k \<Longrightarrow> \<exists>k'. run_ticks regs k = Some k' \<and> running_ok k' \<and> pcb_array k' = pcb_array k \<and>
     running_slot k' = (next_live (pcb_array k) ^^ length regs) (running_slot k)"
proof (induction regs arbitrary: k)
  case (Cons r regs)
  obtain esp ebp where r: "r = (esp, ebp)" by (cases r)
  obtain c k1 where "pit_handler esp ebp k = Some (c, k1)" "running_ok k1" "pcb_array k1 = pcb_array k"
      "running_slot k1 = next_live (pcb_array k) (running_slot k)"
    using pit_handler_eff [OF Cons.prems, of esp ebp] by (elim exE conjE) blast
  with Cons.IH [of k1] r show ?case by (simp add: funpow_swap1)
qed simp

lemma run_ticks_alone:
  assumes "running_ok k" "next_live (pcb_array k) (running_slot k) = running_slot k" "run_ticks regs k = Some k'"
  shows "ktty k' = ktty k"
  using assms
proof (induction regs arbitrary: k)
  case (Cons r regs)
  obtain esp ebp where r: "r = (esp, ebp)" by (cases r)
  obtain c k1 where "pit_handler esp ebp k = Some (c, k1)" "running_ok k1" "pcb_array k1 = pcb_array k"
      "running_slot k1 = running_slot k" "ktty k1 = ktty k"
    using pit_handler_eff [OF Cons.prems(1), of esp ebp] Cons.prems(2) by (elim exE conjE) simp
  with Cons r show ?case by simp
qed simp

end
