(* ===== verification/Kernel_Props.thy ===== *)
theory Kernel_Props
  imports Kernel_Steps
begin

text \<open>
  What holds of the kernel as a whole, whatever order its operations run in: a process is always
  running, each timer interrupt hands the machine to the next terminal, every terminal gets its turn,
  and the case in which a displayed terminal draws out of sight.
\<close>

definition demo_cold :: kernel where
  "demo_cold = demo_kernel\<lparr>id_array := (\<lambda>_. 0)\<rparr>"

lemma demo_cold_run:
  "\<exists>k. execute demo_locals (ascii ''s'' @ [0]) demo_cold = Some (Iret_user 0 0x83FFFFC, k)"
proof -
  have "map_option fst (execute demo_locals (ascii ''s'' @ [0]) demo_cold) = Some (Iret_user 0 0x83FFFFC)"
    by code_simp
  then show ?thesis by auto
qed

lemma demo_cold_state: "boot_state demo_cold"
  by (simp add: boot_state_def demo_cold_def demo_kernel_def demo_tty_def)

definition demo_full :: kernel where
  "demo_full = demo_kernel\<lparr>id_array := (\<lambda>_. 1)\<rparr>"

lemma demo_full_shell: "execute demo_locals shell (demo_full\<lparr>pcbs := p, ktty := t\<rparr>) =
    Some (Return (-1), demo_full\<lparr>pcbs := p, ktty := t\<rparr>)"
proof -
  have "map_option fst (execute demo_locals shell (demo_full\<lparr>pcbs := p, ktty := t\<rparr>)) = Some (Return (-1))"
    by code_simp
  then obtain k where k: "execute demo_locals shell (demo_full\<lparr>pcbs := p, ktty := t\<rparr>) = Some (Return (-1), k)"
    by auto
  from execute_cases [OF this] k show ?thesis by auto
qed

lemma clear_loop_ok: "video_mapped t \<Longrightarrow> i \<le> 2000 \<Longrightarrow> \<exists>t'. clear_loop t i = Some t' \<and> drawn t t'"
proof (induction "2000 - i" arbitrary: t i)
  case 0
  then show ?case by (subst clear_loop.simps) simp
next
  case (Suc n)
  obtain t1 where t1: "vput t (2 * int i) 0x20 = Some t1" "drawn t t1"
    using Suc.hyps(2) Suc.prems vput_eq [of t "2 * int i" "0x20"] vput_drawn by fastforce
  then obtain t2 where t2: "put_attrib t1 (cur_display_terminal_id t1) (2 * int i) = Some t2" "drawn t1 t2"
    using Suc.hyps(2) Suc.prems put_attrib_ok [of t1 "2 * int i"] drawn_sel(4) [OF t1(2)] by fastforce
  have d: "drawn t t2" by (rule drawn_trans [OF t1(2) t2(2)])
  then obtain t3 where "clear_loop t2 (Suc i) = Some t3" "drawn t2 t3"
    using Suc.hyps Suc.prems drawn_sel(4) [OF d] by (metis Suc_diff_Suc Suc_leI diff_Suc_Suc old.nat.inject zero_less_Suc zero_less_diff)
  then show ?case
    using t1(1) t2(1) Suc.hyps(2) drawn_trans [OF d] by (subst clear_loop.simps) auto
qed

lemma clear_ok: "video_mapped t \<Longrightarrow> \<exists>v. clear t = Some (t\<lparr>vram := v, screen_x := 0, screen_y := 0\<rparr>)"
  using clear_loop_ok [of t 0] by (auto simp: clear_def drawn_def)

lemma terminal_store_ok:
  "frame_mapped t VIDEO_FRAME \<Longrightarrow> frame_mapped t (VIDEO_FRAME + nat n) \<Longrightarrow>
   \<exists>a v. terminal_store n t = Some (t\<lparr>terminals := a, vram := v\<rparr>)"
  by (auto simp: terminal_store_def Let_def copy_page_def frame_mapped_def frame_at_def)

lemma terminal_load_ok:
  "frame_mapped t VIDEO_FRAME \<Longrightarrow> frame_mapped t (VIDEO_FRAME + nat n) \<Longrightarrow> \<exists>t'. terminal_load n t = Some t'"
  by (simp add: terminal_load_def Let_def copy_page_def change_cursor_x_def change_cursor_y_def
      new_cursor_def outb_csr_index_def outb_csr_data_def frame_mapped_def frame_at_def)

lemma demo_full_shift: "\<exists>k. terminal_shift demo_locals 0 0 2 demo_full = Some (Return 0, k)"
proof -
  let ?t0 = "demo_tty\<lparr>page_table_vid := (page_table_vid demo_tty)(VIDEO_FRAME := video_entry VIDEO_MEM_BASE)\<rparr>"
  have fm: "frame_mapped t v" if "page_table_vid t = page_table_vid ?t0" for t v
    using that by (simp add: frame_mapped_def frame_at_def demo_tty_def video_entry_def)
  have tty: "ktty demo_full = demo_tty" by (simp add: demo_full_def demo_kernel_def)
  have d: "cur_display_terminal_id demo_tty = 1" "terminal_now demo_tty = 0" "length (keyboard_buffer demo_tty) = 128"
    by (simp_all add: demo_tty_def)
  have pa: "pcb_array demo_full 0 = 0" "pcb_array demo_full (Suc 0) = -1"
    by (simp_all add: demo_full_def demo_kernel_def)
  obtain a v where t: "terminal_store 1 ?t0 = Some (?t0\<lparr>terminals := a, vram := v\<rparr>)"
    using terminal_store_ok [of ?t0 1, OF fm fm] by auto
  let ?t1 = "?t0\<lparr>terminals := a, vram := v\<rparr>\<lparr>cur_display_terminal_id := 2\<rparr>"
  have "video_mapped ?t1"
    using fm [of ?t1 VIDEO_FRAME] by (simp add: video_mapped_def frame_mapped_def video_frame_def frame_at_def)
  then obtain w where w: "clear ?t1 = Some (?t1\<lparr>vram := w, screen_x := 0, screen_y := 0\<rparr>)"
    using clear_ok by blast
  have ip: "is_pcb (get_pcb_addr 0)" using is_pcb_addr [of 0] by simp
  have cur: "get_cur_pcb_addr (demo_full\<lparr>ktty := t\<rparr>) = Some (get_pcb_addr 0)" if "terminal_now t = 0" for t
    using that pa by (simp add: get_cur_pcb_addr_def arr_get_def)
  have st: "store_pcb (get_pcb_addr 0) q (demo_full\<lparr>ktty := t\<rparr>) =
      Some (demo_full\<lparr>ktty := t, pcbs := (pcbs demo_full)(get_pcb_addr 0 := q)\<rparr>)" for q t
    by (simp add: store_pcb_def ip)
  have ld: "load_pcb (demo_full\<lparr>ktty := t\<rparr>) (get_pcb_addr 0) = Some (pcbs demo_full (get_pcb_addr 0))" for t
    by (simp add: load_pcb_def ip)
  have kb: "buf_put (keyboard_buffer demo_tty) 0 0 = Some ((keyboard_buffer demo_tty)[0 := 0])"
    using d by (simp add: buf_put_def)
  let ?t2 = "?t0\<lparr>terminals := a, vram := w, screen_x := 0, screen_y := 0, kb_buf_idx := 0,
      keyboard_buffer := (keyboard_buffer demo_tty)[0 := 0], terminal_now := 0, cur_display_terminal_id := 1\<rparr>"
  have "\<exists>t'. terminal_load 1 ?t2 = Some t'"
    by (rule terminal_load_ok) (rule fm, simp)+
  then obtain t' where ld': "terminal_load 1 ?t2 = Some t'" by blast
  show ?thesis
    unfolding terminal_shift_def Let_def tty d
    using ld' by (simp add: t show_terminal_def show_or_start_def pa w cur ld st d kb demo_full_shell)
qed

lemma demo_full_running: "running_ok demo_full" "running_slot demo_full = 0"
proof -
  have "family_ok demo_full (\<lambda>t. if t = 0 then [0] else [])"
    by (auto simp: family_ok_def slot_ok_def demo_full_def demo_kernel_def demo_pcb_def)
  then show "running_ok demo_full" "running_slot demo_full = 0"
    by (auto simp: running_ok_def proc_inv_def running_slot_def demo_full_def demo_kernel_def demo_tty_def)
qed

text \<open>Two terminals with a shell each.\<close>

definition demo_two :: kernel where
  "demo_two = demo_kernel\<lparr>pcbs := (\<lambda>a. if a = get_pcb_addr 1 then demo_pcb\<lparr>pcb_id := 1, parent_id := 1, pcb_esp := 9\<rparr>
       else demo_pcb), id_array := (\<lambda>_. 0)(0 := 1, 1 := 1), parent_array := (\<lambda>_. -1)(0 := 0, 1 := 1),
     pcb_array := (\<lambda>_. -1)(0 := 0, 1 := 1)\<rparr>"

lemma demo_two_running:
  "running_ok demo_two" "running_slot demo_two = 0" "next_live (pcb_array demo_two) 0 = 1"
  "pcb_array demo_two 1 = 1" "pcb_esp (the_pcb demo_two 1) = 9"
proof -
  have "family_ok demo_two (\<lambda>t. if t = 0 then [0] else if t = 1 then [1] else [])"
    by (auto simp: family_ok_def slot_ok_def demo_two_def demo_kernel_def demo_pcb_def get_pcb_addr_def)
  then show "running_ok demo_two" "running_slot demo_two = 0" "next_live (pcb_array demo_two) 0 = 1"
      "pcb_array demo_two 1 = 1" "pcb_esp (the_pcb demo_two 1) = 9"
    by (auto simp: running_ok_def proc_inv_def running_slot_def demo_two_def demo_kernel_def demo_tty_def next_live_def)
qed

section \<open>Properties\<close>

text \<open>
  C1. From boot on, in whatever order programs are started and ended, files used, terminals displayed
  and timer interrupts taken: the terminal that has the processor has a process, that process's block
  is the current one and carries its number, the number is taken, and no process belongs to two
  terminals.
\<close>

theorem a_process_is_running:
  assumes "boot_state k0" and "execute l command k0 = Some (Iret_user eip esp, k1)" and "reachable k1 k"
  shows "proc_inv k \<and> (\<exists>p < MAX_PROCESS. get_cur_pcb_addr k = Some (get_pcb_addr (of_nat p)) \<and>
    id_array k p = 1 \<and> pcb_id (the_pcb k p) = of_nat p)"
proof -
  have r: "running_ok k" using reachable_running [OF assms(3) boot_running [OF assms(1,2)]] .
  then obtain ps where f: "family_ok k ps" unfolding running_ok_def proc_inv_def by blast
  have t: "running_slot k < 3" "pcb_array k (running_slot k) \<noteq> -1" "0 \<le> terminal_now (ktty k)"
    using r by (simp_all add: running_ok_def)
  obtain p where p: "p \<in> set (ps (running_slot k))" "pcb_array k (running_slot k) = int p"
    by (rule slot_process [OF f t(1,2)])
  then show ?thesis
    using r cur_pcb_addr [OF t(3,1) p(2)] family_memberD [OF f t(1) p(1)] by (auto simp: running_ok_def)
qed

theorem a_process_is_running_witness:
  "\<exists>k1 c k2. execute demo_locals (ascii ''s'' @ [0]) demo_cold = Some (Iret_user 0 0x83FFFFC, k1) \<and>
     pit_handler 5 6 k1 = Some (c, k2) \<and> (\<exists>p < MAX_PROCESS. get_cur_pcb_addr k2 = Some (get_pcb_addr (of_nat p)))"
proof -
  obtain k1 where k1: "execute demo_locals (ascii ''s'' @ [0]) demo_cold = Some (Iret_user 0 0x83FFFFC, k1)"
    using demo_cold_run by blast
  obtain c k2 where k2: "pit_handler 5 6 k1 = Some (c, k2)"
    using pit_handler_eff [OF boot_running [OF demo_cold_state k1]] by blast
  have "reachable k1 k2" by (rule reach_step [OF reach_refl kernel_step.Timer [OF k2]])
  from a_process_is_running [OF demo_cold_state k1 this] k1 k2 show ?thesis by blast
qed

text \<open>
  C2. A timer interrupt hands the processor to the next terminal, in cyclic order, that has a process:
  the stack of that process is taken up, user addresses lead to its own page, the kernel stack of the
  task state is its own, and the video page is the display exactly if that terminal is displayed.
\<close>

theorem timer_switches_process:
  assumes "running_ok k" and "next_live (pcb_array k) (running_slot k) = t" "t \<noteq> running_slot k"
  shows "\<exists>p < MAX_PROCESS. \<exists>k'. pcb_array k t = int p \<and> running_slot k' = t \<and> running_ok k' \<and>
    pit_handler esp ebp k = Some (Switch_stack (pcb_esp (the_pcb k p)) (pcb_ebp (the_pcb k p)), k') \<and>
    tss_esp0 k' = 0x7FFFFC - 0x2000 * of_nat p \<and>
    page_table_vid (ktty k') VIDEO_FRAME =
      (if of_nat t = cur_display_terminal_id (ktty k) - 1 then 0xB8007 else (0xB9000 + of_nat t * 0x1000) OR 7) \<and>
    (\<forall>va. 0x8000000 \<le> va \<and> va < 0x8400000 \<longrightarrow>
       translate v w (ktty k') va = Some (PROGRAM_START_ADDR + of_nat p * PAGE_4MB + (va - VIR_ADDR), True))"
proof -
  obtain c k' p where h: "pit_handler esp ebp k = Some (c, k')" "running_ok k'" "running_slot k' = t"
      "p < MAX_PROCESS" "pcb_array k t = int p" "c = Switch_stack (pcb_esp (the_pcb k p)) (pcb_ebp (the_pcb k p))"
      "ktty k' = map_video t (map_program (of_nat p) ((ktty k)\<lparr>terminal_now := int t\<rparr>))"
      "tss_esp0 k' = 0x7FFFFC - 0x2000 * of_nat p"
    using pit_handler_eff [OF assms(1), of esp ebp] assms(2,3) by (elim exE conjE) auto
  let ?e = "push_bit 22 ((PROGRAM_START_ADDR + of_nat p * PAGE_4MB) div PAGE_4MB) OR PRESENT OR PS OR GLOBAL OR R_W OR U_S :: u32"
  have pid: "unat (of_nat p :: u32) < 6" using h(4) by simp
  have "page_directory (ktty k') 32 = ?e"
    unfolding h(7) by (simp add: map_video_def map_program_def Let_def)
  then have "ktty k' = (ktty k')\<lparr>page_directory := (page_directory (ktty k'))(32 := ?e)\<rparr>"
    by (simp add: fun_upd_idem)
  then have "translate v w (ktty k') va = Some (PROGRAM_START_ADDR + of_nat p * PAGE_4MB + (va - VIR_ADDR), True)"
    if "0x8000000 \<le> va" "va < 0x8400000" for va
    using translate_user_entry [OF program_frame [OF pid], of v w "ktty k'" va] that by metis
  moreover have "page_table_vid (ktty k') VIDEO_FRAME =
      (if of_nat t = cur_display_terminal_id (ktty k) - 1 then 0xB8007 else (0xB9000 + of_nat t * 0x1000) OR 7)"
    unfolding h(7) by (simp add: map_video_def map_program_def Let_def video_entry_def or.assoc)
  ultimately show ?thesis using h by blast
qed

theorem timer_switches_process_witness:
  "\<exists>ebp k'. pit_handler 5 6 demo_two = Some (Switch_stack 9 ebp, k') \<and> running_slot k' = 1"
proof -
  obtain p k' where "pcb_array demo_two 1 = int p" "running_slot k' = 1"
      "pit_handler 5 6 demo_two = Some (Switch_stack (pcb_esp (the_pcb demo_two p)) (pcb_ebp (the_pcb demo_two p)), k')"
    using timer_switches_process [of demo_two 1 5 6 0 0, OF demo_two_running(1)] demo_two_running(2,3) by auto
  then show ?thesis using demo_two_running(4,5) by auto
qed

text \<open>
  C10. Fairness: from any state of a running kernel, each terminal that has a process is given the
  processor by one of the next three timer interrupts.
\<close>

theorem every_terminal_runs:
  assumes "running_ok k" and "s < 3" "pcb_array k s \<noteq> -1" and "length regs = 3"
  shows "\<exists>n \<in> {1, 2, 3}. \<exists>k'. run_ticks (take n regs) k = Some k' \<and> running_slot k' = s"
proof -
  let ?t = "running_slot k" and ?f = "next_live (pcb_array k)"
  have t: "?t < 3" "pcb_array k ?t \<noteq> -1" using assms(1) by (simp_all add: running_ok_def)
  have run: "\<exists>k'. run_ticks (take n regs) k = Some k' \<and> running_slot k' = (?f ^^ n) ?t" if "n \<le> 3" for n
    using run_ticks_eff [OF assms(1), of "take n regs"] assms(4) that by auto
  have "s = (?f ^^ 1) ?t \<or> s = (?f ^^ 2) ?t \<or> s = (?f ^^ 3) ?t"
    using next_live_fair [of ?t s "pcb_array k", OF t(1) assms(2) t(2) assms(3)]
    by (simp add: numeral_2_eq_2 numeral_3_eq_3)
  then show ?thesis using run [of 1] run [of 2] run [of 3] by auto
qed

theorem every_terminal_runs_witness:
  "\<exists>n \<in> {1, 2, 3}. \<exists>k'. run_ticks (take n (replicate 3 (5, 6))) demo_two = Some k' \<and> running_slot k' = 1"
  by (rule every_terminal_runs) (use demo_two_running in simp_all)

text \<open>
  Defect: when the shell of another terminal cannot be started because all process numbers are
  taken, terminal 1 is displayed again, but the video page is left on its background copy, and as
  long as it is the only terminal with a process no timer interrupt maps the display back: what the
  displayed terminal prints stays out of sight.
\<close>

theorem failed_shell_hides_display:
  assumes run: "running_ok k" "running_slot k = 0" "cur_display_terminal_id (ktty k) = 1"
    and only: "pcb_array k 1 = -1" "pcb_array k 2 = -1"
    and full: "\<forall>i < MAX_PROCESS. id_array k i \<noteq> 0"
    and shift: "terminal_shift l esp ebp 2 k = Some (c, k1)"
    and ticks: "run_ticks regs k1 = Some k2"
  shows "c = Return 0 \<and> running_slot k2 = 0 \<and> cur_display_terminal_id (ktty k2) = 1 \<and> video_page (ktty k2) = 1"
proof -
  let ?k = "\<lambda>t. k\<lparr>ktty := t\<lparr>cur_display_terminal_id := 2\<rparr>\<rparr>"
  have fid: "free_id (id_array k) 0 = MAX_PROCESS" using full by (simp add: free_id_full)
  obtain t c1 k3 where t: "terminal_store 1 ((ktty k)\<lparr>page_table_vid := (page_table_vid (ktty k))(VIDEO_FRAME :=
      video_entry VIDEO_MEM_BASE)\<rparr>) = Some t"
    and s: "show_or_start l esp ebp 1 (terminal_now (ktty k)) 1 (?k t) = Some (c1, k3)"
    and fin: "case c1 of Return _ \<Rightarrow> c = Return 0 \<and> k1 = k3\<lparr>ktty := map_background (ktty k3)\<rparr> | _ \<Rightarrow> c = c1 \<and> k1 = k3"
    using shift run(3) by (auto simp: terminal_shift_def show_terminal_def Let_def split: bind_splits control.splits)
  have now: "terminal_now (ktty k) = 0" using run(1,2) by (simp add: running_ok_def running_slot_def)
  have none: "pcb_array (?k t) 1 = -1" using only by simp
  obtain t1 a cur k4 kb c2 k5 where st: "clear (ktty (?k t)) = Some t1"
      "store_pcb a cur (?k t\<lparr>ktty := t1\<rparr>) = Some k4"
    and x: "execute l shell (k4\<lparr>ktty := (ktty k4)\<lparr>terminal_now := sint (cur_display_terminal_id (ktty k4) - 1),
         kb_buf_idx := 0, keyboard_buffer := kb\<rparr>\<rparr>) = Some (c2, k5)"
    and ret: "if c2 = Return (-1)
      then c1 = Return 0 \<and> (\<exists>t. terminal_load (sint (1 :: u32)) ((ktty k5)\<lparr>terminal_now := terminal_now (ktty k),
             cur_display_terminal_id := 1\<rparr>) = Some t \<and> k3 = k5\<lparr>ktty := t\<rparr>)
      else c1 = c2 \<and> k3 = k5"
    by (rule start_shell_steps [OF none s])
  have k4: "id_array k4 = id_array k" "pcb_array k4 = pcb_array k"
    using st(2) by (auto simp: store_pcb_def split: if_splits)
  have c2: "c2 = Return (-1)" and k5: "pcb_array k5 = pcb_array k"
    using execute_cases [OF x] fid k4 by (auto simp: entered_def)
  obtain t' where t': "terminal_load (sint (1 :: u32)) ((ktty k5)\<lparr>terminal_now := terminal_now (ktty k),
      cur_display_terminal_id := 1\<rparr>) = Some t'" "k3 = k5\<lparr>ktty := t'\<rparr>" "c1 = Return 0"
    using ret c2 by auto
  have k1: "c = Return 0" "ktty k1 = map_background t'" "pcb_array k1 = pcb_array k" using fin t' k5 by simp_all
  have turn: "terminal_now t' = 0" "cur_display_terminal_id t' = 1"
    using terminal_load_turn [OF t'(1)] now by (simp_all add: same_turn_def)
  have slot: "running_slot k1 = 0" using k1(2) turn by (simp add: running_slot_def map_background_def)
  have "next_live (pcb_array k1) (running_slot k1) = running_slot k1"
    using only by (simp only: slot k1(3) next_live_at simp_thms if_False)
  from run_ticks_alone [OF running_shift [OF run(1) shift] this ticks]
  have "ktty k2 = map_background t'" using k1(2) by simp
  then show ?thesis
    using k1(1) turn by (simp add: running_slot_def map_background_def video_page_def video_frame_def video_entry_def)
qed

theorem failed_shell_hides_display_witness:
  "\<exists>k1 k2. terminal_shift demo_locals 0 0 2 demo_full = Some (Return 0, k1) \<and>
     run_ticks [(0, 0), (0, 0)] k1 = Some k2 \<and> cur_display_terminal_id (ktty k2) = 1 \<and> video_page (ktty k2) = 1"
proof -
  obtain k1 where k1: "terminal_shift demo_locals 0 0 2 demo_full = Some (Return 0, k1)"
    using demo_full_shift by blast
  obtain k2 where k2: "run_ticks [(0, 0), (0, 0)] k1 = Some k2"
    using run_ticks_eff [OF running_shift [OF demo_full_running(1) k1]] by blast
  have "cur_display_terminal_id (ktty demo_full) = 1" "pcb_array demo_full 1 = -1" "pcb_array demo_full 2 = -1"
      "\<forall>i < MAX_PROCESS. id_array demo_full i \<noteq> 0"
    by (simp_all add: demo_full_def demo_kernel_def demo_tty_def)
  from failed_shell_hides_display [OF demo_full_running this k1 k2] k1 k2 show ?thesis by blast
qed

end
