(* ===== verification/Keyboard.thy ===== *)
theory Keyboard
  imports Scheduler Syscall
begin

text \<open>
  The keyboard driver, \<open>student-distrib/keyboard.c\<close>: the translation of scan codes, the modifier keys,
  the line that is typed, the command history, completion of file names and the keys that switch
  terminals. The scan code that \<open>inb\<close> reads is a parameter; \<open>cli\<close>, \<open>sti\<close>, the TLB and the messages of
  failed completions are left out.
\<close>

section \<open>Scan codes\<close>

text \<open>The rows of the table: plain, shifted, with caps lock, shifted with caps lock.\<close>

definition keypad :: "u8 list" where
  "keypad = replicate 16 0 @ ascii ''-'' @ replicate 3 0 @ ascii ''+'' @ replicate 49 0"

definition scancode :: "u8 list" where
  "scancode =
     [0, 0] @ ascii ''1234567890-='' @ [0x08, 0x09] @ ascii ''qwertyuiop[]'' @ [0x0A, 0] @
     ascii ''asdfghjkl;'' @ [0x27, 0x60, 0, 0x5C] @ ascii ''zxcvbnm,./'' @ [0] @ ascii ''*'' @ [0, 0x20] @ keypad @
     [0, 0] @ ascii ''!@#$%^&*()_+'' @ [0x08, 0x09] @ ascii ''QWERTYUIOP{}'' @ [0x0A, 0] @
     ascii ''ASDFGHJKL:'' @ [0x22, 0x7E, 0, 0x7C] @ ascii ''ZXCVBNM<>?'' @ [0] @ ascii ''*'' @ [0, 0x20] @ keypad @
     [0, 0] @ ascii ''1234567890-='' @ [0x08, 0x09] @ ascii ''QWERTYUIOP[]'' @ [0x0A, 0] @
     ascii ''ASDFGHJKL;'' @ [0x27, 0x60, 0, 0x5C] @ ascii ''ZXCVBNM,./'' @ [0] @ ascii ''*'' @ [0, 0x20] @ keypad @
     [0, 0] @ ascii ''!@#$%^&*()_+'' @ [0x08, 0x09] @ ascii ''qwertyuiop{}'' @ [0x0A, 0] @
     ascii ''asdfghjkl:'' @ [0x22, 0x7E, 0, 0x7C] @ ascii ''zxcvbnm<>?'' @ [0] @ ascii ''*'' @ [0, 0x20] @ keypad"

text \<open>
  \<open>scancode[mode][code]\<close>: the four rows of 128 bytes follow each other in memory, and the code of a
  released key, which is above 127, reads the row after \<open>mode\<close>.
\<close>

definition scancode_at :: "int \<Rightarrow> u8 \<Rightarrow> u8 option" where
  "scancode_at mode code = do {
     require (0 \<le> mode);
     buf_get scancode (128 * nat mode + unat code)
   }"

section \<open>State\<close>

record keys =
  cur_ctrl :: u8
  cur_rsft :: u8
  cur_lsft :: u8
  cur_cpsl :: u8
  cur_altk :: u8
  kb_mode :: int

text \<open>The uninitialised locals of the handler and of what it calls, and the registers it saves.\<close>

record kb_locals =
  k_call :: call_locals
  k_exec :: exec_locals
  k_esp :: u32
  k_ebp :: u32
  k_buf :: "u8 list"
  k_temp_buf :: "u8 list"
  k_temp_buf2 :: "u8 list"
  k_kb_buf_copy :: "u8 list"
  k_conv_buf :: "u8 list"

definition free_all :: "keys \<Rightarrow> keys" where
  "free_all q = q\<lparr>cur_ctrl := 0, cur_lsft := 0, cur_rsft := 0, cur_cpsl := 0, cur_altk := 0\<rparr>"

definition keyboard_init :: "keys \<Rightarrow> pic \<Rightarrow> keys \<times> pic" where
  "keyboard_init q p = (free_all q, enable_irq 1 p)"

definition kb_eoi :: "kernel \<Rightarrow> kernel" where
  "kb_eoi k = k\<lparr>kpic := send_eoi 1 (kpic k)\<rparr>"

text \<open>The video page on the display while the handler draws, and off it again.\<close>

definition map_display :: "tty \<Rightarrow> tty" where
  "map_display t = t\<lparr>page_table_vid := (page_table_vid t)(VIDEO_FRAME := video_entry VIDEO_MEM_BASE)\<rparr>"

definition map_hidden :: "tty \<Rightarrow> tty" where
  "map_hidden t = t\<lparr>page_table_vid := (page_table_vid t)
     (VIDEO_FRAME := (VIDEO_MEM_T1 + word_of_int (terminal_now t) * 0x1000) OR PRESENT)\<rparr>"

section \<open>Modifier keys\<close>

definition release_key :: "u8 \<Rightarrow> keys \<Rightarrow> keys" where
  "release_key code q =
     (let q = (if code = 0x9D then q\<lparr>cur_ctrl := 0\<rparr> else q);
          q = (if code = 0xAA then q\<lparr>cur_lsft := 0\<rparr> else q);
          q = (if code = 0xB6 then q\<lparr>cur_rsft := 0\<rparr> else q)
      in (if code = 0xB8 then q\<lparr>cur_altk := 0\<rparr> else q))"

definition press_key :: "u8 \<Rightarrow> keys \<Rightarrow> keys" where
  "press_key code q =
     (let q = (if code = 0x3A then q\<lparr>cur_cpsl := cur_cpsl q XOR 1\<rparr> else q);
          q = (if code = 0x1D then q\<lparr>cur_ctrl := 1\<rparr> else q);
          q = (if code = 0x36 then q\<lparr>cur_rsft := 1\<rparr> else q);
          q = (if code = 0x2A then q\<lparr>cur_lsft := 1\<rparr> else q)
      in (if code = 0x38 then q\<lparr>cur_altk := 1\<rparr> else q))"

definition mode_of :: "keys \<Rightarrow> int" where
  "mode_of q = sint (ucast (cur_rsft q) OR ucast (cur_lsft q) OR push_bit 1 (ucast (cur_cpsl q)) :: u32)"

section \<open>Typing\<close>

definition put_line_char :: "u8 \<Rightarrow> u32 \<Rightarrow> tty \<Rightarrow> tty option" where
  "put_line_char c idx t = do {
     kb \<leftarrow> buf_put (keyboard_buffer t) (unat (kb_buf_idx t)) c;
     putc_modf c (t\<lparr>keyboard_buffer := kb, kb_buf_idx := idx\<rparr>)
   }"

definition edit_line :: "u8 \<Rightarrow> u8 \<Rightarrow> tty \<Rightarrow> tty option" where
  "edit_line checker charac t =
     (if checker = 0x08 \<and> kb_buf_idx t > 0
      then putc_modf charac (t\<lparr>kb_buf_idx := kb_buf_idx t - 1\<rparr>)
      else if checker = 0x0A \<or> checker = 0x0D then put_line_char charac 0 t
      else if kb_buf_idx t < 127
      then (if charac = 0 then Some t else put_line_char charac (kb_buf_idx t + 1) t)
      else Some t)"

definition type_key :: "u8 \<Rightarrow> u8 \<Rightarrow> keys \<Rightarrow> tty \<Rightarrow> (keys \<times> tty) option" where
  "type_key checker code q t =
     (let t = map_display t; q = q\<lparr>kb_mode := mode_of q\<rparr> in do {
        charac \<leftarrow> scancode_at (kb_mode q) code;
        t \<leftarrow> edit_line checker charac t;
        Some (q, if word_of_int (terminal_now t) \<noteq> cur_display_terminal_id t - 1 then map_hidden t else t)
      })"

section \<open>Command history\<close>

text \<open>The loop that rubs out the typed line; its counter is \<open>kb_buf_idx\<close>, which \<open>putc_modf\<close> leaves alone.\<close>

fun erase_loop :: "nat \<Rightarrow> tty \<Rightarrow> tty option" where
  "erase_loop 0 t = Some t"
| "erase_loop (Suc n) t = do {
     kb \<leftarrow> buf_put (keyboard_buffer t) n 0;
     t \<leftarrow> putc_modf 0x08 (map_display (t\<lparr>kb_buf_idx := of_nat n, keyboard_buffer := kb\<rparr>));
     erase_loop n (map_hidden t)
   }"

definition erase_line :: "tty \<Rightarrow> tty option" where
  "erase_line t = erase_loop (unat (kb_buf_idx t)) t"

text \<open>The stored command becomes the typed line; it is printed as a format.\<close>

definition recall_command :: "u8 list \<Rightarrow> nat \<Rightarrow> tty \<Rightarrow> tty option" where
  "recall_command conv_buf d t = do {
     require (0 \<le> command_count t d);
     command \<leftarrow> arr_get 50 (command_list t d) (nat (command_count t d));
     size_c \<leftarrow> strlen command;
     kb \<leftarrow> strncpy (keyboard_buffer t) command size_c;
     kb \<leftarrow> buf_put kb size_c 0;
     (_, t) \<leftarrow> printf conv_buf kb [] (map_display (t\<lparr>keyboard_buffer := kb, kb_buf_idx := of_nat size_c\<rparr>));
     Some (map_hidden t)
   }"

definition history_up :: "u8 list \<Rightarrow> tty \<Rightarrow> tty option" where
  "history_up conv_buf t =
     (let d = unat (cur_display_terminal_id t - 1) in do {
        n \<leftarrow> arr_get 3 (command_count t) d;
        (let n = (if n - 1 < 0 then 0 else n - 1) in do {
           t \<leftarrow> erase_line (t\<lparr>command_count := (command_count t)(d := n)\<rparr>);
           recall_command conv_buf d t
         })
      })"

definition history_down :: "u8 list \<Rightarrow> tty \<Rightarrow> tty option" where
  "history_down conv_buf t =
     (let d = unat (cur_display_terminal_id t - 1) in do {
        n \<leftarrow> arr_get 3 (command_count t) d;
        t \<leftarrow> erase_line (t\<lparr>command_count := (command_count t)(d := n + 1)\<rparr>);
        (if command_count t d \<ge> command_total t d then do {
           kb \<leftarrow> buf_put (keyboard_buffer t) 0 0;
           Some (t\<lparr>command_count := (command_count t)(d := command_total t d), keyboard_buffer := kb,
                   kb_buf_idx := 0\<rparr>)
         }
         else recall_command conv_buf d t)
      })"

section \<open>Completion of file names\<close>

text \<open>The start of the argument: behind the first blanks of the line, or its end.\<close>

function arg_start :: "u8 list \<Rightarrow> nat \<Rightarrow> nat \<Rightarrow> nat option" where
  "arg_start kb n i =
     (if i < n then do {
        c \<leftarrow> buf_get kb i;
        (if c = BLANK then skip_blanks kb n i else arg_start kb n (Suc i))
      } else Some i)"
  by pat_completeness auto
termination by (relation "measure (\<lambda>(kb, n, i). n - i)") auto

declare arg_start.simps [simp del]

text \<open>What is to be completed, with \<open>k\<close>: the argument, or the whole line when there is none.\<close>

definition tab_prefix :: "u8 list \<Rightarrow> u8 list \<Rightarrow> nat \<Rightarrow> (nat \<times> u8 list) option" where
  "tab_prefix copy kb n = do {
     i \<leftarrow> arg_start kb n 0;
     (if i < n then do {
        copy \<leftarrow> strncpy copy (drop i kb) (n - i);
        copy \<leftarrow> buf_put copy (n - i) 0;
        Some (i, copy)
      } else do {
        copy \<leftarrow> strncpy copy kb n;
        Some (0, copy)
      })
   }"

record tab_match =
  cnt_command :: nat
  cnt_copy :: nat
  temp_buf :: "u8 list"
  temp_buf2 :: "u8 list"

text \<open>A matching name of \<open>cnt\<close> bytes: kept whole and without the \<open>n\<close> bytes already typed.\<close>

definition keep_match :: "u8 list \<Rightarrow> nat \<Rightarrow> nat \<Rightarrow> tab_match \<Rightarrow> tab_match option" where
  "keep_match buf cnt n m =
     (let rest = unat (of_nat cnt - of_nat n :: u32) in do {
        b2 \<leftarrow> strncpy (temp_buf2 m) buf cnt;
        b2 \<leftarrow> buf_put b2 cnt 0;
        b \<leftarrow> strncpy (temp_buf m) (drop n buf) rest;
        b \<leftarrow> buf_put b rest 0;
        Some (m\<lparr>temp_buf2 := b2, temp_buf := b, cnt_copy := cnt\<rparr>)
      })"

text \<open>
  The loop over the directory. \<open>Inl\<close> is an early return of the handler: an entry that cannot be read,
  or a second match. The loop ends only if the directory does.
\<close>

partial_function (option) tab_loop ::
    "call_locals \<Rightarrow> int \<Rightarrow> u8 list \<Rightarrow> nat \<Rightarrow> u8 list \<Rightarrow> tab_match \<Rightarrow> kernel \<Rightarrow> (kernel + tab_match \<times> kernel) option" where
  "tab_loop l fd copy n buf m k =
     (case sys_read l [] 0 fd (Some buf) 32 k of
        Some (Returns (cnt, Some buf, k)) \<Rightarrow>
          if cnt = 0 then Some (Inr (m, k))
          else if cnt = -1 then Some (Inl k)
          else do {
            buf \<leftarrow> buf_put buf (nat cnt) 0;
            r \<leftarrow> strncmp copy buf n;
            (if r = 0 then
               let m = m\<lparr>cnt_command := cnt_command m + 1\<rparr> in
               if cnt_command m = 2 then Some (Inl k)
               else do {
                 m \<leftarrow> keep_match buf (nat cnt) n m;
                 tab_loop l fd copy n buf m k
               }
             else tab_loop l fd copy n buf m k)
          }
      | _ \<Rightarrow> None)"

definition show_match :: "u8 list \<Rightarrow> nat \<Rightarrow> tab_match \<Rightarrow> tty \<Rightarrow> tty option" where
  "show_match conv_buf i m t = do {
     rest \<leftarrow> strncpy (drop i (keyboard_buffer t)) (temp_buf2 m) (cnt_copy m);
     (_, t) \<leftarrow> printf conv_buf (temp_buf m) []
       (map_display (t\<lparr>keyboard_buffer := take i (keyboard_buffer t) @ rest, kb_buf_idx := of_nat (i + cnt_copy m)\<rparr>));
     Some (map_hidden t)
   }"

definition tab_complete :: "kb_locals \<Rightarrow> kernel \<Rightarrow> kernel option" where
  "tab_complete l k = do {
     (fd, k) \<leftarrow> sys_open (k_call l) (Some (ascii ''.'' @ [0])) k;
     (if fd = -1 then Some k
      else do {
        (i, copy) \<leftarrow> tab_prefix (k_kb_buf_copy l) (keyboard_buffer (ktty k)) (unat (kb_buf_idx (ktty k)));
        r \<leftarrow> tab_loop (k_call l) fd copy (unat (kb_buf_idx (ktty k)) - i) (k_buf l)
               \<lparr>cnt_command = 0, cnt_copy = 0, temp_buf = k_temp_buf l, temp_buf2 = k_temp_buf2 l\<rparr> k;
        (case r of
           Inl k \<Rightarrow> Some k
         | Inr (m, k) \<Rightarrow> do {
             (_, k) \<leftarrow> sys_close fd k;
             (if cnt_command m = 1 then do {
                t \<leftarrow> show_match (k_conv_buf l) i m (ktty k);
                Some (k\<lparr>ktty := t\<rparr>)
              }
              else Some k)
           })
      })
   }"

section \<open>The handler\<close>

text \<open>Control and L clears the screen and the line, and goes on to type the letter.\<close>

definition control_key :: "u8 \<Rightarrow> keys \<Rightarrow> tty \<Rightarrow> tty option" where
  "control_key checker q t =
     (if cur_ctrl q = 1 \<and> checker = of_char CHR ''l''
      then do { t \<leftarrow> flush_screen t; Some (t\<lparr>kb_buf_idx := 0\<rparr>) }
      else Some t)"

definition on_tty :: "(tty \<Rightarrow> tty option) \<Rightarrow> kernel \<Rightarrow> kernel option" where
  "on_tty f k = do { t \<leftarrow> f (ktty k); Some (k\<lparr>ktty := t\<rparr>) }"

definition pressed :: "kb_locals \<Rightarrow> u8 \<Rightarrow> u8 \<Rightarrow> keys \<Rightarrow> kernel \<Rightarrow> (control \<times> keys \<times> kernel) option" where
  "pressed l checker code q k =
     (if checker = 0x08 \<and> kb_buf_idx (ktty k) = 0 then Some (Return 0, q, kb_eoi k)
      else do {
        k \<leftarrow> on_tty (control_key checker q) k;
        (if cur_altk q = 1 then
           (if code = 0x3B \<or> code = 0x3C \<or> code = 0x3D then do {
              (c, k) \<leftarrow> terminal_shift (k_exec l) (k_esp l) (k_ebp l) (uint (code - 0x3A)) (kb_eoi k);
              Some (c, q, k)
            }
            else Some (Return 0, q, kb_eoi k))
         else do {
           (q, t) \<leftarrow> type_key checker code q (ktty k);
           Some (Return 0, q, kb_eoi (k\<lparr>ktty := t\<rparr>))
         })
      })"

definition keyboard_handler :: "kb_locals \<Rightarrow> u8 \<Rightarrow> keys \<Rightarrow> kernel \<Rightarrow> (control \<times> keys \<times> kernel) option" where
  "keyboard_handler l input_code q k = do {
     checker \<leftarrow> scancode_at 0 input_code;
     (if input_code = 0x0F then do { k \<leftarrow> tab_complete l k; Some (Return 0, q, kb_eoi k) }
      else if input_code = 0x48 then do { k \<leftarrow> on_tty (history_up (k_conv_buf l)) k; Some (Return 0, q, kb_eoi k) }
      else if input_code = 0x50 then do { k \<leftarrow> on_tty (history_down (k_conv_buf l)) k; Some (Return 0, q, kb_eoi k) }
      else if input_code AND 0x80 \<noteq> 0 then Some (Return 0, release_key input_code q, kb_eoi k)
      else pressed l checker input_code (press_key input_code q) k)
   }"

end
