(* ===== verification/Keyboard_Props.thy ===== *)
theory Keyboard_Props
  imports Keyboard Console_Frame Process_Props Terminal_Props
begin

text \<open>
  What typing does: the line editor that the handler implements, the modifier keys and the table of
  scan codes, and the way of a line from the keys to \<open>terminal_read\<close>.
\<close>

section \<open>The typed line\<close>

definition typed :: "tty \<Rightarrow> u8 list" where
  "typed t = take (unat (kb_buf_idx t)) (keyboard_buffer t)"

text \<open>The console can be drawn on once its page is mapped, and the line fits into the buffer.\<close>

definition line_inv :: "tty \<Rightarrow> bool" where
  "line_inv t \<longleftrightarrow> console_inv (map_display t) \<and> length (keyboard_buffer t) = KB_BUF_SIZE \<and> unat (kb_buf_idx t) \<le> 127"

text \<open>The editor: \<open>checker\<close> is the plain meaning of the key, \<open>charac\<close> the one in its mode.\<close>

definition line_edit :: "u8 \<Rightarrow> u8 \<Rightarrow> u8 list \<Rightarrow> u8 list" where
  "line_edit checker charac line =
     (if checker = 0x08 then butlast line
      else if checker = 0x0A \<or> checker = 0x0D then []
      else if length line < 127 \<and> charac \<noteq> 0 then line @ [charac] else line)"

lemma map_sel [simp]:
  "keyboard_buffer (map_display t) = keyboard_buffer t" "kb_buf_idx (map_display t) = kb_buf_idx t"
  "keyboard_buffer (map_hidden t) = keyboard_buffer t" "kb_buf_idx (map_hidden t) = kb_buf_idx t"
  "terminal_now (map_display t) = terminal_now t" "terminal_now (map_hidden t) = terminal_now t"
  "cur_display_terminal_id (map_display t) = cur_display_terminal_id t"
  "cur_display_terminal_id (map_hidden t) = cur_display_terminal_id t"
  "command_list (map_display t) = command_list t" "command_list (map_hidden t) = command_list t"
  "command_total (map_display t) = command_total t" "command_total (map_hidden t) = command_total t"
  "command_count (map_display t) = command_count t" "command_count (map_hidden t) = command_count t"
  "map_display (map_display t) = map_display t" "map_display (map_hidden t) = map_display t"
  "typed (map_display t) = typed t" "typed (map_hidden t) = typed t"
  by (simp_all add: map_display_def map_hidden_def typed_def)

lemma line_inv_map [simp]: "line_inv (map_display t) = line_inv t" "line_inv (map_hidden t) = line_inv t"
  by (simp_all add: line_inv_def)

lemma console_inv_line [simp]:
  "console_inv (t\<lparr>kb_buf_idx := i\<rparr>) = console_inv t" "console_inv (t\<lparr>keyboard_buffer := b\<rparr>) = console_inv t"
  by (simp_all add: console_inv_def video_mapped_def video_frame_def)

lemma console_inv_display:
  "page_table_vid t VIDEO_FRAME = 0xB8007 \<Longrightarrow> console_inv (map_display t) = console_inv t"
  by (simp add: console_inv_def video_mapped_def video_frame_def map_display_def video_entry_def)

lemma display_entry [simp]: "page_table_vid (map_display t) VIDEO_FRAME = 0xB8007"
  by (simp add: map_display_def video_entry_def)

text \<open>A character drawn on the display leaves the invariant and the line as the handler set them.\<close>

lemma putc_line:
  assumes "console_inv t" "page_table_vid t VIDEO_FRAME = 0xB8007"
    and "length (keyboard_buffer t) = KB_BUF_SIZE" "unat (kb_buf_idx t) \<le> 127"
  shows "\<exists>t'. putc_modf c t = Some t' \<and> line_inv t' \<and> same_input t t'"
proof -
  obtain t' where t': "putc_modf c t = Some t'" "console_inv t'" using putc_modf_inv [OF assms(1)] by blast
  have s: "same_input t t'" by (rule putc_modf_input [OF t'(1)])
  then have "console_inv (map_display t')" using t'(2) assms(2) console_inv_display by (simp add: same_input_def)
  then show ?thesis using t'(1) s assms(3,4) by (auto simp: line_inv_def same_input_def)
qed

lemma unat_pred: "0 < (x :: u32) \<Longrightarrow> unat (x - 1) = unat x - 1"
  using unat_minus_one [of x] by (simp add: word_gt_0)

lemma edit_line_refines:
  assumes inv: "line_inv t" and d: "page_table_vid t VIDEO_FRAME = 0xB8007"
    and b: "checker = 0x08 \<longrightarrow> kb_buf_idx t \<noteq> 0"
  shows "\<exists>t'. edit_line checker charac t = Some t' \<and> line_inv t' \<and> same_turn t t' \<and>
    typed t' = line_edit checker charac (typed t) \<and>
    keyboard_buffer t' =
      (if checker = 0x0A \<or> checker = 0x0D \<or> checker \<noteq> 0x08 \<and> unat (kb_buf_idx t) < 127 \<and> charac \<noteq> 0
       then (keyboard_buffer t)[unat (kb_buf_idx t) := charac] else keyboard_buffer t) \<and>
    command_list t' = command_list t \<and> command_total t' = command_total t"
proof -
  have c: "console_inv t" using inv d console_inv_display [of t] by (simp add: line_inv_def)
  have l: "length (keyboard_buffer t) = KB_BUF_SIZE" "unat (kb_buf_idx t) \<le> 127"
    using inv by (simp_all add: line_inv_def)
  have put: "\<exists>t'. put_line_char x i t = Some t' \<and> line_inv t' \<and> same_turn t t' \<and> kb_buf_idx t' = i \<and>
      keyboard_buffer t' = (keyboard_buffer t)[unat (kb_buf_idx t) := x] \<and>
      command_list t' = command_list t \<and> command_total t' = command_total t"
    if "unat i \<le> 127" for x i
    using putc_line [of "t\<lparr>keyboard_buffer := (keyboard_buffer t)[unat (kb_buf_idx t) := x], kb_buf_idx := i\<rparr>" x]
      c d l that by (auto simp: put_line_char_def buf_put_in same_input_def)
  consider (rubout) "checker = 0x08" | (enter) "checker = 0x0A \<or> checker = 0x0D"
    | (other) "checker \<noteq> 0x08" "checker \<noteq> 0x0A" "checker \<noteq> 0x0D" by blast
  then show ?thesis
  proof cases
    case rubout
    then have p: "0 < kb_buf_idx t" using b by (simp add: word_gt_0)
    have u: "unat (kb_buf_idx t - 1) = unat (kb_buf_idx t) - 1" by (rule unat_pred [OF p])
    then have u127: "unat (kb_buf_idx t - 1) \<le> 127" using l by linarith
    obtain t' where "putc_modf charac (t\<lparr>kb_buf_idx := kb_buf_idx t - 1\<rparr>) = Some t'" "line_inv t'"
        "same_input (t\<lparr>kb_buf_idx := kb_buf_idx t - 1\<rparr>) t'"
      using putc_line [of "t\<lparr>kb_buf_idx := kb_buf_idx t - 1\<rparr>" charac] c d l u127 by auto
    then show ?thesis
      using rubout p u l by (auto simp: edit_line_def same_input_def typed_def line_edit_def butlast_take)
  next
    case enter
    then show ?thesis
      using put [of 0 charac] by (auto simp: edit_line_def typed_def line_edit_def)
  next
    case other
    show ?thesis
    proof (cases "unat (kb_buf_idx t) < 127 \<and> charac \<noteq> 0")
      case True
      then have i: "unat (kb_buf_idx t + 1) = Suc (unat (kb_buf_idx t))" "kb_buf_idx t < 127"
        using unat_add_u32 [of "kb_buf_idx t" 1] by (simp_all add: word_less_nat_alt)
      then show ?thesis
        using put [of "kb_buf_idx t + 1" charac] True other l
        by (auto simp: edit_line_def typed_def line_edit_def take_Suc_update)
    next
      case False
      then have "edit_line checker charac t = Some t"
        using other by (auto simp: edit_line_def word_less_nat_alt)
      then show ?thesis using False other inv l by (auto simp: typed_def line_edit_def)
    qed
  qed
qed

section \<open>Modifier keys and the table of scan codes\<close>

definition keys_ok :: "keys \<Rightarrow> bool" where
  "keys_ok q \<longleftrightarrow> cur_ctrl q \<le> 1 \<and> cur_rsft q \<le> 1 \<and> cur_lsft q \<le> 1 \<and> cur_cpsl q \<le> 1 \<and> cur_altk q \<le> 1 \<and>
     kb_mode q \<in> {0, 1, 2, 3}"

lemma flag_cases: "(x :: u8) \<le> 1 \<longleftrightarrow> x = 0 \<or> x = 1"
  by (auto simp: word_le_nat_alt word_unat_eq_iff)

definition shifted :: "keys \<Rightarrow> bool" where
  "shifted q \<longleftrightarrow> cur_lsft q = 1 \<or> cur_rsft q = 1"

definition caps :: "keys \<Rightarrow> bool" where
  "caps q \<longleftrightarrow> cur_cpsl q = 1"

lemma mode_of_eq: "keys_ok q \<Longrightarrow> mode_of q = (if shifted q then 1 else 0) + (if caps q then 2 else 0)"
  by (auto simp: keys_ok_def flag_cases mode_of_def shifted_def caps_def)

lemma keys_ok_press: "keys_ok q \<Longrightarrow> keys_ok (press_key code q)"
  by (auto simp: keys_ok_def press_key_def Let_def flag_cases)

lemma keys_ok_release: "keys_ok q \<Longrightarrow> keys_ok (release_key code q)"
  by (auto simp: keys_ok_def release_key_def Let_def)

lemma keys_ok_mode: "keys_ok q \<Longrightarrow> keys_ok (q\<lparr>kb_mode := mode_of q\<rparr>)"
  by (simp add: mode_of_eq) (simp add: keys_ok_def)

lemma length_scancode: "length scancode = 512"
  by code_simp

lemma code_below: "(code :: u8) < 128 \<Longrightarrow> unat code < 128"
  by (simp add: word_less_nat_alt)

lemma scancode_at_row:
  "m \<in> {0, 1, 2, 3} \<Longrightarrow> code < 128 \<Longrightarrow> scancode_at m code = Some (scancode ! (128 * nat m + unat code))"
  using code_below [of code] by (auto simp: scancode_at_def buf_get_def length_scancode)

lemma checker_at: "scancode_at 0 code = Some (scancode ! unat code)"
proof -
  have "unat code < 256" using unsigned_less [of code] by simp
  then have "unat code < 512" by linarith
  then show ?thesis by (simp add: scancode_at_def buf_get_def length_scancode)
qed

text \<open>A reference for the four rows: a shift row and a plain row, and the case of letters.\<close>

definition is_lower :: "u8 \<Rightarrow> bool" where
  "is_lower c \<longleftrightarrow> of_char CHR ''a'' \<le> c \<and> c \<le> of_char CHR ''z''"

definition key_case :: "bool \<Rightarrow> bool \<Rightarrow> u8 \<Rightarrow> u8 \<Rightarrow> u8" where
  "key_case shift cap plain upper =
     (if is_lower plain then (if shift \<noteq> cap then plain - 0x20 else plain) else if shift then upper else plain)"

definition char_of_key :: "bool \<Rightarrow> bool \<Rightarrow> nat \<Rightarrow> u8" where
  "char_of_key shift cap i = key_case shift cap (scancode ! i) (scancode ! (128 + i))"

definition table_row :: "nat \<Rightarrow> u8 list" where
  "table_row m = take 128 (drop (128 * m) scancode)"

lemma table_row_nth: "m \<le> 3 \<Longrightarrow> i < 128 \<Longrightarrow> table_row m ! i = scancode ! (128 * m + i)"
  by (simp add: table_row_def length_scancode)

lemma length_table_row: "m \<le> 3 \<Longrightarrow> length (table_row m) = 128"
  by (simp add: table_row_def length_scancode)

abbreviation "table_columns \<equiv> zip (table_row 0) (zip (table_row 1) (zip (table_row 2) (table_row 3)))"

lemma table_cases:
  "list_all (\<lambda>(a, b, c, d). a = key_case False False a b \<and> b = key_case True False a b \<and>
     c = key_case False True a b \<and> d = key_case True True a b) table_columns"
  by code_simp

lemma table_controls:
  "list_all (\<lambda>(a, b, c, d). a = 0 \<or> a = 8 \<or> a = 9 \<or> a = 10 \<or> a = 13 \<longrightarrow> b = a \<and> c = a \<and> d = a) table_columns"
  by code_simp

lemma table_chars:
  "list_all (\<lambda>(a, b, c, d). a = 0 \<or> a = 8 \<or> a = 10 \<or> a = 13 \<or> (\<forall>x \<in> {b, c, d}. x \<noteq> 0 \<and> x \<noteq> 10 \<and> x \<noteq> 13)) table_columns"
  by code_simp

lemma table_row_chars:
  assumes "i < 128"
  shows "scancode ! i = char_of_key False False i" "scancode ! (128 + i) = char_of_key True False i"
    "scancode ! (256 + i) = char_of_key False True i" "scancode ! (384 + i) = char_of_key True True i"
    "scancode ! i \<in> {0, 8, 9, 10, 13} \<Longrightarrow> char_of_key s c i = scancode ! i"
    "scancode ! i \<notin> {0, 8, 10, 13} \<Longrightarrow> char_of_key s c i \<notin> {0, 10, 13}"
proof -
  let ?t = "(scancode ! i, scancode ! (128 + i), scancode ! (256 + i), scancode ! (384 + i))"
  have "table_columns ! i = ?t" using assms by (simp add: length_table_row table_row_nth)
  moreover have "i < length table_columns" using assms by (simp add: length_table_row)
  ultimately have t: "?t \<in> set table_columns" by (metis nth_mem)
  note col = bspec [OF _ t, unfolded prod.case]
  note cases = col [OF table_cases [unfolded list_all_iff]]
  note controls = col [OF table_controls [unfolded list_all_iff]]
  note chars = col [OF table_chars [unfolded list_all_iff]]
  from cases show e: "scancode ! i = char_of_key False False i" "scancode ! (128 + i) = char_of_key True False i"
    "scancode ! (256 + i) = char_of_key False True i" "scancode ! (384 + i) = char_of_key True True i"
    unfolding char_of_key_def by blast+
  show "scancode ! i \<in> {0, 8, 9, 10, 13} \<Longrightarrow> char_of_key s c i = scancode ! i"
    using controls e by (cases s; cases c) auto
  show "scancode ! i \<notin> {0, 8, 10, 13} \<Longrightarrow> char_of_key s c i \<notin> {0, 10, 13}"
    using chars e by (cases s; cases c) auto
qed

lemma key_char:
  assumes "keys_ok q" "code < 128"
  shows "scancode_at (mode_of q) code = Some (char_of_key (shifted q) (caps q) (unat code))"
  using table_row_chars(1-4) [OF code_below [OF assms(2)]] mode_of_eq [OF assms(1)]
    scancode_at_row [of "mode_of q" code] assms(2)
  by (cases "shifted q"; cases "caps q") simp_all

section \<open>One key\<close>

text \<open>Keys that type or edit: not a release, not one of the keys with a meaning of their own.\<close>

definition typing_key :: "u8 \<Rightarrow> bool" where
  "typing_key code \<longleftrightarrow> code < 128 \<and> code \<notin> {0x0F, 0x48, 0x50}"

lemma typing_key_bit: "code < 128 \<Longrightarrow> (code :: u8) AND 0x80 = 0"
proof -
  assume "code < 128"
  then have "code AND mask 7 = code" by (intro less_mask_eq) simp
  then have "code AND 0x80 = code AND (mask 7 AND 0x80)" by (metis and.assoc)
  also have "\<dots> = 0" by (simp add: mask_eq_exp_minus_1)
  finally show ?thesis .
qed

lemma type_key_refines:
  assumes inv: "line_inv t" and ok: "keys_ok q" and code: "code < 128"
    and b: "scancode ! unat code = 0x08 \<longrightarrow> kb_buf_idx t \<noteq> 0"
  defines "checker \<equiv> scancode ! unat code" and "charac \<equiv> char_of_key (shifted q) (caps q) (unat code)"
  shows "\<exists>t'. type_key checker code q t = Some (q\<lparr>kb_mode := mode_of q\<rparr>, t') \<and> line_inv t' \<and> same_turn t t' \<and>
    typed t' = line_edit checker charac (typed t) \<and>
    keyboard_buffer t' =
      (if checker = 0x0A \<or> checker = 0x0D \<or> checker \<noteq> 0x08 \<and> unat (kb_buf_idx t) < 127 \<and> charac \<noteq> 0
       then (keyboard_buffer t)[unat (kb_buf_idx t) := charac] else keyboard_buffer t) \<and>
    command_list t' = command_list t \<and> command_total t' = command_total t"
proof -
  obtain t' where t': "edit_line checker charac (map_display t) = Some t'" "line_inv t'" "same_turn (map_display t) t'"
      "typed t' = line_edit checker charac (typed t)"
      "keyboard_buffer t' =
        (if checker = 0x0A \<or> checker = 0x0D \<or> checker \<noteq> 0x08 \<and> unat (kb_buf_idx t) < 127 \<and> charac \<noteq> 0
         then (keyboard_buffer t)[unat (kb_buf_idx t) := charac] else keyboard_buffer t)"
      "command_list t' = command_list t" "command_total t' = command_total t"
    using edit_line_refines [of "map_display t" checker charac] inv b unfolding checker_def by auto
  then show ?thesis
    using key_char [OF ok code] by (auto simp: type_key_def Let_def charac_def same_turn_def)
qed

lemma handler_types:
  assumes key: "typing_key code" and inv: "line_inv (ktty k)" and ok: "keys_ok q"
    and plain: "cur_altk (press_key code q) = 0" "cur_ctrl (press_key code q) = 0"
  defines "q1 \<equiv> press_key code q"
  defines "checker \<equiv> scancode ! unat code" and "charac \<equiv> char_of_key (shifted q1) (caps q1) (unat code)"
  shows "\<exists>m t. keyboard_handler l code q k = Some (Return 0, q1\<lparr>kb_mode := m\<rparr>, kb_eoi (k\<lparr>ktty := t\<rparr>)) \<and>
    m \<in> {0, 1, 2, 3} \<and> line_inv t \<and> same_turn (ktty k) t \<and> typed t = line_edit checker charac (typed (ktty k)) \<and>
    keyboard_buffer t =
      (if checker = 0x0A \<or> checker = 0x0D \<or> checker \<noteq> 0x08 \<and> unat (kb_buf_idx (ktty k)) < 127 \<and> charac \<noteq> 0
       then (keyboard_buffer (ktty k))[unat (kb_buf_idx (ktty k)) := charac] else keyboard_buffer (ktty k)) \<and>
    command_list t = command_list (ktty k) \<and> command_total t = command_total (ktty k)"
proof -
  have code: "code < 128" "code AND 0x80 = 0" "code \<noteq> 0x0F" "code \<noteq> 0x48" "code \<noteq> 0x50"
    using key typing_key_bit [of code] by (auto simp: typing_key_def)
  have ok1: "keys_ok q1" unfolding q1_def by (rule keys_ok_press [OF ok])
  have h: "keyboard_handler l code q k = pressed l checker code q1 k"
    using code(2-5) by (simp add: keyboard_handler_def checker_at checker_def q1_def)
  have m: "mode_of q1 \<in> {0, 1, 2, 3}" by (simp add: mode_of_eq [OF ok1])
  show ?thesis
  proof (cases "checker = 0x08 \<and> kb_buf_idx (ktty k) = 0")
    case True
    have "kb_mode q1 \<in> {0, 1, 2, 3}" using ok1 by (simp add: keys_ok_def)
    moreover have "q1\<lparr>kb_mode := kb_mode q1\<rparr> = q1" by simp
    moreover have "pressed l checker code q1 k = Some (Return 0, q1, kb_eoi k)" using True by (simp add: pressed_def)
    ultimately show ?thesis
      using h True inv by (intro exI [of _ "kb_mode q1"] exI [of _ "ktty k"]) (auto simp: typed_def line_edit_def)
  next
    case False
    obtain t where t: "type_key checker code q1 (ktty k) = Some (q1\<lparr>kb_mode := mode_of q1\<rparr>, t)" "line_inv t"
        "same_turn (ktty k) t" "typed t = line_edit checker charac (typed (ktty k))"
        "keyboard_buffer t =
          (if checker = 0x0A \<or> checker = 0x0D \<or> checker \<noteq> 0x08 \<and> unat (kb_buf_idx (ktty k)) < 127 \<and> charac \<noteq> 0
           then (keyboard_buffer (ktty k))[unat (kb_buf_idx (ktty k)) := charac] else keyboard_buffer (ktty k))"
        "command_list t = command_list (ktty k)" "command_total t = command_total (ktty k)"
      using type_key_refines [OF inv ok1 code(1)] False unfolding checker_def charac_def by blast
    have "pressed l checker code q1 k = Some (Return 0, q1\<lparr>kb_mode := mode_of q1\<rparr>, kb_eoi (k\<lparr>ktty := t\<rparr>))"
      using False plain t(1) by (auto simp: pressed_def control_key_def on_tty_def q1_def)
    then show ?thesis
      using h t m by (intro exI [of _ "mode_of q1"] exI [of _ t]) simp
  qed
qed

text \<open>
  With the modifiers: control and L starts from an empty line, and with the alternate key held nothing
  is typed.
\<close>

definition clears :: "u8 \<Rightarrow> keys \<Rightarrow> bool" where
  "clears code q \<longleftrightarrow> cur_ctrl q = 1 \<and> scancode ! unat code = of_char CHR ''l''"

definition key_edit :: "u8 \<Rightarrow> keys \<Rightarrow> u8 list \<Rightarrow> u8 list" where
  "key_edit code q line =
     (let line = (if clears code q then [] else line) in
      if cur_altk q = 1 then line
      else line_edit (scancode ! unat code) (char_of_key (shifted q) (caps q) (unat code)) line)"

lemma control_key_ok:
  assumes inv: "line_inv t" and c: "clears code q \<longrightarrow> video_mapped t \<and> enter_or_overflow t = 1"
  shows "\<exists>t'. control_key (scancode ! unat code) q t = Some t' \<and> line_inv t' \<and>
    typed t' = (if clears code q then [] else typed t) \<and> (\<not> clears code q \<longrightarrow> t' = t)"
proof (cases "clears code q")
  case False
  then show ?thesis using inv by (auto simp: control_key_def clears_def)
next
  case True
  have con: "console_inv (map_display t)" "length (keyboard_buffer t) = KB_BUF_SIZE" using inv by (simp_all add: line_inv_def)
  have r: "0 \<le> NUM_COLS * screen_y t + screen_x t" "NUM_COLS * screen_y t + screen_x t \<le> 2000"
    using con(1) by (auto simp: console_inv_def map_display_def)
  obtain v where v: "flush_screen t = Some ((new_cursor 0 0 (t\<lparr>vram := v\<rparr>))\<lparr>screen_x := 0, screen_y := 0\<rparr>)"
    using flush_screen_ok [OF _ r] True c by blast
  let ?t = "(new_cursor 0 0 (t\<lparr>vram := v\<rparr>))\<lparr>screen_x := 0, screen_y := 0, kb_buf_idx := 0\<rparr>"
  have "control_key (scancode ! unat code) q t = Some ?t" using v True by (simp add: control_key_def clears_def)
  moreover have "line_inv ?t"
    using con True c by (simp add: line_inv_def console_inv_def map_display_def new_cursor_def outb_csr_index_def
        outb_csr_data_def Let_def video_mapped_def video_frame_def)
  ultimately show ?thesis using True by (auto simp: typed_def)
qed

lemma handler_edits:
  assumes key: "typing_key code" and inv: "line_inv (ktty k)" and ok: "keys_ok q"
  defines "q1 \<equiv> press_key code q"
  assumes alt: "cur_altk q1 = 1 \<longrightarrow> code \<notin> {0x3B, 0x3C, 0x3D}"
    and c: "clears code q1 \<longrightarrow> video_mapped (ktty k) \<and> enter_or_overflow (ktty k) = 1"
  shows "\<exists>m t. keyboard_handler l code q k = Some (Return 0, q1\<lparr>kb_mode := m\<rparr>, kb_eoi (k\<lparr>ktty := t\<rparr>)) \<and>
    m \<in> {0, 1, 2, 3} \<and> line_inv t \<and> typed t = key_edit code q1 (typed (ktty k))"
proof -
  let ?checker = "scancode ! unat code"
  have code: "code < 128" "code AND 0x80 = 0" "code \<noteq> 0x0F" "code \<noteq> 0x48" "code \<noteq> 0x50"
    using key typing_key_bit [of code] by (auto simp: typing_key_def)
  have ok1: "keys_ok q1" unfolding q1_def by (rule keys_ok_press [OF ok])
  have h: "keyboard_handler l code q k = pressed l ?checker code q1 k"
    using code(2-5) by (simp add: keyboard_handler_def checker_at q1_def)
  have m: "kb_mode q1 \<in> {0, 1, 2, 3}" "mode_of q1 \<in> {0, 1, 2, 3}" "q1\<lparr>kb_mode := kb_mode q1\<rparr> = q1"
    using ok1 by (simp_all add: keys_ok_def mode_of_eq [OF ok1])
  have alt1: "cur_altk q1 = 0 \<or> cur_altk q1 = 1" using ok1 by (simp add: keys_ok_def flag_cases)
  have no_clear: "?checker = 0x08 \<Longrightarrow> \<not> clears code q1" by (simp add: clears_def)
  show ?thesis
  proof (cases "?checker = 0x08 \<and> kb_buf_idx (ktty k) = 0")
    case True
    then have "pressed l ?checker code q1 k = Some (Return 0, q1, kb_eoi k)" by (simp add: pressed_def)
    moreover have "key_edit code q1 (typed (ktty k)) = typed (ktty k)"
      using True no_clear by (simp add: key_edit_def typed_def line_edit_def)
    ultimately show ?thesis
      using h m inv by (intro exI [of _ "kb_mode q1"] exI [of _ "ktty k"]) simp
  next
    case False
    obtain t where t: "control_key ?checker q1 (ktty k) = Some t" "line_inv t"
        "typed t = (if clears code q1 then [] else typed (ktty k))" "\<not> clears code q1 \<longrightarrow> t = ktty k"
      using control_key_ok [OF inv c] by blast
    show ?thesis
    proof (cases "cur_altk q1 = 1")
      case True
      then have "pressed l ?checker code q1 k = Some (Return 0, q1, kb_eoi (k\<lparr>ktty := t\<rparr>))"
        using False t(1) alt by (auto simp: pressed_def on_tty_def)
      then show ?thesis
        using h m t True by (intro exI [of _ "kb_mode q1"] exI [of _ t]) (simp add: key_edit_def)
    next
      case no_alt: False
      have "?checker = 0x08 \<longrightarrow> kb_buf_idx t \<noteq> 0" using False t(4) no_clear by auto
      from type_key_refines [OF t(2) ok1 code(1) this] obtain t' where
        t': "type_key ?checker code q1 t = Some (q1\<lparr>kb_mode := mode_of q1\<rparr>, t')" "line_inv t'"
          "typed t' = line_edit ?checker (char_of_key (shifted q1) (caps q1) (unat code)) (typed t)"
        by blast
      have "pressed l ?checker code q1 k = Some (Return 0, q1\<lparr>kb_mode := mode_of q1\<rparr>, kb_eoi (k\<lparr>ktty := t'\<rparr>))"
        using False t(1) t'(1) no_alt by (auto simp: pressed_def on_tty_def)
      then show ?thesis
        using h m t(3) t'(2,3) no_alt by (intro exI [of _ "mode_of q1"] exI [of _ t']) (simp add: key_edit_def Let_def)
    qed
  qed
qed

section \<open>Successive keys\<close>

fun run_keys :: "kb_locals \<Rightarrow> u8 list \<Rightarrow> keys \<Rightarrow> kernel \<Rightarrow> (keys \<times> kernel) option" where
  "run_keys l [] q k = Some (q, k)"
| "run_keys l (code # codes) q k = do {
     (_, q, k) \<leftarrow> keyboard_handler l code q k;
     run_keys l codes q k
   }"

lemma run_keys_append:
  "run_keys l xs q k = Some (q', k') \<Longrightarrow> run_keys l (xs @ ys) q k = run_keys l ys q' k'"
  by (induction xs arbitrary: q k) (auto split: bind_splits)

text \<open>Keys of printable characters.\<close>

definition char_key :: "u8 \<Rightarrow> bool" where
  "char_key code \<longleftrightarrow> typing_key code \<and> scancode ! unat code \<notin> {0, 8, 10, 13}"

abbreviation key_of :: "keys \<Rightarrow> u8 \<Rightarrow> u8" where
  "key_of q code \<equiv> char_of_key (shifted q) (caps q) (unat code)"

lemma modifier_codes: "list_all (\<lambda>i. scancode ! i = 0) [0x3A, 0x1D, 0x36, 0x2A, 0x38]"
  by code_simp

lemma char_key_press: "char_key code \<Longrightarrow> press_key code q = q"
  using modifier_codes by (auto simp: char_key_def press_key_def Let_def)

lemma key_of_mode [simp]: "shifted (q\<lparr>kb_mode := m\<rparr>) = shifted q" "caps (q\<lparr>kb_mode := m\<rparr>) = caps q"
  by (simp_all add: shifted_def caps_def)

lemma ktty_eoi [simp]: "ktty (kb_eoi k) = ktty k"
  by (simp add: kb_eoi_def)

lemma length_typed: "line_inv t \<Longrightarrow> length (typed t) = unat (kb_buf_idx t)"
  by (simp add: line_inv_def typed_def)

lemma keys_ok_upd: "keys_ok q \<Longrightarrow> m \<in> {0, 1, 2, 3} \<Longrightarrow> keys_ok (q\<lparr>kb_mode := m\<rparr>)"
  by (simp add: keys_ok_def)

lemma char_key_types:
  assumes c: "char_key code" and inv: "line_inv (ktty k)" and q: "keys_ok q" "cur_altk q = 0" "cur_ctrl q = 0"
    and len: "length (typed (ktty k)) < 127"
  shows "\<exists>m t. keyboard_handler l code q k = Some (Return 0, q\<lparr>kb_mode := m\<rparr>, kb_eoi (k\<lparr>ktty := t\<rparr>)) \<and>
    m \<in> {0, 1, 2, 3} \<and> line_inv t \<and> same_turn (ktty k) t \<and> typed t = typed (ktty k) @ [key_of q code] \<and>
    keyboard_buffer t = (keyboard_buffer (ktty k))[length (typed (ktty k)) := key_of q code] \<and>
    command_list t = command_list (ktty k) \<and> command_total t = command_total (ktty k)"
proof -
  have code: "typing_key code" "unat code < 128" "scancode ! unat code \<notin> {0, 8, 10, 13}"
    using c code_below by (auto simp: char_key_def typing_key_def)
  then have ch: "key_of q code \<notin> {0, 10, 13}" by (intro table_row_chars(6))
  have p: "press_key code q = q" by (rule char_key_press [OF c])
  from handler_types [OF code(1) inv q(1), of l] q(2,3) ch code(3) len length_typed [OF inv]
  show ?thesis unfolding p by (auto simp: line_edit_def)
qed

lemma run_keys_types:
  assumes "list_all char_key codes" "line_inv (ktty k)" "keys_ok q" "cur_altk q = 0" "cur_ctrl q = 0"
    and "length (typed (ktty k)) + length codes \<le> 127"
  shows "\<exists>m k'. run_keys l codes q k = Some (q\<lparr>kb_mode := m\<rparr>, k') \<and> keys_ok (q\<lparr>kb_mode := m\<rparr>) \<and>
    line_inv (ktty k') \<and> same_turn (ktty k) (ktty k') \<and>
    typed (ktty k') = typed (ktty k) @ map (key_of q) codes \<and>
    keyboard_buffer (ktty k') = typed (ktty k') @ drop (length (typed (ktty k'))) (keyboard_buffer (ktty k)) \<and>
    command_list (ktty k') = command_list (ktty k) \<and> command_total (ktty k') = command_total (ktty k)"
  using assms
proof (induction codes arbitrary: q k)
  case Nil
  have "q\<lparr>kb_mode := kb_mode q\<rparr> = q" by simp
  moreover have "keyboard_buffer (ktty k) = typed (ktty k) @ drop (length (typed (ktty k))) (keyboard_buffer (ktty k))"
    using Nil.prems(2) by (simp add: typed_def line_inv_def)
  ultimately show ?case using Nil.prems by (intro exI [of _ "kb_mode q"] exI [of _ k]) simp
next
  case (Cons code codes)
  obtain m t where h: "keyboard_handler l code q k = Some (Return 0, q\<lparr>kb_mode := m\<rparr>, kb_eoi (k\<lparr>ktty := t\<rparr>))"
      "m \<in> {0, 1, 2, 3}" "line_inv t" "same_turn (ktty k) t" "typed t = typed (ktty k) @ [key_of q code]"
      "keyboard_buffer t = (keyboard_buffer (ktty k))[length (typed (ktty k)) := key_of q code]"
      "command_list t = command_list (ktty k)" "command_total t = command_total (ktty k)"
    using char_key_types [of code k q l] Cons.prems by auto
  have q: "keys_ok (q\<lparr>kb_mode := m\<rparr>)" by (rule keys_ok_upd [OF Cons.prems(3) h(2)])
  have prems: "list_all char_key codes" "length (typed t) + length codes \<le> 127"
    "cur_altk (q\<lparr>kb_mode := m\<rparr>) = 0" "cur_ctrl (q\<lparr>kb_mode := m\<rparr>) = 0"
    using Cons.prems(1,4-6) h(5) by simp_all
  have u: "q\<lparr>kb_mode := m, kb_mode := a\<rparr> = q\<lparr>kb_mode := a\<rparr>" for a by simp
  have t: "ktty (kb_eoi (k\<lparr>ktty := t\<rparr>)) = t" by simp
  note ih = Cons.IH [of "kb_eoi (k\<lparr>ktty := t\<rparr>)" "q\<lparr>kb_mode := m\<rparr>", unfolded t u key_of_mode,
      OF prems(1) h(3) q prems(3,4) prems(2)]
  obtain m' k' where r: "run_keys l codes (q\<lparr>kb_mode := m\<rparr>) (kb_eoi (k\<lparr>ktty := t\<rparr>)) = Some (q\<lparr>kb_mode := m'\<rparr>, k')"
      "keys_ok (q\<lparr>kb_mode := m'\<rparr>)" "line_inv (ktty k')" "same_turn t (ktty k')"
      "typed (ktty k') = typed t @ map (key_of q) codes"
      "keyboard_buffer (ktty k') = typed (ktty k') @ drop (length (typed (ktty k'))) (keyboard_buffer t)"
      "command_list (ktty k') = command_list t" "command_total (ktty k') = command_total t"
    using ih by (elim exE conjE) (rule that; assumption)
  have "drop (length (typed (ktty k'))) (keyboard_buffer t) = drop (length (typed (ktty k'))) (keyboard_buffer (ktty k))"
    unfolding h(6) r(5) h(5) by simp
  moreover have "run_keys l (code # codes) q k = Some (q\<lparr>kb_mode := m'\<rparr>, k')" using h(1) r(1) by simp
  ultimately show ?case
    using h(5,7,8) r(2,3,5-8) same_turn_trans [OF h(4) r(4)]
    by (intro exI [of _ m'] exI [of _ k'] conjI) simp_all
qed

text \<open>Enter puts a newline behind the line and starts the next one.\<close>

lemma enter_key_types:
  assumes inv: "line_inv (ktty k)" and q: "keys_ok q" "cur_altk q = 0" "cur_ctrl q = 0"
  shows "\<exists>m t. keyboard_handler l 0x1C q k = Some (Return 0, q\<lparr>kb_mode := m\<rparr>, kb_eoi (k\<lparr>ktty := t\<rparr>)) \<and>
    line_inv t \<and> same_turn (ktty k) t \<and> typed t = [] \<and>
    keyboard_buffer t = (keyboard_buffer (ktty k))[length (typed (ktty k)) := 0x0A] \<and>
    command_list t = command_list (ktty k) \<and> command_total t = command_total (ktty k)"
proof -
  have s: "scancode ! unat (0x1C :: u8) = 0x0A" by code_simp
  then have ch: "key_of q 0x1C = 0x0A" using table_row_chars(5) [of "unat (0x1C :: u8)"] by simp
  have p: "press_key 0x1C q = q" by (simp add: press_key_def Let_def)
  have "typing_key 0x1C" by (simp add: typing_key_def)
  from handler_types [OF this inv q(1), of l] q(2,3) s ch length_typed [OF inv]
  show ?thesis unfolding p by (auto simp: line_edit_def)
qed

text \<open>A line and Enter, on a cleared buffer, make a buffered line.\<close>

lemma type_line:
  assumes codes: "list_all char_key codes" "length codes < 127"
    and start: "line_inv (ktty k)" "kb_buf_idx (ktty k) = 0" "keyboard_buffer (ktty k) = replicate KB_BUF_SIZE 0"
    and q: "keys_ok q" "cur_altk q = 0" "cur_ctrl q = 0"
  obtains q' k' where "run_keys l (codes @ [0x1C]) q k = Some (q', k')" "same_turn (ktty k) (ktty k')"
    "line_buffered (keyboard_buffer (ktty k')) (map (key_of q) codes) []"
    "command_list (ktty k') = command_list (ktty k)" "command_total (ktty k') = command_total (ktty k)"
proof -
  let ?line = "map (key_of q) codes"
  have e: "typed (ktty k) = []" using start(2) by (simp add: typed_def)
  have len: "length (typed (ktty k)) + length codes \<le> 127" using e codes(2) by simp
  obtain m k1 where k1: "run_keys l codes q k = Some (q\<lparr>kb_mode := m\<rparr>, k1)" "keys_ok (q\<lparr>kb_mode := m\<rparr>)"
      "line_inv (ktty k1)" "same_turn (ktty k) (ktty k1)" "typed (ktty k1) = typed (ktty k) @ ?line"
      "keyboard_buffer (ktty k1) = typed (ktty k1) @ drop (length (typed (ktty k1))) (keyboard_buffer (ktty k))"
      "command_list (ktty k1) = command_list (ktty k)" "command_total (ktty k1) = command_total (ktty k)"
    using run_keys_types [OF codes(1) start(1) q len, of l] by (elim exE conjE) (rule that; assumption)
  have line: "typed (ktty k1) = ?line" using k1(5) e by simp
  have kb1: "keyboard_buffer (ktty k1) = ?line @ replicate (KB_BUF_SIZE - length codes) 0"
    using k1(6) unfolding line start(3) drop_replicate length_map .
  obtain m' t where t: "keyboard_handler l 0x1C (q\<lparr>kb_mode := m\<rparr>) k1 =
        Some (Return 0, q\<lparr>kb_mode := m'\<rparr>, kb_eoi (k1\<lparr>ktty := t\<rparr>))"
      "same_turn (ktty k1) t" "keyboard_buffer t = (keyboard_buffer (ktty k1))[length codes := 0x0A]"
      "command_list t = command_list (ktty k1)" "command_total t = command_total (ktty k1)"
    using enter_key_types [OF k1(3,2), of l] q(2,3) line by auto
  have run: "run_keys l (codes @ [0x1C]) q k = Some (q\<lparr>kb_mode := m'\<rparr>, kb_eoi (k1\<lparr>ktty := t\<rparr>))"
    using run_keys_append [OF k1(1), of "[0x1C]"] t(1) by simp
  have chars: "list_all line_char ?line"
    using codes(1) table_row_chars(6) code_below
    by (auto simp: list_all_iff char_key_def typing_key_def line_char_def)
  have r: "KB_BUF_SIZE - length codes = Suc (Suc (KB_BUF_SIZE - 2 - length codes))" using codes(2) by simp
  have kb: "line_buffered (keyboard_buffer t) ?line []"
    unfolding line_buffered_def using chars codes(2) kb1 t(3) r by (auto simp: list_update_append)
  have "same_turn (ktty k) t" by (rule same_turn_trans [OF k1(4) t(2)])
  then show ?thesis using kb k1(7,8) t(4,5) by (intro that [OF run]) simp_all
qed

section \<open>Properties\<close>

definition demo_keys :: keys where
  "demo_keys = \<lparr>cur_ctrl = 0, cur_rsft = 0, cur_lsft = 0, cur_cpsl = 0, cur_altk = 0, kb_mode = 0\<rparr>"

lemma demo_keys_ok [simp]: "keys_ok demo_keys" "cur_altk demo_keys = 0" "cur_ctrl demo_keys = 0"
    "shifted demo_keys = False" "caps demo_keys = False"
  by (simp_all add: keys_ok_def demo_keys_def shifted_def caps_def)

lemma demo_line_inv: "line_inv demo_tty" "typed demo_tty = []"
proof -
  have "map_display demo_tty = demo_tty\<lparr>page_table_vid := (\<lambda>_. 0xB8003)(VIDEO_FRAME := 0xB8007)\<rparr>"
    by (simp add: map_display_def video_entry_def demo_tty_def)
  then have "console_inv (map_display demo_tty)"
    by (simp add: console_inv_def video_mapped_def video_frame_def) (simp add: demo_tty_def)
  then show "line_inv demo_tty" "typed demo_tty = []" by (simp_all add: line_inv_def typed_def demo_tty_def)
qed

text \<open>
  C5. Pressing a key of the typewriter part edits the line as the abstract editor does: the backspace
  key removes the last character, Enter starts a new line, a printable key adds its character in the
  present mode while there are fewer than 127, every other key does nothing. With the alternate key held
  nothing is typed (and F1 to F3 do something else). Control and L first empties the line and then
  types its letter; this is said where the video page is mapped, and for a line that does not go on from
  the screen line above, since otherwise the cursor can leave the screen afterwards
  (\<open>clear_keeps_overflow\<close>). No key draws outside the screen, and a full or empty line is no exception.
\<close>

theorem key_edits_line:
  assumes "typing_key code" and "line_inv (ktty k)" and "keys_ok q" and q1: "q1 = press_key code q"
    and "cur_altk q1 = 1 \<longrightarrow> code \<notin> {0x3B, 0x3C, 0x3D}"
    and "clears code q1 \<longrightarrow> video_mapped (ktty k) \<and> enter_or_overflow (ktty k) = 1"
  shows "\<exists>q' k'. keyboard_handler l code q k = Some (Return 0, q', k') \<and> line_inv (ktty k') \<and> keys_ok q' \<and>
    typed (ktty k') = key_edit code q1 (typed (ktty k))"
proof -
  obtain m t where h: "keyboard_handler l code q k = Some (Return 0, q1\<lparr>kb_mode := m\<rparr>, kb_eoi (k\<lparr>ktty := t\<rparr>))"
      "m \<in> {0, 1, 2, 3}" "line_inv t" "typed t = key_edit code q1 (typed (ktty k))"
    using handler_edits [OF assms(1-3), of l] assms(5,6) unfolding q1 by blast
  have "keys_ok (q1\<lparr>kb_mode := m\<rparr>)" unfolding q1 by (rule keys_ok_upd [OF keys_ok_press [OF assms(3)] h(2)])
  then show ?thesis using h by auto
qed

theorem key_edits_line_witness:
  "\<forall>l. \<exists>q' k'. keyboard_handler l 0x1E demo_keys demo_kernel = Some (Return 0, q', k') \<and> typed (ktty k') = [0x61]"
proof
  fix l
  have "typing_key 0x1E" "press_key 0x1E demo_keys = demo_keys" "ktty demo_kernel = demo_tty"
    by (simp_all add: typing_key_def press_key_def Let_def demo_kernel_def)
  moreover have "scancode ! unat (0x1E :: u8) = 0x61" "char_of_key False False (unat (0x1E :: u8)) = 0x61" by code_simp+
  ultimately show "\<exists>q' k'. keyboard_handler l 0x1E demo_keys demo_kernel = Some (Return 0, q', k') \<and> typed (ktty k') = [0x61]"
    using key_edits_line [of "0x1E" demo_kernel demo_keys "press_key 0x1E demo_keys" l] demo_line_inv
    by (auto simp: line_edit_def key_edit_def clears_def)
qed

text \<open>
  C6. What is typed is what is read: the keys of a line of up to 126 printable characters, typed without
  control and alternate on a cleared buffer, followed by Enter, make a waiting \<open>terminal_read\<close> return
  exactly the characters of those keys and the newline, cut to the number of bytes asked for; the line
  goes into the history and the buffer is cleared for the next one. That is so for lines of fewer than 50
  characters while fewer than 50 are remembered. Any other line is stored behind its row of the
  history, which has 50 rows of 50 bytes and no check: in the model the read fails.
\<close>

theorem typed_line_is_read:
  assumes codes: "list_all char_key codes" "length codes < 127"
    and start: "line_inv (ktty k)" "kb_buf_idx (ktty k) = 0" "keyboard_buffer (ktty k) = replicate KB_BUF_SIZE 0"
    and q: "keys_ok q" "cur_altk q = 0" "cur_ctrl q = 0"
    and turn: "cur_display_terminal_id (ktty k) = of_nat (Suc s)" "terminal_now (ktty k) = int s" "s < 3"
    and hist: "0 \<le> command_total (ktty k) s" "\<forall>i < 50. length (command_list (ktty k) s i) = 50"
    and n: "0 \<le> num" "num < 2 ^ 31" "n = min (nat num) (Suc (length codes))" "n \<le> length buf"
  shows "\<exists>q' k'. run_keys l (codes @ [0x1C]) q k = Some (q', k') \<and>
    (if length codes < 50 \<and> command_total (ktty k) s < 50
     then \<exists>t. terminal_read irqs (Some buf) num (ktty k') =
         Some (Returns (int n, Some (take n (map (key_of q) codes @ [0x0A]) @ drop n buf), t)) \<and>
       keyboard_buffer t = replicate KB_BUF_SIZE 0 \<and>
       command_total t s = command_total (ktty k) s + 1 \<and>
       cstr (command_list t s (nat (command_total (ktty k) s))) = map (key_of q) codes
     else terminal_read irqs (Some buf) num (ktty k') = None)"
proof -
  let ?line = "map (key_of q) codes"
  obtain q' k' where k': "run_keys l (codes @ [0x1C]) q k = Some (q', k')" "same_turn (ktty k) (ktty k')"
      "line_buffered (keyboard_buffer (ktty k')) ?line []"
      "command_list (ktty k') = command_list (ktty k)" "command_total (ktty k') = command_total (ktty k)"
    by (rule type_line [OF codes start q])
  let ?t = "ktty k'"
  have same: "cur_display_terminal_id ?t = of_nat (Suc s)" "terminal_now ?t = int s"
    using turn k'(2) by (simp_all add: same_turn_def)
  show ?thesis
  proof (cases "length codes < 50 \<and> command_total (ktty k) s < 50")
    case True
    have "nat (command_total (ktty k) s) < 50" using True hist(1) by linarith
    then have h: "0 \<le> command_total ?t s" "command_total ?t s < 50"
        "length (command_list ?t s (nat (command_total ?t s))) = 50" "length ?line + length ([] :: u8 list) < 50"
      using hist True k'(4,5) by simp_all
    have m: "n = min (nat num) (Suc (length ?line))" using n(3) by simp
    obtain t' where t': "terminal_read irqs (Some buf) num ?t = Some (Returns (int n,
          Some (take n (?line @ [of_char CHR 0x0A]) @ drop n buf), t'))"
        "keyboard_buffer t' = replicate KB_BUF_SIZE 0" "command_total t' s = command_total ?t s + 1"
        "cstr (command_list t' s (nat (command_total ?t s))) = history_line ?line []"
      using terminal_read_eq [OF k'(3) same turn(3) h n(1,2) m n(4), of irqs]
      by (elim exE conjE) (rule that; assumption)
    then have "cstr (command_list t' s (nat (command_total (ktty k) s))) = ?line"
      unfolding k'(5) by (simp add: history_line_def)
    then show ?thesis
      using k'(1,5) t'(1-3) True by (intro exI [of _ q'] exI [of _ k']) auto
  next
    case False
    have "terminal_read irqs (Some buf) num ?t = None"
      using False hist(2) k'(4,5) by (intro terminal_read_overflow [OF k'(3) _ _ same turn(3)]) auto
    then show ?thesis using k'(1) False by (intro exI [of _ q'] exI [of _ k']) simp
  qed
qed

lemma demo_char_keys: "list_all char_key [0x26, 0x1F]" "key_of demo_keys 0x26 = 0x6C" "key_of demo_keys 0x1F = 0x73"
proof -
  have "scancode ! unat (0x26 :: u8) = 0x6C" "scancode ! unat (0x1F :: u8) = 0x73"
    "char_of_key False False (unat (0x26 :: u8)) = 0x6C" "char_of_key False False (unat (0x1F :: u8)) = 0x73" by code_simp+
  then show "list_all char_key [0x26, 0x1F]" "key_of demo_keys 0x26 = 0x6C" "key_of demo_keys 0x1F = 0x73"
    by (simp_all add: char_key_def typing_key_def)
qed

theorem typed_line_is_read_witness:
  "\<forall>l. \<exists>q' k' t. run_keys l ([0x26, 0x1F] @ [0x1C]) demo_keys demo_kernel = Some (q', k') \<and>
     terminal_read [] (Some (replicate 5 7)) 128 (ktty k') = Some (Returns (3, Some [0x6C, 0x73, 0x0A, 7, 7], t))"
proof
  fix l
  have k: "ktty demo_kernel = demo_tty" by (simp add: demo_kernel_def)
  have "kb_buf_idx demo_tty = 0" "keyboard_buffer demo_tty = replicate 128 0"
    "cur_display_terminal_id demo_tty = 1" "terminal_now demo_tty = 0" "command_total demo_tty 0 = 0"
    "\<forall>i < 50. length (command_list demo_tty 0 i) = 50"
    by (simp_all add: demo_tty_def)
  with typed_line_is_read [of "[0x26, 0x1F]" demo_kernel demo_keys 0 128 3 "replicate 5 7" l "[]"]
  show "\<exists>q' k' t. run_keys l ([0x26, 0x1F] @ [0x1C]) demo_keys demo_kernel = Some (q', k') \<and>
     terminal_read [] (Some (replicate 5 7)) 128 (ktty k') = Some (Returns (3, Some [0x6C, 0x73, 0x0A, 7, 7], t))"
    using demo_char_keys demo_line_inv k by (auto simp: numeral_eq_Suc)
qed

text \<open>
  C39. The modifier flags stay 0 or 1 and the mode stays a row of the table, whatever scan codes arrive
  and whatever the handler does on them. The mode of a pressed key is the row of its modifiers, 1 for
  shift plus 2 for caps lock, and neither the look at the plain row, which every code takes, nor the look
  at that row, which a pressed key takes, leaves the table.
\<close>

theorem modifiers_stay_bits:
  assumes ok: "keys_ok q" and q1: "q1 = press_key code q"
  shows "keys_ok q1 \<and> keys_ok (release_key code q) \<and>
    (\<forall>c q' k'. keyboard_handler l code q k = Some (c, q', k') \<longrightarrow> keys_ok q') \<and>
    unat code < length scancode \<and> scancode_at 0 code = Some (scancode ! unat code) \<and>
    mode_of q1 = (if cur_lsft q1 = 1 \<or> cur_rsft q1 = 1 then 1 else 0) + (if cur_cpsl q1 = 1 then 2 else 0) \<and>
    (code < 128 \<longrightarrow> 128 * nat (mode_of q1) + unat code < length scancode \<and>
       scancode_at (mode_of q1) code = Some (scancode ! (128 * nat (mode_of q1) + unat code)))"
proof (intro conjI allI impI)
  show k1: "keys_ok q1" unfolding q1 by (rule keys_ok_press [OF ok])
  show "keys_ok (release_key code q)" by (rule keys_ok_release [OF ok])
  have "unat code < 256" using unsigned_less [of code] by simp
  then show "unat code < length scancode" by (simp add: length_scancode)
  show "scancode_at 0 code = Some (scancode ! unat code)" by (rule checker_at)
  show m: "mode_of q1 = (if cur_lsft q1 = 1 \<or> cur_rsft q1 = 1 then 1 else 0) + (if cur_cpsl q1 = 1 then 2 else 0)"
    using mode_of_eq [OF k1] by (simp add: shifted_def caps_def)
  then have row: "mode_of q1 \<in> {0, 1, 2, 3}" by auto
  show "scancode_at (mode_of q1) code = Some (scancode ! (128 * nat (mode_of q1) + unat code))" if "code < 128"
    by (rule scancode_at_row [OF row that])
  show "128 * nat (mode_of q1) + unat code < length scancode" if "code < 128"
    using row code_below [OF that] by (auto simp: length_scancode)
  show "keys_ok q'" if "keyboard_handler l code q k = Some (c, q', k')" for c q' k'
    using that ok k1 keys_ok_release [OF ok, of code] keys_ok_mode [OF k1] q1
    by (auto simp: keyboard_handler_def pressed_def on_tty_def type_key_def Let_def split: bind_splits if_splits)
qed

theorem modifiers_stay_bits_witness:
  "mode_of (press_key 0x2A (demo_keys\<lparr>cur_rsft := 1, cur_cpsl := 1\<rparr>)) = 3 \<and>
   scancode_at 3 0x2A = Some (scancode ! 426)"
proof -
  have "keys_ok (demo_keys\<lparr>cur_rsft := 1, cur_cpsl := 1\<rparr>)" by (simp add: keys_ok_def demo_keys_def)
  from modifiers_stay_bits [OF this refl, where code = "0x2A" and l = undefined and k = undefined]
  show ?thesis by (auto simp: press_key_def demo_keys_def Let_def)
qed

text \<open>
  The four rows of the table agree with one reference: Shift selects the upper character of every
  key, and Caps Lock exchanges the case of letters and of nothing else.
\<close>

theorem table_matches_modifiers:
  assumes "keys_ok q" "code < 128"
  shows "scancode_at (mode_of q) code = Some (char_of_key (shifted q) (caps q) (unat code))"
  by (rule key_char [OF assms])

theorem table_matches_modifiers_witness:
  "scancode_at (mode_of (demo_keys\<lparr>cur_cpsl := 1, cur_lsft := 1\<rparr>)) 0x1E =
     Some (char_of_key True True (unat (0x1E :: u8)))"
proof -
  have "keys_ok (demo_keys\<lparr>cur_cpsl := 1, cur_lsft := 1\<rparr>)" by (simp add: keys_ok_def demo_keys_def)
  from table_matches_modifiers [OF this, of "0x1E"] show ?thesis by (simp add: shifted_def caps_def)
qed

end
