(* ===== verification/Completion.thy ===== *)
theory Completion
  imports Keyboard Syscall_Props
begin

text \<open>
  Completion of file names by the keyboard handler: the loop over the directory ends, and it keeps the
  name exactly when it is the only one with the typed prefix.
\<close>

section \<open>Reading the directory through the system call\<close>








section \<open>One name\<close>





section \<open>The loop\<close>




definition with_prefix :: "u8 list \<Rightarrow> nat \<Rightarrow> u8 list list \<Rightarrow> u8 list list" where
  "with_prefix copy n names = filter (\<lambda>nm. take n nm = take n copy) names"

lemma with_prefix_simps [simp]:
  "with_prefix copy n [] = []"
  "with_prefix copy n (nm # names) =
     (if take n nm = take n copy then nm # with_prefix copy n names else with_prefix copy n names)"
  by (simp_all add: with_prefix_def)


section \<open>Property\<close>





end
