(* ===== verification/Printf_Props.thy ===== *)
theory Printf_Props
  imports Console_Props Console_Frame
begin

text \<open>
  \<open>printf\<close> never faults when its arguments match its format: the conversions stay inside the local
  buffers, whatever number they print, and the console keeps its invariant.
\<close>

section \<open>Numerals\<close>

lemma itoa_text:
  assumes r: "2 \<le> radix" "radix \<le> 36" and v: "unat v < nat radix ^ n" and n: "0 < n" "n < length buf"
  shows "\<exists>s. itoa v buf radix = Some s \<and> length s = length buf \<and> nul_terminated s \<and> length (cstr s) \<le> n \<and>
    parse_numeral (nat radix) (cstr s) = unat v"
proof -
  let ?d = "decimal_of (nat radix) (unat v)"
  have len: "length ?d \<le> n" by (rule length_decimal_of [OF v n(1)])
  have c: "cstr (?d @ 0 # x) = ?d" for x
    by (rule cstr_append_nul [OF decimal_of_nonzero]) (use r in auto)
  have "itoa v buf radix = Some (?d @ 0 # drop (Suc (length ?d)) buf)"
    by (rule itoa_eq [OF r]) (use len n in linarith)
  then show ?thesis
    using len n c parse_decimal_of [of "nat radix" "unat v"] r by (simp add: nul_terminated_def)
qed

lemma word_digits: "unat (v :: u32) < 16 ^ 8" "unat v < 10 ^ 10" "2 \<le> r \<Longrightarrow> unat v < r ^ 32"
proof -
  have v: "unat v < 2 ^ 32" using unsigned_less [of v] by simp
  then show "unat v < 16 ^ 8" "unat v < 10 ^ 10" by simp_all
  assume "2 \<le> r"
  then have "2 ^ 32 \<le> r ^ 32" by (rule power_mono) simp
  with v show "unat v < r ^ 32" by simp
qed

section \<open>Strings\<close>

lemma puts_loop_inv:
  "console_inv t \<Longrightarrow> nul_terminated (drop i s) \<Longrightarrow>
   \<exists>t'. puts_loop s i t = Some (i + length (cstr (drop i s)), t') \<and> console_inv t'"
proof (induction s i t rule: puts_loop.induct)
  case (1 s i t)
  have i: "i < length s" using 1(3) by (cases "i < length s") (simp_all add: nul_terminated_def)
  note d = drop_Cons_nth [OF i]
  show ?case
  proof (cases "s ! i = 0")
    case True
    then show ?thesis using 1(2) i d by (subst puts_loop.simps) (simp add: buf_simps cstr_def)
  next
    case False
    obtain t1 where p: "putc_modf (s ! i) t = Some t1" "console_inv t1"
      using putc_modf_inv [OF 1(2)] by blast
    have n: "nul_terminated (drop (Suc i) s)" using 1(3) False unfolding d by (simp add: nul_terminated_def)
    show ?thesis
      using 1(1) [OF _ False p(1) p(2) n] i False p(1) d
      by (subst puts_loop.simps) (simp add: buf_simps cstr_def)
  qed
qed

lemma puts_inv:
  "console_inv t \<Longrightarrow> nul_terminated s \<Longrightarrow> \<exists>t'. puts s t = Some (length (cstr s), t') \<and> console_inv t'"
  using puts_loop_inv [of t 0 s] by (simp add: puts_def)

section \<open>Conversions\<close>

lemma zero_fill_ok:
  "8 < length b \<Longrightarrow> i \<le> 8 \<Longrightarrow> \<exists>b'. zero_fill b i = Some b' \<and> length b' = length b \<and> drop 8 b' = drop 8 b"
proof (induction b i rule: zero_fill.induct)
  case (1 b i)
  show ?case
  proof (cases "i < 8")
    case True
    let ?b = "b[i := of_char CHR ''0'']"
    have "\<exists>b'. zero_fill ?b (Suc i) = Some b' \<and> length b' = length ?b \<and> drop 8 b' = drop 8 ?b"
      by (rule 1(1)) (use True 1(2) in \<open>simp_all add: buf_simps\<close>)
    then show ?thesis using True 1(2) by (subst zero_fill.simps) (simp add: buf_simps)
  next
    case False
    then show ?thesis by (subst zero_fill.simps) simp
  qed
qed

lemma hex_conversion_ok:
  assumes b: "length b = 64"
  shows "\<exists>s. hex_conversion b alternate w = Some s \<and> nul_terminated s"
proof (cases alternate)
  case False
  then show ?thesis using itoa_text [of 16 w 8 b] word_digits(1) [of w] b by (auto simp: hex_conversion_def)
next
  case True
  obtain h where h: "itoa w (drop 8 b) 16 = Some h" "length h = 56" "nul_terminated h" "length (cstr h) \<le> 8"
    using itoa_text [of 16 w 8 "drop 8 b"] word_digits(1) [of w] b by auto
  let ?i = "length (cstr h)"
  obtain z where z: "zero_fill (take 8 b @ h) ?i = Some z" "drop 8 z = h"
    using zero_fill_ok [of "take 8 b @ h" ?i] h b by auto
  have "drop (8 - ?i) (drop ?i z) = h" using h(4) z(2) by simp
  then have "nul_terminated (drop ?i z)"
    using h(3) by (metis in_set_dropD nul_terminated_def)
  with True h z show ?thesis by (simp add: hex_conversion_def)
qed

lemma int_conversion_ok:
  assumes b: "length b = 36"
  shows "\<exists>s. int_conversion b w = Some s \<and> nul_terminated s"
proof (cases "w <s 0")
  case True
  have "b \<noteq> []" using b by auto
  then have t: "length (tl (b[0 := c])) = 35" for c using b by simp
  show ?thesis
    using itoa_text [of 10 "- w" 10 "tl (b[0 := of_char CHR ''-''])"] word_digits(2) [of "- w"] t True b
    by (auto simp: int_conversion_def buf_simps nul_terminated_def)
next
  case False
  then show ?thesis
    using itoa_text [of 10 w 10 b] word_digits(2) [of w] b by (auto simp: int_conversion_def)
qed

section \<open>Formats\<close>

text \<open>Every conversion of the format finds an argument of its type; strings end in a NUL.\<close>

fun fits :: "u8 list \<Rightarrow> parg list \<Rightarrow> bool"
  and fits_conv :: "u8 list \<Rightarrow> parg list \<Rightarrow> bool" where
  "fits [] args = False"
| "fits (c # fmt) args =
     (if c = 0 then True else if c = of_char CHR ''%'' then fits_conv fmt args else fits fmt args)"
| "fits_conv [] args = False"
| "fits_conv (c # fmt) args =
     (if c = of_char CHR ''#'' then fits_conv fmt args
      else if c \<in> {of_char CHR ''x'', of_char CHR ''u'', of_char CHR ''d'', of_char CHR ''c''}
      then (case next_word args of Some (w, args) \<Rightarrow> fits fmt args | None \<Rightarrow> False)
      else if c = of_char CHR ''s''
      then (case next_string args of Some (s, args) \<Rightarrow> nul_terminated s \<and> fits fmt args | None \<Rightarrow> False)
      else fits fmt args)"

definition converted :: "u8 list \<Rightarrow> bool \<Rightarrow> u8 list \<Rightarrow> parg list \<Rightarrow> tty \<Rightarrow> bool" where
  "converted b alternate fmt args t \<longleftrightarrow>
     (\<exists>n args' t'. format_char_switch b alternate fmt args t = Some (n, args', t') \<and> console_inv t' \<and>
        n \<le> length fmt \<and> fits (drop n fmt) args')"

lemma conversion_cases [case_names sharp hex unsigned signed char string percent other]:
  obtains "c = of_char CHR ''#''" | "c = of_char CHR ''x''" | "c = of_char CHR ''u''" | "c = of_char CHR ''d''"
    | "c = of_char CHR ''c''" | "c = of_char CHR ''s''" | "c = of_char CHR ''%''"
    | "c \<notin> of_char ` {CHR ''#'', CHR ''x'', CHR ''u'', CHR ''d'', CHR ''c'', CHR ''s'', CHR ''%''}"
  by blast

lemma format_char_switch_ok:
  assumes b: "length b = 64"
  shows "fits_conv fmt args \<Longrightarrow> console_inv t \<Longrightarrow> converted b alternate fmt args t"
proof (induction fmt arbitrary: alternate)
  case (Cons c fmt)
  have u: "length (take 36 b) = 36" using b by simp
  have put: "\<exists>t'. putc_modf x t = Some t' \<and> console_inv t'" for x by (rule putc_modf_inv [OF Cons(3)])
  have puts: "nul_terminated s \<Longrightarrow> \<exists>n t'. puts s t = Some (n, t') \<and> console_inv t'" for s
    using puts_inv [OF Cons(3), of s] by blast
  show ?case
  proof (cases c rule: conversion_cases)
    case sharp
    with Cons(2) have "fits_conv fmt args" by simp
    from Cons(1) [OF this Cons(3), of True] sharp show ?thesis by (auto simp: converted_def)
  next
    case hex
    then obtain w args' where a: "next_word args = Some (w, args')" "fits fmt args'"
      using Cons(2) by (auto split: option.splits)
    obtain s where "hex_conversion b alternate w = Some s" "nul_terminated s"
      using hex_conversion_ok [OF b] by blast
    with hex a puts [of s] show ?thesis by (auto simp: converted_def)
  next
    case unsigned
    then obtain w args' where a: "next_word args = Some (w, args')" "fits fmt args'"
      using Cons(2) by (auto split: option.splits)
    obtain s where "itoa w (take 36 b) 10 = Some s" "nul_terminated s"
      using itoa_text [of 10 w 10 "take 36 b"] word_digits(2) [of w] b by auto
    with unsigned a puts [of s] show ?thesis by (auto simp: converted_def)
  next
    case signed
    then obtain w args' where a: "next_word args = Some (w, args')" "fits fmt args'"
      using Cons(2) by (auto split: option.splits)
    obtain s where "int_conversion (take 36 b) w = Some s" "nul_terminated s"
      using int_conversion_ok [OF u] by blast
    with signed a puts [of s] show ?thesis by (auto simp: converted_def)
  next
    case char
    then obtain w args' where a: "next_word args = Some (w, args')" "fits fmt args'"
      using Cons(2) by (auto split: option.splits)
    with char put [of "ucast w"] show ?thesis by (auto simp: converted_def)
  next
    case string
    then obtain s args' where a: "next_string args = Some (s, args')" "nul_terminated s" "fits fmt args'"
      using Cons(2) by (auto split: option.splits)
    with string puts [of s] show ?thesis by (auto simp: converted_def)
  next
    case percent
    with Cons(2) put [of c] show ?thesis by (auto simp: converted_def)
  next
    case other
    with Cons(2,3) show ?thesis by (auto simp: converted_def)
  qed
qed simp

lemma printf_loop_ok:
  assumes b: "length b = 64"
  shows "fits (drop i fmt) args \<Longrightarrow> console_inv t \<Longrightarrow>
    \<exists>n t'. printf_loop b fmt i args t = Some (n, t') \<and> console_inv t'"
proof (induction "length fmt - i" arbitrary: i args t rule: less_induct)
  case less
  have i: "i < length fmt" using less(2) by (cases "i < length fmt") simp_all
  note d = drop_Cons_nth [OF i]
  consider "fmt ! i = 0" | "fmt ! i = of_char CHR ''%''" | "fmt ! i \<noteq> 0" "fmt ! i \<noteq> of_char CHR ''%''" by blast
  then show ?case
  proof cases
    case 1
    then show ?thesis using less(3) i by (subst printf_loop.simps) (simp add: buf_simps)
  next
    case 2
    then have "fits_conv (drop (Suc i) fmt) args" using less(2) unfolding d by simp
    from format_char_switch_ok [OF b this less(3), of False]
    obtain n args' t' where f: "format_char_switch b False (drop (Suc i) fmt) args t = Some (n, args', t')"
        "console_inv t'" "fits (drop (Suc i + n) fmt) args'"
      by (auto simp: converted_def add.commute)
    have "\<exists>n' t''. printf_loop b fmt (Suc i + n) args' t' = Some (n', t'') \<and> console_inv t''"
      by (rule less(1)) (use i f in simp_all)
    then show ?thesis using 2 i f(1) by (subst printf_loop.simps) (simp add: buf_simps)
  next
    case 3
    obtain t' where p: "putc_modf (fmt ! i) t = Some t'" "console_inv t'"
      using putc_modf_inv [OF less(3)] by blast
    have "\<exists>n' t''. printf_loop b fmt (Suc i) args t' = Some (n', t'') \<and> console_inv t''"
      by (rule less(1)) (use i p less(2) 3 in \<open>simp_all add: d\<close>)
    then show ?thesis using 3 i p(1) by (subst printf_loop.simps) (simp add: buf_simps)
  qed
qed

lemma printf_inv:
  "length b = 64 \<Longrightarrow> fits fmt args \<Longrightarrow> console_inv t \<Longrightarrow>
   \<exists>n t'. printf b fmt args t = Some (n, t') \<and> console_inv t'"
  using printf_loop_ok [of b 0 fmt args t] by (simp add: printf_def)

text \<open>What \<open>printf\<close> leaves alone.\<close>

lemma format_char_switch_input:
  "format_char_switch b alternate fmt args t = Some (n, args', t') \<Longrightarrow> same_input t t'"
proof (induction fmt arbitrary: alternate n)
  case (Cons c fmt)
  show ?case
  proof (cases c rule: conversion_cases)
    case sharp
    with Cons show ?thesis by (auto split: bind_splits)
  qed (use Cons(2) in \<open>auto split: bind_splits dest: putc_modf_input puts_input\<close>)
qed simp

lemma printf_input: "printf b fmt args t = Some (n, t') \<Longrightarrow> same_input t t'"
proof -
  have "printf_loop b fmt i args t = Some (n, t') \<Longrightarrow> same_input t t'" for i
  proof (induction b fmt i args t rule: printf_loop.induct)
    case (1 b fmt i args t)
    note run = 1(3) [unfolded printf_loop.simps [of b fmt i]]
    show ?case
    proof (cases "buf_get fmt i")
      case None
      with run show ?thesis by simp
    next
      case (Some c)
      show ?thesis
      proof (cases "c = of_char CHR ''%''")
        case False
        show ?thesis
        proof (cases "c = 0")
          case True
          with run Some show ?thesis by simp
        next
          case nz: False
          with run Some False obtain t1 where p: "putc_modf c t = Some t1" and r: "printf_loop b fmt (Suc i) args t1 = Some (n, t')"
            by (auto split: option.splits)
          show ?thesis
            by (rule same_input_trans [OF putc_modf_input [OF p]]) (use 1(2) [OF Some nz False p r] in simp)
        qed
      next
        case True
        with run Some obtain m args1 t1 where f: "format_char_switch b False (drop (Suc i) fmt) args t = Some (m, args1, t1)"
            and r: "printf_loop b fmt (Suc i + m) args1 t1 = Some (n, t')"
          by (auto split: option.splits)
        show ?thesis
          by (rule same_input_trans [OF format_char_switch_input [OF f]]) (use 1(1) [OF Some _ _ f refl refl r] True in simp)
      qed
    qed
  qed
  then show "printf b fmt args t = Some (n, t') \<Longrightarrow> ?thesis" by (simp add: printf_def)
qed

text \<open>
  C35. A conversion stays inside its buffer: for every radix from 2 to 36, \<open>itoa\<close> writes at most 32
  digits and a NUL for any 32-bit number, and the digits it leaves are the numeral of that number.
\<close>

theorem itoa_stays_in_buffer:
  assumes "2 \<le> radix" "radix \<le> 36" "32 < length buf"
  shows "\<exists>s. itoa v buf radix = Some s \<and> length s = length buf \<and> nul_terminated s \<and> length (cstr s) \<le> 32 \<and>
    parse_numeral (nat radix) (cstr s) = unat v"
  by (rule itoa_text [OF assms(1,2) word_digits(3) _ assms(3)]) (use assms in auto)

theorem itoa_stays_in_buffer_witness:
  "\<exists>s. itoa 0xFFFFFFFF (replicate 33 7) 2 = Some s \<and> length s = 33 \<and> length (cstr s) \<le> 32"
  using itoa_stays_in_buffer [of 2 "replicate 33 7" "0xFFFFFFFF"] by auto

text \<open>
  C29. \<open>printf\<close> is safe: if every conversion of the format has an argument of its type and every string
  ends in a NUL, then no store leaves the conversion buffer or the screen and the console keeps its
  invariant.
\<close>

theorem printf_safe:
  assumes "length conv_buf = 64" "fits fmt args" "console_inv t"
  shows "\<exists>n t'. printf conv_buf fmt args t = Some (n, t') \<and> console_inv t'"
  by (rule printf_inv [OF assms])

theorem printf_safe_witness:
  "\<exists>n t'. printf (replicate 64 0) (ascii ''EAX: 0x%#x %s%d'' @ [0])
     [Word_Arg 0xFFFFFFFF, Str_Arg [0x61, 0], Word_Arg 0x80000000] demo_tty = Some (n, t') \<and> console_inv t'"
  by (rule printf_safe) (simp_all add: nul_terminated_def)

end
