(* ===== verification/Idt.thy ===== *)
theory Idt
  imports Kernel_Steps Printf_Props
begin

text \<open>
  The interrupt descriptor table and the report of exceptions, \<open>student-distrib/idt.c\<close> with the
  macros of \<open>x86_desc.h\<close> and the stack frame that the stubs of \<open>exception_wrap.S\<close> build. The address
  of each assembly stub is a parameter. Loading the table register (\<open>lidt\<close>) is left out.
\<close>

section \<open>Descriptors\<close>

abbreviation "NUM_VEC \<equiv> 256 :: nat"
abbreviation "NUM_EXCEPT \<equiv> 20 :: nat"
abbreviation "KERNEL_CS \<equiv> 0x10 :: u16"
abbreviation "KEYBOARD_VECTOR \<equiv> 0x21 :: nat"
abbreviation "RTC_VECTOR \<equiv> 0x28 :: nat"
abbreviation "PIT_VECTOR \<equiv> 0x20 :: nat"
abbreviation "SYSCALL \<equiv> 0x80 :: nat"

record idt_desc_t =
  offset_15_00 :: u16
  seg_selector :: u16
  reserved4 :: u8
  reserved3 :: "1 word"
  reserved2 :: "1 word"
  reserved1 :: "1 word"
  gate_size :: "1 word"
  reserved0 :: "1 word"
  dpl :: "2 word"
  gate_present :: "1 word"
  offset_31_16 :: u16

definition SET_IDT_ENTRY :: "u32 \<Rightarrow> idt_desc_t \<Rightarrow> idt_desc_t" where
  "SET_IDT_ENTRY handler str =
     str\<lparr>offset_31_16 := ucast (drop_bit 16 (handler AND 0xFFFF0000)), offset_15_00 := ucast (handler AND 0xFFFF)\<rparr>"

datatype stub =
  divide_zero | step_debug | nmi | breakpoint | overflow | out_bound | opcode_fault | coprocessor_fault |
  double_fault | segment_overrun | invalid_tss | segment_not_present | stack_segment_fault | protection_fault |
  page_fault | floating_point | alignment | machine_fault | SIMD_fault |
  rtc_wrap | syscall_stub | keyboard_wrap | pit_wrap

section \<open>Setting up the table\<close>

definition idt_blank :: "nat \<Rightarrow> idt_desc_t \<Rightarrow> idt_desc_t" where
  "idt_blank u d =
     (let d = (if u < NUM_EXCEPT \<and> u \<noteq> 0xF then d\<lparr>gate_present := 1, reserved3 := 0, dpl := 0\<rparr>
               else d\<lparr>gate_present := 0\<rparr>)
      in d\<lparr>seg_selector := KERNEL_CS, dpl := 0, reserved4 := 0, reserved2 := 1, reserved1 := 1, reserved0 := 0,
           gate_size := 1\<rparr>)"

function idt_loop :: "nat \<Rightarrow> (nat \<Rightarrow> idt_desc_t) \<Rightarrow> nat \<Rightarrow> idt_desc_t" where
  "idt_loop u idt = (if u < NUM_VEC then idt_loop (Suc u) (idt(u := idt_blank u (idt u))) else idt)"
  by pat_completeness auto
termination by (relation "measure (\<lambda>(u, idt). NUM_VEC - u)") auto

declare idt_loop.simps [simp del]

text \<open>The stubs in the order of the calls of \<open>SET_IDT_ENTRY\<close>.\<close>

definition idt_stubs :: "(nat \<times> stub) list" where
  "idt_stubs =
     [(0, divide_zero), (1, step_debug), (2, nmi), (3, breakpoint), (4, overflow), (5, out_bound),
      (6, opcode_fault), (7, coprocessor_fault), (8, double_fault), (9, segment_overrun), (10, invalid_tss),
      (11, segment_not_present), (12, stack_segment_fault), (13, protection_fault), (14, page_fault),
      (16, floating_point), (17, alignment), (18, machine_fault), (19, SIMD_fault),
      (RTC_VECTOR, rtc_wrap), (SYSCALL, syscall_stub), (KEYBOARD_VECTOR, keyboard_wrap),
      (PIT_VECTOR, pit_wrap), (KEYBOARD_VECTOR, keyboard_wrap)]"

definition install_stubs ::
    "(stub \<Rightarrow> u32) \<Rightarrow> (nat \<times> stub) list \<Rightarrow> (nat \<Rightarrow> idt_desc_t) \<Rightarrow> nat \<Rightarrow> idt_desc_t" where
  "install_stubs addr stubs idt = fold (\<lambda>(v, s) idt. idt(v := SET_IDT_ENTRY (addr s) (idt v))) stubs idt"

definition idt_init :: "(stub \<Rightarrow> u32) \<Rightarrow> (nat \<Rightarrow> idt_desc_t) \<Rightarrow> nat \<Rightarrow> idt_desc_t" where
  "idt_init addr idt =
     (let idt = install_stubs addr idt_stubs (idt_loop 0 idt);
          idt = idt(KEYBOARD_VECTOR := (idt KEYBOARD_VECTOR)\<lparr>gate_present := 1, reserved3 := 1, dpl := 1\<rparr>);
          idt = idt(PIT_VECTOR := (idt PIT_VECTOR)\<lparr>gate_present := 1, reserved3 := 1, dpl := 0\<rparr>);
          idt = idt(RTC_VECTOR := (idt RTC_VECTOR)\<lparr>gate_present := 1, reserved3 := 1, dpl := 0\<rparr>)
      in idt(SYSCALL := (idt SYSCALL)\<lparr>gate_present := 1, dpl := 3, reserved3 := 0\<rparr>))"

section \<open>What the processor makes of a descriptor\<close>

text \<open>The eight bytes of the union, bit fields from the lowest bit up.\<close>

definition idt_val :: "idt_desc_t \<Rightarrow> 64 word" where
  "idt_val d = ucast (offset_15_00 d) OR push_bit 16 (ucast (seg_selector d)) OR push_bit 32 (ucast (reserved4 d)) OR
     push_bit 40 (ucast (reserved3 d)) OR push_bit 41 (ucast (reserved2 d)) OR push_bit 42 (ucast (reserved1 d)) OR
     push_bit 43 (ucast (gate_size d)) OR push_bit 44 (ucast (reserved0 d)) OR push_bit 45 (ucast (dpl d)) OR
     push_bit 47 (ucast (gate_present d)) OR push_bit 48 (ucast (offset_31_16 d))"

datatype gate_type = Interrupt_gate | Trap_gate | Other_gate

text \<open>
  The fields the processor reads: the type in bits 40 to 44, the privilege level in 45 and 46, the
  present bit 47, the selector and the offset. An interrupt gate masks interrupts on entry, a trap
  gate does not.
\<close>

definition gate_type_of :: "64 word \<Rightarrow> gate_type" where
  "gate_type_of g =
     (let t = drop_bit 40 g AND 0x1F in if t = 0xE then Interrupt_gate else if t = 0xF then Trap_gate else Other_gate)"

definition gate_present_of :: "64 word \<Rightarrow> bool" where
  "gate_present_of g \<longleftrightarrow> drop_bit 47 g AND 1 = 1"

definition gate_dpl_of :: "64 word \<Rightarrow> nat" where
  "gate_dpl_of g = unat (drop_bit 45 g AND 3)"

definition gate_entry_of :: "64 word \<Rightarrow> u32" where
  "gate_entry_of g = ucast (g AND 0xFFFF) OR push_bit 16 (ucast (drop_bit 48 g))"

text \<open>The software interrupt \<open>int v\<close> at privilege level \<open>cpl\<close>: the address entered, or a fault.\<close>

definition software_int :: "(nat \<Rightarrow> idt_desc_t) \<Rightarrow> nat \<Rightarrow> nat \<Rightarrow> u32 option" where
  "software_int idt cpl v =
     (let g = idt_val (idt v) in
      if v < NUM_VEC \<and> gate_present_of g \<and> cpl \<le> gate_dpl_of g \<and> gate_type_of g \<noteq> Other_gate
      then Some (gate_entry_of g) else None)"

section \<open>Reports of exceptions\<close>

text \<open>The order of the fields is that of the source, which is not the order \<open>pushal\<close> leaves in memory.\<close>

record x86_register =
  r_esi :: u32
  r_edi :: u32
  r_ebp :: u32
  r_esp :: u32
  r_edx :: u32
  r_ebx :: u32
  r_ecx :: u32
  r_eax :: u32

definition exceptions_name :: "string list" where
  "exceptions_name =
     [''divide_zero'', ''step_debug'', ''nmi'', ''breakpoint'', ''overflow'', ''out_bound'', ''opcode_fault'',
      ''coprocessor_fault'', ''double_fault'', ''segment_overrun'', ''invalid_tss'', ''segment_not_present'',
      ''stack_segment_fault'', ''protection_fault'', ''page_fault'', ''reserved'', ''floating point'',
      ''alignment'', ''machine_fault'', ''SIMD_fault'']"

abbreviation cstring :: "string \<Rightarrow> u8 list" where
  "cstring s \<equiv> ascii s @ [0]"

type_synonym print_call = "u8 list \<times> parg list"

definition print_head :: "u32 \<Rightarrow> print_call list" where
  "print_head ident =
     (if ident < 20
      then [(cstring '' The exception  :%s '', [Str_Arg (cstring (exceptions_name ! unat ident)),
              Str_Arg (cstring '' happened'' @ [0x0A, 0])])]
      else [(0x0A # ascii ''  A system call happens'' @ 0x0A # cstring '' '', [])])"

definition print_registers :: "u32 \<Rightarrow> x86_register \<Rightarrow> print_call list" where
  "print_registers flag regs =
     [(ascii '' EAX: 0x%#x, EBX: 0x%#x '' @ 0x0A # cstring '' '', [Word_Arg (r_eax regs), Word_Arg (r_ebx regs)]),
      (ascii '' ECX: 0x%#x, EDX: 0x%#x '' @ [0x0A, 0], [Word_Arg (r_ecx regs), Word_Arg (r_edx regs)]),
      (ascii '' ESI: 0x%#x, EDI: 0x%#x '' @ 0x0A # cstring '' '', [Word_Arg (r_esi regs), Word_Arg (r_edi regs)]),
      (ascii '' EBP: 0x%#x, ESP: 0x%#x '' @ 0x0A # cstring '' '', [Word_Arg (r_ebp regs), Word_Arg (r_esp regs)]),
      (ascii '' The EFLAGS is : %#x '' @ [0x0A, 0], [Word_Arg flag])]"

definition line_of :: "string \<Rightarrow> print_call" where
  "line_of s = (ascii s @ [0x0A, 0], [])"

definition print_error :: "u32 \<Rightarrow> u32 \<Rightarrow> print_call list" where
  "print_error ident error_code =
     (if ident = 0x0A \<or> ident = 0x0B \<or> ident = 0x0C \<or> ident = 0x0D
      then [if error_code AND 1 \<noteq> 0 then line_of '' external'' else line_of '' internal'',
            if error_code AND 2 \<noteq> 0 then line_of '' IDT''
            else if error_code AND 4 \<noteq> 0 then line_of '' LDT'' else line_of '' GDT'',
            (ascii '' selector index: 0x%#x '' @ [0x0A, 0], [Word_Arg (drop_bit 3 error_code)])]
      else if ident = 0x0E
      then [if error_code AND 1 \<noteq> 0
            then (0x0A # ascii '' This exception was due to a not-present page '' @ [0x0A, 0], [])
            else (0x0A # ascii ''  This exception was due to an access rights violation '' @ 0x0A #
                    ascii '' or the use of a reserved bit '' @ [0x0A, 0], []),
            (0x0A # ascii (if error_code AND 2 \<noteq> 0 then '' It is write caused the exception''
                           else '' It is read caused the exception'') @ [0x0A, 0], []),
            (if error_code AND 4 \<noteq> 0
             then (0x0A # ascii '' The processor was executing at user mode '' @ 0x0A # cstring '' '', [])
             else (0x0A # ascii '' The processor was executing at supervisor mode'' @ 0x0A # cstring '' '', [])),
            (0x0A # ascii (if error_code AND 8 \<noteq> 0
                           then '' The fault was caused by reserved bits set to 1 in a page directory''
                           else '' The fault was not caused by reserved bit violation '') @ [0x0A, 0], [])]
      else [])"

fun print_all :: "u8 list \<Rightarrow> print_call list \<Rightarrow> tty \<Rightarrow> tty option" where
  "print_all conv_buf [] t = Some t"
| "print_all conv_buf ((fmt, args) # calls) t = do {
     (_, t) \<leftarrow> printf conv_buf fmt args t;
     print_all conv_buf calls t
   }"

definition exception_handler ::
    "u8 list \<Rightarrow> u32 \<Rightarrow> u32 \<Rightarrow> x86_register \<Rightarrow> u32 \<Rightarrow> kernel \<Rightarrow> (control \<times> kernel) option" where
  "exception_handler conv_buf ident flag regs error_code k = do {
     t \<leftarrow> print_all conv_buf (print_head ident @ print_registers flag regs @ print_error ident error_code) (ktty k);
     halt 255 (k\<lparr>ktty := t\<rparr>)
   }"

text \<open>
  The frame a stub builds, from the top of the stack: the vector, the registers in the order \<open>pushal\<close>
  leaves them, the flags and the error code (pushed by the processor, or a zero pushed by the stub).
  The C function reads its arguments from consecutive words.
\<close>

record cpu =
  c_eax :: u32
  c_ecx :: u32
  c_edx :: u32
  c_ebx :: u32
  c_esp :: u32
  c_ebp :: u32
  c_esi :: u32
  c_edi :: u32
  c_eflags :: u32

definition has_error_code :: "u32 \<Rightarrow> bool" where
  "has_error_code ident \<longleftrightarrow> ident \<in> {0x08, 0x0A, 0x0B, 0x0C, 0x0D, 0x0E, 0x11}"

definition exception_frame :: "u32 \<Rightarrow> cpu \<Rightarrow> u32 \<Rightarrow> u32 list" where
  "exception_frame ident c err =
     [ident, c_edi c, c_esi c, c_ebp c, c_esp c, c_ebx c, c_edx c, c_ecx c, c_eax c, c_eflags c,
      if has_error_code ident then err else 0]"

definition exception_wrap :: "u8 list \<Rightarrow> u32 \<Rightarrow> cpu \<Rightarrow> u32 \<Rightarrow> kernel \<Rightarrow> (control \<times> kernel) option" where
  "exception_wrap conv_buf ident c err k =
     (let s = exception_frame ident c err in
      exception_handler conv_buf (s ! 0) (s ! 1)
        \<lparr>r_esi = s ! 2, r_edi = s ! 3, r_ebp = s ! 4, r_esp = s ! 5, r_edx = s ! 6, r_ebx = s ! 7,
         r_ecx = s ! 8, r_eax = s ! 9\<rparr> (s ! 10) k)"

end
