(* ===== verification/Boot.thy ===== *)
theory Boot
  imports Idt Keyboard
begin

text \<open>
  The C entry point of the kernel, \<open>student-distrib/kernel.c\<close>: the report of the multiboot structure,
  the descriptors of the LDT and of the task state, the order of the initialisations, and the first
  shell. The assembly that runs before it (\<open>boot.S\<close>) and the final wait loop are left out.

  The multiboot structure is given with what its pointers lead to: the command line, the modules with
  their first 16 bytes and the file system image they hold, and the entries the walk over the memory
  map meets. Addresses the linker chooses are the fields of \<open>boot_env\<close>.
\<close>

section \<open>Segment descriptors\<close>

record seg_desc_t =
  seg_lim_15_00 :: u16
  base_15_00 :: u16
  base_23_16 :: u8
  seg_type :: "4 word"
  seg_sys :: "1 word"
  seg_dpl :: "2 word"
  seg_present :: "1 word"
  seg_lim_19_16 :: "4 word"
  seg_avail :: "1 word"
  seg_reserved :: "1 word"
  opsize :: "1 word"
  granularity :: "1 word"
  base_31_24 :: u8

definition SET_SEG_PARAMS :: "u32 \<Rightarrow> u32 \<Rightarrow> seg_desc_t \<Rightarrow> seg_desc_t" where
  "SET_SEG_PARAMS addr lim str =
     str\<lparr>base_31_24 := ucast (drop_bit 24 (addr AND 0xFF000000)), base_23_16 := ucast (drop_bit 16 (addr AND 0xFF0000)),
        base_15_00 := ucast (addr AND 0xFFFF), seg_lim_19_16 := ucast (drop_bit 16 (lim AND 0xF0000)),
        seg_lim_15_00 := ucast (lim AND 0xFFFF)\<rparr>"

definition the_ldt_desc :: "u32 \<Rightarrow> u32 \<Rightarrow> seg_desc_t \<Rightarrow> seg_desc_t" where
  "the_ldt_desc addr lim d =
     SET_SEG_PARAMS addr lim (d\<lparr>granularity := 0, opsize := 1, seg_reserved := 0, seg_avail := 0, seg_present := 1,
       seg_dpl := 0, seg_sys := 0, seg_type := 2\<rparr>)"

definition the_tss_desc :: "u32 \<Rightarrow> u32 \<Rightarrow> seg_desc_t \<Rightarrow> seg_desc_t" where
  "the_tss_desc addr lim d =
     SET_SEG_PARAMS addr lim (d\<lparr>granularity := 0, opsize := 0, seg_reserved := 0, seg_avail := 0,
       seg_lim_19_16 := ucast (104 AND 0xF0000 :: u32), seg_present := 1, seg_dpl := 0, seg_sys := 0, seg_type := 9,
       seg_lim_15_00 := ucast (104 AND 0xFFFF :: u32)\<rparr>)"

section \<open>The multiboot structure\<close>

record elf_section_header_table_t =
  elf_num :: u32
  elf_size :: u32
  elf_addr :: u32
  elf_shndx :: u32

record module_t =
  mod_start :: u32
  mod_end :: u32
  mod_bytes :: "u8 list"                \<comment> \<open>the first 16 bytes\<close>
  mod_image :: "boot_blk_t \<times> (nat \<Rightarrow> inode_t) \<times> (nat \<Rightarrow> data_blk_t)"

record memory_map_t =
  mm_size :: u32
  base_addr_low :: u32
  base_addr_high :: u32
  length_low :: u32
  length_high :: u32
  mm_type :: u32

record multiboot_info_t =
  mb_flags :: u32
  mem_lower :: u32
  mem_upper :: u32
  boot_device :: u32
  cmdline :: "u8 list"
  mods :: "module_t list"
  elf_sec :: elf_section_header_table_t
  mmap_length :: u32
  mmap_addr :: u32
  mmap_entries :: "memory_map_t list"

abbreviation "MULTIBOOT_BOOTLOADER_MAGIC \<equiv> 0x2BADB002 :: u32"

definition CHECK_FLAG :: "u32 \<Rightarrow> nat \<Rightarrow> bool" where
  "CHECK_FLAG flags b \<longleftrightarrow> flags AND push_bit b 1 \<noteq> 0"

section \<open>The report\<close>

definition print_module :: "nat \<Rightarrow> module_t \<Rightarrow> print_call list" where
  "print_module mod_count m =
     [(ascii ''Module %d loaded at address: 0x%#x'' @ [0x0A, 0], [Word_Arg (of_nat mod_count), Word_Arg (mod_start m)]),
      (ascii ''Module %d ends at address: 0x%#x'' @ [0x0A, 0], [Word_Arg (of_nat mod_count), Word_Arg (mod_end m)]),
      line_of ''First few bytes of module:''] @
     map (\<lambda>b. (cstring ''0x%x '', [Word_Arg (scast b)])) (mod_bytes m) @ [line_of '''']"

fun print_modules :: "nat \<Rightarrow> module_t list \<Rightarrow> print_call list" where
  "print_modules mod_count [] = []"
| "print_modules mod_count (m # ms) = print_module mod_count m @ print_modules (Suc mod_count) ms"

definition print_flags :: "multiboot_info_t \<Rightarrow> print_call list" where
  "print_flags mbi =
     [(ascii ''flags = 0x%#x'' @ [0x0A, 0], [Word_Arg (mb_flags mbi)])] @
     (if CHECK_FLAG (mb_flags mbi) 0
      then [(ascii ''mem_lower = %uKB, mem_upper = %uKB'' @ [0x0A, 0], [Word_Arg (mem_lower mbi), Word_Arg (mem_upper mbi)])]
      else []) @
     (if CHECK_FLAG (mb_flags mbi) 1
      then [(ascii ''boot_device = 0x%#x'' @ [0x0A, 0], [Word_Arg (boot_device mbi)])] else []) @
     (if CHECK_FLAG (mb_flags mbi) 2
      then [(ascii ''cmdline = %s'' @ [0x0A, 0], [Str_Arg (cmdline mbi)])] else []) @
     (if CHECK_FLAG (mb_flags mbi) 3 then print_modules 0 (mods mbi) else [])"

definition print_memory_map :: "memory_map_t \<Rightarrow> print_call" where
  "print_memory_map e =
     (ascii ''    size = 0x%x, base_addr = 0x%#x%#x'' @ 0x0A # ascii ''    type = 0x%x,  length    = 0x%#x%#x'' @ [0x0A, 0],
      [Word_Arg (mm_size e), Word_Arg (base_addr_high e), Word_Arg (base_addr_low e), Word_Arg (mm_type e),
       Word_Arg (length_high e), Word_Arg (length_low e)])"

definition print_tables :: "multiboot_info_t \<Rightarrow> print_call list" where
  "print_tables mbi =
     (if CHECK_FLAG (mb_flags mbi) 5
      then [(ascii ''elf_sec: num = %u, size = 0x%#x, addr = 0x%#x, shndx = 0x%#x'' @ [0x0A, 0],
             [Word_Arg (elf_num (elf_sec mbi)), Word_Arg (elf_size (elf_sec mbi)), Word_Arg (elf_addr (elf_sec mbi)),
              Word_Arg (elf_shndx (elf_sec mbi))])]
      else []) @
     (if CHECK_FLAG (mb_flags mbi) 6
      then (ascii ''mmap_addr = 0x%#x, mmap_length = 0x%x'' @ [0x0A, 0], [Word_Arg (mmap_addr mbi), Word_Arg (mmap_length mbi)])
           # map print_memory_map (mmap_entries mbi)
      else [])"

section \<open>entry\<close>

record machine =
  mk :: kernel
  mkeys :: keys
  midt :: "nat \<Rightarrow> idt_desc_t"
  mtimer :: "(nat \<times> u8) list"
  ldt_desc_ptr :: seg_desc_t
  tss_desc_ptr :: seg_desc_t
  ldt_segment_selector :: u16

record boot_env =
  stub_addr :: "stub \<Rightarrow> u32"
  vid_table_addr :: u32
  ldt_addr :: u32
  ldt_size :: u32
  tss_addr :: u32
  tss_size :: u32
  b_ldt :: seg_desc_t                   \<comment> \<open>the uninitialised locals\<close>
  b_tss :: seg_desc_t
  b_conv_buf :: "u8 list"
  b_exec :: exec_locals

text \<open>Before paging is on, the video memory is at its physical address.\<close>

definition unpaged :: "(tty \<Rightarrow> tty option) \<Rightarrow> tty \<Rightarrow> tty option" where
  "unpaged f t = do {
     t' \<leftarrow> f (t\<lparr>page_table_vid := (\<lambda>i. of_nat i * 0x1000 + 1)\<rparr>);
     Some (t'\<lparr>page_table_vid := page_table_vid t\<rparr>)
   }"

text \<open>The module loop leaves the start of the last module; without one \<open>boot_blk_ptr\<close> is not initialised.\<close>

definition boot_blk_ptr :: "multiboot_info_t \<Rightarrow> (boot_blk_t \<times> (nat \<Rightarrow> inode_t) \<times> (nat \<Rightarrow> data_blk_t)) option" where
  "boot_blk_ptr mbi =
     (if CHECK_FLAG (mb_flags mbi) 3 \<and> mods mbi \<noteq> [] then Some (mod_image (List.last (mods mbi))) else None)"

definition init_tables :: "boot_env \<Rightarrow> machine \<Rightarrow> machine" where
  "init_tables e m =
     m\<lparr>ldt_desc_ptr := the_ldt_desc (ldt_addr e) (ldt_size e) (b_ldt e),
       tss_desc_ptr := the_tss_desc (tss_addr e) (tss_size e) (b_tss e),
       ldt_segment_selector := 0x38,
       mk := (mk m)\<lparr>tss_ss0 := KERNEL_DS, tss_esp0 := 0x800000\<rparr>,
       midt := idt_init (stub_addr e) (midt m)\<rparr>"

definition init_devices :: "boot_env \<Rightarrow> multiboot_info_t \<Rightarrow> machine \<Rightarrow> machine option" where
  "init_devices e mbi m =
     (let k = (mk m)\<lparr>kpic := i8259_init (kpic (mk m))\<rparr> in do {
        (blk, inodes, blocks) \<leftarrow> boot_blk_ptr mbi;
        fs \<leftarrow> init_filesys blk inodes blocks (kfs k);
        (let k = k\<lparr>kfs := fs, ktty := paging_init (vid_table_addr e) (ktty k)\<rparr> in do {
           (rtc, pic) \<leftarrow> rtc_init (krtc k, kpic k);
           (let (q, pic) = keyboard_init (mkeys m) pic in do {
              k \<leftarrow> terminal_init (k\<lparr>krtc := rtc, kpic := pic\<rparr>);
              (let (timer, pic) = pit_init (kpic k) in
               Some (m\<lparr>mk := k\<lparr>kpic := pic\<rparr>, mkeys := q, mtimer := timer\<rparr>))
           })
        })
      })"

text \<open>Everything before the first program; \<open>Inl\<close> is an early return, to the halt loop of \<open>boot.S\<close>.\<close>

definition boot :: "boot_env \<Rightarrow> u32 \<Rightarrow> multiboot_info_t \<Rightarrow> machine \<Rightarrow> (machine + machine) option" where
  "boot e magic mbi m =
     (let report = (\<lambda>calls. unpaged (print_all (b_conv_buf e) calls));
          with_tty = (\<lambda>t m. m\<lparr>mk := (mk m)\<lparr>ktty := t\<rparr>\<rparr>) in do {
        t \<leftarrow> unpaged clear (ktty (mk m));
        (if magic \<noteq> MULTIBOOT_BOOTLOADER_MAGIC then do {
           t \<leftarrow> report [(ascii ''Invalid magic number: 0x%#x'' @ [0x0A, 0], [Word_Arg magic])] t;
           Some (Inl (with_tty t m))
         }
         else do {
           t \<leftarrow> report (print_flags mbi) t;
           (if CHECK_FLAG (mb_flags mbi) 4 \<and> CHECK_FLAG (mb_flags mbi) 5 then do {
              t \<leftarrow> report [line_of ''Both bits 4 and 5 are set.''] t;
              Some (Inl (with_tty t m))
            }
            else do {
              t \<leftarrow> report (print_tables mbi) t;
              m \<leftarrow> init_devices e mbi (init_tables e (with_tty t m));
              t \<leftarrow> print_all (b_conv_buf e) [line_of ''Enabling Interrupts''] (ktty (mk m));
              t \<leftarrow> clear t;
              Some (Inr (with_tty t m))
            })
         })
      })"

definition entry :: "boot_env \<Rightarrow> u32 \<Rightarrow> multiboot_info_t \<Rightarrow> machine \<Rightarrow> (control option \<times> machine) option" where
  "entry e magic mbi m = do {
     r \<leftarrow> boot e magic mbi m;
     (case r of
        Inl m \<Rightarrow> Some (None, m)
      | Inr m \<Rightarrow> do {
          (c, k) \<leftarrow> execute (b_exec e) shell (mk m);
          Some (Some c, m\<lparr>mk := k\<rparr>)
        })
   }"

end
