(* ===== verification/Idt_Props.thy ===== *)
theory Idt_Props
  imports Idt
begin

text \<open>
  What the processor finds in the table \<open>idt_init\<close> builds, and what becomes of a program that raises
  an exception.
\<close>

section \<open>Fields of a descriptor\<close>

lemma no_bit: "LENGTH('a) \<le> n \<Longrightarrow> \<not> bit (w :: 'a::len word) n"
  using bit_imp_le_length [of w n] by linarith

lemma one_bit [simp]: "bit (w :: 1 word) 0 \<longleftrightarrow> w = 1"
proof
  assume b: "bit w 0"
  show "w = 1" by (rule bit_word_eqI) (use b in \<open>simp add: bit_simps\<close>)
qed simp

lemma bit_idt_val:
  "bit (idt_val d) n \<longleftrightarrow>
     (if n < 16 then bit (offset_15_00 d) n else if n < 32 then bit (seg_selector d) (n - 16)
      else if n < 40 then bit (reserved4 d) (n - 32) else if n = 40 then bit (reserved3 d) 0
      else if n = 41 then bit (reserved2 d) 0 else if n = 42 then bit (reserved1 d) 0
      else if n = 43 then bit (gate_size d) 0 else if n = 44 then bit (reserved0 d) 0
      else if n < 47 then bit (dpl d) (n - 45) else if n = 47 then bit (gate_present d) 0
      else bit (offset_31_16 d) (n - 48))"
proof -
  have "n < 64" if "bit (offset_31_16 d) (n - 48)"
  proof -
    have "n - 48 < 16" using bit_imp_le_length [OF that] by simp
    then show ?thesis by linarith
  qed
  then show ?thesis by (simp add: idt_val_def bit_simps no_bit) (auto simp: no_bit)
qed

lemma present_of_val: "gate_present_of (idt_val d) \<longleftrightarrow> gate_present d = 1"
proof -
  have "gate_present_of (idt_val d) \<longleftrightarrow> bit (idt_val d) 47"
    by (simp add: gate_present_of_def and_one_eq bit_iff_odd_drop_bit odd_iff_mod_2_eq_one)
  then show ?thesis by (simp add: bit_idt_val)
qed

lemma dpl_of_val: "gate_dpl_of (idt_val d) = unat (dpl d)"
proof -
  have "drop_bit 45 (idt_val d) AND mask 2 = (ucast (dpl d) :: 64 word)"
    by (rule bit_word_eqI) (auto simp: bit_simps bit_idt_val no_bit simp del: mask_numeral)
  moreover have "unat (dpl d) < 2 ^ LENGTH(2)" by (rule unsigned_less)
  ultimately show ?thesis
    by (simp add: gate_dpl_of_def mask_eq_exp_minus_1 unsigned_ucast_eq take_bit_nat_eq_self)
qed

lemma type_of_val:
  assumes "reserved2 d = 1" "reserved1 d = 1" "gate_size d = 1" "reserved0 d = 0"
  shows "gate_type_of (idt_val d) = (if reserved3 d = 1 then Trap_gate else Interrupt_gate)"
proof -
  have "drop_bit 40 (idt_val d) AND mask 5 = (if reserved3 d = 1 then 0xF else 0xE :: 64 word)"
  proof (rule bit_word_eqI)
    fix n :: nat assume "n < LENGTH(64)"
    have hi: "\<not> bit (15 :: 64 word) n" "\<not> bit (14 :: 64 word) n" if "5 \<le> n"
    proof -
      have "(15 :: 64 word) = mask 4" "(14 :: 64 word) = push_bit 1 (mask 3)" by (simp_all add: mask_eq_exp_minus_1)
      then show "\<not> bit (15 :: 64 word) n" "\<not> bit (14 :: 64 word) n"
        using that by (auto simp only: bit_mask_iff bit_push_bit_iff)
    qed
    consider "n = 0" | "n = 1" | "n = 2" | "n = 3" | "n = 4" | "5 \<le> n" by linarith
    then show "bit (drop_bit 40 (idt_val d) AND mask 5) n = bit (if reserved3 d = 1 then 0xF else 0xE :: 64 word) n"
      by cases (use assms hi in \<open>simp_all add: bit_simps bit_idt_val no_bit del: mask_numeral\<close>)
  qed
  then show ?thesis by (simp add: gate_type_of_def mask_eq_exp_minus_1)
qed

lemma entry_of_val: "gate_entry_of (idt_val (SET_IDT_ENTRY h d)) = h"
proof (rule bit_word_eqI)
  fix n :: nat assume n: "n < LENGTH(32)"
  have m: "(0xFFFF :: 64 word) = mask 16" "(0xFFFF :: 32 word) = mask 16" "(0xFFFF0000 :: 32 word) = push_bit 16 (mask 16)"
    by (simp_all add: mask_eq_exp_minus_1)
  have hi: "n - 16 < 16" "n - 16 < 32" using n by auto
  show "bit (gate_entry_of (idt_val (SET_IDT_ENTRY h d))) n = bit h n"
    unfolding gate_entry_of_def SET_IDT_ENTRY_def m using n hi
    by (cases "n < 16") (simp_all add: bit_idt_val bit_simps del: mask_numeral push_bit_mask_eq)
qed

section \<open>The whole table\<close>

lemma idt_loop_eq: "idt_loop u idt v = (if u \<le> v \<and> v < NUM_VEC then idt_blank v (idt v) else idt v)"
proof (induction u idt rule: idt_loop.induct)
  case (1 u idt)
  show ?case
  proof (cases "u < NUM_VEC")
    case True
    have "idt_loop u idt v = idt_loop (Suc u) (idt(u := idt_blank u (idt u))) v"
      using True by (simp only: idt_loop.simps [of u idt] if_True)
    also have "\<dots> = (if Suc u \<le> v \<and> v < NUM_VEC then idt_blank v ((idt(u := idt_blank u (idt u))) v)
        else (idt(u := idt_blank u (idt u))) v)"
      by (rule 1 [OF True])
    finally show ?thesis using True by auto
  next
    case False
    then show ?thesis by (subst idt_loop.simps) auto
  qed
qed

lemma install_stubs_eq:
  "install_stubs addr stubs idt v =
     (case map_of (rev stubs) v of None \<Rightarrow> idt v | Some s \<Rightarrow> SET_IDT_ENTRY (addr s) (idt v))"
proof (induction stubs rule: rev_induct)
  case (snoc x stubs)
  then show ?case
    by (cases x) (auto simp: install_stubs_def SET_IDT_ENTRY_def split: option.splits)
qed (simp add: install_stubs_def)

definition stub_at :: "nat \<Rightarrow> stub option" where
  "stub_at v = map_of (rev idt_stubs) v"

lemma stub_at_iff:
  "stub_at v \<noteq> None \<longleftrightarrow> v < NUM_EXCEPT \<and> v \<noteq> 15 \<or> v \<in> {PIT_VECTOR, KEYBOARD_VECTOR, RTC_VECTOR, SYSCALL}"
proof -
  have s: "stub_at v \<noteq> None \<longleftrightarrow> v \<in> fst ` set idt_stubs"
    by (simp add: stub_at_def map_of_eq_None_iff)
  have "\<forall>v \<in> set [0..<NUM_EXCEPT]. v \<noteq> 15 \<longrightarrow> v \<in> fst ` set idt_stubs" by code_simp
  moreover have "{PIT_VECTOR, KEYBOARD_VECTOR, RTC_VECTOR, SYSCALL} \<subseteq> fst ` set idt_stubs" by (simp add: idt_stubs_def)
  moreover have "fst ` set idt_stubs \<subseteq> {v. v < NUM_EXCEPT \<and> v \<noteq> 15} \<union> {PIT_VECTOR, KEYBOARD_VECTOR, RTC_VECTOR, SYSCALL}"
    by (simp add: idt_stubs_def)
  ultimately show ?thesis unfolding s by fastforce
qed

definition stub_entry :: "(stub \<Rightarrow> u32) \<Rightarrow> nat \<Rightarrow> idt_desc_t \<Rightarrow> idt_desc_t" where
  "stub_entry addr v d = (case stub_at v of None \<Rightarrow> d | Some s \<Rightarrow> SET_IDT_ENTRY (addr s) d)"

lemma stub_entry_sel [simp]:
  "reserved3 (stub_entry addr v d) = reserved3 d" "reserved2 (stub_entry addr v d) = reserved2 d"
  "reserved1 (stub_entry addr v d) = reserved1 d" "gate_size (stub_entry addr v d) = gate_size d"
  "reserved0 (stub_entry addr v d) = reserved0 d" "dpl (stub_entry addr v d) = dpl d"
  "gate_present (stub_entry addr v d) = gate_present d"
  by (simp_all add: stub_entry_def SET_IDT_ENTRY_def split: option.split)

lemma idt_init_entry:
  "idt_init addr idt v =
     (let d = stub_entry addr v (if v < NUM_VEC then idt_blank v (idt v) else idt v) in
      if v = SYSCALL then d\<lparr>gate_present := 1, dpl := 3, reserved3 := 0\<rparr>
      else if v = KEYBOARD_VECTOR then d\<lparr>gate_present := 1, reserved3 := 1, dpl := 1\<rparr>
      else if v = PIT_VECTOR \<or> v = RTC_VECTOR then d\<lparr>gate_present := 1, reserved3 := 1, dpl := 0\<rparr>
      else d)"
  by (simp add: idt_init_def install_stubs_eq idt_loop_eq [of 0 idt] stub_entry_def stub_at_def Let_def cong: option.case_cong)

lemma low_mask: "(0xFFFF :: 64 word) = mask 16"
  by (simp add: mask_eq_exp_minus_1)

lemma entry_upd [simp]:
  "gate_entry_of (idt_val (d\<lparr>gate_present := a, dpl := b, reserved3 := e\<rparr>)) = gate_entry_of (idt_val d)"
  "gate_entry_of (idt_val (d\<lparr>gate_present := a, reserved3 := e, dpl := b\<rparr>)) = gate_entry_of (idt_val d)"
proof -
  have g: "gate_entry_of (idt_val x) = gate_entry_of (idt_val y)"
    if "offset_15_00 x = offset_15_00 y" "offset_31_16 x = offset_31_16 y" for x y
  proof -
    have "bit (gate_entry_of (idt_val x)) n = bit (gate_entry_of (idt_val y)) n" if "n < 32" for n
    proof -
      have "n - 16 < 16" using \<open>n < 32\<close> by auto
      then show ?thesis using that \<open>offset_15_00 x = _\<close> \<open>offset_31_16 x = _\<close>
        unfolding gate_entry_of_def low_mask
        by (cases "n < 16") (simp_all add: bit_idt_val bit_simps del: mask_numeral)
    qed
    then show ?thesis by (intro bit_word_eqI) simp
  qed
  show "gate_entry_of (idt_val (d\<lparr>gate_present := a, dpl := b, reserved3 := e\<rparr>)) = gate_entry_of (idt_val d)"
    "gate_entry_of (idt_val (d\<lparr>gate_present := a, reserved3 := e, dpl := b\<rparr>)) = gate_entry_of (idt_val d)"
    by (rule g; simp)+
qed

lemma blank_sel:
  "reserved2 (idt_blank v d) = 1" "reserved1 (idt_blank v d) = 1" "gate_size (idt_blank v d) = 1"
  "reserved0 (idt_blank v d) = 0" "dpl (idt_blank v d) = 0"
  "gate_present (idt_blank v d) = (if v < NUM_EXCEPT \<and> v \<noteq> 15 then 1 else 0)"
  "v < NUM_EXCEPT \<and> v \<noteq> 15 \<Longrightarrow> reserved3 (idt_blank v d) = 0"
  by (simp_all add: idt_blank_def Let_def)

lemma idt_init_present:
  "v < NUM_VEC \<Longrightarrow> gate_present_of (idt_val (idt_init addr idt v)) \<longleftrightarrow> stub_at v \<noteq> None"
  unfolding stub_at_iff by (auto simp: idt_init_entry present_of_val blank_sel Let_def)

lemma idt_init_gate:
  assumes "v < NUM_VEC" "stub_at v = Some s"
  shows "gate_entry_of (idt_val (idt_init addr idt v)) = addr s"
    and "gate_type_of (idt_val (idt_init addr idt v)) =
      (if v \<in> {PIT_VECTOR, KEYBOARD_VECTOR, RTC_VECTOR} then Trap_gate else Interrupt_gate)"
    and "gate_dpl_of (idt_val (idt_init addr idt v)) =
      (if v = SYSCALL then 3 else if v = KEYBOARD_VECTOR then 1 else 0)"
proof -
  have e: "gate_entry_of (idt_val (stub_entry addr v d)) = addr s" for d
    using assms(2) by (simp add: stub_entry_def entry_of_val)
  have v: "v < NUM_EXCEPT \<and> v \<noteq> 15 \<or> v \<in> {PIT_VECTOR, KEYBOARD_VECTOR, RTC_VECTOR, SYSCALL}"
    using stub_at_iff [of v] assms(2) by simp
  show "gate_entry_of (idt_val (idt_init addr idt v)) = addr s"
    using e by (auto simp: idt_init_entry Let_def)
  show "gate_type_of (idt_val (idt_init addr idt v)) =
      (if v \<in> {PIT_VECTOR, KEYBOARD_VECTOR, RTC_VECTOR} then Trap_gate else Interrupt_gate)"
    using v by (auto simp: idt_init_entry Let_def type_of_val blank_sel)
  show "gate_dpl_of (idt_val (idt_init addr idt v)) =
      (if v = SYSCALL then 3 else if v = KEYBOARD_VECTOR then 1 else 0)"
    using v by (auto simp: idt_init_entry Let_def dpl_of_val blank_sel)
qed

section \<open>Exceptions\<close>

abbreviation fit_calls :: "print_call list \<Rightarrow> bool" where
  "fit_calls \<equiv> list_all (\<lambda>(fmt, args). fits fmt args)"

lemma fits_if: "(case (if c then p else q) of (fmt, args) \<Rightarrow> fits fmt args) \<longleftrightarrow>
    (if c then case p of (fmt, args) \<Rightarrow> fits fmt args else case q of (fmt, args) \<Rightarrow> fits fmt args)"
  by simp

lemma report_fits: "fit_calls (print_head ident @ print_registers flag regs @ print_error ident err)"
proof -
  have "fit_calls (print_head ident)" by (simp add: print_head_def nul_terminated_def)
  moreover have "fit_calls (print_registers flag regs)" by (simp add: print_registers_def)
  moreover have "fit_calls (print_error ident err)" by (simp add: print_error_def line_of_def fits_if)
  ultimately show ?thesis by simp
qed

lemma print_all_ok:
  "fit_calls calls \<Longrightarrow> length conv_buf = 64 \<Longrightarrow> console_inv t \<Longrightarrow>
   \<exists>t'. print_all conv_buf calls t = Some t' \<and> console_inv t' \<and> same_input t t'"
proof (induction calls arbitrary: t)
  case (Cons call calls)
  obtain fmt args where c: "call = (fmt, args)" by fastforce
  obtain n t1 where p: "printf conv_buf fmt args t = Some (n, t1)" "console_inv t1"
    using printf_inv [OF Cons(3), of fmt args t] Cons(2,4) c by auto
  obtain t2 where "print_all conv_buf calls t1 = Some t2" "console_inv t2" "same_input t1 t2"
    using Cons(1) [OF _ Cons(3) p(2)] Cons(2) by auto
  then show ?case using c p(1) same_input_trans [OF printf_input [OF p(1)]] by auto
qed simp

lemma halt_defined:
  assumes r: "running_ok k"
  obtains c k' p where "halt status k = Some (c, k')" "running_ok k'" "pcb_array k (running_slot k) = int p"
    "if parent_id (the_pcb k p) = of_nat p
     then c = Iret_user (eip_user (the_pcb k p)) (esp_user (the_pcb k p)) \<and> id_array k' = id_array k
     else c = Jump_return (esp_ret (the_pcb k p)) (ebp_ret (the_pcb k p)) \<and> id_array k' = (id_array k)(p := 0)"
proof -
  let ?t = "running_slot k"
  obtain ps where f: "family_ok k ps" using r unfolding running_ok_def proc_inv_def by blast
  have t: "0 \<le> terminal_now (ktty k)" "?t < 3" "pcb_array k ?t \<noteq> -1"
    using r by (simp_all add: running_ok_def)
  have lin: "lineage k (ps ?t)" "pcb_array k ?t = int (hd (ps ?t))"
    using family_slotD [OF f t(2)] t(3) unfolding slot_ok_def by auto
  then obtain p rest where ps: "ps ?t = p # rest" by (cases "ps ?t") simp_all
  have p: "p < MAX_PROCESS" "pcb_id (the_pcb k p) = of_nat p" "pcb_array k ?t = int p"
    using family_memberD [OF f t(2), of p] lin(2) ps by auto
  show thesis
  proof (cases rest)
    case Nil
    then have own: "parent_id (the_pcb k p) = pcb_id (the_pcb k p)" using lin(1) ps p by simp
    show thesis
      by (rule that [OF halt_restarts [OF t(1,2) p(3,1) own] r p(3)]) (use own p in simp)
  next
    case (Cons q qs)
    have q: "q < MAX_PROCESS" "p \<noteq> q" "parent_id (the_pcb k p) = of_nat q"
      using family_memberD [OF f t(2), of q] family_slotD [OF f t(2)] lin(1) ps Cons by auto
    obtain k' where h: "halt status k = Some (Jump_return (esp_ret (the_pcb k p)) (ebp_ret (the_pcb k p)), k')"
        and l: "left p q k k'"
      using halt_leaves [OF t(1,2) p(3,1) q(1,2) p(2) q(3)] by blast
    have "id_array k' = (id_array k)(p := 0)" using l by (simp add: left_def)
    moreover have "of_nat q \<noteq> (of_nat p :: u32)" using q(1,2) p(1) by simp
    ultimately show thesis
      by (intro that [OF h running_halt [OF r h] p(3)]) (simp only: q(3) if_False simp_thms)
  qed
qed

section \<open>Properties\<close>

text \<open>
  After \<open>idt_init\<close> exactly the exceptions 0 to 19 but 15, the timer, the keyboard, the RTC and the
  system call have a gate, whatever the table held before. Each gate leads to the stub of its vector;
  the gates of the exceptions and of the system call mask interrupts on entry, those of the three devices
  do not; only the system call has privilege level 3.
\<close>

theorem idt_init_gates:
  assumes "v < NUM_VEC"
  shows "let g = idt_val (idt_init addr idt v) in
    (gate_present_of g \<longleftrightarrow> v < NUM_EXCEPT \<and> v \<noteq> 15 \<or> v \<in> {PIT_VECTOR, KEYBOARD_VECTOR, RTC_VECTOR, SYSCALL}) \<and>
    (\<forall>s. stub_at v = Some s \<longrightarrow> gate_entry_of g = addr s \<and>
       gate_type_of g = (if v \<in> {PIT_VECTOR, KEYBOARD_VECTOR, RTC_VECTOR} then Trap_gate else Interrupt_gate) \<and>
       gate_dpl_of g = (if v = SYSCALL then 3 else if v = KEYBOARD_VECTOR then 1 else 0))"
  unfolding Let_def idt_init_present [OF assms] stub_at_iff using idt_init_gate [OF assms] by blast

theorem idt_init_gates_witness:
  "\<forall>idt. gate_entry_of (idt_val (idt_init (\<lambda>s. if s = pit_wrap then 0x401000 else 0) idt 0x20)) = 0x401000"
proof
  fix idt :: "nat \<Rightarrow> idt_desc_t"
  have "stub_at 0x20 = Some pit_wrap" by (simp add: stub_at_def idt_stubs_def)
  then show "gate_entry_of (idt_val (idt_init (\<lambda>s. if s = pit_wrap then 0x401000 else 0) idt 0x20)) = 0x401000"
    using idt_init_gates [of "0x20" "\<lambda>s. if s = pit_wrap then 0x401000 else 0" idt] by (simp add: Let_def)
qed

text \<open>
  C26. The only way from user mode into the kernel by a software interrupt is vector 0x80: \<open>int v\<close> at
  privilege level 3 enters the system call stub for that vector and faults for every other one.
\<close>

theorem user_enters_only_syscall:
  "software_int (idt_init addr idt) 3 v = (if v = SYSCALL then Some (addr syscall_stub) else None)"
proof (cases "v < NUM_VEC \<and> stub_at v \<noteq> None")
  case True
  then obtain s where s: "stub_at v = Some s" and v: "v < NUM_VEC" by blast
  have "v = SYSCALL \<Longrightarrow> s = syscall_stub" using s by (simp add: stub_at_def idt_stubs_def)
  then show ?thesis
    using idt_init_gate [OF v s, of addr idt] idt_init_present [OF v, of addr idt] s v
    by (auto simp: software_int_def Let_def)
next
  case False
  moreover have "stub_at SYSCALL \<noteq> None" unfolding stub_at_iff by simp
  ultimately show ?thesis
    using idt_init_present [of v addr idt] by (auto simp: software_int_def Let_def)
qed

text \<open>
  The fields of \<open>struct x86_register\<close> do not follow the order of \<open>pushal\<close> and skip a word: what the
  report calls EAX are the flags, ECX is EAX, EBX is ECX, ESP is EBX, EBP is ESP, EDI is EBP, and the
  value printed as the flags is EDI.
\<close>

theorem exception_report_shifted:
  "exception_wrap conv_buf ident c err k =
     exception_handler conv_buf ident (c_edi c)
       \<lparr>r_esi = c_esi c, r_edi = c_ebp c, r_ebp = c_esp c, r_esp = c_ebx c, r_edx = c_edx c, r_ebx = c_ecx c,
        r_ecx = c_eax c, r_eax = c_eflags c\<rparr> (if has_error_code ident then err else 0) k"
  by (simp add: exception_wrap_def exception_frame_def Let_def)

text \<open>
  C11. An exception ends the running program and nothing else. Whatever the vector, the registers and the
  error code, the report is printed without a fault and some process still runs; a first shell starts
  again at its entry, any other program gives its process id back and control returns behind the
  \<open>execute\<close> of its parent.
\<close>

theorem exception_ends_program:
  assumes ok: "running_ok k" "console_inv (ktty k)" "length conv_buf = 64"
  shows "\<exists>c' k' p. exception_wrap conv_buf ident c err k = Some (c', k') \<and> running_ok k' \<and>
    pcb_array k (running_slot k) = int p \<and>
    (if parent_id (the_pcb k p) = of_nat p
     then c' = Iret_user (eip_user (the_pcb k p)) (esp_user (the_pcb k p)) \<and> id_array k' = id_array k
     else c' = Jump_return (esp_ret (the_pcb k p)) (ebp_ret (the_pcb k p)) \<and> id_array k' = (id_array k)(p := 0))"
proof -
  let ?regs = "\<lparr>r_esi = c_esi c, r_edi = c_ebp c, r_ebp = c_esp c, r_esp = c_ebx c, r_edx = c_edx c,
    r_ebx = c_ecx c, r_ecx = c_eax c, r_eax = c_eflags c\<rparr>"
  let ?err = "if has_error_code ident then err else 0"
  obtain t where t: "print_all conv_buf (print_head ident @ print_registers (c_edi c) ?regs @
      print_error ident ?err) (ktty k) = Some t" "same_input (ktty k) t"
    using print_all_ok [OF report_fits ok(3,2)] by blast
  let ?k = "k\<lparr>ktty := t\<rparr>"
  have turn: "terminal_now t = terminal_now (ktty k)" using t(2) by (simp add: same_input_def same_turn_def)
  have r: "running_ok ?k" by (rule running_tty [OF ok(1) same_input_turn [OF t(2)]])
  obtain c' k' p where h: "halt 255 ?k = Some (c', k')" "running_ok k'" "pcb_array ?k (running_slot ?k) = int p"
    "if parent_id (the_pcb ?k p) = of_nat p
     then c' = Iret_user (eip_user (the_pcb ?k p)) (esp_user (the_pcb ?k p)) \<and> id_array k' = id_array ?k
     else c' = Jump_return (esp_ret (the_pcb ?k p)) (ebp_ret (the_pcb ?k p)) \<and> id_array k' = (id_array ?k)(p := 0)"
    using halt_defined [OF r] .
  have "exception_wrap conv_buf ident c err k = Some (c', k')"
    using h(1) t(1) by (simp add: exception_wrap_def exception_frame_def exception_handler_def Let_def)
  with h(2-4) turn show ?thesis by (auto simp: running_slot_def intro!: exI [of _ p])
qed

definition demo_child :: kernel where
  "demo_child = demo_kernel\<lparr>pcbs := (\<lambda>a. if a = get_pcb_addr 1 then demo_pcb\<lparr>pcb_id := 1, esp_ret := 7\<rparr> else demo_pcb),
     id_array := (\<lambda>_. 0)(0 := 1, 1 := 1), pcb_array := (\<lambda>_. -1)(0 := 1)\<rparr>"

lemma demo_child_ok: "running_ok demo_child" "console_inv (ktty demo_child)" "running_slot demo_child = 0"
proof -
  have "family_ok demo_child (\<lambda>t. if t = 0 then [1, 0] else [])"
    by (auto simp: family_ok_def slot_ok_def demo_child_def demo_kernel_def demo_pcb_def get_pcb_addr_def)
  then show "running_ok demo_child" "running_slot demo_child = 0"
    by (auto simp: running_ok_def proc_inv_def running_slot_def demo_child_def demo_kernel_def demo_tty_def)
  show "console_inv (ktty demo_child)" by (simp add: demo_child_def demo_kernel_def)
qed

theorem exception_ends_program_witness:
  "\<exists>k. exception_wrap (replicate 64 0) 0x0E \<lparr>c_eax = 1, c_ecx = 2, c_edx = 3, c_ebx = 4, c_esp = 5, c_ebp = 6,
       c_esi = 7, c_edi = 8, c_eflags = 0x202\<rparr> 4 demo_child = Some (Jump_return 7 (ebp_ret demo_pcb), k) \<and>
     running_ok k \<and> id_array k 1 = 0"
proof -
  have p: "pcb_array demo_child 0 = int n \<longleftrightarrow> n = 1" for n by (auto simp: demo_child_def)
  have q: "parent_id (pcbs demo_child (get_pcb_addr 1)) = 0" "esp_ret (pcbs demo_child (get_pcb_addr 1)) = 7"
    "ebp_ret (pcbs demo_child (get_pcb_addr 1)) = ebp_ret demo_pcb"
    by (simp_all add: demo_child_def demo_kernel_def demo_pcb_def get_pcb_addr_def)
  show ?thesis
    using exception_ends_program [OF demo_child_ok(1,2), of "replicate 64 0" "0x0E" "\<lparr>c_eax = 1, c_ecx = 2,
      c_edx = 3, c_ebx = 4, c_esp = 5, c_ebp = 6, c_esi = 7, c_edi = 8, c_eflags = 0x202\<rparr>" 4]
    by (auto simp: demo_child_ok(3) p q)
qed

end
