(* ===== verification/Boot_Props.thy ===== *)
theory Boot_Props
  imports Boot Idt_Props Kernel_Props
begin

text \<open>
  The boot: the descriptors hold the addresses they are given, the report never faults, and the state
  in which the first shell starts satisfies what the theorems about the running kernel ask for.
\<close>

section \<open>Segment descriptors\<close>

definition seg_base :: "seg_desc_t \<Rightarrow> u32" where
  "seg_base d = ucast (base_15_00 d) OR push_bit 16 (ucast (base_23_16 d)) OR push_bit 24 (ucast (base_31_24 d))"

definition seg_limit :: "seg_desc_t \<Rightarrow> u32" where
  "seg_limit d = ucast (seg_lim_15_00 d) OR push_bit 16 (ucast (seg_lim_19_16 d))"

lemma seg_params_base: "seg_base (SET_SEG_PARAMS addr lim d) = addr"
proof (rule bit_word_eqI)
  fix n :: nat assume n: "n < LENGTH(32)"
  have m: "(0xFF000000 :: u32) = push_bit 24 (mask 8)" "(0xFF0000 :: u32) = push_bit 16 (mask 8)" "(0xFFFF :: u32) = mask 16"
    by (simp_all add: mask_eq_exp_minus_1)
  consider "n < 16" | "16 \<le> n" "n - 16 < 8" "n < 24" | "16 \<le> n" "8 \<le> n - 16" "24 \<le> n" "n - 24 < 8" using n by fastforce
  then show "bit (seg_base (SET_SEG_PARAMS addr lim d)) n = bit addr n"
    unfolding seg_base_def SET_SEG_PARAMS_def m using n
    by cases (simp_all add: bit_simps no_bit del: mask_numeral push_bit_mask_eq)
qed

lemma seg_params_limit: "seg_limit (SET_SEG_PARAMS addr lim d) = lim AND mask 20"
proof (rule bit_word_eqI)
  fix n :: nat assume n: "n < LENGTH(32)"
  have m: "(0xF0000 :: u32) = push_bit 16 (mask 4)" "(0xFFFF :: u32) = mask 16"
    by (simp_all add: mask_eq_exp_minus_1)
  consider "n < 16" | "16 \<le> n" "n - 16 < 4" "n < 20" | "16 \<le> n" "4 \<le> n - 16" "20 \<le> n" using n by fastforce
  then show "bit (seg_limit (SET_SEG_PARAMS addr lim d)) n = bit (lim AND mask 20) n"
    unfolding seg_limit_def SET_SEG_PARAMS_def m using n
    by cases (simp_all add: bit_simps no_bit del: mask_numeral push_bit_mask_eq)
qed

section \<open>The report\<close>

lemma report_calls_fit:
  "(CHECK_FLAG (mb_flags mbi) 2 \<longrightarrow> nul_terminated (cmdline mbi)) \<Longrightarrow> fit_calls (print_flags mbi)"
  "fit_calls (print_tables mbi)"
proof -
  have "fit_calls (print_module c m)" for c m
    by (simp add: print_module_def line_of_def list_all_iff)
  then have "fit_calls (print_modules c ms)" for c ms
    by (induction c ms rule: print_modules.induct) simp_all
  then show "(CHECK_FLAG (mb_flags mbi) 2 \<longrightarrow> nul_terminated (cmdline mbi)) \<Longrightarrow> fit_calls (print_flags mbi)"
    by (simp add: print_flags_def)
  have "fit_calls (map print_memory_map es)" for es
    by (induction es) (simp_all add: print_memory_map_def)
  then show "fit_calls (print_tables mbi)" by (simp add: print_tables_def)
qed

abbreviation unmapped :: "tty \<Rightarrow> tty" where
  "unmapped t \<equiv> t\<lparr>page_table_vid := (\<lambda>i. of_nat i * 0x1000 + 1)\<rparr>"

lemma unmapped_video: "video_mapped (unmapped t)"
proof -
  have "drop_bit 12 (0xB8001 :: u32) = 0xB8" by simp
  then have "video_frame (unmapped t) = 0xB8" by (simp add: video_frame_def)
  then show ?thesis by (simp add: video_mapped_def)
qed

lemma unpaged_clear:
  assumes "enter_or_overflow t = 1"
  shows "\<exists>t'. unpaged clear t = Some t' \<and> same_input t t' \<and> enter_or_overflow t' = 1 \<and> console_inv (unmapped t')"
proof -
  obtain v where c: "clear (unmapped t) = Some ((unmapped t)\<lparr>vram := v, screen_x := 0, screen_y := 0\<rparr>)"
    using clear_ok [OF unmapped_video] by blast
  let ?u = "t\<lparr>vram := v, screen_x := 0, screen_y := 0\<rparr>"
  have "unpaged clear t = Some ?u" using c by (simp add: unpaged_def)
  moreover have "console_inv (unmapped ?u)"
    using unmapped_video [of ?u] assms by (simp add: console_inv_def)
  ultimately show ?thesis using assms by (auto simp: same_input_def same_turn_def)
qed

lemma unpaged_print:
  assumes "console_inv (unmapped t)" "fit_calls calls" "length conv_buf = 64"
  shows "\<exists>t'. unpaged (print_all conv_buf calls) t = Some t' \<and> same_input t t' \<and> console_inv (unmapped t')"
proof -
  obtain t' where p: "print_all conv_buf calls (unmapped t) = Some t'" "console_inv t'" "same_input (unmapped t) t'"
    using print_all_ok [OF assms(2,3,1)] by blast
  have "page_table_vid t' = (\<lambda>i. of_nat i * 0x1000 + 1)" using p(3) by (simp add: same_input_def)
  then have u: "unmapped t' = t'" by simp
  have "console_inv (unmapped t')" unfolding u by (rule p(2))
  moreover have "console_inv (unmapped (t'\<lparr>page_table_vid := page_table_vid t\<rparr>)) = console_inv (unmapped t')" by simp
  ultimately show ?thesis using p(1,3) by (simp add: unpaged_def same_input_def same_turn_def)
qed

text \<open>A line without conversions leaves the cursor on a line that \<open>backspace\<close> does not leave.\<close>

lemma printf_line_ends:
  assumes "0 \<notin> set s" "of_char CHR ''%'' \<notin> set s"
  shows "i \<le> length s \<Longrightarrow> printf_loop b (s @ [0x0A, 0]) i args t = Some (n, t') \<Longrightarrow> enter_or_overflow t' = 1"
proof (induction "length s - i" arbitrary: i t)
  case 0
  then have i: "i = length s" by simp
  have e: "enter_or_overflow t1 = 1" if "putc_modf 0x0A t = Some t1" for t1
    using that by (auto simp: putc_modf_def split: bind_splits)
  obtain t1 where p: "putc_modf 0x0A t = Some t1"
      and r: "printf_loop b (s @ [0x0A, 0]) (Suc i) args t1 = Some (n, t')"
    using 0(3) by (subst (asm) printf_loop.simps) (auto simp: buf_simps nth_append i split: option.splits)
  from r have "t' = t1" by (subst (asm) printf_loop.simps) (simp add: buf_simps nth_append i)
  with e p show ?case by simp
next
  case (Suc k)
  then have "i < length s" by simp
  with assms have i: "i < length s" "s ! i \<noteq> 0" "s ! i \<noteq> of_char CHR ''%''" by (metis nth_mem)+
  with Suc(4) obtain t1 where "printf_loop b (s @ [0x0A, 0]) (Suc i) args t1 = Some (n, t')"
    by (subst (asm) printf_loop.simps) (auto simp: buf_simps nth_append split: option.splits)
  then show ?case using Suc(1) [of "Suc i" t1] Suc(2) i(1) by simp
qed

section \<open>The devices\<close>

lemma paging_init_tty:
  fixes t :: tty
  obtains d p q where "paging_init va t = t\<lparr>page_table_vidpage := q, page_table_vid := p, page_directory := d\<rparr>"
    "\<forall>n < 1024. p n = (if 0xB8 \<le> n \<and> n < 0xBC then of_nat n * 0x1000 + 1 else (of_nat n * 0x1000) OR R_W)"
proof -
  have "paging_init va t = t\<lparr>page_table_vidpage := page_table_vidpage (paging_init va t),
      page_table_vid := page_table_vid (paging_init va t), page_directory := page_directory (paging_init va t)\<rparr>"
    by (simp add: paging_init_def Let_def paging_loop_eq paging_terimal_init_def)
  from that [OF this] paging_init_table [of _ va t] show thesis by blast
qed

lemma frame_mapped_page:
  assumes "page_table_vid t n = of_nat n * 0x1000 + 1" "n \<in> {0xB8, 0xB9, 0xBA, 0xBB}"
  shows "frame_mapped t n"
  using assms by (auto simp: frame_mapped_def frame_at_def)

lemma terminal_init_ok:
  assumes "\<forall>n \<in> {0xB8, 0xB9, 0xBA, 0xBB}. page_table_vid (ktty k) n = of_nat n * 0x1000 + 1"
  shows "\<exists>a v. terminal_init k = Some (k\<lparr>ktty := (ktty k)\<lparr>cur_display_terminal_id := 1, terminals := a, vram := v\<rparr>,
    pcb_array := (pcb_array k)(0 := 0, 1 := -1, 2 := -1)\<rparr>)"
proof -
  have store: "\<exists>a v. terminal_store (int n) t = Some (t\<lparr>terminals := a, vram := v\<rparr>)"
    if "page_table_vid t = page_table_vid (ktty k)" "n \<in> {1, 2, 3}" for t n
    using terminal_store_ok [of t "int n"] assms that
      frame_mapped_page [of t VIDEO_FRAME] frame_mapped_page [of t "VIDEO_FRAME + n"] by auto
  let ?t0 = "set_terminal_id 1 1 ((ktty k)\<lparr>cur_display_terminal_id := 1\<rparr>)"
  obtain a1 v1 where s1: "terminal_store 1 ?t0 = Some (?t0\<lparr>terminals := a1, vram := v1\<rparr>)"
    using store [of ?t0 1] by (auto simp: set_terminal_id_def)
  let ?t1 = "set_terminal_id 2 2 (?t0\<lparr>terminals := a1, vram := v1\<rparr>)"
  obtain a2 v2 where s2: "terminal_store 2 ?t1 = Some (?t1\<lparr>terminals := a2, vram := v2\<rparr>)"
    using store [of ?t1 2] by (auto simp: set_terminal_id_def)
  let ?t2 = "set_terminal_id 3 3 (?t1\<lparr>terminals := a2, vram := v2\<rparr>)"
  obtain a3 v3 where s3: "terminal_store 3 ?t2 = Some (?t2\<lparr>terminals := a3, vram := v3\<rparr>)"
    using store [of ?t2 3] by (auto simp: set_terminal_id_def)
  have "?t2\<lparr>terminals := a3, vram := v3\<rparr> = (ktty k)\<lparr>cur_display_terminal_id := 1, terminals := a3, vram := v3\<rparr>"
    by (simp add: set_terminal_id_def)
  then show ?thesis using s1 s2 s3 by (auto simp: terminal_init_def)
qed

lemma rtc_init_ok: "\<exists>r'. rtc_init (r, p) = Some (r', enable_irq 8 p)"
  by (simp add: rtc_init_def rtc_rate_change_def rtc_rate_1024 Let_def cmos_select_def cmos_in_def cmos_out_def)

definition cold :: "machine \<Rightarrow> bool" where
  "cold m \<longleftrightarrow> terminal_now (ktty (mk m)) = 0 \<and> enter_or_overflow (ktty (mk m)) = 1 \<and> kpic (mk m) = pic_reset \<and>
     id_array (mk m) = (\<lambda>_. 0) \<and> pcb_array (mk m) = (\<lambda>_. -1)(0 := 0) \<and> parent_array (mk m) = (\<lambda>_. -1)(0 := 0)"

lemma init_devices_ok:
  assumes blk: "boot_blk_ptr mbi = Some (blk, inodes, blocks)"
    and fs: "init_filesys blk inodes blocks (kfs (mk m)) = Some fs"
    and con: "console_inv (unmapped (ktty (mk m)))" and pic: "kpic (mk m) = pic_reset"
  shows "\<exists>m'. init_devices e mbi m = Some m' \<and> console_inv (ktty (mk m')) \<and> kfs (mk m') = fs \<and>
    midt m' = midt m \<and> tss_esp0 (mk m') = tss_esp0 (mk m) \<and> id_array (mk m') = id_array (mk m) \<and>
    parent_array (mk m') = parent_array (mk m) \<and> pcb_array (mk m') = (pcb_array (mk m))(0 := 0, 1 := -1, 2 := -1) \<and>
    terminal_now (ktty (mk m')) = terminal_now (ktty (mk m)) \<and> cur_display_terminal_id (ktty (mk m')) = 1 \<and>
    {i. irq_enabled (kpic (mk m')) i} = {0, 1, 2, 8}"
proof -
  obtain r where r: "rtc_init (krtc (mk m), i8259_init pic_reset) = Some (r, enable_irq 8 (i8259_init pic_reset))"
    using rtc_init_ok by blast
  obtain d p q where pg: "paging_init (vid_table_addr e) (ktty (mk m)) =
      (ktty (mk m))\<lparr>page_table_vidpage := q, page_table_vid := p, page_directory := d\<rparr>"
    and pt: "\<forall>n < 1024. p n = (if 0xB8 \<le> n \<and> n < 0xBC then of_nat n * 0x1000 + 1 else (of_nat n * 0x1000) OR R_W)"
    by (rule paging_init_tty)
  have pn: "p n = of_nat n * 0x1000 + 1" if "n \<in> {0xB8, 0xB9, 0xBA, 0xBB}" for n using pt that by auto
  let ?t = "(ktty (mk m))\<lparr>page_table_vidpage := q, page_table_vid := p, page_directory := d\<rparr>"
  let ?p = "enable_irq 1 (enable_irq 8 (i8259_init pic_reset))"
  let ?k = "(mk m)\<lparr>kfs := fs, ktty := ?t, krtc := r, kpic := ?p\<rparr>"
  obtain a v where ti: "terminal_init ?k = Some (?k\<lparr>ktty := ?t\<lparr>cur_display_terminal_id := 1, terminals := a, vram := v\<rparr>,
      pcb_array := (pcb_array (mk m))(0 := 0, 1 := -1, 2 := -1)\<rparr>)"
    using terminal_init_ok [of ?k] pn by auto
  let ?u = "?t\<lparr>cur_display_terminal_id := 1, terminals := a, vram := v\<rparr>"
  have mapped: "video_mapped ?u"
    using frame_mapped_page [of ?u "0xB8"] pn [of "0xB8"]
    by (simp add: frame_mapped_def frame_at_def video_mapped_def video_frame_def)
  have "console_inv ?u" using con mapped by (simp add: console_inv_def)
  moreover have "{i. irq_enabled (enable_irq 0 ?p) i} = {0, 1, 2, 8}"
    using i8259_init_state by (auto simp: enable_irq_enabled)
  ultimately show ?thesis
    using ti by (simp add: init_devices_def blk fs pic r pg keyboard_init_def pit_init_def Let_def)
qed

section \<open>Properties\<close>

text \<open>
  C9. A multiboot loader that hands over a consistent file system image gets a running system. Whatever
  the rest of its report, \<open>boot\<close> ends with the state the theorems about the running kernel start from:
  no process, the first terminal displayed, a console in order, the file system read, the gates set,
  and exactly the lines of the timer, the keyboard, the cascade and the RTC open. The first program it
  enters leaves a process running.
\<close>

theorem boot_reaches_shell:
  assumes "magic = MULTIBOOT_BOOTLOADER_MAGIC" "\<not> (CHECK_FLAG (mb_flags mbi) 4 \<and> CHECK_FLAG (mb_flags mbi) 5)"
    and cmd: "CHECK_FLAG (mb_flags mbi) 2 \<longrightarrow> nul_terminated (cmdline mbi)"
    and blk: "boot_blk_ptr mbi = Some (blk, inodes, blocks)"
    and fs: "init_filesys blk inodes blocks (kfs (mk m)) = Some fs"
    and cold: "cold m" and conv: "length (b_conv_buf e) = 64"
  shows "\<exists>m'. boot e magic mbi m = Some (Inr m') \<and> boot_state (mk m') \<and> console_inv (ktty (mk m')) \<and>
    kfs (mk m') = fs \<and> tss_esp0 (mk m') = 0x800000 \<and> midt m' = idt_init (stub_addr e) (midt m) \<and>
    {i. irq_enabled (kpic (mk m')) i} = {0, 1, 2, 8} \<and>
    (\<forall>eip esp m''. entry e magic mbi m = Some (Some (Iret_user eip esp), m'') \<longrightarrow> running_ok (mk m''))"
proof -
  note c = cold [unfolded cold_def]
  obtain t1 where t1: "unpaged clear (ktty (mk m)) = Some t1" "same_input (ktty (mk m)) t1" "console_inv (unmapped t1)"
    using unpaged_clear c by blast
  obtain t2 where t2: "unpaged (print_all (b_conv_buf e) (print_flags mbi)) t1 = Some t2" "same_input t1 t2"
      "console_inv (unmapped t2)"
    using unpaged_print [OF t1(3) report_calls_fit(1) [OF cmd] conv] by blast
  obtain t3 where t3: "unpaged (print_all (b_conv_buf e) (print_tables mbi)) t2 = Some t3" "same_input t2 t3"
      "console_inv (unmapped t3)"
    using unpaged_print [OF t2(3) report_calls_fit(2) conv] by blast
  have s3: "terminal_now t3 = 0"
    using c t1(2) t2(2) t3(2) by (simp add: same_input_def same_turn_def)
  let ?m = "init_tables e (m\<lparr>mk := (mk m)\<lparr>ktty := t3\<rparr>\<rparr>)"
  have m3: "kfs (mk ?m) = kfs (mk m)" "kpic (mk ?m) = pic_reset" "console_inv (unmapped (ktty (mk ?m)))"
    "tss_esp0 (mk ?m) = 0x800000" "midt ?m = idt_init (stub_addr e) (midt m)" "terminal_now (ktty (mk ?m)) = 0"
    "id_array (mk ?m) = (\<lambda>_. 0)" "parent_array (mk ?m) = (\<lambda>_. -1)(0 := 0)" "pcb_array (mk ?m) = (\<lambda>_. -1)(0 := 0)"
    using c t3(3) s3 by (simp_all add: init_tables_def)
  have idle: "((\<lambda>_. -1)(0 := 0)) (0 := 0, 1 := -1, 2 := -1) = ((\<lambda>_. -1)(0 := 0) :: nat \<Rightarrow> int)"
    by (simp add: fun_eq_iff)
  obtain m4 where m4: "init_devices e mbi ?m = Some m4" "console_inv (ktty (mk m4))" "kfs (mk m4) = fs"
      "midt m4 = idt_init (stub_addr e) (midt m)" "tss_esp0 (mk m4) = 0x800000" "id_array (mk m4) = (\<lambda>_. 0)"
      "parent_array (mk m4) = (\<lambda>_. -1)(0 := 0)" "pcb_array (mk m4) = (\<lambda>_. -1)(0 := 0)"
      "terminal_now (ktty (mk m4)) = 0" "cur_display_terminal_id (ktty (mk m4)) = 1"
      "{i. irq_enabled (kpic (mk m4)) i} = {0, 1, 2, 8}"
    using init_devices_ok [OF blk _ m3(3,2), of fs e, unfolded m3 idle, OF fs] by blast
  have "fit_calls [line_of ''Enabling Interrupts'']" by (simp add: line_of_def)
  then obtain t5 where t5: "print_all (b_conv_buf e) [line_of ''Enabling Interrupts''] (ktty (mk m4)) = Some t5"
      "console_inv t5" "same_input (ktty (mk m4)) t5"
    using print_all_ok [OF _ conv m4(2)] by blast
  have "video_mapped t5" using t5(2) by (simp add: console_inv_def)
  then obtain v where t6: "clear t5 = Some (t5\<lparr>vram := v, screen_x := 0, screen_y := 0\<rparr>)" using clear_ok by blast
  have same6: "same_input (ktty (mk m4)) (t5\<lparr>vram := v, screen_x := 0, screen_y := 0\<rparr>)" using t5(3) by simp
  let ?m6 = "m4\<lparr>mk := (mk m4)\<lparr>ktty := t5\<lparr>vram := v, screen_x := 0, screen_y := 0\<rparr>\<rparr>\<rparr>"
  have b: "boot e magic mbi m = Some (Inr ?m6)"
    using assms(1,2) t1(1) t2(1) t3(1) m4(1) t5(1) t6 by (auto simp: boot_def Let_def)
  have "terminal_now t5 = 0" "cur_display_terminal_id t5 = 1"
    using m4(9,10) t5(3) by (simp_all add: same_input_def same_turn_def)
  then have st: "boot_state (mk ?m6)" using m4(6-8) by (simp add: boot_state_def)
  have "enter_or_overflow t5 = 1"
    using t5(1) printf_line_ends [of "ascii ''Enabling Interrupts''" 0 "b_conv_buf e" "[]"]
    by (auto simp: line_of_def printf_def split: bind_splits)
  then have con: "console_inv (ktty (mk ?m6))" using \<open>video_mapped t5\<close> by (simp add: console_inv_def)
  have "running_ok (mk m'')" if run: "entry e magic mbi m = Some (Some (Iret_user eip esp), m'')" for eip esp m''
  proof -
    obtain k where "execute (b_exec e) shell (mk ?m6) = Some (Iret_user eip esp, k)" "mk m'' = k"
      using run b by (auto simp: entry_def split: bind_splits)
    then show ?thesis using boot_running [OF st] by simp
  qed
  then show ?thesis
    using b st con m4(3-5,11) by (intro exI [of _ ?m6]) simp
qed

definition demo_seg :: seg_desc_t where
  "demo_seg = \<lparr>seg_lim_15_00 = 0, base_15_00 = 0, base_23_16 = 0, seg_type = 0, seg_sys = 0, seg_dpl = 0,
     seg_present = 0, seg_lim_19_16 = 0, seg_avail = 0, seg_reserved = 0, opsize = 0, granularity = 0, base_31_24 = 0\<rparr>"

definition demo_env :: boot_env where
  "demo_env = \<lparr>stub_addr = (\<lambda>_. 0x400000), vid_table_addr = 0x405000, ldt_addr = 0x402000, ldt_size = 31,
     tss_addr = 0x403000, tss_size = 103, b_ldt = demo_seg, b_tss = demo_seg, b_conv_buf = replicate 64 0,
     b_exec = demo_locals\<rparr>"

definition demo_multiboot :: multiboot_info_t where
  "demo_multiboot = \<lparr>mb_flags = 0xD, mem_lower = 640, mem_upper = 0, boot_device = 0, cmdline = ascii ''x'' @ [0],
     mods = [\<lparr>mod_start = 0x410000, mod_end = 0x480000, mod_bytes = replicate 16 0xFF,
       mod_image = (demo_boot, demo_inodes, demo_blocks)\<rparr>],
     elf_sec = \<lparr>elf_num = 0, elf_size = 0, elf_addr = 0, elf_shndx = 0\<rparr>, mmap_length = 0, mmap_addr = 0,
     mmap_entries = []\<rparr>"

definition demo_computer :: machine where
  "demo_computer = \<lparr>mk = demo_cold\<lparr>kfs := demo_fs, ktty := demo_tty\<lparr>enter_or_overflow := 1, page_table_vid := (\<lambda>_. 0)\<rparr>\<rparr>,
     mkeys = \<lparr>cur_ctrl = 0, cur_rsft = 0, cur_lsft = 0, cur_cpsl = 0, cur_altk = 0, kb_mode = 0\<rparr>,
     midt = (\<lambda>_. \<lparr>offset_15_00 = 0, seg_selector = 0, reserved4 = 0, reserved3 = 0, reserved2 = 0, reserved1 = 0,
       gate_size = 0, reserved0 = 0, dpl = 0, gate_present = 0, offset_31_16 = 0\<rparr>), mtimer = [],
     ldt_desc_ptr = demo_seg, tss_desc_ptr = demo_seg, ldt_segment_selector = 0\<rparr>"

lemma demo_cold_machine: "cold demo_computer"
  by (simp add: cold_def demo_computer_def demo_cold_def demo_kernel_def demo_tty_def)

lemma demo_image_boots: "\<exists>fs. init_filesys demo_boot demo_inodes demo_blocks demo_fs = Some fs \<and> fs_inv fs"
  using free_list_init_inv [of "demo_fs\<lparr>Num_Dentry := 1, Num_Inodes := 2, Num_Data_Blocks := 4,
      dentry_array := \<lambda>_. demo_entry, inode_ptr := demo_inodes, data_block_ptr := demo_blocks\<rparr>"]
  by (simp add: init_filesys_def image_fits_def demo_boot_def used_blocks_def inode_block_list_def inode_blocks_def
      demo_inodes_def ceil_div_def all_less_2 upt_rec unused_blocks_def empty_inodes_def) blast

theorem boot_reaches_shell_witness:
  "\<exists>m fs. boot demo_env MULTIBOOT_BOOTLOADER_MAGIC demo_multiboot demo_computer = Some (Inr m) \<and> boot_state (mk m) \<and>
     kfs (mk m) = fs \<and> fs_inv fs"
proof -
  obtain fs where fs: "init_filesys demo_boot demo_inodes demo_blocks demo_fs = Some fs" "fs_inv fs"
    using demo_image_boots by blast
  have k: "kfs (mk demo_computer) = demo_fs" by (simp add: demo_computer_def)
  have b: "boot_blk_ptr demo_multiboot = Some (demo_boot, demo_inodes, demo_blocks)"
    by (simp add: boot_blk_ptr_def demo_multiboot_def CHECK_FLAG_def)
  have n: "\<not> (CHECK_FLAG (mb_flags demo_multiboot) 4 \<and> CHECK_FLAG (mb_flags demo_multiboot) 5)"
    "CHECK_FLAG (mb_flags demo_multiboot) 2 \<longrightarrow> nul_terminated (cmdline demo_multiboot)"
    "length (b_conv_buf demo_env) = 64"
    by (simp_all add: demo_multiboot_def demo_env_def CHECK_FLAG_def nul_terminated_def)
  show ?thesis
    using boot_reaches_shell [OF refl n(1,2) b fs(1) [folded k] demo_cold_machine n(3)] fs(2) by blast
qed

end
