(* ===== verification/Lib_Mem.thy ===== *)
theory Lib_Mem
  imports Prelude
begin

unbundle bit_operations_syntax

text \<open>
  The memory routines of \<open>student-distrib/lib.c\<close>, which are written in assembly: \<open>memset\<close>,
  \<open>memset_word\<close>, \<open>memset_dword\<close>, \<open>memcpy\<close> and \<open>memmove\<close>. The memory is a function of the 32-bit
  address, the registers are arguments of the loops, and \<open>rep\<close> counts \<open>ecx\<close> down to zero. Each
  routine is compared with what it is for, the fill or the copy of a range; address arithmetic wraps
  around at 4 GB in both.
\<close>

type_synonym memory = "u32 \<Rightarrow> u8"

section \<open>String instructions\<close>

definition word_bytes :: "nat \<Rightarrow> u32 \<Rightarrow> u8 list" where
  "word_bytes k w = map (\<lambda>i. ucast (drop_bit (8 * i) w)) [0..<k]"

fun store_bytes :: "memory \<Rightarrow> u32 \<Rightarrow> u8 list \<Rightarrow> memory" where
  "store_bytes m a [] = m"
| "store_bytes m a (b # bs) = store_bytes (m(a := b)) (a + 1) bs"

definition load_bytes :: "memory \<Rightarrow> u32 \<Rightarrow> nat \<Rightarrow> u8 list" where
  "load_bytes m a k = map (\<lambda>i. m (a + of_nat i)) [0..<k]"

lemma unat_dec: "(w :: u32) \<noteq> 0 \<Longrightarrow> unat (w - 1) = unat w - 1"
  by (simp add: unat_minus_one)

text \<open>\<open>rep stosw\<close> and \<open>rep stosl\<close> with the direction flag clear, for \<open>k\<close> = 2 and 4.\<close>

function rep_stos :: "nat \<Rightarrow> u32 \<Rightarrow> u32 \<Rightarrow> u32 \<Rightarrow> memory \<Rightarrow> u32 \<times> memory" where
  "rep_stos k eax ecx edi m =
     (if ecx = 0 then (edi, m)
      else rep_stos k eax (ecx - 1) (edi + of_nat k) (store_bytes m edi (word_bytes k eax)))"
  by pat_completeness auto
termination by (relation "measure (\<lambda>(k, eax, ecx, edi, m). unat ecx)") (auto simp: unat_dec unat_gt_0)

declare rep_stos.simps [simp del]

text \<open>\<open>rep movsl\<close> with the direction flag clear.\<close>

function rep_movsl :: "u32 \<Rightarrow> u32 \<Rightarrow> u32 \<Rightarrow> memory \<Rightarrow> u32 \<times> u32 \<times> memory" where
  "rep_movsl ecx esi edi m =
     (if ecx = 0 then (esi, edi, m)
      else rep_movsl (ecx - 1) (esi + 4) (edi + 4) (store_bytes m edi (load_bytes m esi 4)))"
  by pat_completeness auto
termination by (relation "measure (\<lambda>(ecx, esi, edi, m). unat ecx)") (auto simp: unat_dec unat_gt_0)

declare rep_movsl.simps [simp del]

text \<open>\<open>rep movsb\<close>, upwards or, with the direction flag set, downwards.\<close>

function rep_movsb :: "bool \<Rightarrow> u32 \<Rightarrow> u32 \<Rightarrow> u32 \<Rightarrow> memory \<Rightarrow> memory" where
  "rep_movsb df ecx esi edi m =
     (if ecx = 0 then m
      else if df then rep_movsb df (ecx - 1) (esi - 1) (edi - 1) (m(edi := m esi))
      else rep_movsb df (ecx - 1) (esi + 1) (edi + 1) (m(edi := m esi)))"
  by pat_completeness auto
termination by (relation "measure (\<lambda>(df, ecx, esi, edi, m). unat ecx)") (auto simp: unat_dec unat_gt_0)

declare rep_movsb.simps [simp del]

section \<open>The routines\<close>

function memset_bottom :: "u32 \<Rightarrow> u32 \<Rightarrow> u32 \<Rightarrow> memory \<Rightarrow> memory" where
  "memset_bottom eax edx edi m =
     (if edx = 0 then m else memset_bottom eax (edx - 1) (edi + 1) (m(edi := ucast eax)))"
  by pat_completeness auto
termination by (relation "measure (\<lambda>(eax, edx, edi, m). unat edx)") (auto simp: unat_dec unat_gt_0)

declare memset_bottom.simps [simp del]

definition memset_aligned :: "u32 \<Rightarrow> u32 \<Rightarrow> u32 \<Rightarrow> memory \<Rightarrow> memory" where
  "memset_aligned eax ecx edi m =
     (let edx = ecx AND 3; (edi, m) = rep_stos 4 eax (drop_bit 2 ecx) edi m in memset_bottom eax edx edi m)"

function memset_top :: "u32 \<Rightarrow> u32 \<Rightarrow> u32 \<Rightarrow> memory \<Rightarrow> memory" where
  "memset_top eax ecx edi m =
     (if ecx = 0 then m
      else if edi AND 3 \<noteq> 0 then memset_top eax (ecx - 1) (edi + 1) (m(edi := ucast eax))
      else memset_aligned eax ecx edi m)"
  by pat_completeness auto
termination by (relation "measure (\<lambda>(eax, ecx, edi, m). unat ecx)") (auto simp: unat_dec unat_gt_0)

declare memset_top.simps [simp del]

definition memset :: "u32 \<Rightarrow> u32 \<Rightarrow> u32 \<Rightarrow> memory \<Rightarrow> u32 \<times> memory" where
  "memset s c n m =
     (let c = c AND 0xFF in (s, memset_top (push_bit 24 c OR push_bit 16 c OR push_bit 8 c OR c) n s m))"

definition memset_word :: "u32 \<Rightarrow> u32 \<Rightarrow> u32 \<Rightarrow> memory \<Rightarrow> u32 \<times> memory" where
  "memset_word s c n m = (s, snd (rep_stos 2 c n s m))"

definition memset_dword :: "u32 \<Rightarrow> u32 \<Rightarrow> u32 \<Rightarrow> memory \<Rightarrow> u32 \<times> memory" where
  "memset_dword s c n m = (s, snd (rep_stos 4 c n s m))"

function memcpy_bottom :: "u32 \<Rightarrow> u32 \<Rightarrow> u32 \<Rightarrow> memory \<Rightarrow> memory" where
  "memcpy_bottom edx esi edi m =
     (if edx = 0 then m else memcpy_bottom (edx - 1) (esi + 1) (edi + 1) (m(edi := m esi)))"
  by pat_completeness auto
termination by (relation "measure (\<lambda>(edx, esi, edi, m). unat edx)") (auto simp: unat_dec unat_gt_0)

declare memcpy_bottom.simps [simp del]

definition memcpy_aligned :: "u32 \<Rightarrow> u32 \<Rightarrow> u32 \<Rightarrow> memory \<Rightarrow> memory" where
  "memcpy_aligned ecx esi edi m =
     (let edx = ecx AND 3; (esi, edi, m) = rep_movsl (drop_bit 2 ecx) esi edi m in memcpy_bottom edx esi edi m)"

function memcpy_top :: "u32 \<Rightarrow> u32 \<Rightarrow> u32 \<Rightarrow> memory \<Rightarrow> memory" where
  "memcpy_top ecx esi edi m =
     (if ecx = 0 then m
      else if edi AND 3 \<noteq> 0 then memcpy_top (ecx - 1) (esi + 1) (edi + 1) (m(edi := m esi))
      else memcpy_aligned ecx esi edi m)"
  by pat_completeness auto
termination by (relation "measure (\<lambda>(ecx, esi, edi, m). unat ecx)") (auto simp: unat_dec unat_gt_0)

declare memcpy_top.simps [simp del]

definition memcpy :: "u32 \<Rightarrow> u32 \<Rightarrow> u32 \<Rightarrow> memory \<Rightarrow> u32 \<times> memory" where
  "memcpy dest src n m = (dest, memcpy_top n src dest m)"

text \<open>The second component is the direction flag the routine leaves.\<close>

definition memmove :: "u32 \<Rightarrow> u32 \<Rightarrow> u32 \<Rightarrow> memory \<Rightarrow> u32 \<times> bool \<times> memory" where
  "memmove dest src n m =
     (if dest \<le> src then (dest, False, rep_movsb False n src dest m)
      else (dest, True, rep_movsb True n (src + n - 1) (dest + n - 1) m))"

section \<open>Filling and copying a range\<close>

definition filled :: "u32 \<Rightarrow> u8 \<Rightarrow> nat \<Rightarrow> memory \<Rightarrow> memory" where
  "filled s c n m = (\<lambda>a. if unat (a - s) < n then c else m a)"

definition copied :: "u32 \<Rightarrow> u32 \<Rightarrow> nat \<Rightarrow> memory \<Rightarrow> memory" where
  "copied dest src n m = (\<lambda>a. if unat (a - dest) < n then m (src + (a - dest)) else m a)"

text \<open>Repeating the \<open>k\<close> bytes of a pattern over a range.\<close>

definition patterned :: "u32 \<Rightarrow> u8 list \<Rightarrow> nat \<Rightarrow> memory \<Rightarrow> memory" where
  "patterned s bs n m = (\<lambda>a. if unat (a - s) < n then bs ! (unat (a - s) mod length bs) else m a)"

lemma unat_shift: "k < 2 ^ 32 \<Longrightarrow>
    unat (x - of_nat k :: u32) = (if k \<le> unat x then unat x - k else unat x + 2 ^ 32 - k)"
  by (subst unat_sub_if') (simp add: unat_of_nat_u32)

lemma shift_minus: "a - (s + w) = (a - s) - (w :: u32)"
  by simp

lemma patterned_split:
  assumes "m < 2 ^ 32" "m + n \<le> 2 ^ 32" "length bs dvd m"
  shows "patterned (s + of_nat m) bs n (patterned s bs m mem) = patterned s bs (m + n) mem"
proof
  fix a
  have u: "unat (a - s) < 2 ^ 32" using unsigned_less [of "a - s"] by simp
  obtain q where q: "m = length bs * q" using assms(3) by blast
  have "(unat (a - s) - m) mod length bs = unat (a - s) mod length bs" if "m \<le> unat (a - s)"
  proof -
    have "unat (a - s) = (unat (a - s) - m) + length bs * q" using that q by simp
    then show ?thesis by (metis mod_mult_self2)
  qed
  then show "patterned (s + of_nat m) bs n (patterned s bs m mem) a = patterned s bs (m + n) mem a"
    unfolding patterned_def shift_minus unat_shift [OF assms(1)] using assms(2) u by auto
qed

lemma filled_patterned: "0 < k \<Longrightarrow> filled s c n m = patterned s (replicate k c) n m"
  by (simp add: filled_def patterned_def fun_eq_iff)

lemma filled_split:
  "m < 2 ^ 32 \<Longrightarrow> m + n \<le> 2 ^ 32 \<Longrightarrow> filled (s + of_nat m) c n (filled s c m mem) = filled s c (m + n) mem"
  using patterned_split [of m n "[c]" s mem] filled_patterned [of 1] by simp

lemma copied_split:
  assumes m: "m < 2 ^ 32" and mn: "m + n \<le> 2 ^ 32" and d: "dest = src \<or> m + n \<le> unat (dest - src)"
  shows "copied (dest + of_nat m) (src + of_nat m) n (copied dest src m mem) = copied dest src (m + n) mem"
proof
  fix a
  let ?x = "a - dest"
  have u: "unat ?x < 2 ^ 32" "unat (dest - src) < 2 ^ 32"
    using unsigned_less [of ?x] unsigned_less [of "dest - src"] by simp_all
  have same: "copied dest src m mem (src + ?x) = mem (src + ?x)" if "unat ?x < m + n" "m \<le> unat ?x"
  proof (cases "dest = src")
    case False
    then have le: "m + n \<le> unat (dest - src)" using d by blast
    have e: "src + ?x - dest = ?x - (dest - src)" by simp
    have "unat (?x - (dest - src)) = unat ?x + 2 ^ 32 - unat (dest - src)"
      using that(1) le by (subst unat_sub_if') simp
    then have "\<not> unat (src + ?x - dest) < m" unfolding e using that(2) u(2) by linarith
    then show ?thesis by (simp only: copied_def if_False)
  qed (simp add: copied_def)
  have e: "src + of_nat m + (a - (dest + of_nat m)) = src + ?x" by simp
  let ?C = "copied dest src m mem"
  have "copied (dest + of_nat m) (src + of_nat m) n ?C a = (if unat (?x - of_nat m) < n then ?C (src + ?x) else ?C a)"
    unfolding copied_def [of "dest + of_nat m"] e by (simp only: shift_minus)
  also have "\<dots> = (if m \<le> unat ?x \<and> unat ?x < m + n then ?C (src + ?x) else ?C a)"
    unfolding unat_shift [OF m] using u mn by auto
  also have "\<dots> = copied dest src (m + n) mem a"
    using same by (auto simp: copied_def [of dest src m mem, THEN fun_cong, of a] copied_def [of dest src "m + n"])
  finally show "copied (dest + of_nat m) (src + of_nat m) n ?C a = copied dest src (m + n) mem a" .
qed

section \<open>What the loops compute\<close>

lemma filled_one: "m(a := c) = filled a c 1 m"
  by (auto simp: filled_def fun_eq_iff unat_eq_zero)

lemma copied_one: "m(dest := m src) = copied dest src 1 m"
  by (auto simp: copied_def fun_eq_iff unat_eq_zero)

lemma length_word_bytes [simp]: "length (word_bytes k w) = k"
  by (simp add: word_bytes_def)

lemma store_bytes_eq: "length bs \<le> 2 ^ 32 \<Longrightarrow>
    store_bytes m a bs = (\<lambda>x. if unat (x - a) < length bs then bs ! unat (x - a) else m x)"
proof (induction m a bs rule: store_bytes.induct)
  case (2 m a b bs)
  show ?case
  proof
    fix x
    have u: "unat (x - a) < 2 ^ 32" using unsigned_less [of "x - a"] by simp
    have len: "length bs \<le> 2 ^ 32" using 2(2) by simp
    have s: "unat (x - (a + 1)) = (if 1 \<le> unat (x - a) then unat (x - a) - 1 else unat (x - a) + 2 ^ 32 - 1)"
      using unat_shift [of 1 "x - a"] by (simp add: shift_minus)
    have z: "x = a \<longleftrightarrow> unat (x - a) = 0" by (simp add: unat_eq_zero)
    have "store_bytes m a (b # bs) x =
        (if unat (x - (a + 1)) < length bs then bs ! unat (x - (a + 1)) else (m(a := b)) x)"
      unfolding store_bytes.simps 2(1) [OF len] ..
    also have "\<dots> = (if unat (x - a) < length (b # bs) then (b # bs) ! unat (x - a) else m x)"
      unfolding s fun_upd_apply z using 2(2) u by (auto simp: nth_Cons')
    finally show "store_bytes m a (b # bs) x = (if unat (x - a) < length (b # bs) then (b # bs) ! unat (x - a) else m x)" .
  qed
qed simp

lemma store_word_bytes: "0 < k \<Longrightarrow> k \<le> 4 \<Longrightarrow> store_bytes m a (word_bytes k w) = patterned a (word_bytes k w) k m"
  by (auto simp: store_bytes_eq patterned_def fun_eq_iff)

lemma store_load: "k \<le> 4 \<Longrightarrow> store_bytes m dest (load_bytes m src k) = copied dest src k m"
  by (simp add: store_bytes_eq load_bytes_def copied_def fun_eq_iff)

lemma unat_word: "unat (w :: u32) < 2 ^ 32"
  using unsigned_less [of w] by simp

lemma of_nat_unat_word: "of_nat (unat (w :: u32)) = w"
  by simp

lemma Suc_unat_dec: "(w :: u32) \<noteq> 0 \<Longrightarrow> Suc (unat (w - 1)) = unat w"
  by (simp add: unat_dec unat_gt_0)


lemma memset_bottom_eq: "memset_bottom eax edx edi m = filled edi (ucast eax) (unat edx) m"
proof (induction eax edx edi m rule: memset_bottom.induct)
  case (1 eax edx edi m)
  show ?case
  proof (cases "edx = 0")
    case True
    then show ?thesis by (subst memset_bottom.simps) (simp add: filled_def)
  next
    case False
    have "memset_bottom eax edx edi m = filled (edi + of_nat 1) (ucast eax) (unat (edx - 1)) (filled edi (ucast eax) 1 m)"
      using 1 [OF False] False by (subst memset_bottom.simps) (simp add: filled_one)
    also have "\<dots> = filled edi (ucast eax) (1 + unat (edx - 1)) m"
      using unat_word [of edx] Suc_unat_dec [OF False] by (intro filled_split) simp_all
    finally show ?thesis using Suc_unat_dec [OF False] by simp
  qed
qed

lemma rep_stos_eq:
  assumes k: "0 < k" "k \<le> 4"
  shows "k * unat ecx \<le> 2 ^ 32 \<Longrightarrow>
    rep_stos k eax ecx edi m = (edi + of_nat (k * unat ecx), patterned edi (word_bytes k eax) (k * unat ecx) m)"
proof (induction "unat ecx" arbitrary: ecx edi m)
  case 0
  then have "ecx = 0" by (simp add: unat_eq_zero)
  then show ?case by (subst rep_stos.simps) (simp add: patterned_def)
next
  case (Suc n)
  then have nz: "ecx \<noteq> 0" by auto
  have n: "n = unat (ecx - 1)" using Suc(2) Suc_unat_dec [OF nz] by simp
  have b: "k + k * n \<le> 2 ^ 32" using Suc(3) unfolding Suc(2) [symmetric] by simp
  then have "rep_stos k eax (ecx - 1) (edi + of_nat k) (patterned edi (word_bytes k eax) k m) =
      (edi + of_nat k + of_nat (k * n), patterned (edi + of_nat k) (word_bytes k eax) (k * n) (patterned edi (word_bytes k eax) k m))"
    using Suc(1) [OF n, of "edi + of_nat k"] unfolding n [symmetric] by simp
  moreover have "patterned (edi + of_nat k) (word_bytes k eax) (k * n) (patterned edi (word_bytes k eax) k m) =
      patterned edi (word_bytes k eax) (k + k * n) m"
    using k b by (intro patterned_split) auto
  ultimately show ?case
    using nz store_word_bytes [OF k] unfolding Suc(2) [symmetric]
    by (subst rep_stos.simps) (simp add: algebra_simps)
qed

lemma copied_dec:
  assumes "(w :: u32) \<noteq> 0" "dest = src \<or> unat w \<le> unat (dest - src)"
  shows "copied (dest + 1) (src + 1) (unat (w - 1)) (m(dest := m src)) = copied dest src (unat w) m"
    and "dest + 1 = src + 1 \<or> unat (w - 1) \<le> unat ((dest + 1) - (src + 1))"
proof -
  have s: "Suc (unat (w - 1)) = unat w" by (rule Suc_unat_dec [OF assms(1)])
  then have "copied (dest + of_nat 1) (src + of_nat 1) (unat (w - 1)) (copied dest src 1 m) =
      copied dest src (1 + unat (w - 1)) m"
    using assms(2) unat_word [of w] by (intro copied_split) simp_all
  then show "copied (dest + 1) (src + 1) (unat (w - 1)) (m(dest := m src)) = copied dest src (unat w) m"
    by (simp add: copied_one s)
  show "dest + 1 = src + 1 \<or> unat (w - 1) \<le> unat ((dest + 1) - (src + 1))" using assms(2) s by auto
qed

lemma memcpy_bottom_eq:
  "edi = esi \<or> unat edx \<le> unat (edi - esi) \<Longrightarrow> memcpy_bottom edx esi edi m = copied edi esi (unat edx) m"
proof (induction edx esi edi m rule: memcpy_bottom.induct)
  case (1 edx esi edi m)
  show ?case
  proof (cases "edx = 0")
    case True
    then show ?thesis by (subst memcpy_bottom.simps) (simp add: copied_def)
  next
    case False
    then have "memcpy_bottom edx esi edi m = memcpy_bottom (edx - 1) (esi + 1) (edi + 1) (m(edi := m esi))"
      by (subst memcpy_bottom.simps) simp
    also have "\<dots> = copied (edi + 1) (esi + 1) (unat (edx - 1)) (m(edi := m esi))"
      by (rule 1(1) [OF False copied_dec(2) [OF False 1(2)]])
    finally show ?thesis unfolding copied_dec(1) [OF False 1(2)] .
  qed
qed

lemma rep_movsl_eq:
  "4 * unat ecx \<le> 2 ^ 32 \<Longrightarrow> edi = esi \<or> 4 * unat ecx \<le> unat (edi - esi) \<Longrightarrow>
   rep_movsl ecx esi edi m = (esi + of_nat (4 * unat ecx), edi + of_nat (4 * unat ecx), copied edi esi (4 * unat ecx) m)"
proof (induction "unat ecx" arbitrary: ecx esi edi m)
  case 0
  then have "ecx = 0" by (simp add: unat_eq_zero)
  then show ?case by (subst rep_movsl.simps) (simp add: copied_def)
next
  case (Suc n)
  then have nz: "ecx \<noteq> 0" by auto
  have n: "n = unat (ecx - 1)" using Suc(2) Suc_unat_dec [OF nz] by simp
  have b: "4 + 4 * n \<le> 2 ^ 32" "edi = esi \<or> 4 + 4 * n \<le> unat (edi - esi)"
    using Suc(3,4) unfolding Suc(2) [symmetric] by simp_all
  then have c: "4 * unat (ecx - 1) \<le> 2 ^ 32" "edi + 4 = esi + 4 \<or> 4 * unat (ecx - 1) \<le> unat ((edi + 4) - (esi + 4))"
    unfolding n [symmetric] by auto
  have "copied (edi + of_nat 4) (esi + of_nat 4) (4 * n) (copied edi esi 4 m) = copied edi esi (4 + 4 * n) m"
    using b by (intro copied_split) simp_all
  then show ?case
    using Suc(1) [OF n c] nz store_load [of 4] unfolding Suc(2) [symmetric] n [symmetric]
    by (subst rep_movsl.simps) (simp add: algebra_simps)
qed

lemma split_count: "4 * unat (drop_bit 2 (w :: u32)) + unat (w AND 3) = unat w"
proof -
  have m: "(3 :: u32) = mask 2" by (simp add: mask_eq_exp_minus_1)
  have "unat (w AND 3) = unat w mod 4"
    unfolding m take_bit_eq_mask [symmetric] by (simp add: take_bit_eq_mod unat_mod)
  then show ?thesis by (simp add: drop_bit_eq_div unat_div)
qed

lemma memset_aligned_eq:
  assumes "word_bytes 4 eax = replicate 4 (ucast eax)"
  shows "memset_aligned eax ecx edi m = filled edi (ucast eax) (unat ecx) m"
proof -
  let ?n = "unat (drop_bit 2 ecx)" and ?r = "unat (ecx AND 3)"
  have s: "4 * ?n + ?r = unat ecx" by (rule split_count)
  then have le: "4 * ?n \<le> 2 ^ 32" "4 * ?n < 2 ^ 32" "4 * ?n + ?r \<le> 2 ^ 32" using unat_word [of ecx] by auto
  have "rep_stos 4 eax (drop_bit 2 ecx) edi m = (edi + of_nat (4 * ?n), filled edi (ucast eax) (4 * ?n) m)"
    using rep_stos_eq [of 4 "drop_bit 2 ecx"] le(1) assms filled_patterned [of 4] by simp
  then have "memset_aligned eax ecx edi m =
      filled (edi + of_nat (4 * ?n)) (ucast eax) ?r (filled edi (ucast eax) (4 * ?n) m)"
    unfolding memset_aligned_def Let_def memset_bottom_eq by (simp only: prod.case)
  also have "\<dots> = filled edi (ucast eax) (unat ecx) m"
    using filled_split [OF le(2,3)] s by simp
  finally show ?thesis .
qed

lemma memset_top_eq:
  assumes "word_bytes 4 eax = replicate 4 (ucast eax)"
  shows "memset_top eax ecx edi m = filled edi (ucast eax) (unat ecx) m"
proof (induction "unat ecx" arbitrary: ecx edi m)
  case 0
  then have "ecx = 0" by (simp add: unat_eq_zero)
  then show ?case by (subst memset_top.simps) (simp add: filled_def)
next
  case (Suc n)
  then have nz: "ecx \<noteq> 0" by auto
  have n: "n = unat (ecx - 1)" using Suc(2) Suc_unat_dec [OF nz] by simp
  show ?case
  proof (cases "edi AND 3 = 0")
    case True
    then show ?thesis using nz memset_aligned_eq [OF assms] by (subst memset_top.simps) simp
  next
    case False
    then have "memset_top eax ecx edi m = memset_top eax (ecx - 1) (edi + 1) (m(edi := ucast eax))"
      using nz by (subst memset_top.simps) simp
    also have "\<dots> = filled (edi + of_nat 1) (ucast eax) n (filled edi (ucast eax) 1 m)"
      using Suc(1) [OF n] n by (simp add: filled_one)
    also have "\<dots> = filled edi (ucast eax) (unat ecx) m"
      using filled_split [of 1 n] Suc(2) unat_word [of ecx] by simp
    finally show ?thesis .
  qed
qed

lemma memcpy_aligned_eq:
  assumes "edi = esi \<or> unat ecx \<le> unat (edi - esi)"
  shows "memcpy_aligned ecx esi edi m = copied edi esi (unat ecx) m"
proof -
  let ?n = "unat (drop_bit 2 ecx)" and ?r = "unat (ecx AND 3)"
  have s: "4 * ?n + ?r = unat ecx" by (rule split_count)
  then have le: "4 * ?n \<le> 2 ^ 32" "4 * ?n < 2 ^ 32" "4 * ?n + ?r \<le> 2 ^ 32" using unat_word [of ecx] by auto
  have d: "edi = esi \<or> 4 * ?n \<le> unat (edi - esi)" "edi = esi \<or> 4 * ?n + ?r \<le> unat (edi - esi)"
    "edi + of_nat (4 * ?n) = esi + of_nat (4 * ?n) \<or> ?r \<le> unat (edi + of_nat (4 * ?n) - (esi + of_nat (4 * ?n)))"
    using assms s by auto
  have "memcpy_aligned ecx esi edi m =
      copied (edi + of_nat (4 * ?n)) (esi + of_nat (4 * ?n)) ?r (copied edi esi (4 * ?n) m)"
    unfolding memcpy_aligned_def Let_def rep_movsl_eq [OF le(1) d(1)] using memcpy_bottom_eq [OF d(3)] by (simp only: prod.case)
  also have "\<dots> = copied edi esi (unat ecx) m"
    using copied_split [OF le(2,3) d(2)] s by simp
  finally show ?thesis .
qed

lemma memcpy_top_eq:
  "edi = esi \<or> unat ecx \<le> unat (edi - esi) \<Longrightarrow> memcpy_top ecx esi edi m = copied edi esi (unat ecx) m"
proof (induction "unat ecx" arbitrary: ecx esi edi m)
  case 0
  then have "ecx = 0" by (simp add: unat_eq_zero)
  then show ?case by (subst memcpy_top.simps) (simp add: copied_def)
next
  case (Suc n)
  then have nz: "ecx \<noteq> 0" by auto
  have n: "n = unat (ecx - 1)" using Suc(2) Suc_unat_dec [OF nz] by simp
  show ?case
  proof (cases "edi AND 3 = 0")
    case True
    then show ?thesis using nz memcpy_aligned_eq [OF Suc(3)] by (subst memcpy_top.simps) simp
  next
    case False
    then have "memcpy_top ecx esi edi m = memcpy_top (ecx - 1) (esi + 1) (edi + 1) (m(edi := m esi))"
      using nz by (subst memcpy_top.simps) simp
    also have "\<dots> = copied (edi + 1) (esi + 1) (unat (ecx - 1)) (m(edi := m esi))"
      by (rule Suc(1) [OF n copied_dec(2) [OF nz Suc(3)]])
    finally show ?thesis unfolding copied_dec(1) [OF nz Suc(3)] .
  qed
qed

lemma splat_bytes:
  fixes c :: u32
  defines "w \<equiv> push_bit 24 (c AND 0xFF) OR push_bit 16 (c AND 0xFF) OR push_bit 8 (c AND 0xFF) OR (c AND 0xFF)"
  shows "word_bytes 4 w = replicate 4 (ucast w)" "(ucast w :: u8) = ucast c"
proof -
  have m: "(0xFF :: u32) = mask 8" by (simp add: mask_eq_exp_minus_1)
  have b: "(ucast (drop_bit (8 * i) w) :: u8) = ucast c" if "i < 4" for i
  proof (rule bit_word_eqI)
    fix n :: nat assume n: "n < LENGTH(8)"
    consider "i = 0" | "i = 1" | "i = 2" | "i = 3" using \<open>i < 4\<close> by linarith
    then show "bit (ucast (drop_bit (8 * i) w) :: u8) n = bit (ucast c :: u8) n"
      unfolding w_def m using n by cases (auto simp: bit_simps simp del: mask_numeral)
  qed
  from b [of 0] show u: "(ucast w :: u8) = ucast c" by simp
  show "word_bytes 4 w = replicate 4 (ucast w)"
    unfolding u by (rule nth_equalityI) (simp_all add: word_bytes_def b)
qed

lemma rep_movsb_up:
  "edi = esi \<or> unat ecx \<le> unat (edi - esi) \<Longrightarrow> rep_movsb False ecx esi edi m = copied edi esi (unat ecx) m"
proof (induction "unat ecx" arbitrary: ecx esi edi m)
  case 0
  then have "ecx = 0" by (simp add: unat_eq_zero)
  then show ?case by (subst rep_movsb.simps) (simp add: copied_def)
next
  case (Suc n)
  then have nz: "ecx \<noteq> 0" by auto
  have n: "n = unat (ecx - 1)" using Suc(2) Suc_unat_dec [OF nz] by simp
  have "rep_movsb False ecx esi edi m = rep_movsb False (ecx - 1) (esi + 1) (edi + 1) (m(edi := m esi))"
    using nz by (subst rep_movsb.simps) simp
  also have "\<dots> = copied (edi + 1) (esi + 1) (unat (ecx - 1)) (m(edi := m esi))"
    by (rule Suc(1) [OF n copied_dec(2) [OF nz Suc(3)]])
  finally show ?case unfolding copied_dec(1) [OF nz Suc(3)] .
qed

lemma copied_snoc:
  assumes "unat (dest - src) + Suc n \<le> 2 ^ 32"
  shows "copied dest src n (m(dest + of_nat n := m (src + of_nat n))) = copied dest src (Suc n) m"
proof
  fix a
  let ?x = "a - dest" and ?m = "m(dest + of_nat n := m (src + of_nat n))"
  have n: "n < 2 ^ 32" using assms by simp
  have at: "a = dest + of_nat n \<longleftrightarrow> unat ?x = n"
  proof
    assume "unat ?x = n"
    then have "?x = of_nat n" by (metis of_nat_unat_word)
    then show "a = dest + of_nat n" by (metis add.commute diff_add_cancel)
  qed (use n in \<open>simp add: unat_of_nat_u32\<close>)
  have "src + ?x \<noteq> dest + of_nat n" if "unat ?x < n"
  proof
    assume eq: "src + ?x = dest + of_nat n"
    have "?x - of_nat n = (src + ?x) - (src + of_nat n)" by (simp only: add_diff_cancel_left)
    also have "\<dots> = dest - src" unfolding eq by simp
    finally have e: "?x - of_nat n = dest - src" .
    have "unat (?x - of_nat n) = unat ?x + 2 ^ 32 - n" using that unat_shift [OF n, of ?x] by simp
    then show False unfolding e using assms that by linarith
  qed
  then show "copied dest src n ?m a = copied dest src (Suc n) m a"
    unfolding copied_def using at by (auto simp: less_Suc_eq)
qed

lemma rep_movsb_down:
  "unat (dest - src) + unat ecx \<le> 2 ^ 32 \<Longrightarrow>
   rep_movsb True ecx (src + ecx - 1) (dest + ecx - 1) m = copied dest src (unat ecx) m"
proof (induction "unat ecx" arbitrary: ecx m)
  case 0
  then have "ecx = 0" by (simp add: unat_eq_zero)
  then show ?case by (subst rep_movsb.simps) (simp add: copied_def)
next
  case (Suc n)
  then have nz: "ecx \<noteq> 0" by auto
  have n: "n = unat (ecx - 1)" using Suc(2) Suc_unat_dec [OF nz] by simp
  then have w: "ecx - 1 = of_nat n" by (metis of_nat_unat_word)
  have e: "src + ecx - 1 = src + of_nat n" "dest + ecx - 1 = dest + of_nat n" unfolding w [symmetric] by simp_all
  have "rep_movsb True ecx (src + ecx - 1) (dest + ecx - 1) m =
      rep_movsb True (ecx - 1) (src + (ecx - 1) - 1) (dest + (ecx - 1) - 1) (m(dest + of_nat n := m (src + of_nat n)))"
    using nz by (subst rep_movsb.simps) (simp add: e w)
  also have "\<dots> = copied dest src n (m(dest + of_nat n := m (src + of_nat n)))"
    unfolding n using Suc(1) [OF n] Suc(2,3) n by simp
  also have "\<dots> = copied dest src (unat ecx) m"
    using copied_snoc [of dest src n m] Suc(2,3) by simp
  finally show ?case .
qed

section \<open>Properties\<close>

text \<open>
  \<open>memset\<close> fills: for every address, alignment and length it stores the low byte of \<open>c\<close> in exactly
  the \<open>n\<close> bytes from \<open>s\<close> on and returns \<open>s\<close>.
\<close>

theorem memset_fills: "memset s c n m = (s, filled s (ucast c) (unat n) m)"
  unfolding memset_def Let_def memset_top_eq [OF splat_bytes(1)] splat_bytes(2) ..

text \<open>
  \<open>memcpy\<close>, which copies single bytes up to a word boundary, then words, then the rest, is the copy
  of \<open>n\<close> bytes at once, for every alignment, unless the destination starts inside the source.
\<close>

theorem memcpy_copies:
  assumes "dest = src \<or> unat n \<le> unat (dest - src)"
  shows "memcpy dest src n m = (dest, copied dest src (unat n) m)"
  by (simp add: memcpy_def memcpy_top_eq [OF assms])

theorem memcpy_copies_witness:
  "\<forall>m. snd (memcpy 0x100D 0x1000 13 m) 0x1011 = m 0x1004"
  using memcpy_copies [of "0x100D" "0x1000" 13] by (simp add: copied_def)

text \<open>
  C38. \<open>memmove\<close> copies also between ranges that overlap, in either direction, as long as neither range
  runs over the end of the address space. When it copies downwards it leaves the direction flag set.
\<close>

theorem memmove_moves:
  assumes "unat src + unat n \<le> 2 ^ 32" "unat dest + unat n \<le> 2 ^ 32"
  shows "memmove dest src n m = (dest, src < dest, copied dest src (unat n) m)"
proof (cases "dest \<le> src")
  case True
  have "unat n \<le> unat (dest - src)" if "dest \<noteq> src"
  proof -
    have "unat dest < unat src" using True that by (metis order_le_less word_less_nat_alt)
    then show ?thesis using assms(1) by (subst unat_sub_if') simp
  qed
  then have "dest = src \<or> unat n \<le> unat (dest - src)" by blast
  from rep_movsb_up [OF this] True show ?thesis by (simp add: memmove_def not_less)
next
  case False
  then have "unat (dest - src) + unat n \<le> 2 ^ 32"
    using assms(2) by (simp add: unat_sub_if' word_le_nat_alt)
  from rep_movsb_down [OF this] False show ?thesis by (simp add: memmove_def not_le)
qed

theorem memmove_moves_witness:
  "\<forall>m. memmove 0x1002 0x1000 5 m = (0x1002, True, copied 0x1002 0x1000 5 m)"
  using memmove_moves [of "0x1000" 5 "0x1002"] by simp

end
