(* ===== verification/User_Lib.thy ===== *)
theory User_Lib
  imports Lib_Format "HOL-Library.Sublist"
begin

text \<open>
  The support library of the user programs, \<open>syscalls/ece391support.c\<close>. It repeats the string
  routines of the kernel with other loops: pointers that walk instead of indices, unsigned instead of
  signed characters. What both libraries promise is the interface \<open>string_library\<close>; the facts proved
  from it hold for either.
\<close>

section \<open>Strings\<close>

fun ece391_strlen_loop :: "u8 list \<Rightarrow> nat \<Rightarrow> nat option" where
  "ece391_strlen_loop [] len = None"
| "ece391_strlen_loop (c # s) len = (if c \<noteq> 0 then ece391_strlen_loop s (Suc len) else Some len)"

definition ece391_strlen :: "u8 list \<Rightarrow> nat option" where
  "ece391_strlen s = ece391_strlen_loop s 0"

text \<open>The destination holds the bytes from \<open>dst\<close> to the end of its object.\<close>

fun ece391_strcpy :: "u8 list \<Rightarrow> u8 list \<Rightarrow> u8 list option" where
  "ece391_strcpy (_ # dst) (c # src) =
     (if c \<noteq> 0 then map_option (Cons c) (ece391_strcpy dst src) else Some (c # dst))"
| "ece391_strcpy _ _ = None"

fun ece391_strcmp :: "u8 list \<Rightarrow> u8 list \<Rightarrow> int option" where
  "ece391_strcmp (a # s1) (b # s2) =
     (if a = b then if a = 0 then Some 0 else ece391_strcmp s1 s2 else Some (uint a - uint b))"
| "ece391_strcmp _ _ = None"

fun ece391_strncmp_loop :: "u8 list \<Rightarrow> u8 list \<Rightarrow> nat \<Rightarrow> int option" where
  "ece391_strncmp_loop (a # s1) (b # s2) n =
     (if a = b then if a = 0 \<or> n - 1 = 0 then Some 0 else ece391_strncmp_loop s1 s2 (n - 1)
      else Some (uint a - uint b))"
| "ece391_strncmp_loop _ _ n = None"

definition ece391_strncmp :: "u8 list \<Rightarrow> u8 list \<Rightarrow> nat \<Rightarrow> int option" where
  "ece391_strncmp s1 s2 n = (if n = 0 then Some 0 else ece391_strncmp_loop s1 s2 n)"

lemma uint_eq_iff_u8 [simp]: "uint (a :: u8) = uint b \<longleftrightarrow> a = b" "uint a = 0 \<longleftrightarrow> a = 0" "0 = uint a \<longleftrightarrow> a = 0"
  by (auto simp: word_uint_eq_iff)

lemma ece391_strlen_loop_eq:
  "ece391_strlen_loop s len = (if nul_terminated s then Some (len + length (cstr s)) else None)"
  by (induction s len rule: ece391_strlen_loop.induct) (auto simp: nul_terminated_def cstr_def)

lemma ece391_strlen_eq: "ece391_strlen s = (if nul_terminated s then Some (length (cstr s)) else None)"
  by (simp add: ece391_strlen_def ece391_strlen_loop_eq)

lemma ece391_strcpy_eq:
  "nul_terminated src \<Longrightarrow> length (cstr src) < length dst \<Longrightarrow>
   ece391_strcpy dst src = Some (cstr src @ 0 # drop (Suc (length (cstr src))) dst)"
  by (induction dst src rule: ece391_strcpy.induct) (auto simp: nul_terminated_def cstr_def)

fun_cases ece391_strcpyE: "ece391_strcpy dst src = Some d"

lemma ece391_strcpy_length: "ece391_strcpy dst src = Some d \<Longrightarrow> length d = length dst"
  by (induction dst src arbitrary: d rule: ece391_strcpy.induct) (auto elim: ece391_strcpyE split: if_splits)

lemma ece391_strcmp_eq:
  "nul_terminated s1 \<Longrightarrow> nul_terminated s2 \<Longrightarrow> \<exists>r. ece391_strcmp s1 s2 = Some r \<and> (r = 0 \<longleftrightarrow> cstr s1 = cstr s2)"
proof (induction s1 s2 rule: ece391_strcmp.induct)
  case (1 a s1 b s2)
  then show ?case by (cases "a = 0"; cases "b = 0") (auto simp: nul_terminated_def cstr_def)
qed (simp_all add: nul_terminated_def)

lemma ece391_strncmp_loop_eq:
  "0 < n \<Longrightarrow> nul_terminated s1 \<Longrightarrow> nul_terminated s2 \<Longrightarrow>
   \<exists>r. ece391_strncmp_loop s1 s2 n = Some r \<and> (r = 0 \<longleftrightarrow> take n (cstr s1) = take n (cstr s2))"
proof (induction s1 s2 n rule: ece391_strncmp_loop.induct)
  case (1 a s1 b s2 n)
  then obtain m where n: "n = Suc m" by (cases n) auto
  show ?case
  proof (cases "a = b \<and> a \<noteq> 0 \<and> m \<noteq> 0")
    case True
    then have "nul_terminated s1" "nul_terminated s2" using 1(3,4) by (auto simp: nul_terminated_def)
    with 1(1) True n show ?thesis by (auto simp: cstr_def)
  next
    case False
    with 1(3,4) n show ?thesis by (cases "a = 0"; cases "b = 0") (auto simp: cstr_def)
  qed
qed (simp_all add: nul_terminated_def)

lemma ece391_strncmp_eq:
  "nul_terminated s1 \<Longrightarrow> nul_terminated s2 \<Longrightarrow>
   \<exists>r. ece391_strncmp s1 s2 n = Some r \<and> (r = 0 \<longleftrightarrow> take n (cstr s1) = take n (cstr s2))"
  using ece391_strncmp_loop_eq [of n s1 s2] by (auto simp: ece391_strncmp_def)

section \<open>The interface of a string library\<close>

locale string_library =
  fixes len :: "u8 list \<Rightarrow> nat option"
    and ncmp :: "u8 list \<Rightarrow> u8 list \<Rightarrow> nat \<Rightarrow> int option"
  assumes len_text: "nul_terminated s \<Longrightarrow> len s = Some (length (cstr s))"
    and ncmp_text: "nul_terminated s \<Longrightarrow> nul_terminated t \<Longrightarrow>
      \<exists>r. ncmp s t n = Some r \<and> (r = 0 \<longleftrightarrow> take n (cstr s) = take n (cstr t))"
begin

text \<open>Comparing as many characters as the second string has tests for a prefix.\<close>

lemma prefix_test:
  assumes "nul_terminated s" "nul_terminated t"
  shows "\<exists>n r. len t = Some n \<and> ncmp s t n = Some r \<and> (r = 0 \<longleftrightarrow> prefix (cstr t) (cstr s))"
proof -
  have "take (length (cstr t)) (cstr s) = cstr t \<longleftrightarrow> prefix (cstr t) (cstr s)"
    by (metis append_eq_conv_conj append_take_drop_id prefix_def)
  then show ?thesis using ncmp_text [OF assms, of "length (cstr t)"] len_text [OF assms(2)] by auto
qed

text \<open>Comparing more characters than either string has tests for equality.\<close>

lemma equal_test:
  assumes "nul_terminated s" "nul_terminated t" "length (cstr s) \<le> n" "length (cstr t) \<le> n"
  shows "\<exists>r. ncmp s t n = Some r \<and> (r = 0 \<longleftrightarrow> cstr s = cstr t)"
  using ncmp_text [OF assms(1,2), of n] assms(3,4) by simp

lemma compare_sym:
  assumes "nul_terminated s" "nul_terminated t" "ncmp s t n = Some r" "ncmp t s n = Some r'"
  shows "r = 0 \<longleftrightarrow> r' = 0"
  using ncmp_text [OF assms(1,2), of n] ncmp_text [OF assms(2,1), of n] assms(3,4) by auto

end

interpretation kernel_strings: string_library strlen strncmp
proof
  fix s t :: "u8 list" and n :: nat
  show "nul_terminated s \<Longrightarrow> nul_terminated t \<Longrightarrow>
      \<exists>r. strncmp s t n = Some r \<and> (r = 0 \<longleftrightarrow> take n (cstr s) = take n (cstr t))"
    by (rule strncmp_eq_0) simp_all
qed simp

interpretation user_strings: string_library ece391_strlen ece391_strncmp
  by unfold_locales (simp_all add: ece391_strlen_eq ece391_strncmp_eq)

section \<open>Numbers\<close>

function ece391_strrev_loop :: "u8 list \<Rightarrow> nat \<Rightarrow> nat \<Rightarrow> u8 list option" where
  "ece391_strrev_loop s beg fin =
     (if beg < fin then do {
        tmp \<leftarrow> buf_get s fin;
        c \<leftarrow> buf_get s beg;
        s \<leftarrow> buf_put s fin c;
        s \<leftarrow> buf_put s beg tmp;
        ece391_strrev_loop s (Suc beg) (fin - 1)
      } else Some s)"
  by pat_completeness auto
termination by (relation "measure (\<lambda>(s, beg, fin). fin - beg)") auto

declare ece391_strrev_loop.simps [simp del]

definition ece391_strrev :: "u8 list \<Rightarrow> u8 list option" where
  "ece391_strrev s = do {
     n \<leftarrow> ece391_strlen s;
     (if int n - 1 \<le> 0 then Some s else ece391_strrev_loop s 0 (n - 1))
   }"

function ece391_itoa_loop :: "u32 \<Rightarrow> u8 list \<Rightarrow> nat \<Rightarrow> u32 \<Rightarrow> (u8 list \<times> nat) option" where
  "ece391_itoa_loop newval buf newbuf radix =
     (if newval > 0 then do {
        require (radix \<noteq> 0);
        c \<leftarrow> buf_get lookup_digits (unat (newval mod radix));
        (case buf_put buf newbuf c of
           None \<Rightarrow> None
         | Some buf \<Rightarrow> ece391_itoa_loop (newval div radix) buf (newbuf + 1) radix)
      } else Some (buf, newbuf))"
  by pat_completeness auto
termination
  by (relation "measure (\<lambda>(newval, buf, newbuf, radix). length buf - newbuf)") (auto dest: buf_put_SomeD)

declare ece391_itoa_loop.simps [simp del]

definition ece391_itoa :: "u32 \<Rightarrow> u8 list \<Rightarrow> int \<Rightarrow> u8 list option" where
  "ece391_itoa v buf radix =
     (if v = 0 then do {
        buf \<leftarrow> buf_put buf 0 (of_char CHR ''0'');
        buf_put buf 1 0
      } else do {
        (buf, newbuf) \<leftarrow> ece391_itoa_loop v buf 0 (word_of_int radix);
        buf \<leftarrow> buf_put buf newbuf 0;
        ece391_strrev buf
      })"

lemma ece391_strrev_loop_eq: "ece391_strrev_loop s beg fin = strrev_loop s (int beg) (int fin)"
proof (induction s beg fin rule: ece391_strrev_loop.induct)
  case (1 s beg fin)
  show ?case
  proof (cases "beg < fin")
    case True
    then have "int (fin - 1) = int fin - 1" by simp
    with True show ?thesis
      using 1 by (subst ece391_strrev_loop.simps, subst strrev_loop.simps)
        (auto simp: buf_get_def buf_put_def add.commute)
  next
    case False
    then show ?thesis by (subst ece391_strrev_loop.simps, subst strrev_loop.simps) simp
  qed
qed

lemma ece391_strrev_eq: "ece391_strrev = strrev"
proof
  fix s
  have "ece391_strrev_loop s 0 (n - 1) = strrev_loop s 0 (int n - 1)" if "1 < n" for n
    using that by (simp add: ece391_strrev_loop_eq of_nat_diff)
  moreover have "strrev_loop s 0 (int n - 1) = Some s" if "\<not> 1 < n" for n
    using that by (subst strrev_loop.simps) simp
  ultimately show "ece391_strrev s = strrev s" by (auto simp: ece391_strrev_def strrev_def ece391_strlen_eq)
qed

lemma ece391_itoa_loop_eq: "ece391_itoa_loop v buf newbuf radix = itoa_loop v buf newbuf radix"
proof (induction v buf newbuf radix rule: ece391_itoa_loop.induct)
  case (1 v buf newbuf radix)
  then show ?case
    by (subst ece391_itoa_loop.simps, subst itoa_loop.simps) (auto simp: require_def split: option.splits bind_splits)
qed

section \<open>Properties\<close>

text \<open>
  The two libraries agree: on strings that end in a NUL the lengths are equal, comparisons call the
  same strings equal, and for all arguments reversal and number conversion give the same buffer or the
  same fault.
\<close>

theorem libraries_agree:
  assumes "nul_terminated s" "nul_terminated t"
  shows "ece391_strlen s = strlen s \<and> ece391_itoa v buf radix = itoa v buf radix \<and> ece391_strrev s = strrev s \<and>
    (\<exists>r r'. ece391_strncmp s t n = Some r \<and> strncmp s t n = Some r' \<and> (r = 0 \<longleftrightarrow> r' = 0))"
proof -
  have "ece391_itoa v buf radix = itoa v buf radix"
    by (simp add: ece391_itoa_def itoa_def ece391_itoa_loop_eq ece391_strrev_eq)
  then show ?thesis
    using user_strings.ncmp_text [OF assms, of n] kernel_strings.ncmp_text [OF assms, of n]
    by (auto simp: ece391_strrev_eq user_strings.len_text assms)
qed

theorem libraries_agree_witness:
  "ece391_itoa 1000 (replicate 8 0) 7 = itoa 1000 (replicate 8 0) 7 \<and> ece391_strlen [0x61, 0] = strlen [0x61, 0]"
  using libraries_agree [of "[0x61, 0]" "[0]" 1000 "replicate 8 0" 7] by (simp add: nul_terminated_def)

text \<open>The signs differ for characters above 127, which only the kernel's library takes as negative.\<close>

lemma comparison_signs_differ: "ece391_strncmp [0x80, 0] [0x61, 0] 1 = Some 31" "strncmp [0x80, 0] [0x61, 0] 1 = Some (-225)"
  by code_simp+

end
