(* ===== verification/User_Programs.thy ===== *)
theory User_Programs
  imports User_Lib Scheduler Syscall
begin

text \<open>
  The programs of \<open>syscalls\<close> that the file system image carries, as functions of the kernel state: each
  system call of the C text is the kernel's operation, in the order the program makes them. A program
  returns its exit status with the kernel state, waits for input, or faults. The uninitialised buffers
  are arguments, and \<open>user_env\<close> holds what the kernel's calls need besides their arguments.
\<close>

record user_env =
  u_call :: call_locals
  u_irqs :: "(tty \<Rightarrow> tty option) list"  \<comment> \<open>the keyboard interrupts while a read waits\<close>
  u_ticks :: nat
  u_exec :: exec_locals

type_synonym program_result = "(int \<times> kernel) waiting option"

abbreviation c_string :: "string \<Rightarrow> u8 list" where
  "c_string s \<equiv> ascii s @ [0]"

abbreviation c_line :: "string \<Rightarrow> u8 list" where
  "c_line s \<equiv> ascii s @ [0x0A, 0]"

definition ece391_read ::
    "user_env \<Rightarrow> int \<Rightarrow> u8 list \<Rightarrow> int \<Rightarrow> kernel \<Rightarrow> (int \<times> u8 list option \<times> kernel) waiting option" where
  "ece391_read e fd buf nbytes k = sys_read (u_call e) (u_irqs e) (u_ticks e) fd (Some buf) nbytes k"

definition ece391_write :: "user_env \<Rightarrow> int \<Rightarrow> u8 list \<Rightarrow> int \<Rightarrow> kernel \<Rightarrow> (int \<times> kernel) option" where
  "ece391_write e fd buf nbytes k = sys_write (u_call e) fd (Some buf) nbytes k"

definition ece391_open :: "user_env \<Rightarrow> u8 list \<Rightarrow> kernel \<Rightarrow> (int \<times> kernel) option" where
  "ece391_open e name k = sys_open (u_call e) (Some name) k"

definition ece391_getargs :: "u8 list \<Rightarrow> int \<Rightarrow> kernel \<Rightarrow> (int \<times> u8 list) option" where
  "ece391_getargs buf nbytes k = do { (r, buf) \<leftarrow> getargs (Some buf) nbytes k; buf \<leftarrow> buf; Some (r, buf) }"

definition ece391_fdputs :: "user_env \<Rightarrow> int \<Rightarrow> u8 list \<Rightarrow> kernel \<Rightarrow> kernel option" where
  "ece391_fdputs e fd s k = do {
     n \<leftarrow> ece391_strlen s;
     (_, k) \<leftarrow> ece391_write e fd s (int n) k;
     Some k
   }"

text \<open>A message on the terminal and the end of the program.\<close>

definition give_up :: "user_env \<Rightarrow> string \<Rightarrow> int \<Rightarrow> kernel \<Rightarrow> program_result" where
  "give_up e msg status k = do { k \<leftarrow> ece391_fdputs e 1 (c_line msg) k; Some (Returns (status, k)) }"

section \<open>cat\<close>

partial_function (option) cat_loop :: "user_env \<Rightarrow> int \<Rightarrow> u8 list \<Rightarrow> kernel \<Rightarrow> program_result" where
  "cat_loop e fd buf k =
     (case ece391_read e fd buf 1024 k of
        Some Waits \<Rightarrow> Some Waits
      | Some (Returns (cnt, Some buf, k)) \<Rightarrow>
          if cnt = 0 then Some (Returns (0, k))
          else if cnt = -1 then give_up e ''file read failed'' 3 k
          else do {
            (w, k) \<leftarrow> ece391_write e 1 buf cnt k;
            (if w = -1 then Some (Returns (3, k)) else cat_loop e fd buf k)
          }
      | _ \<Rightarrow> None)"

definition ece391cat :: "user_env \<Rightarrow> u8 list \<Rightarrow> kernel \<Rightarrow> program_result" where
  "ece391cat e buf k = do {
     (r, buf) \<leftarrow> ece391_getargs buf 1024 k;
     (if r \<noteq> 0 then give_up e ''could not read arguments'' 3 k
      else do {
        (fd, k) \<leftarrow> ece391_open e buf k;
        (if fd = -1 then give_up e ''file not found'' 2 k else cat_loop e fd buf k)
      })
   }"

section \<open>ls\<close>

partial_function (option) ls_loop :: "user_env \<Rightarrow> int \<Rightarrow> u8 list \<Rightarrow> kernel \<Rightarrow> program_result" where
  "ls_loop e fd buf k =
     (case ece391_read e fd buf 32 k of
        Some Waits \<Rightarrow> Some Waits
      | Some (Returns (cnt, Some buf, k)) \<Rightarrow>
          if cnt = 0 then Some (Returns (0, k))
          else if cnt = -1 then give_up e ''directory entry read failed'' 3 k
          else do {
            buf \<leftarrow> buf_put buf (nat cnt) 0x0A;
            (w, k) \<leftarrow> ece391_write e 1 buf (cnt + 1) k;
            (if w = -1 then Some (Returns (3, k)) else ls_loop e fd buf k)
          }
      | _ \<Rightarrow> None)"

definition ece391ls :: "user_env \<Rightarrow> u8 list \<Rightarrow> kernel \<Rightarrow> program_result" where
  "ece391ls e buf k = do {
     (fd, k) \<leftarrow> ece391_open e (c_string ''.'') k;
     (if fd = -1 then give_up e ''directory open failed'' 2 k else ls_loop e fd buf k)
   }"

section \<open>rm and touch\<close>

definition ece391rm :: "user_env \<Rightarrow> u8 list \<Rightarrow> kernel \<Rightarrow> program_result" where
  "ece391rm e buf k = do {
     (r, buf) \<leftarrow> ece391_getargs buf 1024 k;
     (if r \<noteq> 0 then give_up e ''could not read arguments'' 3 k
      else do {
        (cnt, k) \<leftarrow> sys_remove (u_call e) (Some buf) k;
        (if cnt = -1 then give_up e ''can not remove the file'' 2 k else Some (Returns (0, k)))
      })
   }"

definition ece391touch :: "user_env \<Rightarrow> u8 list \<Rightarrow> kernel \<Rightarrow> program_result" where
  "ece391touch e buf k = do {
     (r, buf) \<leftarrow> ece391_getargs buf 1024 k;
     (if r \<noteq> 0 then give_up e ''could not read arguments'' 3 k
      else do {
        (fd, k) \<leftarrow> ece391_open e buf k;
        (if fd = -1 then give_up e ''could not open the file'' 2 k
         else do {
           (cnt, k) \<leftarrow> ece391_write e fd [0, 0] 0 k;
           (if cnt = -1 then give_up e ''could not write the file'' 2 k
            else do {
              (c, k) \<leftarrow> sys_close fd k;
              (if c = -1 then give_up e ''could not close the file'' 3 k else Some (Returns (0, k)))
            })
         })
      })
   }"

section \<open>echo and hello\<close>

text \<open>When the read fails, \<open>buf2[cnt-1]\<close> is written in front of the array.\<close>

definition ece391echo :: "user_env \<Rightarrow> u8 list \<Rightarrow> u8 list \<Rightarrow> kernel \<Rightarrow> program_result" where
  "ece391echo e buf buf2 k = do {
     (r, buf) \<leftarrow> ece391_getargs buf 100 k;
     (if r \<noteq> 0 then give_up e ''could not read arguments'' 3 k
      else do {
        k \<leftarrow> ece391_fdputs e 1 (c_line ''write the filename of the file you want to write in'') k;
        rd \<leftarrow> ece391_read e 0 buf2 32 k;
        (case rd of
           Waits \<Rightarrow> Some Waits
         | Returns (cnt, buf2, k) \<Rightarrow> do {
             buf2 \<leftarrow> buf2;
             require (cnt \<noteq> -1);
             (fd, k) \<leftarrow> ece391_open e buf2 k;
             (if fd = -1 then give_up e ''file not found'' 2 k
              else do {
                n \<leftarrow> ece391_strlen buf;
                (w, k) \<leftarrow> ece391_write e fd buf (int n) k;
                (if w = -1 then give_up e ''can't write '' 2 k
                 else do {
                   (c, k) \<leftarrow> sys_close fd k;
                   (if c = -1 then give_up e ''can't close the file '' 2 k else Some (Returns (0, k)))
                 })
              })
           })
      })
   }"

definition ece391hello :: "user_env \<Rightarrow> u8 list \<Rightarrow> kernel \<Rightarrow> program_result" where
  "ece391hello e buf k = do {
     k \<leftarrow> ece391_fdputs e 1 (c_string ''Hi, what's your name? '') k;
     rd \<leftarrow> ece391_read e 0 buf 1023 k;
     (case rd of
        Waits \<Rightarrow> Some Waits
      | Returns (cnt, buf, k) \<Rightarrow> do {
          buf \<leftarrow> buf;
          (if cnt = -1 then give_up e ''Can't read name from keyboard.'' 3 k
           else do {
             buf \<leftarrow> buf_put buf (nat cnt) 0;
             k \<leftarrow> ece391_fdputs e 1 (c_string ''Hello, '') k;
             k \<leftarrow> ece391_fdputs e 1 buf k;
             Some (Returns (0, k))
           })
        })
   }"

definition ece391testprint :: "user_env \<Rightarrow> kernel \<Rightarrow> program_result" where
  "ece391testprint e k = give_up e ''Hello, if this ran, the program was correct. Yay!'' 0 k"

section \<open>counter\<close>

function count_up :: "user_env \<Rightarrow> nat \<Rightarrow> nat \<Rightarrow> u8 list \<Rightarrow> kernel \<Rightarrow> kernel option" where
  "count_up e i limit buf k =
     (if i < limit then do {
        buf \<leftarrow> ece391_itoa (of_nat (i + 1)) buf 10;
        k \<leftarrow> ece391_fdputs e 1 buf k;
        k \<leftarrow> ece391_fdputs e 1 (c_line []) k;
        count_up e (Suc i) limit buf k
      } else Some k)"
  by pat_completeness auto
termination by (relation "measure (\<lambda>(e, i, limit, buf, k). limit - i)") auto

declare count_up.simps [simp del]

definition counter_limit :: "u8 list \<Rightarrow> nat option option" where
  "counter_limit buf = do {
     n \<leftarrow> ece391_strlen buf;
     c \<leftarrow> buf_get buf 0;
     Some (if n > 2 \<or> n = 2 \<and> (c < of_char CHR ''0'' \<or> c > of_char CHR ''2'') then None
           else if c = of_char CHR ''0'' then Some 100
           else if c = of_char CHR ''1'' then Some 10000
           else if c = of_char CHR ''2'' then Some 100000
           else Some 0)
   }"

definition ece391counter :: "user_env \<Rightarrow> u8 list \<Rightarrow> kernel \<Rightarrow> program_result" where
  "ece391counter e buf k = do {
     k \<leftarrow> ece391_fdputs e 1 (c_line ''Enter the Test Number: (0): 100, (1): 10000, (2): 100000'') k;
     rd \<leftarrow> ece391_read e 0 buf 1023 k;
     (case rd of
        Waits \<Rightarrow> Some Waits
      | Returns (cnt, buf, k) \<Rightarrow> do {
          buf \<leftarrow> buf;
          (if cnt = -1 then give_up e ''Can't read the number from keyboard.'' 3 k
           else do {
             buf \<leftarrow> buf_put buf (nat cnt) 0;
             limit \<leftarrow> counter_limit buf;
             (case limit of
                None \<Rightarrow> give_up e ''Wrong Choice!'' 0 k
              | Some most \<Rightarrow> do { k \<leftarrow> count_up e 0 most buf k; Some (Returns (0, k)) })
           })
        })
   }"

section \<open>shell\<close>

text \<open>
  One turn of the loop: the prompt, the line, and what the line asks for. A program that was started
  runs until its \<open>halt\<close>; \<open>shell_report\<close> is what the shell then says of the result.
\<close>

datatype shell_turn = Leaves int kernel | Prompts kernel | Calls "u8 list" control kernel

definition shell_start :: "user_env \<Rightarrow> kernel \<Rightarrow> kernel option" where
  "shell_start e k = ece391_fdputs e 1 (c_line ''Starting 391 Shell'') k"

definition strip_newline :: "u8 list \<Rightarrow> int \<Rightarrow> u8 list option" where
  "strip_newline buf cnt = do {
     cnt \<leftarrow> (if cnt > 0 then do {
         c \<leftarrow> buf_get buf (nat (cnt - 1));
         Some (if c = 0x0A then cnt - 1 else cnt)
       } else Some cnt);
     require (0 \<le> cnt);
     buf_put buf (nat cnt) 0
   }"

definition shell_line :: "user_env \<Rightarrow> u8 list \<Rightarrow> kernel \<Rightarrow> shell_turn option" where
  "shell_line e buf k = do {
     r \<leftarrow> ece391_strcmp buf (c_string ''exit'');
     c \<leftarrow> buf_get buf 0;
     (if r = 0 then Some (Leaves 0 k)
      else if c = 0 then Some (Prompts k)
      else do { (rval, k) \<leftarrow> execute (u_exec e) buf k; Some (Calls buf rval k) })
   }"

definition shell_turn :: "user_env \<Rightarrow> u8 list \<Rightarrow> kernel \<Rightarrow> shell_turn waiting option" where
  "shell_turn e buf k = do {
     k \<leftarrow> ece391_fdputs e 1 (c_string ''391OS> '') k;
     rd \<leftarrow> ece391_read e 0 buf 1023 k;
     (case rd of
        Waits \<Rightarrow> Some Waits
      | Returns (cnt, buf, k) \<Rightarrow> do {
          buf \<leftarrow> buf;
          (if cnt = -1 then do {
             k \<leftarrow> ece391_fdputs e 1 (c_line ''read from keyboard failed'') k;
             Some (Returns (Leaves 3 k))
           } else do {
             buf \<leftarrow> strip_newline buf cnt;
             turn \<leftarrow> shell_line e buf k;
             Some (Returns turn)
           })
        })
   }"

definition shell_report :: "user_env \<Rightarrow> int \<Rightarrow> kernel \<Rightarrow> kernel option" where
  "shell_report e rval k =
     (if rval = -1 then ece391_fdputs e 1 (c_line ''no such command'') k
      else if rval = 256 then ece391_fdputs e 1 (c_line ''program terminated by exception'') k
      else if rval \<noteq> 0 then ece391_fdputs e 1 (c_line ''program terminated abnormally'') k
      else Some k)"

end
