(* ===== verification/User_Grep.thy ===== *)
theory User_Grep
  imports User_Programs
begin

text \<open>
  \<open>syscalls/ece391grep.c\<close>: the lines of a file that contain a text, over the files of the directory.
  The buffer \<open>data\<close> of \<open>do_one_file\<close> has 1025 bytes; \<open>last\<close> of them hold text not searched yet.
\<close>

section \<open>One line\<close>

function find_line_end :: "u8 list \<Rightarrow> nat \<Rightarrow> nat \<Rightarrow> nat option" where
  "find_line_end data limit i =
     (if i < limit then do {
        c \<leftarrow> buf_get data i;
        (if c \<noteq> 0x0A then find_line_end data limit (Suc i) else Some i)
      } else Some i)"
  by pat_completeness auto
termination by (relation "measure (\<lambda>(data, limit, i). limit - i)") auto

declare find_line_end.simps [simp del]

text \<open>
  \<open>s\<close> is an array of \<open>char\<close>, \<open>data\<close> one of \<open>uint8_t\<close>: a character above 127 is never equal.
\<close>

function line_has :: "u8 list \<Rightarrow> nat \<Rightarrow> u8 list \<Rightarrow> nat \<Rightarrow> nat \<Rightarrow> bool option" where
  "line_has s s_len data check line_end =
     (if check < line_end then do {
        c \<leftarrow> buf_get s 0;
        d \<leftarrow> buf_get data check;
        r \<leftarrow> (if sint c = uint d then ece391_strncmp (drop check data) s s_len else Some 1);
        (if r = 0 then Some True else line_has s s_len data (Suc check) line_end)
      } else Some False)"
  by pat_completeness auto
termination by (relation "measure (\<lambda>(s, s_len, data, check, line_end). line_end - check)") auto

declare line_has.simps [simp del]

definition search_line ::
    "user_env \<Rightarrow> u8 list \<Rightarrow> nat \<Rightarrow> u8 list \<Rightarrow> u8 list \<Rightarrow> nat \<Rightarrow> nat \<Rightarrow> kernel \<Rightarrow> kernel option" where
  "search_line e s s_len fname data line_start line_end k = do {
     found \<leftarrow> line_has s s_len data line_start line_end;
     (if found then do {
        k \<leftarrow> ece391_fdputs e 1 fname k;
        k \<leftarrow> ece391_fdputs e 1 (c_string '':'') k;
        k \<leftarrow> ece391_fdputs e 1 (drop line_start data) k;
        ece391_fdputs e 1 (c_line []) k
      } else Some k)
   }"

lemma find_line_end_ge: "find_line_end data limit i = Some j \<Longrightarrow> i \<le> j"
proof (induction data limit i rule: find_line_end.induct)
  case (1 data limit i)
  then show ?case
    by (subst (asm) find_line_end.simps) (auto split: if_splits bind_splits)
qed

section \<open>The lines of the buffer\<close>

text \<open>
  \<open>fresh\<close> says whether the last read returned bytes: then a line without a newline that is not the
  first is copied down to wait for the rest. The result has the buffer and the new \<open>last\<close>.
\<close>

function search_lines ::
    "user_env \<Rightarrow> u8 list \<Rightarrow> nat \<Rightarrow> u8 list \<Rightarrow> bool \<Rightarrow> u8 list \<Rightarrow> nat \<Rightarrow> nat \<Rightarrow> kernel \<Rightarrow> (u8 list \<times> nat \<times> kernel) option" where
  "search_lines e s s_len fname fresh data limit line_start k =
     (case find_line_end data limit line_start of
        None \<Rightarrow> None
      | Some line_end \<Rightarrow> do {
          c \<leftarrow> buf_get data line_end;
          (if c \<noteq> 0x0A \<and> fresh \<and> line_start \<noteq> 0 then do {
             data \<leftarrow> buf_put data line_end 0;
             data \<leftarrow> ece391_strcpy data (drop line_start data);
             Some (data, limit - line_start, k)
           } else
             (case buf_put data line_end 0 of
                None \<Rightarrow> None
              | Some data \<Rightarrow>
                 (case search_line e s s_len fname data line_start line_end k of
                    None \<Rightarrow> None
                  | Some k \<Rightarrow>
                     if line_end + 1 \<ge> limit then Some (data, 0, k)
                     else search_lines e s s_len fname fresh data limit (line_end + 1) k)))
        })"
  by pat_completeness auto

termination
  by (relation "measure (\<lambda>(e, s, s_len, fname, fresh, data, limit, line_start, k). limit - line_start)")
    (auto dest: find_line_end_ge)

declare search_lines.simps [simp del]

section \<open>One file\<close>

datatype file_result = Searched kernel | Failed kernel

partial_function (option) file_loop ::
    "user_env \<Rightarrow> int \<Rightarrow> u8 list \<Rightarrow> nat \<Rightarrow> u8 list \<Rightarrow> u8 list \<Rightarrow> nat \<Rightarrow> kernel \<Rightarrow> file_result waiting option" where
  "file_loop e fd s s_len fname data limit k =
     (case ece391_read e fd (drop limit data) (1024 - int limit) k of
        Some Waits \<Rightarrow> Some Waits
      | Some (Returns (cnt, Some rest, k)) \<Rightarrow>
          if cnt = -1 then do {
            k \<leftarrow> ece391_fdputs e 1 (c_line ''file read failed'') k;
            Some (Returns (Failed k))
          }
          else do {
            (data, limit, k) \<leftarrow>
              search_lines e s s_len fname (cnt \<noteq> 0) (take limit data @ rest) (limit + nat cnt) 0 k;
            (if cnt = 0 then Some (Returns (Searched k)) else file_loop e fd s s_len fname data limit k)
          }
      | _ \<Rightarrow> None)"

definition do_one_file ::
    "user_env \<Rightarrow> u8 list \<Rightarrow> u8 list \<Rightarrow> u8 list \<Rightarrow> kernel \<Rightarrow> file_result waiting option" where
  "do_one_file e data s fname k = do {
     s_len \<leftarrow> ece391_strlen s;
     (fd, k) \<leftarrow> ece391_open e fname k;
     (if fd = -1 then do {
        k \<leftarrow> ece391_fdputs e 1 (c_line ''file open failed'') k;
        Some (Returns (Failed k))
      } else do {
        w \<leftarrow> file_loop e fd s s_len fname data 0 k;
        (case w of
           Returns (Searched k) \<Rightarrow> do {
             (c, k) \<leftarrow> sys_close fd k;
             (if c = -1 then do {
                k \<leftarrow> ece391_fdputs e 1 (c_line ''file close failed'') k;
                Some (Returns (Failed k))
              } else Some (Returns (Searched k)))
           }
         | _ \<Rightarrow> Some w)
      })
   }"

section \<open>The directory\<close>

text \<open>\<open>data\<close> is the uninitialised buffer of each call of \<open>do_one_file\<close> in turn.\<close>

partial_function (option) grep_loop ::
    "user_env \<Rightarrow> (nat \<Rightarrow> u8 list) \<Rightarrow> nat \<Rightarrow> u8 list \<Rightarrow> int \<Rightarrow> u8 list \<Rightarrow> kernel \<Rightarrow> program_result" where
  "grep_loop e data n search fd buf k =
     (case ece391_read e fd buf 32 k of
        Some Waits \<Rightarrow> Some Waits
      | Some (Returns (cnt, Some buf, k)) \<Rightarrow>
          if cnt = 0 then Some (Returns (0, k))
          else if cnt = -1 then give_up e ''directory entry read failed'' 3 k
          else do {
            c \<leftarrow> buf_get buf 0;
            (if c = of_char CHR ''.'' then grep_loop e data n search fd buf k
             else do {
               buf \<leftarrow> buf_put buf (nat cnt) 0;
               w \<leftarrow> do_one_file e (data n) search buf k;
               (case w of
                  Waits \<Rightarrow> Some Waits
                | Returns (Failed k) \<Rightarrow> Some (Returns (3, k))
                | Returns (Searched k) \<Rightarrow> grep_loop e data (Suc n) search fd buf k)
             })
          }
      | _ \<Rightarrow> None)"

definition ece391grep :: "user_env \<Rightarrow> (nat \<Rightarrow> u8 list) \<Rightarrow> u8 list \<Rightarrow> u8 list \<Rightarrow> kernel \<Rightarrow> program_result" where
  "ece391grep e data buf search k = do {
     (r, search) \<leftarrow> ece391_getargs search 1024 k;
     (if r \<noteq> 0 then give_up e ''could not read argument'' 3 k
      else do {
        (fd, k) \<leftarrow> ece391_open e (c_string ''.'') k;
        (if fd = -1 then give_up e ''directory open failed'' 2 k else grep_loop e data 0 search fd buf k)
      })
   }"

end
