(* ===== verification/User_Props.thy ===== *)
theory User_Props
  imports User_Programs Syscall_Props Console_Frame Terminal_Props
begin

text \<open>
  What the user sees of the programs: the contents of a file on the screen and the
  command that the shell starts.
\<close>

section \<open>Text on the terminal\<close>

text \<open>The console prints on every state of its invariant, so printing is a function there.\<close>

definition print_text :: "u8 list \<Rightarrow> tty \<Rightarrow> tty" where
  "print_text cs t = fold (\<lambda>c t. the (putc_modf c t)) cs t"

definition on_display :: "tty \<Rightarrow> bool" where
  "on_display t \<longleftrightarrow> console_inv t \<and> word_of_int (terminal_now t) = cur_display_terminal_id t - 1"

lemma print_text_simps [simp]:
  "print_text [] t = t" "print_text (c # cs) t = print_text cs (the (putc_modf c t))"
  "print_text (xs @ ys) t = print_text ys (print_text xs t)"
  by (simp_all add: print_text_def)

interpretation display: framed_sink putc_modf on_display same_input
proof
  fix c t
  assume "on_display t"
  then obtain t' where t': "putc_modf c t = Some t'" "console_inv t'"
    using putc_modf_inv [of t c] by (auto simp: on_display_def)
  moreover have "same_turn t t'" by (rule same_input_turn [OF putc_modf_input [OF t'(1)]])
  ultimately show "\<exists>t'. putc_modf c t = Some t' \<and> on_display t'"
    using \<open>on_display t\<close> by (auto simp: on_display_def same_turn_def)
qed (auto intro: same_input_trans putc_modf_input)

lemma print_text_displayed: "on_display t \<Longrightarrow> on_display (print_text cs t) \<and> same_input t (print_text cs t)"
  unfolding print_text_def using display.text_ok display.text_same by blast

lemma terminal_write_loop_displayed:
  "on_display t \<Longrightarrow> num \<le> length buf \<Longrightarrow> i \<le> num \<Longrightarrow>
   terminal_write_loop buf num i t = Some (print_text (take (num - i) (drop i buf)) t)"
proof (induction buf num i t rule: terminal_write_loop.induct)
  case (1 buf num i t)
  show ?case
  proof (cases "i < num")
    case True
    then have "drop i buf = buf ! i # drop (Suc i) buf" "num - i = Suc (num - Suc i)"
      using 1(3) by (simp_all add: Cons_nth_drop_Suc)
    moreover obtain t' where t': "putc_modf (buf ! i) t = Some t'" "on_display t'"
      using display.put_ok [OF 1(2)] by blast
    moreover have "buf_get buf i = Some (buf ! i)" using True 1(3) by (simp add: buf_get_def)
    moreover have "word_of_int (terminal_now t) = cur_display_terminal_id t - 1"
      using 1(2) by (simp add: on_display_def)
    ultimately show ?thesis
      using 1(1) [of "buf ! i" t'] 1(3) True by (subst terminal_write_loop.simps) simp
  next
    case False
    then show ?thesis using 1(4) by (subst terminal_write_loop.simps) simp
  qed
qed

lemma prefix_take: "prefix xs ys \<longleftrightarrow> take (length xs) ys = xs"
  by (metis append_eq_conv_conj prefix_def)

text \<open>A buffer that starts with the shell's prompt is printed on a line of its own.\<close>

definition prompt_gap :: "u8 list \<Rightarrow> u8 list" where
  "prompt_gap b = (if prefix (ascii ''391OS> '') (cstr b) then [0x0A] else [])"

lemma terminal_write_displayed:
  assumes t: "on_display t" and n: "n \<le> length b" "n < 2 ^ 31" and b: "nul_terminated b \<or> 7 \<le> length b"
  shows "terminal_write (Some b) (int n) t = Some (int n, print_text (prompt_gap b @ take n b) t)"
proof -
  have p: "cstr prompt = ascii ''391OS> ''" "length (ascii ''391OS> '') = 7"
    "take 7 (cstr prompt) = ascii ''391OS> ''" by (simp_all add: prompt_def cstr_append_nul)
  obtain r where r: "strncmp prompt b 7 = Some r" "r = 0 \<longleftrightarrow> take 7 (cstr prompt) = take 7 (cstr b)"
    using strncmp_eq_0 [of prompt 7 b] b by (auto simp: prompt_def)
  have "r = 0 \<longleftrightarrow> prefix (ascii ''391OS> '') (cstr b)"
    unfolding r(2) prefix_take p(2) p(3) by (rule eq_commute)
  moreover have "unat (word_of_int (int n) :: u32) = n" using n(2) by (simp add: unat_of_nat_u32)
  moreover have "on_display (print_text (prompt_gap b) t)" using print_text_displayed [OF t] by blast
  moreover obtain t1 where "putc_modf 0x0A t = Some t1" using display.put_ok [OF t] by blast
  ultimately show ?thesis
    using r(1) terminal_write_loop_displayed [of "print_text (prompt_gap b) t" n b 0] n(1)
    by (simp add: terminal_write_def prompt_gap_def split: if_splits)
qed

section \<open>Standard output\<close>

definition std_out :: "kernel \<Rightarrow> u32 \<Rightarrow> bool" where
  "std_out k a \<longleftrightarrow> current k a \<and> on_display (ktty k) \<and>
     table_ptr (fds k a 1) = stdout_opt_table \<and> flg (fds k a 1) = FD_BUSY \<and> fd_inode (fds k a 1) \<noteq> -1"

text \<open>The only differences that a write to the terminal makes.\<close>

definition printed :: "u8 list \<Rightarrow> u32 \<Rightarrow> kernel \<Rightarrow> kernel \<Rightarrow> bool" where
  "printed cs a k k' \<longleftrightarrow> ktty k' = print_text cs (ktty k) \<and> kfs k' = kfs k \<and>
     (\<exists>p. k' = (set_fd a 1 ((fds k a 1)\<lparr>file_pos := p\<rparr>) k)\<lparr>ktty := print_text cs (ktty k)\<rparr>)"

lemma current_tty: "same_turn (ktty k) t \<Longrightarrow> current (k\<lparr>ktty := t\<rparr>) a = current k a"
  by (simp add: current_def get_cur_pcb_addr_def same_turn_def)

lemma sys_write_out:
  assumes o: "std_out k a" and n: "n \<le> length b" "n < 2 ^ 31" and b: "nul_terminated b \<or> 7 \<le> length b"
  shows "\<exists>k'. sys_write l 1 (Some b) (int n) k = Some (int n, k') \<and> printed (prompt_gap b @ take n b) a k k' \<and>
    std_out k' a"
proof -
  let ?t = "print_text (prompt_gap b @ take n b) (ktty k)"
  let ?f = "(fds k a 1)\<lparr>file_pos := file_pos (fds k a 1) + word_of_int (int n)\<rparr>"
  let ?k = "(set_fd a 1 ?f k)\<lparr>ktty := ?t\<rparr>"
  note o' = o [unfolded std_out_def]
  have t: "on_display ?t" "same_turn (ktty k) ?t"
    using print_text_displayed [of "ktty k" "prompt_gap b @ take n b"] o' by (simp_all add: same_input_def)
  have cur: "current (k\<lparr>ktty := ?t\<rparr>) a" using current_tty [OF t(2)] o' by simp
  have "call_write stdout_opt_table 1 (Some b) (int n) k = Some (int n, k\<lparr>ktty := ?t\<rparr>)"
    using terminal_write_displayed [OF _ n b] o' by (simp add: call_write_def)
  moreover have "load_fd k a 1 = Some (fds k a 1)" "load_fd (k\<lparr>ktty := ?t\<rparr>) a 1 = Some (fds k a 1)"
    using load_fd_current [of k a 1] load_fd_current [OF cur, of 1] o' by simp_all
  moreover have "store_fd a 1 ?f (k\<lparr>ktty := ?t\<rparr>) = Some ?k"
    using store_fd_current [OF cur, of 1 ?f] by (simp add: set_fd_def)
  ultimately have w: "sys_write l 1 (Some b) (int n) k = Some (int n, ?k)"
    using o' currentD [of k a] by (simp add: sys_write_def create_missing_def write_busy_def)
  have "fds ?k a 1 = ?f" "current ?k a" using cur by (simp_all add: set_fd_def current_def get_cur_pcb_addr_def)
  then have "std_out ?k a" using o' t by (simp add: std_out_def)
  moreover have "printed (prompt_gap b @ take n b) a k ?k" by (auto simp: printed_def)
  ultimately show ?thesis using w by blast
qed

lemma fdputs_out:
  assumes o: "std_out k a" and s: "nul_terminated s" "length (cstr s) < 2 ^ 31"
  shows "\<exists>k'. ece391_fdputs e 1 s k = Some k' \<and> printed (prompt_gap s @ cstr s) a k k' \<and> std_out k' a"
proof -
  have "length (cstr s) \<le> length s" by (rule cstr_length_le)
  from sys_write_out [OF o this s(2), of "u_call e"] s(1) show ?thesis
    by (auto simp: ece391_fdputs_def ece391_write_def ece391_strlen_eq cstr_take)
qed

lemma printed_frame:
  assumes "printed cs a k k'" "std_out k' a"
  shows "reg_open k a fd \<Longrightarrow> reg_open k' a fd \<and> stream k' a fd = stream k a fd"
    "j \<noteq> 1 \<Longrightarrow> fds k' a j = fds k a j" "pcb_arg (pcbs k' a) = pcb_arg (pcbs k a)"
    "krtc k' = krtc k" "same_turn (ktty k) (ktty k') \<Longrightarrow> current k' a \<Longrightarrow> current k a"
proof -
  obtain p where k': "k' = (set_fd a 1 ((fds k a 1)\<lparr>file_pos := p\<rparr>) k)\<lparr>ktty := print_text cs (ktty k)\<rparr>"
    using assms(1) by (auto simp: printed_def)
  show f: "j \<noteq> 1 \<Longrightarrow> fds k' a j = fds k a j" for j by (simp add: k' set_fd_def)
  show "pcb_arg (pcbs k' a) = pcb_arg (pcbs k a)" "krtc k' = krtc k" by (simp_all add: k' set_fd_def)
  show "reg_open k' a fd \<and> stream k' a fd = stream k a fd" if "reg_open k a fd"
  proof -
    have "fd \<noteq> 1" using that by (auto simp: reg_open_def)
    moreover have "kfs k' = kfs k" "current k' a" using assms by (simp_all add: printed_def std_out_def)
    ultimately show ?thesis using that f by (simp add: reg_open_def stream_def)
  qed
  show "current k a" if "same_turn (ktty k) (ktty k')" "current k' a"
    using that by (simp add: k' current_def get_cur_pcb_addr_def same_turn_def set_fd_def)
qed

lemma printed_input: "printed cs a k k' \<Longrightarrow> std_out k a \<Longrightarrow> same_input (ktty k) (ktty k')"
  using print_text_displayed by (simp add: printed_def std_out_def)

section \<open>cat\<close>

lemma sys_read_keeps_out:
  assumes "reg_open k a fd" "std_out k a" "0 \<le> n"
    and "sys_read l irqs ticks (int fd) (Some b) n k = Some (Returns (r, b', k'))"
  shows "std_out k' a \<and> ktty k' = ktty k"
proof -
  have "fd < PCB_SIZE" "fd \<noteq> 1" "reg_fd (fds k a fd)" "current k a"
    using assms(1) by (auto simp: reg_open_def)
  from sys_read_reg [OF this(4,1,2,3) assms(3), of l irqs ticks b] assms(4)
  obtain p where "k' = set_fd a fd ((fds k a fd)\<lparr>file_pos := p\<rparr>) k"
    by (auto split: option.splits prod.splits)
  then show ?thesis using assms(2) \<open>fd \<noteq> 1\<close> by (simp add: std_out_def)
qed

lemma no_gap: "out \<noteq> [] \<Longrightarrow> hd out \<noteq> of_char CHR ''3'' \<Longrightarrow> prompt_gap (out @ rest) = []"
  by (cases out) (auto simp: prompt_gap_def cstr_def)

lemma cat_loop_prints:
  assumes "std_out k a" "reg_open k a fd" "stream k a fd = (c, p)" "length buf = 1024"
    and "\<forall>j. p + j * 1024 < length c \<longrightarrow> c ! (p + j * 1024) \<noteq> of_char CHR ''3''"
  shows "\<exists>k'. cat_loop e (int fd) buf k = Some (Returns (0, k')) \<and> ktty k' = print_text (drop p c) (ktty k) \<and> kfs k' = kfs k"
  using assms
proof (induction "length c - p" arbitrary: k p buf rule: less_induct)
  case less
  let ?out = "take 1024 (drop p c)"
  let ?b = "?out @ drop (length ?out) buf"
  obtain k1 where k1: "sys_read (u_call e) (u_irqs e) (u_ticks e) (int fd) (Some buf) (int 1024) k =
        Some (Returns (int (length ?out), Some ?b, k1))"
      "reg_open k1 a fd" "stream k1 a fd = (c, p + min 1024 (length c - p))" "kfs k1 = kfs k"
    using sys_read_stream [OF less.prems(2), of 1024 buf ?out "(c, p + min 1024 (length c - p))"
        "u_call e" "u_irqs e" "u_ticks e"] less.prems(3,4) by (auto simp del: length_take)
  have out1: "std_out k1 a" "ktty k1 = ktty k"
    using sys_read_keeps_out [OF less.prems(2,1) _ k1(1)] by simp_all
  have rd: "ece391_read e (int fd) buf 1024 k = Some (Returns (int (length ?out), Some ?b, k1))"
    using k1(1) by (simp add: ece391_read_def)
  show ?case
  proof (cases "?out = []")
    case True
    then show ?thesis using rd out1(2) k1(4) by (subst cat_loop.simps) simp
  next
    case False
    then have lt: "p < length c" by auto
    have lb: "length ?out \<le> length ?b" "length ?out < 2 ^ 31" "7 \<le> length ?b" "length ?b = 1024"
      using less.prems(4) by auto
    have "hd ?out = c ! p" using lt by (simp add: hd_drop_conv_nth)
    then have "prompt_gap ?b = []" using no_gap [OF False] less.prems(5)[rule_format, of 0] lt by simp
    moreover have tk: "take (length ?out) ?b = ?out" by (simp add: min_def)
    ultimately obtain k2 where k2: "sys_write (u_call e) 1 (Some ?b) (int (length ?out)) k1 = Some (int (length ?out), k2)"
        "printed ?out a k1 k2" "std_out k2 a"
      using sys_write_out [OF out1(1) lb(1,2) disjI2 [OF lb(3)], of "u_call e", unfolded tk] by auto
    note fr = printed_frame(1) [OF k2(2,3) k1(2)]
    let ?p = "p + min 1024 (length c - p)"
    have m: "\<forall>j. ?p + j * 1024 < length c \<longrightarrow> c ! (?p + j * 1024) \<noteq> of_char CHR ''3''"
    proof (intro allI impI)
      fix j assume j: "?p + j * 1024 < length c"
      then have "?p + j * 1024 = p + Suc j * 1024"
        by (cases "1024 \<le> length c - p") (simp_all add: min_def)
      show "c ! (?p + j * 1024) \<noteq> of_char CHR ''3''"
        using less.prems(5)[rule_format, of "Suc j"] j unfolding \<open>?p + j * 1024 = _\<close> by blast
    qed
    have lt2: "length c - ?p < length c - p" using lt by auto
    have st: "reg_open k2 a fd" "stream k2 a fd = (c, ?p)" using fr k1(3) by simp_all
    obtain k3 where k3: "cat_loop e (int fd) ?b k2 = Some (Returns (0, k3))"
        "ktty k3 = print_text (drop ?p c) (ktty k2)" "kfs k3 = kfs k2"
      using less.hyps [OF lt2 k2(3) st lb(4) m] by (elim exE conjE) (rule that; assumption)
    have "?out @ drop ?p c = drop p c" 
      using append_take_drop_id [of 1024 "drop p c"] by (simp add: min_def add.commute)
    then have "print_text (drop ?p c) (print_text ?out (ktty k)) = print_text (drop p c) (ktty k)"
      by (metis print_text_simps(3))
    moreover have "ece391_write e 1 ?b (int (length ?out)) k1 = Some (int (length ?out), k2)"
      using k2(1) by (simp add: ece391_write_def)
    moreover have "int (length ?out) \<noteq> 0" "int (length ?out) \<noteq> -1" using False by (simp_all del: length_take)
    ultimately show ?thesis
      using rd k3 k2(2) out1(2) k1(4)
      by (subst cat_loop.simps) (simp del: length_take length_drop add: printed_def)
  qed
qed

text \<open>The argument of the running process, as \<open>getargs\<close> passes it on.\<close>

definition has_arg :: "kernel \<Rightarrow> u32 \<Rightarrow> u8 list \<Rightarrow> bool" where
  "has_arg k a arg \<longleftrightarrow> current k a \<and> nul_terminated (pcb_arg (pcbs k a)) \<and> cstr (pcb_arg (pcbs k a)) = arg \<and>
     arg \<noteq> [] \<and> length arg < MAX_ARG_LEN"

lemma getargs_arg:
  assumes "has_arg k a arg" "n \<ge> int MAX_ARG_LEN" "MAX_ARG_LEN \<le> length buf"
  shows "\<exists>b. ece391_getargs buf n k = Some (0, b) \<and> nul_terminated b \<and> cstr b = arg \<and> length b = length buf"
proof -
  note h = assms(1) [unfolded has_arg_def]
  let ?b = "pad_to MAX_ARG_LEN (take MAX_ARG_LEN arg) @ drop MAX_ARG_LEN buf"
  have arg: "0 \<notin> set arg" using h by (auto dest: cstr_nonzero)
  have "strncpy buf (pcb_arg (pcbs k a)) 100 = Some ?b"
    using strncpy_eq [of 100 buf "pcb_arg (pcbs k a)"] assms(3) h by simp
  then have "ece391_getargs buf n k = Some (0, ?b)"
    using h currentD [of k a] assms(2)
    by (cases "n = 100") (simp_all add: ece391_getargs_def getargs_def)
  moreover have "?b = arg @ 0 # (replicate (99 - length arg) 0 @ drop MAX_ARG_LEN buf)"
  proof -
    have "100 - length arg = Suc (99 - length arg)" using h by auto
    then show ?thesis using h by (simp add: pad_to_def)
  qed
  moreover have "length ?b = length buf" using assms(3) h by (simp add: pad_to_def)
  ultimately show ?thesis using arg by (metis cstr_append_nul nul_terminated_def in_set_conv_decomp)
qed

text \<open>
  C12. \<open>cat\<close> prints a file: run in the displayed terminal with the name of a regular file as its argument,
  it ends with status 0, has printed exactly the contents of the file, whatever their length, and has not
  changed the file system. (A piece that could be taken for the shell's prompt, which the terminal
  moves to a new line, is excluded.)
\<close>

theorem cat_prints_file:
  assumes "std_out k a" "has_arg k a name" "dir_ok (kfs k)" "locals_ok (u_call e)" "length buf = 1024"
    and "0x0A \<notin> set name" "length name < MAX_NAME_LEN" "find_from (dir_names (kfs k)) name 0 = Some i"
    and "file_type (dentry_array (kfs k) i) = REGULAR_FILE_TYPE" "inode_num (dentry_array (kfs k) i) = n"
    and "n \<noteq> -1" "unat n < unat (Num_Inodes (kfs k))" "inode_ok (kfs k) (inode_ptr (kfs k) (unat n))"
    and "unat (inode_length (inode_ptr (kfs k) (unat n))) < MAX_NUM_DATA_BLK * BLK_SIZE"
    and "free_fd (fds k a) 2 = Some fd" "c = file_contents (kfs k) (unat n)"
    and "\<forall>j. j * 1024 < length c \<longrightarrow> c ! (j * 1024) \<noteq> of_char CHR ''3''"
  shows "\<exists>k'. ece391cat e buf k = Some (Returns (0, k')) \<and> ktty k' = print_text c (ktty k) \<and> kfs k' = kfs k"
proof -
  obtain b where b: "ece391_getargs buf 1024 k = Some (0, b)" "nul_terminated b" "cstr b = name" "length b = 1024"
    using getargs_arg [OF assms(2), of 1024 buf] assms(5) by auto
  have cn: "clean_name b = name" using b(3) assms(6) by (auto simp: clean_name_def takeWhile_eq_all_conv)
  note fd = free_fd_SomeD [OF assms(15)]
  let ?f = "(fds k a fd)\<lparr>table_ptr := REG_FILE_opt_table, file_pos := 0, flg := FD_BUSY, fd_inode := n\<rparr>"
  let ?k = "set_fd a fd ?f k"
  have cur: "current k a" "name \<noteq> []" using assms(2) by (auto simp: has_arg_def)
  have "opt_table_of (file_type (dentry_array (kfs k) i)) = Some REG_FILE_opt_table"
    using assms(9) by (simp add: opt_table_of_def)
  from sys_open_existing [OF cur(1) assms(3,4) b(2) _ _ _ this assms(15)] cn cur(2) assms(7,8,10)
  have op: "ece391_open e b k = Some (int fd, ?k)" by (auto simp: ece391_open_def)
  have "reg_open ?k a fd" "stream ?k a fd = (c, 0)" "std_out ?k a"
    using assms(1,10-14,16) fd cur(1) by (simp_all add: reg_open_def reg_fd_def stream_def std_out_def)
  from cat_loop_prints [OF this(3,1,2) b(4), of e] assms(17)
  obtain k' where "cat_loop e (int fd) b ?k = Some (Returns (0, k'))" "ktty k' = print_text c (ktty k)" "kfs k' = kfs k"
    by auto
  then show ?thesis using b(1) op by (simp add: ece391cat_def)
qed

definition demo_user :: kernel where
  "demo_user = demo_machine\<lparr>pcbs := (\<lambda>_. (pcb_initialize demo_pcb)\<lparr>pcb_arg := ascii ''frame'' @ replicate 95 0\<rparr>)\<rparr>"

definition demo_env :: user_env where
  "demo_env = \<lparr>u_call = demo_call, u_irqs = [], u_ticks = 0, u_exec = demo_locals\<rparr>"

lemma demo_user_sel [simp]: "fds demo_user a = fds demo_machine a" "kfs demo_user = demo_fs" "ktty demo_user = demo_tty"
    "u_call demo_env = demo_call"
proof -
  have "fds demo_user a i = fds demo_machine a i" for i by (simp add: demo_user_def demo_machine_def del: demo_fds)
  then show "fds demo_user a = fds demo_machine a" by blast
qed (simp_all add: demo_user_def demo_env_def demo_machine_def demo_kernel_def)

lemma demo_user_ok: "current demo_user pcb0" "std_out demo_user pcb0" "has_arg demo_user pcb0 (ascii ''frame'')"
proof -
  show c: "current demo_user pcb0"
    using demo_machine_simps(1) by (simp add: current_def get_cur_pcb_addr_def demo_user_def)
  have "on_display demo_tty" by (simp add: on_display_def) (simp add: demo_tty_def)
  then show "std_out demo_user pcb0" using c by (simp add: std_out_def)
  have "0 \<in> set (replicate 95 (0 :: u8))" by simp
  moreover have "cstr (ascii ''frame'' @ replicate 95 0) = ascii ''frame''"
    using cstr_append_nul [of "ascii ''frame''" "replicate 94 0"] by (simp flip: replicate_Suc)
  ultimately show "has_arg demo_user pcb0 (ascii ''frame'')"
    using c by (simp add: has_arg_def demo_user_def nul_terminated_def)
qed

theorem cat_prints_file_witness:
  "\<exists>k'. ece391cat demo_env (replicate 1024 0) demo_user = Some (Returns (0, k')) \<and>
     ktty k' = print_text (ascii ''ABCDE'') demo_tty"
proof -
  have "find_from (dir_names demo_fs) (ascii ''frame'') 0 = Some 0" by (simp add: find_from_def)
  moreover have "inode_ok demo_fs (demo_inodes 0)" using fs_inv_inode_ok [OF demo_inv, of 0] by simp
  moreover have "\<forall>j. j * 1024 < length (ascii ''ABCDE'') \<longrightarrow> ascii ''ABCDE'' ! (j * 1024) \<noteq> of_char CHR ''3''"
  proof (intro allI impI)
    fix j assume "j * 1024 < length (ascii ''ABCDE'')"
    then have "j = 0" by simp
    then show "ascii ''ABCDE'' ! (j * 1024) \<noteq> of_char CHR ''3''" by simp
  qed
  ultimately show ?thesis
    using cat_prints_file [OF demo_user_ok(2,3), of demo_env "replicate 1024 0" 0 0 2 "ascii ''ABCDE''"]
    by (auto simp: demo_entry_def demo_inodes_def)
qed

text \<open>
  Opening a missing name succeeds, for a later write could create it; \<open>cat\<close> of a missing file
  therefore never says ``file not found'' but ends with status 3 after a failed read. The descriptor is
  free again and the file system is unchanged.
\<close>

theorem cat_missing_file:
  assumes "std_out k a" "has_arg k a name" "dir_ok (kfs k)" "locals_ok (u_call e)" "length buf = 1024"
    and "0x0A \<notin> set name" "length name < MAX_NAME_LEN" "name \<notin> set (dir_names (kfs k))"
    and "free_fd (fds k a) 2 = Some fd" "length (fd_name (fds k a fd)) = MAX_NAME_LEN"
  shows "\<exists>k'. ece391cat e buf k = Some (Returns (3, k')) \<and> flg (fds k' a fd) = 0 \<and> kfs k' = kfs k \<and>
    ktty k' = print_text (ascii ''file read failed'' @ [0x0A]) (ktty k)"
proof -
  obtain b where b: "ece391_getargs buf 1024 k = Some (0, b)" "nul_terminated b" "cstr b = name"
    using getargs_arg [OF assms(2), of 1024 buf] assms(5) by auto
  have cn: "clean_name b = name" using b(3) assms(6) by (auto simp: clean_name_def takeWhile_eq_all_conv)
  note fd = free_fd_SomeD [OF assms(9)]
  have cur: "current k a" "name \<noteq> []" using assms(2) by (auto simp: has_arg_def)
  obtain nm where op: "ece391_open e b k = Some (int fd, set_fd a fd ((fds k a fd)\<lparr>table_ptr := REG_FILE_opt_table,
      file_pos := 0, fd_inode := -1, flg := FD_BUSY, fd_name := nm\<rparr>) k)" (is "_ = Some (_, ?k)")
    using sys_open_missing [OF cur(1) assms(3,4) b(2) _ _ _ assms(9,10)] cn cur(2) assms(7,8)
    by (auto simp: ece391_open_def)
  let ?k1 = "set_fd a fd ((fds ?k a fd)\<lparr>flg := 0, file_pos := 0, fd_inode := 0\<rparr>) ?k"
  have "current ?k a" using cur(1) by simp
  then have rd: "ece391_read e (int fd) b 1024 ?k = Some (Returns (-1, Some b, ?k1))"
    using fd sys_close_eq [of ?k a "int fd"] load_fd_current [of ?k a fd] currentD [of ?k a]
    by (simp add: ece391_read_def sys_read_def)
  have o1: "std_out ?k1 a" using assms(1) fd by (simp add: std_out_def)
  have m: "cstr (c_line ''file read failed'') = ascii ''file read failed'' @ [0x0A]"
    "nul_terminated (c_line ''file read failed'')" "prompt_gap (c_line ''file read failed'') = []"
    "length (ascii ''file read failed'' @ [0x0A :: u8]) < 2 ^ 31"
    by (simp_all add: prompt_gap_def)
  obtain k2 where k2: "ece391_fdputs e 1 (c_line ''file read failed'') ?k1 = Some k2"
      "printed (ascii ''file read failed'' @ [0x0A]) a ?k1 k2" "std_out k2 a"
    using fdputs_out [OF o1 m(2), of e, unfolded m(1,3), OF m(4)] by auto
  have "cat_loop e (int fd) b ?k = Some (Returns (3, k2))"
    using rd k2(1) by (subst cat_loop.simps) (simp add: give_up_def)
  moreover have "fds k2 a fd = fds ?k1 a fd" using printed_frame(2) [OF k2(2,3), of fd] fd by simp
  ultimately show ?thesis using b(1) op k2(2) by (simp add: ece391cat_def printed_def)
qed

theorem cat_missing_file_witness:
  "\<exists>k'. ece391cat demo_env (replicate 1024 0) (demo_user\<lparr>kfs := demo_fs\<lparr>Num_Dentry := 0\<rparr>\<rparr>) = Some (Returns (3, k'))"
proof -
  let ?k = "demo_user\<lparr>kfs := demo_fs\<lparr>Num_Dentry := 0\<rparr>\<rparr>"
  have "std_out ?k pcb0" "has_arg ?k pcb0 (ascii ''frame'')"
    using demo_user_ok by (simp_all add: std_out_def has_arg_def)
  moreover have "dir_ok (demo_fs\<lparr>Num_Dentry := 0\<rparr>)" by (simp add: dir_ok_def)
  ultimately show ?thesis
    using cat_missing_file [of ?k pcb0 "ascii ''frame''" demo_env "replicate 1024 0" 2] by (auto simp: dir_names_def dir_entries_def)
qed

section \<open>The shell\<close>

lemma strip_newline_line:
  "strip_newline (line @ 0x0A # rest) (int (Suc (length line))) = Some (line @ 0 # rest)"
  by (simp add: strip_newline_def buf_get_def buf_put_def nat_add_distrib)

text \<open>What the shell makes of a line, once its read has returned.\<close>

lemma shell_turn_line:
  assumes put: "ece391_fdputs e 1 (c_string ''391OS> '') k = Some k0" and out: "std_out k0 a"
    and std_in: "table_ptr (fds k0 a 0) = stdin_opt_table" "flg (fds k0 a 0) = FD_BUSY" "fd_inode (fds k0 a 0) \<noteq> -1"
    and rd: "terminal_read (u_irqs e) (Some buf) 1023 (ktty k0) =
      Some (Returns (int (Suc (length line)), Some (line @ 0x0A # rest), t1))" and nz: "0 \<notin> set line"
  defines "b \<equiv> line @ 0 # rest" and "k1 \<equiv> k0\<lparr>ktty := t1\<rparr>"
  shows "nul_terminated b" "cstr b = line"
    "shell_turn e buf k =
      (if line = ascii ''exit'' then Some (Returns (Leaves 0 k1))
       else if line = [] then Some (Returns (Prompts k1))
       else map_option (\<lambda>(c, k2). Returns (Calls b c k2)) (execute (u_exec e) b k1))"
proof -
  show b: "nul_terminated b" "cstr b = line" unfolding b_def using nz by (simp_all add: nul_terminated_def cstr_append_nul)
  have "current k0 a" using out by (simp add: std_out_def)
  then have r1: "ece391_read e 0 buf 1023 k0 = Some (Returns (int (Suc (length line)), Some (line @ 0x0A # rest), k1))"
    using rd std_in load_fd_current [of k0 a 0] currentD [of k0 a]
    by (simp add: ece391_read_def sys_read_def call_read_def k1_def)
  obtain r where r: "ece391_strcmp b (c_string ''exit'') = Some r" "r = 0 \<longleftrightarrow> line = ascii ''exit''"
    using ece391_strcmp_eq [OF b(1), of "c_string ''exit''"] b(2) by auto
  have c: "buf_get b 0 = Some (b ! 0)" "b ! 0 = 0 \<longleftrightarrow> line = []"
    unfolding b_def using nz by (cases line; auto simp: buf_get_def)+
  have "shell_turn e buf k = shell_line e b k1 \<bind> (\<lambda>turn. Some (Returns turn))"
    using put r1 strip_newline_line [of line rest] by (simp add: shell_turn_def b_def)
  also have "\<dots> = (if line = ascii ''exit'' then Some (Returns (Leaves 0 k1))
       else if line = [] then Some (Returns (Prompts k1))
       else map_option (\<lambda>(c, k2). Returns (Calls b c k2)) (execute (u_exec e) b k1))"
    using r c by (auto simp: shell_line_def map_option_case split: option.splits)
  finally show "shell_turn e buf k = \<dots>" .
qed

lemma shell_turn_faults:
  assumes put: "ece391_fdputs e 1 (c_string ''391OS> '') k = Some k0" and out: "std_out k0 a"
    and std_in: "table_ptr (fds k0 a 0) = stdin_opt_table" "flg (fds k0 a 0) = FD_BUSY" "fd_inode (fds k0 a 0) \<noteq> -1"
    and rd: "terminal_read (u_irqs e) (Some buf) 1023 (ktty k0) = None"
  shows "shell_turn e buf k = None"
proof -
  have "current k0 a" using out by (simp add: std_out_def)
  then have "ece391_read e 0 buf 1023 k0 = None"
    using rd std_in load_fd_current [of k0 a 0] currentD [of k0 a]
    by (simp add: ece391_read_def sys_read_def call_read_def)
  then show ?thesis using put by (simp add: shell_turn_def)
qed

text \<open>The prompt.\<close>

lemma shell_prompt:
  assumes "std_out k a"
  obtains k0 where "ece391_fdputs e 1 (c_string ''391OS> '') k = Some k0" "std_out k0 a" "kfs k0 = kfs k"
    "same_input (ktty k) (ktty k0)" "fds k0 a 0 = fds k a 0"
proof -
  have p: "nul_terminated (c_string ''391OS> '')" "length (cstr (c_string ''391OS> '')) < 2 ^ 31" by simp_all
  obtain k0 where k0: "ece391_fdputs e 1 (c_string ''391OS> '') k = Some k0"
      "printed (prompt_gap (c_string ''391OS> '') @ cstr (c_string ''391OS> '')) a k k0" "std_out k0 a"
    using fdputs_out [OF assms p] by blast
  have "kfs k0 = kfs k" using k0(2) by (simp add: printed_def)
  then show ?thesis
    using that k0 printed_input [OF k0(2) assms] printed_frame(2) [OF k0(2,3), of 0] by simp
qed

text \<open>
  A turn of the shell: with a typed line in the keyboard buffer the shell prints its prompt on a
  new line and, without waiting, leaves on \<open>exit\<close>, prompts again on the empty line, and otherwise calls
  \<open>execute\<close> with exactly the line that was typed; the buffer is clear for the next line.
\<close>

theorem shell_takes_line:
  assumes out: "std_out k a"
    and std_in: "table_ptr (fds k a 0) = stdin_opt_table" "flg (fds k a 0) = FD_BUSY" "fd_inode (fds k a 0) \<noteq> -1"
    and line: "line_buffered (keyboard_buffer (ktty k)) line stale"
    and turn: "cur_display_terminal_id (ktty k) = of_nat (Suc s)" "terminal_now (ktty k) = int s" "s < 3"
    and hist: "0 \<le> command_total (ktty k) s" "command_total (ktty k) s < 50"
      "length (command_list (ktty k) s (nat (command_total (ktty k) s))) = 50" "length line + length stale < 50"
    and buf: "length buf = 1024"
  shows "\<exists>b k1. nul_terminated b \<and> cstr b = line \<and> kfs k1 = kfs k \<and>
    keyboard_buffer (ktty k1) = replicate KB_BUF_SIZE 0 \<and>
    shell_turn e buf k =
      (if line = ascii ''exit'' then Some (Returns (Leaves 0 k1))
       else if line = [] then Some (Returns (Prompts k1))
       else map_option (\<lambda>(c, k2). Returns (Calls b c k2)) (execute (u_exec e) b k1))"
proof -
  obtain k0 where k0: "ece391_fdputs e 1 (c_string ''391OS> '') k = Some k0" "std_out k0 a" "kfs k0 = kfs k"
      "same_input (ktty k) (ktty k0)" "fds k0 a 0 = fds k a 0"
    by (rule shell_prompt [OF out])
  have n: "0 \<le> (1023 :: int)" "(1023 :: int) < 2 ^ 31" "Suc (length line) = min (nat 1023) (Suc (length line))"
    "Suc (length line) \<le> length buf"
    using line_buffered_cstr(3) [OF line] buf by simp_all
  have tk: "take (Suc (length line)) (line @ [of_char CHR 0x0A]) = line @ [0x0A]" by simp
  have t: "line_buffered (keyboard_buffer (ktty k0)) line stale" "cur_display_terminal_id (ktty k0) = of_nat (Suc s)"
    "terminal_now (ktty k0) = int s" "0 \<le> command_total (ktty k0) s" "command_total (ktty k0) s < 50"
    "length (command_list (ktty k0) s (nat (command_total (ktty k0) s))) = 50"
    using k0(4) line turn hist by (simp_all add: same_input_def same_turn_def)
  obtain t1 where t1: "terminal_read (u_irqs e) (Some buf) 1023 (ktty k0) = Some (Returns (int (Suc (length line)),
      Some ((line @ [0x0A]) @ drop (Suc (length line)) buf), t1))" "keyboard_buffer t1 = replicate KB_BUF_SIZE 0"
    using terminal_read_eq [OF t(1-3) turn(3) t(4-6) hist(4) n, of "u_irqs e", unfolded tk] by blast
  then have rd: "terminal_read (u_irqs e) (Some buf) 1023 (ktty k0) = Some (Returns (int (Suc (length line)),
      Some (line @ 0x0A # drop (Suc (length line)) buf), t1))" by simp
  have nz: "0 \<notin> set line" using line by (auto simp: line_buffered_def list_all_iff line_char_def)
  note turns = shell_turn_line [OF k0(1,2) _ _ _ rd nz, unfolded k0(5), OF std_in]
  show ?thesis
    using turns k0(3) t1(2)
    by (intro exI [of _ "line @ 0 # drop (Suc (length line)) buf"] exI [of _ "k0\<lparr>ktty := t1\<rparr>"] conjI) simp_all
qed

theorem shell_takes_line_witness:
  "\<exists>b k1. cstr b = ascii ''ls'' \<and> shell_turn demo_env (replicate 1024 0) (demo_user\<lparr>ktty := demo_line_tty\<rparr>) =
     map_option (\<lambda>(c, k2). Returns (Calls b c k2)) (execute demo_locals b k1)"
proof -
  let ?k = "demo_user\<lparr>ktty := demo_line_tty\<rparr>"
  have "same_turn demo_tty demo_line_tty" by (simp add: same_turn_def demo_line_tty_def)
  then have "current ?k pcb0" using current_tty [of demo_user demo_line_tty pcb0] demo_user_ok(1) by simp
  moreover have "on_display demo_line_tty"
  proof -
    have "console_inv (t\<lparr>keyboard_buffer := b\<rparr>) = console_inv t" for t b
      by (simp add: console_inv_def video_mapped_def video_frame_def)
    then show ?thesis by (simp add: on_display_def demo_line_tty_def) (simp add: demo_tty_def)
  qed
  ultimately have "std_out ?k pcb0" by (simp add: std_out_def)
  from shell_takes_line [OF this, where line = "ascii ''ls''" and stale = "ascii ''x''" and s = 0
      and buf = "replicate 1024 0" and e = demo_env] demo_line_buffered
  show ?thesis by (auto simp: demo_line_tty_def demo_tty_def demo_env_def)
qed

end
