(* ===== verification/Grep_Props.thy ===== *)
theory Grep_Props
  imports User_Grep User_Props
begin

text \<open>
  \<open>grep\<close>: it reports exactly the lines that contain the text, its buffer never overflows, and the search
  of a file ends.
\<close>

section \<open>One line\<close>

lemma first_char_test: "(c :: u8) < 128 \<Longrightarrow> sint c = uint d \<longleftrightarrow> c = d"
proof -
  assume "c < 128"
  then have "uint c < 128" by (simp add: word_less_def)
  moreover have "0 \<le> uint c" by (rule unsigned_greater_eq)
  ultimately have "sint c = uint c" 
    using signed_take_bit_int_eq_self [of 7 "uint c"] by (simp add: sint_uint order_trans [of "-128" 0])
  then show ?thesis by simp
qed

lemma line_has_eq:
  assumes s: "nul_terminated s" "cstr s = x # xs" "x < 128"
  shows "nul_terminated (drop check data) \<Longrightarrow> line_end = check + length (cstr (drop check data)) \<Longrightarrow>
    line_has s (length (cstr s)) data check line_end = Some (sublist (cstr s) (cstr (drop check data)))"
proof (induction "line_end - check" arbitrary: check)
  case 0
  then show ?case using s(2) by (subst line_has.simps) simp
next
  case (Suc m)
  from Suc.hyps(2) have lt: "check < line_end" by simp
  have len: "check < length data" using Suc.prems(1) by (cases "check < length data") simp_all
  then have d: "drop check data = data ! check # drop (Suc check) data" by (simp add: Cons_nth_drop_Suc)
  have nz: "data ! check \<noteq> 0" using Suc.prems(2) lt d by (cases "data ! check = 0") simp_all
  let ?line = "cstr (drop check data)" and ?rest = "cstr (drop (Suc check) data)"
  have line: "?line = data ! check # ?rest" using d nz by simp
  have nt: "nul_terminated (drop (Suc check) data)" using Suc.prems(1) d nz by simp
  have IH: "line_has s (length (cstr s)) data (Suc check) line_end = Some (sublist (cstr s) ?rest)"
    using Suc.hyps(1) [OF _ nt] Suc.hyps(2) Suc.prems(2) line by simp
  have s0: "buf_get s 0 = Some x" "buf_get data check = Some (data ! check)"
    using s(1,2) len cstr_split [OF s(1)] by (auto simp: buf_get_def)
  obtain r where r: "ece391_strncmp (drop check data) s (length (cstr s)) = Some r" "r = 0 \<longleftrightarrow> prefix (cstr s) ?line"
    using user_strings.prefix_test [OF Suc.prems(1) s(1)] user_strings.len_text [OF s(1)] by auto
  have sub: "sublist (cstr s) ?line \<longleftrightarrow> prefix (cstr s) ?line \<or> sublist (cstr s) ?rest"
    unfolding line by (rule sublist_Cons_right)
  have "prefix (cstr s) ?line \<Longrightarrow> x = data ! check" unfolding line s(2) by simp
  then show ?case
    using lt s0 first_char_test [OF s(3)] r sub IH by (subst line_has.simps) (auto simp del: cstr_simps)
qed

text \<open>
  C37. \<open>grep\<close> reports a line exactly when the text occurs in it: for a text that is not empty and starts
  with an ASCII character, the search over the bytes up to the NUL that replaced the newline decides
  whether the text is a sublist of the line.
\<close>

theorem grep_finds_text:
  assumes "nul_terminated s" "cstr s = x # xs" "x < 128"
    and "nul_terminated (drop start data)" "line_end = start + length (cstr (drop start data))"
  shows "\<exists>n. ece391_strlen s = Some n \<and>
    line_has s n data start line_end = Some (sublist (cstr s) (cstr (drop start data)))"
  using line_has_eq [OF assms] user_strings.len_text [OF assms(1)] by blast

theorem grep_finds_text_witness:
  "\<exists>n. ece391_strlen (c_string ''nd'') = Some n \<and>
     line_has (c_string ''nd'') n (c_line ''a'' @ c_string ''find'') 3 7 = Some (sublist (ascii ''nd'') (ascii ''find''))"
  using grep_finds_text [of "c_string ''nd''" "0x6E" "[0x64]" 3 "c_line ''a'' @ c_string ''find''" 7] by simp

section \<open>The buffer of \<open>do_one_file\<close> between two reads\<close>

lemma find_line_end_bound:
  "limit < length data \<Longrightarrow> i \<le> limit \<Longrightarrow> \<exists>j. find_line_end data limit i = Some j \<and> i \<le> j \<and> j \<le> limit"
proof (induction data limit i rule: find_line_end.induct)
  case (1 data limit i)
  show ?case
  proof (cases "i < limit")
    case True
    then have g: "buf_get data i = Some (data ! i)" using 1(2) by (simp add: buf_get_def)
    show ?thesis
    proof (cases "data ! i = 0x0A")
      case False
      with 1(1) [OF True g] 1(2) True obtain j where "find_line_end data limit (Suc i) = Some j" "Suc i \<le> j" "j \<le> limit"
        by auto
      then show ?thesis using True g False by (subst find_line_end.simps) auto
    qed (use True g in \<open>subst find_line_end.simps; simp\<close>)
  next
    case False
    then show ?thesis using 1(3) by (subst find_line_end.simps) simp
  qed
qed

lemma nul_terminated_drop: "line_end < length data \<Longrightarrow> data ! line_end = 0 \<Longrightarrow> i \<le> line_end \<Longrightarrow> nul_terminated (drop i data)"
  using nth_mem [of "line_end - i" "drop i data"] by (simp add: nul_terminated_def)

lemma line_has_total:
  "nul_terminated s \<Longrightarrow> line_end < length data \<Longrightarrow> data ! line_end = 0 \<Longrightarrow>
   \<exists>f. line_has s s_len data check line_end = Some f"
proof (induction s s_len data check line_end rule: line_has.induct)
  case (1 s s_len data check line_end)
  show ?case
  proof (cases "check < line_end")
    case True
    have g: "buf_get s 0 = Some (s ! 0)" "buf_get data check = Some (data ! check)"
      using 1(2,3) True cstr_length_less [OF 1(2)] by (auto simp: buf_get_def)
    obtain r0 where "ece391_strncmp (drop check data) s s_len = Some r0"
      using ece391_strncmp_eq [OF nul_terminated_drop [OF 1(3,4), of check] 1(2)] True by auto
    then obtain r where r: "(if sint (s ! 0) = uint (data ! check)
        then ece391_strncmp (drop check data) s s_len else Some 1) = Some r" by fastforce
    show ?thesis
      using 1(1) [OF True g r] 1(2-4) True g r by (subst line_has.simps) (auto split: if_splits)
  qed (subst line_has.simps, auto intro: exI [of _ False])
qed

text \<open>A step that prints at most: the files and the other descriptors are as before.\<close>

definition only_prints :: "u32 \<Rightarrow> kernel \<Rightarrow> kernel \<Rightarrow> bool" where
  "only_prints a k k' \<longleftrightarrow> std_out k' a \<and> kfs k' = kfs k \<and> (\<forall>j. j \<noteq> 1 \<longrightarrow> fds k' a j = fds k a j)"

lemma only_prints_refl: "std_out k a \<Longrightarrow> only_prints a k k"
  by (simp add: only_prints_def)

lemma only_prints_trans: "only_prints a k k1 \<Longrightarrow> only_prints a k1 k2 \<Longrightarrow> only_prints a k k2"
  by (simp add: only_prints_def)

lemma fdputs_only_prints:
  assumes "std_out k a" "nul_terminated b" "length b < 2 ^ 31"
  shows "\<exists>k'. ece391_fdputs e 1 b k = Some k' \<and> only_prints a k k'"
proof -
  have "length (cstr b) < 2 ^ 31" using assms(3) cstr_length_le [of b] by simp
  from fdputs_out [OF assms(1,2) this, of e] obtain k' where k': "ece391_fdputs e 1 b k = Some k'"
      "printed (prompt_gap b @ cstr b) a k k'" "std_out k' a" by blast
  then show ?thesis using printed_frame(2) [OF k'(2,3)] by (auto simp: only_prints_def printed_def)
qed

lemma search_line_ok:
  assumes o: "std_out k a" and s: "nul_terminated s" and f: "nul_terminated fname" "length fname < 2 ^ 31"
    and d: "line_end < length data" "length data < 2 ^ 31" "data ! line_end = 0" "line_start \<le> line_end"
  shows "\<exists>k'. search_line e s s_len fname data line_start line_end k = Some k' \<and> only_prints a k k'"
proof -
  obtain found where h: "line_has s s_len data line_start line_end = Some found"
    using line_has_total [OF s d(1,3)] by blast
  obtain k1 where k1: "ece391_fdputs e 1 fname k = Some k1" "only_prints a k k1"
    using fdputs_only_prints [OF o f] by blast
  then have o1: "std_out k1 a" by (simp add: only_prints_def)
  obtain k2 where k2: "ece391_fdputs e 1 (c_string '':'') k1 = Some k2" "only_prints a k1 k2"
    using fdputs_only_prints [OF o1, of "c_string '':''"] by auto
  then have o2: "std_out k2 a" by (simp add: only_prints_def)
  obtain k3 where k3: "ece391_fdputs e 1 (drop line_start data) k2 = Some k3" "only_prints a k2 k3"
    using fdputs_only_prints [OF o2 nul_terminated_drop [OF d(1,3,4)]] d(2) by fastforce
  then have o3: "std_out k3 a" by (simp add: only_prints_def)
  obtain k4 where k4: "ece391_fdputs e 1 (c_line []) k3 = Some k4" "only_prints a k3 k4"
    using fdputs_only_prints [OF o3, of "c_line []"] by auto
  show ?thesis
    using h k1 k2 k3 k4 only_prints_refl [OF o] by (cases found) (auto simp: search_line_def intro: only_prints_trans)
qed

lemma search_lines_ok:
  assumes s: "nul_terminated s" and f: "nul_terminated fname" "length fname < 2 ^ 31"
  shows "std_out k a \<Longrightarrow> length data = 1025 \<Longrightarrow> limit \<le> 1024 \<Longrightarrow> line_start \<le> limit \<Longrightarrow>
    \<exists>data' limit' k'. search_lines e s s_len fname fresh data limit line_start k = Some (data', limit', k') \<and>
      length data' = 1025 \<and> limit' < 1024 \<and> only_prints a k k'"
proof (induction "limit - line_start" arbitrary: line_start data k rule: less_induct)
  case less
  obtain j where j: "find_line_end data limit line_start = Some j" "line_start \<le> j" "j \<le> limit"
    using find_line_end_bound [of limit data line_start] less.prems(2-4) by auto
  have g: "buf_get data j = Some (data ! j)" and p: "buf_put data j 0 = Some (data[j := 0])"
    using j(3) less.prems(2,3) by (simp_all add: buf_get_def buf_put_def)
  let ?d = "data[j := 0]"
  have d: "j < length ?d" "length ?d = 1025" "?d ! j = 0" using j(3) less.prems(2,3) by simp_all
  show ?case
  proof (cases "data ! j \<noteq> 0x0A \<and> fresh \<and> line_start \<noteq> 0")
    case True
    note nt = nul_terminated_drop [OF d(1,3) j(2)]
    have "length (cstr (drop line_start ?d)) < length ?d" using cstr_length_less [OF nt] d by simp
    from ece391_strcpy_eq [OF nt this]
    obtain d' where "ece391_strcpy ?d (drop line_start ?d) = Some d'" "length d' = 1025"
      using ece391_strcpy_length d(2) by metis
    moreover have "limit - line_start < 1024" using True less.prems(3) by (cases line_start) simp_all
    ultimately show ?thesis
      using True j g p only_prints_refl [OF less.prems(1)] by (subst search_lines.simps) simp
  next
    case False
    obtain k1 where k1: "search_line e s s_len fname ?d line_start j k = Some k1" "only_prints a k k1"
      using search_line_ok [OF less.prems(1) s f d(1) _ d(3) j(2)] d(2) by auto
    then have o1: "std_out k1 a" by (simp add: only_prints_def)
    show ?thesis
    proof (cases "limit \<le> j + 1")
      case True
      then show ?thesis
        using False j g p k1 d(2) by (subst search_lines.simps) auto
    next
      case more: False
      then have "limit - (j + 1) < limit - line_start" "j + 1 \<le> limit" using j(2,3) by simp_all
      from less.hyps [OF this(1) o1 d(2) less.prems(3) this(2)]
      show ?thesis
        using False more j g p k1 by (subst search_lines.simps) (auto intro: only_prints_trans)
    qed
  qed
qed

text \<open>
  C32. The buffer of \<open>grep\<close> never overflows: with up to 1024 bytes in the 1025-byte buffer, whatever they
  are, the search of its lines returns without a fault, prints at most to the terminal, and leaves
  fewer than 1024 bytes waiting, so that the next read has room for at least one.
\<close>

theorem grep_buffer_bounded:
  assumes "nul_terminated s" "nul_terminated fname" "length fname < 2 ^ 31"
    and "std_out k a" "length data = 1025" "limit \<le> 1024"
  shows "\<exists>data' limit' k'. search_lines e s s_len fname fresh data limit 0 k = Some (data', limit', k') \<and>
    length data' = 1025 \<and> limit' < 1024 \<and> only_prints a k k'"
  by (rule search_lines_ok [OF assms(1-6)]) simp

theorem grep_buffer_bounded_witness:
  "\<exists>data' limit' k'. search_lines demo_env (c_string ''nd'') 2 (c_string ''f'') True (replicate 1025 0x6E) 1024 0 demo_user =
     Some (data', limit', k') \<and> limit' < 1024"
  using grep_buffer_bounded [of "c_string ''nd''" "c_string ''f''" demo_user pcb0 "replicate 1025 0x6E" 1024 demo_env 2 True]
    demo_user_ok(2) by auto

section \<open>The whole file\<close>

lemma only_prints_open:
  "only_prints a k k' \<Longrightarrow> reg_open k a fd \<Longrightarrow> reg_open k' a fd \<and> stream k' a fd = stream k a fd"
  by (auto simp: only_prints_def reg_open_def stream_def std_out_def)

lemma file_loop_ends:
  assumes s: "nul_terminated s" and f: "nul_terminated fname" "length fname < 2 ^ 31"
  shows "std_out k a \<Longrightarrow> reg_open k a fd \<Longrightarrow> stream k a fd = (c, p) \<Longrightarrow> length data = 1025 \<Longrightarrow> limit < 1024 \<Longrightarrow>
    \<exists>k'. file_loop e (int fd) s s_len fname data limit k = Some (Returns (Searched k')) \<and> kfs k' = kfs k \<and> std_out k' a"
proof (induction "length c - p" arbitrary: k p data limit rule: less_induct)
  case less
  let ?n = "1024 - limit"
  let ?out = "take ?n (drop p c)"
  let ?rest = "?out @ drop (length ?out) (drop limit data)" and ?p = "p + min ?n (length c - p)"
  have n: "?n < 2 ^ 32" "?n \<le> length (drop limit data)" using less.prems(4,5) by simp_all
  have sr: "stream_read ?n (stream k a fd) = (?out, (c, ?p))" using less.prems(3) by simp
  obtain k1 where k1: "sys_read (u_call e) (u_irqs e) (u_ticks e) (int fd) (Some (drop limit data)) (int ?n) k =
        Some (Returns (int (length ?out), Some ?rest, k1))"
      "reg_open k1 a fd" "stream k1 a fd = (c, ?p)" "kfs k1 = kfs k"
    using sys_read_stream [OF less.prems(2) n sr, of "u_call e" "u_irqs e" "u_ticks e"] by blast
  have o1: "std_out k1 a" using sys_read_keeps_out [OF less.prems(2,1) _ k1(1)] by simp
  have rd: "ece391_read e (int fd) (drop limit data) (1024 - int limit) k =
      Some (Returns (int (length ?out), Some ?rest, k1))"
    using k1(1) less.prems(5) by (simp add: ece391_read_def of_nat_diff)
  let ?data = "take limit data @ ?rest" and ?limit = "limit + length ?out"
  have lo: "length ?out \<le> ?n" "length ?rest = length (drop limit data)" using n(2) by (auto simp: min_def)
  have d: "length ?data = 1025" "?limit \<le> 1024" using lo less.prems(4,5) by simp_all
  obtain data2 limit2 k2 where k2:
      "search_lines e s s_len fname (?out \<noteq> []) ?data ?limit 0 k1 = Some (data2, limit2, k2)"
      "length data2 = 1025" "limit2 < 1024" "only_prints a k1 k2"
    using search_lines_ok [OF s f o1 d, of 0 e s_len "?out \<noteq> []"] by auto
  have nz: "int (length ?out) \<noteq> -1" "(int (length ?out) \<noteq> 0) = (?out \<noteq> [])"
    "nat (int (length ?out)) = length ?out" by (simp_all del: length_take length_drop)
  have step: "file_loop e (int fd) s s_len fname data limit k =
      (if ?out = [] then Some (Returns (Searched k2)) else file_loop e (int fd) s s_len fname data2 limit2 k2)"
    by (subst file_loop.simps)
      (simp only: rd option.case waiting.case prod.case nz k2(1) if_False Option.bind.bind_lunit not_not;
       simp del: take_eq_Nil length_take length_drop)
  have o2: "std_out k2 a" "kfs k2 = kfs k" using k2(4) k1(4) by (simp_all add: only_prints_def)
  show ?case
  proof (cases "?out = []")
    case True
    then show ?thesis using step o2 by simp
  next
    case False
    then have "length c - ?p < length c - p" using less.prems(5) by auto
    moreover have "reg_open k2 a fd" "stream k2 a fd = (c, ?p)"
      using only_prints_open [OF k2(4) k1(2)] k1(3) by simp_all
    ultimately obtain k3 where "file_loop e (int fd) s s_len fname data2 limit2 k2 = Some (Returns (Searched k3))"
        "kfs k3 = kfs k2" "std_out k3 a"
      using less.hyps [of ?p k2 data2 limit2] o2(1) k2(2,3) by blast
    then show ?thesis using step False o2(2) by auto
  qed
qed

text \<open>
  C33. The search of a file ends: for every file, whatever its contents and the length of its lines, and
  whatever the buffer held before, the reading loop of \<open>grep\<close> reaches the end of the file without a
  fault and without a change to the file system.
\<close>

theorem grep_file_ends:
  assumes "nul_terminated s" "nul_terminated fname" "length fname < 2 ^ 31"
    and "std_out k a" "reg_open k a fd" "length data = 1025"  and "file_pos (fds k a fd) = 0"
  shows "\<exists>k'. file_loop e (int fd) s s_len fname data 0 k = Some (Returns (Searched k')) \<and> kfs k' = kfs k"
  using file_loop_ends [OF assms(1-5) _ assms(6), of _ 0 0 e s_len] assms(7) by (auto simp: stream_def)

theorem grep_file_ends_witness:
  "\<exists>k'. file_loop demo_env 2 (c_string ''nd'') 2 (c_string ''f'') (replicate 1025 0x0A) 0
     (set_fd pcb0 2 \<lparr>table_ptr = REG_FILE_opt_table, fd_inode = 0, file_pos = 0, flg = 1, fd_name = replicate 32 0\<rparr> demo_user) =
     Some (Returns (Searched k'))"
proof -
  let ?k = "set_fd pcb0 2 \<lparr>table_ptr = REG_FILE_opt_table, fd_inode = 0, file_pos = 0, flg = 1, fd_name = replicate 32 0\<rparr> demo_user"
  have "std_out ?k pcb0" using demo_user_ok(2) by (simp add: std_out_def)
  moreover have "inode_ok demo_fs (demo_inodes 0)" using fs_inv_inode_ok [OF demo_inv, of 0] by simp
  then have "reg_open ?k pcb0 2" using demo_user_ok(1) by (simp add: reg_open_def reg_fd_def demo_inodes_def)
  ultimately show ?thesis
    using grep_file_ends [of "c_string ''nd''" "c_string ''f''" ?k pcb0 2 "replicate 1025 0x0A" demo_env 2] by auto
qed

end
