(* ===== verification/Ls_Props.thy ===== *)
theory Ls_Props
  imports User_Props
begin

text \<open>\<open>ls\<close> lists the directory.\<close>

text \<open>
  A directory whose entries \<open>ls\<close> can all print: the types are those of files, and no name is empty, as
  an empty one reads as the end.
\<close>

definition listable :: "fs \<Rightarrow> bool" where
  "listable fs \<longleftrightarrow> dir_ok fs \<and> (\<forall>i < unat (Num_Dentry fs). file_type (dentry_array fs i) \<le> 2) \<and>
     [] \<notin> set (dir_names fs)"

definition dir_fd :: "kernel \<Rightarrow> u32 \<Rightarrow> nat \<Rightarrow> nat \<Rightarrow> bool" where
  "dir_fd k a fd p \<longleftrightarrow> 2 \<le> fd \<and> fd < PCB_SIZE \<and> table_ptr (fds k a fd) = DIR_opt_table \<and>
     flg (fds k a fd) = FD_BUSY \<and> fd_inode (fds k a fd) \<noteq> -1 \<and> unat (file_pos (fds k a fd)) = p"

definition ls_locals :: "call_locals \<Rightarrow> bool" where
  "ls_locals l \<longleftrightarrow> locals_ok l \<and> length (dentry_reserved (l_inner_dentry l)) = 24"

text \<open>A name on its line; the console puts a newline before what begins like the prompt of the shell.\<close>

definition name_line :: "u8 list \<Rightarrow> u8 list" where
  "name_line nm = (if prefix (ascii ''391OS> '') nm then [0x0A] else []) @ nm @ [0x0A]"

definition as_lines :: "u8 list list \<Rightarrow> u8 list" where
  "as_lines names = concat (map name_line names)"

lemma name_line_printed:
  assumes "0 \<notin> set nm"
  shows "prompt_gap (nm @ 0x0A # rest) @ take (Suc (length nm)) (nm @ 0x0A # rest) = name_line nm"
proof -
  have "cstr (nm @ 0x0A # rest) = nm @ 0x0A # cstr rest"
    using assms by (induction nm) (auto simp: cstr_def)
  moreover have "prefix p (nm @ 0x0A # r) \<longleftrightarrow> prefix p nm" if "0x0A \<notin> set p" for p r :: "u8 list"
    using that by (auto simp: prefix_append prefix_Cons)
  moreover have "0x0A \<notin> set (ascii ''391OS> '')" by simp
  ultimately show ?thesis by (simp add: prompt_gap_def name_line_def)
qed

lemma sys_read_dir:
  assumes "current k a" "dir_fd k a fd p" "0 \<le> n"
  shows "ece391_read e (int fd) b n k = map_option Returns (dir_read (l_inner_dentry (u_call e)) (int fd) (Some b) n k)"
  using assms currentD [of k a] load_fd_current [of k a fd]
  by (simp add: ece391_read_def sys_read_def call_read_def dir_fd_def)

lemma ls_loop_prints:
  assumes "listable (kfs k)" "ls_locals (u_call e)" "std_out k a" "dir_fd k a fd p"
    and "p \<le> unat (Num_Dentry (kfs k))" "length buf = 33"
  shows "\<exists>k'. ls_loop e (int fd) buf k = Some (Returns (0, k')) \<and>
    ktty k' = print_text (as_lines (drop p (dir_names (kfs k)))) (ktty k) \<and> kfs k' = kfs k"
  using assms
proof (induction "unat (Num_Dentry (kfs k)) - p" arbitrary: k p buf)
  case 0
  then have p: "p = unat (Num_Dentry (kfs k))" by simp
  have cur: "current k a" using 0 by (simp add: std_out_def)
  have "file_pos (fds k a fd) = Num_Dentry (kfs k)" using 0(5) p by (simp add: dir_fd_def word_unat_eq_iff)
  then have "ece391_read e (int fd) buf 32 k = Some (Returns (0, Some buf, k))"
    using sys_read_dir [OF cur 0(5)] cur 0(5) by (simp add: dir_read_def fd_simps get_Num_Dentry_def dir_fd_def)
  then show ?case using p by (subst ls_loop.simps) (simp add: as_lines_def dir_names_def dir_entries_def)
next
  case (Suc m)
  note pr = Suc.prems
  let ?f = "fds k a fd" and ?nm = "entry_name (dentry_array (kfs k) p)"
  let ?k = "set_fd a fd (?f\<lparr>file_pos := file_pos ?f + 1\<rparr>) k" and ?rest = "drop (Suc (length ?nm)) buf"
  have lt: "p < unat (Num_Dentry (kfs k))" using Suc.hyps(2) by simp
  have cur: "current k a" using pr(3) by (simp add: std_out_def)
  note li = pr(1) [unfolded listable_def] and f = pr(4) [unfolded dir_fd_def]
  have l32: "length ?nm \<le> 32" by (simp add: entry_name_def)
  have nth: "dir_names (kfs k) ! p = ?nm" "p < length (dir_names (kfs k))"
    using lt by (simp_all add: nth_dir_names)
  then have nm: "?nm \<noteq> []" using li nth_mem by metis
  have d: "dir_read (l_inner_dentry (u_call e)) (int fd) (Some buf) 32 k =
      Some (int (length ?nm), Some (?nm @ 0 # ?rest), ?k)"
    by (rule dir_read_entry [OF cur _ _ _ _ lt])
      (use li f lt pr(2,6) l32 in \<open>simp_all add: ls_locals_def locals_ok_def\<close>)
  then have rd: "ece391_read e (int fd) buf 32 k = Some (Returns (int (length ?nm), Some (?nm @ 0 # ?rest), ?k))"
    using sys_read_dir [OF cur pr(4)] by simp
  let ?b = "?nm @ 0x0A # ?rest"
  have put: "buf_put (?nm @ 0 # ?rest) (length ?nm) 0x0A = Some ?b" by (simp add: buf_put_def)
  have lb: "length ?b = 33" using l32 pr(6) by simp
  have n: "Suc (length ?nm) \<le> length ?b" "Suc (length ?nm) < 2 ^ 31" "7 \<le> length ?b"
    using l32 lb by simp_all
  have o: "std_out ?k a" using pr(3) f by (simp add: std_out_def)
  have gap: "prompt_gap ?b @ take (Suc (length ?nm)) ?b = name_line ?nm"
    by (rule name_line_printed) (rule entry_name_nonzero)
  obtain k2 where k2: "sys_write (u_call e) 1 (Some ?b) (int (Suc (length ?nm))) ?k = Some (int (Suc (length ?nm)), k2)"
      "printed (name_line ?nm) a ?k k2" "std_out k2 a"
    using sys_write_out [OF o n(1,2) disjI2 [OF n(3)], of "u_call e", unfolded gap] by blast
  have fs2: "kfs k2 = kfs k" "ktty k2 = print_text (name_line ?nm) (ktty k)" using k2(2) by (simp_all add: printed_def)
  have pos: "unat (file_pos ?f + 1) = Suc p"
    using f lt unat_add_u32 [of "file_pos ?f" 1] u32_le_max [of "Num_Dentry (kfs k)"] by simp
  have "fds k2 a fd = fds ?k a fd" using printed_frame(2) [OF k2(2,3), of fd] f by simp
  then have df: "dir_fd k2 a fd (Suc p)" using f pos by (simp add: dir_fd_def)
  have "m = unat (Num_Dentry (kfs k2)) - Suc p" "listable (kfs k2)" "Suc p \<le> unat (Num_Dentry (kfs k2))"
    using Suc.hyps(2) pr(1) lt fs2 by simp_all
  from Suc.hyps(1) [OF this(1,2) pr(2) k2(3) df this(3) lb]
  obtain k3 where k3: "ls_loop e (int fd) ?b k2 = Some (Returns (0, k3))"
      "ktty k3 = print_text (as_lines (drop (Suc p) (dir_names (kfs k2)))) (ktty k2)" "kfs k3 = kfs k2"
    by blast
  have "as_lines (drop p (dir_names (kfs k))) = name_line ?nm @ as_lines (drop (Suc p) (dir_names (kfs k)))"
    using nth by (simp add: as_lines_def flip: Cons_nth_drop_Suc)
  then have "ktty k3 = print_text (as_lines (drop p (dir_names (kfs k)))) (ktty k)"
    unfolding k3(2) fs2 by (simp only: print_text_simps(3))
  moreover have "ece391_write e 1 ?b (int (length ?nm) + 1) ?k = Some (int (Suc (length ?nm)), k2)"
    using k2(1) by (simp add: ece391_write_def add.commute)
  ultimately show ?case
    using rd put k3(1,3) fs2(1) nm(1) by (subst ls_loop.simps) simp
qed

text \<open>
  C21. \<open>ls\<close> lists the directory: run in the displayed terminal it ends with status 0 and has printed the
  name of every entry on a line of its own, in the order of the directory; a name that begins like the
  prompt of the shell gets an empty line before it. The directory holds \<open>.\<close> as a directory, its types
  are at most 2, and no name in it is empty: \<open>ls\<close> takes an empty name for the end.
\<close>

theorem ls_lists_directory:
  assumes "listable (kfs k)" "ls_locals (u_call e)" "std_out k a" "length buf = 33"
    and "find_from (dir_names (kfs k)) (ascii ''.'') 0 = Some i" "file_type (dentry_array (kfs k) i) = DIRECTORY_TYPE"
    and "inode_num (dentry_array (kfs k) i) \<noteq> -1" "free_fd (fds k a) 2 = Some fd"
  shows "\<exists>k'. ece391ls e buf k = Some (Returns (0, k')) \<and>
    ktty k' = print_text (as_lines (dir_names (kfs k))) (ktty k) \<and> kfs k' = kfs k"
proof -
  have cur: "current k a" using assms(3) by (simp add: std_out_def)
  have cn: "clean_name (c_string ''.'') = ascii ''.''" by (simp add: clean_name_def)
  note fd = free_fd_SomeD [OF assms(8)]
  have t: "opt_table_of (file_type (dentry_array (kfs k) i)) = Some DIR_opt_table"
    using assms(6) by (simp add: opt_table_of_def)
  let ?k = "set_fd a fd ((fds k a fd)\<lparr>table_ptr := DIR_opt_table, file_pos := 0, flg := FD_BUSY,
      fd_inode := inode_num (dentry_array (kfs k) i)\<rparr>) k"
  have "dir_ok (kfs k)" "locals_ok (u_call e)" using assms(1,2) by (simp_all add: listable_def ls_locals_def)
  from sys_open_existing [OF cur this, of "c_string ''.''", unfolded cn, OF _ _ _ assms(5) t assms(8)]
  have op: "ece391_open e (c_string ''.'') k = Some (int fd, ?k)" by (auto simp: ece391_open_def)
  have "listable (kfs ?k)" "std_out ?k a" "dir_fd ?k a fd 0" "0 \<le> unat (Num_Dentry (kfs ?k))"
    using assms(1,3,7) fd by (simp_all add: std_out_def dir_fd_def)
  from ls_loop_prints [OF this(1) assms(2) this(2-4) assms(4)]
  obtain k' where "ls_loop e (int fd) buf ?k = Some (Returns (0, k'))"
      "ktty k' = print_text (as_lines (dir_names (kfs k))) (ktty k)" "kfs k' = kfs k" by auto
  then show ?thesis using op by (simp add: ece391ls_def)
qed

definition list_fs :: fs where
  "list_fs = demo_fs\<lparr>Num_Dentry := 2, dentry_array := (\<lambda>i. if i = 0 then
     demo_entry\<lparr>file_name := pad_to 32 (ascii ''.''), file_type := DIRECTORY_TYPE\<rparr> else demo_entry)\<rparr>"

theorem ls_lists_directory_witness:
  "\<exists>k'. ece391ls demo_env (replicate 33 0) (demo_user\<lparr>kfs := list_fs\<rparr>) = Some (Returns (0, k')) \<and>
     ktty k' = print_text (ascii ''.'' @ [0x0A] @ ascii ''frame'' @ [0x0A]) demo_tty"
proof -
  let ?k = "demo_user\<lparr>kfs := list_fs\<rparr>"
  have u: "[0..<2] = [0, 1 :: nat]" by (simp add: upt_rec)
  have n: "dir_names list_fs = [ascii ''.'', ascii ''frame'']"
    by (simp add: dir_names_def dir_entries_def list_fs_def entry_abs_def entry_name_def cstr_pad_to demo_entry_def u)
  have "listable list_fs"
    unfolding listable_def n by (auto simp: list_fs_def dir_ok_def dentry_ok_def demo_entry_def pad_to_def less_Suc_eq)
  moreover have "std_out ?k pcb0" using demo_user_ok by (simp add: std_out_def)
  moreover have "ls_locals (u_call demo_env)" by (simp add: ls_locals_def) (simp add: demo_call_def blank_dentry_def)
  moreover have "find_from (dir_names list_fs) (ascii ''.'') 0 = Some 0" unfolding n by (simp add: find_from_def)
  ultimately show ?thesis
    using ls_lists_directory [of ?k demo_env pcb0 "replicate 33 0" 0 2] n
    by (auto simp: list_fs_def demo_entry_def as_lines_def name_line_def)
qed

end
