(* ===== verification/User_Syserr.thy ===== *)
theory User_Syserr
  imports User_Programs
begin

text \<open>
  \<open>syscalls/ece391syserr.c\<close>, the test program for the errors of the system calls: eight tests, each of
  which prints a verdict and returns 0 or 2.
\<close>

abbreviation "NEG_FD \<equiv> -1073741823 :: int"
abbreviation "BIG_FD \<equiv> 1073741823 :: int"
abbreviation "BIG_NUM \<equiv> 1073741823 :: int"
abbreviation "NEG_NUM \<equiv> -1073741823 :: int"

section \<open>What the tests share\<close>

definition and_then :: "'a waiting option \<Rightarrow> ('a \<Rightarrow> 'b waiting option) \<Rightarrow> 'b waiting option" where
  "and_then m f = (case m of None \<Rightarrow> None | Some Waits \<Rightarrow> Some Waits | Some (Returns x) \<Rightarrow> f x)"

lemma and_then_simps [simp]:
  "and_then (Some (Returns x)) f = f x" "and_then (Some Waits) f = Some Waits" "and_then None f = None"
  by (simp_all add: and_then_def)

text \<open>A call that should have failed.\<close>

definition expect_error :: "user_env \<Rightarrow> string \<Rightarrow> int \<Rightarrow> int \<Rightarrow> kernel \<Rightarrow> (int \<times> kernel) option" where
  "expect_error e msg r fail k =
     (if r \<noteq> -1 then do { k \<leftarrow> ece391_fdputs e 1 (c_line msg) k; Some (2, k) } else Some (fail, k))"

definition verdict :: "user_env \<Rightarrow> string \<Rightarrow> int \<Rightarrow> kernel \<Rightarrow> program_result" where
  "verdict e name fail k = give_up e (name @ (if fail \<noteq> 0 then '': FAIL'' else '': PASS'')) fail k"

definition read_error ::
    "user_env \<Rightarrow> string \<Rightarrow> int \<Rightarrow> u8 list \<Rightarrow> int \<Rightarrow> kernel \<Rightarrow> (int \<times> u8 list \<times> kernel) waiting option" where
  "read_error e msg fd buf fail k =
     and_then (ece391_read e fd buf 31 k) (\<lambda>(r, buf, k). do {
       buf \<leftarrow> buf;
       (fail, k) \<leftarrow> expect_error e msg r fail k;
       Some (Returns (fail, buf, k))
     })"

definition write_error :: "user_env \<Rightarrow> string \<Rightarrow> int \<Rightarrow> u8 list \<Rightarrow> int \<Rightarrow> kernel \<Rightarrow> (int \<times> kernel) option" where
  "write_error e msg fd buf fail k = do {
     (r, k) \<leftarrow> ece391_write e fd buf 31 k;
     expect_error e msg r fail k
   }"

definition close_error :: "user_env \<Rightarrow> string \<Rightarrow> int \<Rightarrow> int \<Rightarrow> kernel \<Rightarrow> (int \<times> kernel) option" where
  "close_error e msg fd fail k = do {
     (r, k) \<leftarrow> sys_close fd k;
     expect_error e msg r fail k
   }"

definition open_error :: "user_env \<Rightarrow> string \<Rightarrow> string \<Rightarrow> int \<Rightarrow> kernel \<Rightarrow> (int \<times> kernel) option" where
  "open_error e msg name fail k = do {
     (r, k) \<leftarrow> ece391_open e (c_string name) k;
     expect_error e msg r fail k
   }"

section \<open>The tests\<close>

definition err_fd :: "user_env \<Rightarrow> string \<Rightarrow> int \<Rightarrow> u8 list \<Rightarrow> kernel \<Rightarrow> program_result" where
  "err_fd e name fd buf k =
     and_then (read_error e ''read fail'' fd buf 0 k) (\<lambda>(fail, buf, k). do {
       (fail, k) \<leftarrow> write_error e ''write fail'' fd buf fail k;
       (fail, k) \<leftarrow> close_error e ''close fail'' fd fail k;
       verdict e name fail k
     })"

definition err_neg_fd :: "user_env \<Rightarrow> u8 list \<Rightarrow> kernel \<Rightarrow> program_result" where
  "err_neg_fd e buf k = err_fd e ''err_neg_fd'' NEG_FD buf k"

definition err_big_fd :: "user_env \<Rightarrow> u8 list \<Rightarrow> kernel \<Rightarrow> program_result" where
  "err_big_fd e buf k = err_fd e ''err_big_fd'' BIG_FD buf k"

fun open_lots :: "user_env \<Rightarrow> nat \<Rightarrow> int \<Rightarrow> kernel \<Rightarrow> (int \<times> kernel) option" where
  "open_lots e 0 cnt k = Some (cnt, k)"
| "open_lots e (Suc n) cnt k = do {
     (fd, k) \<leftarrow> ece391_open e (c_string ''.'') k;
     open_lots e n (if fd = -1 then cnt + 1 else cnt) k
   }"

fun close_all :: "nat list \<Rightarrow> kernel \<Rightarrow> kernel option" where
  "close_all [] k = Some k"
| "close_all (i # is) k = do { (_, k) \<leftarrow> sys_close (int i) k; close_all is k }"

definition err_open_lots :: "user_env \<Rightarrow> kernel \<Rightarrow> program_result" where
  "err_open_lots e k = do {
     (cnt, k) \<leftarrow> open_lots e 7 0 k;
     k \<leftarrow> close_all [2..<8] k;
     verdict e ''err_open_lots'' (if cnt = 1 then 0 else 2) k
   }"

definition err_open :: "user_env \<Rightarrow> kernel \<Rightarrow> program_result" where
  "err_open e k = do {
     (fail, k) \<leftarrow> open_error e (CHR 0x27 # ''helloo'' @ CHR 0x27 # '' fail'') ''helloo'' 0 k;
     (fail, k) \<leftarrow> open_error e (CHR 0x27 # ''shel'' @ CHR 0x27 # '' fail'') ''shel'' fail k;
     (fail, k) \<leftarrow> open_error e ''empty string fail'' [] fail k;
     verdict e ''err_open'' fail k
   }"

fun close_errors :: "user_env \<Rightarrow> nat list \<Rightarrow> int \<Rightarrow> kernel \<Rightarrow> (int \<times> kernel) option" where
  "close_errors e [] fail k = Some (fail, k)"
| "close_errors e (i # is) fail k = do {
     (fail, k) \<leftarrow> close_error e ''close unopened or invalid fd fail'' (int i) fail k;
     close_errors e is fail k
   }"

fun read_errors :: "user_env \<Rightarrow> nat list \<Rightarrow> u8 list \<Rightarrow> int \<Rightarrow> kernel \<Rightarrow> (int \<times> u8 list \<times> kernel) waiting option" where
  "read_errors e [] buf fail k = Some (Returns (fail, buf, k))"
| "read_errors e (i # is) buf fail k =
     and_then (read_error e ''read from unopened fd fail'' (int i) buf fail k)
       (\<lambda>(fail, buf, k). read_errors e is buf fail k)"

fun write_errors :: "user_env \<Rightarrow> nat list \<Rightarrow> u8 list \<Rightarrow> int \<Rightarrow> kernel \<Rightarrow> (int \<times> kernel) option" where
  "write_errors e [] buf fail k = Some (fail, k)"
| "write_errors e (i # is) buf fail k = do {
     (fail, k) \<leftarrow> write_error e ''write to unopened fd fail'' (int i) buf fail k;
     write_errors e is buf fail k
   }"

definition err_unopened :: "user_env \<Rightarrow> u8 list \<Rightarrow> kernel \<Rightarrow> program_result" where
  "err_unopened e buf k = do {
     (fail, k) \<leftarrow> close_errors e [0..<8] 0 k;
     and_then (read_errors e [2..<8] buf fail k) (\<lambda>(fail, buf, k). do {
       (fail, k) \<leftarrow> write_errors e [2..<8] buf fail k;
       verdict e ''err_unopened'' fail k
     })
   }"

text \<open>\<open>vidpage\<close> is the address of the page table that \<open>vidmap\<close> enters.\<close>

definition vidmap_error :: "user_env \<Rightarrow> u32 \<Rightarrow> string \<Rightarrow> u32 \<Rightarrow> int \<Rightarrow> kernel \<Rightarrow> (int \<times> kernel) option" where
  "vidmap_error e vidpage msg start fail k =
     (case vidmap vidpage start (ktty k) of (r, _, t) \<Rightarrow> expect_error e msg r fail (k\<lparr>ktty := t\<rparr>))"

definition err_vidmap :: "user_env \<Rightarrow> u32 \<Rightarrow> kernel \<Rightarrow> program_result" where
  "err_vidmap e vidpage k = do {
     (fail, k) \<leftarrow> vidmap_error e vidpage ''Null pointer fail'' 0 0 k;
     (fail, k) \<leftarrow> vidmap_error e vidpage ''Kernel pointer fail fail'' 0x400000 fail k;
     verdict e ''err_vidmap'' fail k
   }"

definition err_stdin_out :: "user_env \<Rightarrow> u8 list \<Rightarrow> kernel \<Rightarrow> program_result" where
  "err_stdin_out e buf k = do {
     (fail, k) \<leftarrow> write_error e ''write to stdin fail'' 0 buf 0 k;
     and_then (read_error e ''read from stdout fail'' 1 buf fail k)
       (\<lambda>(fail, buf, k). verdict e ''err_stdin_out'' fail k)
   }"

text \<open>\<open>run\<close> is the call that a valid number makes with the registers as they happen to be.\<close>

definition call_sys :: "(syscall \<Rightarrow> kernel \<Rightarrow> (int \<times> kernel) option) \<Rightarrow> int \<Rightarrow> kernel \<Rightarrow> (int \<times> kernel) option" where
  "call_sys run num k = (case syscall_handler (word_of_int num) of None \<Rightarrow> Some (-1, k) | Some c \<Rightarrow> run c k)"

definition err_syscall_num :: "user_env \<Rightarrow> (syscall \<Rightarrow> kernel \<Rightarrow> (int \<times> kernel) option) \<Rightarrow> kernel \<Rightarrow> program_result" where
  "err_syscall_num e run k = do {
     (r, k) \<leftarrow> call_sys run BIG_NUM k;
     (fail, k) \<leftarrow> expect_error e ''syscall 0 fail'' r 0 k;
     (r, k) \<leftarrow> call_sys run NEG_NUM k;
     (fail, k) \<leftarrow> expect_error e ''big num syscall fail'' r fail k;
     (r, k) \<leftarrow> call_sys run 0 k;
     (fail, k) \<leftarrow> expect_error e ''neg num syscall fail'' r fail k;
     verdict e ''err_syscall_num'' fail k
   }"

section \<open>main\<close>

text \<open>\<open>scratch\<close> is the uninitialised buffer of each test.\<close>

record syserr_env = user_env +
  u_vidpage :: u32
  u_run :: "syscall \<Rightarrow> kernel \<Rightarrow> (int \<times> kernel) option"
  u_scratch :: "nat \<Rightarrow> u8 list"

definition run_test :: "syserr_env \<Rightarrow> nat \<Rightarrow> kernel \<Rightarrow> program_result" where
  "run_test s n k =
     (let e = user_env.truncate s; buf = u_scratch s n in
      if n = 1 then err_neg_fd e buf k
      else if n = 2 then err_big_fd e buf k
      else if n = 3 then err_open_lots e k
      else if n = 4 then err_open e k
      else if n = 5 then err_unopened e buf k
      else if n = 6 then err_vidmap e (u_vidpage s) k
      else if n = 7 then err_stdin_out e buf k
      else err_syscall_num e (u_run s) k)"

fun run_tests :: "syserr_env \<Rightarrow> nat list \<Rightarrow> int \<Rightarrow> kernel \<Rightarrow> program_result" where
  "run_tests s [] fail k = Some (Returns (fail, k))"
| "run_tests s (n # ns) fail k = and_then (run_test s n k) (\<lambda>(r, k). run_tests s ns (fail + r) k)"

definition ece391syserr :: "syserr_env \<Rightarrow> u8 list \<Rightarrow> kernel \<Rightarrow> program_result" where
  "ece391syserr s buf k = do {
     (let e = user_env.truncate s in do {
        k \<leftarrow> ece391_fdputs e 1 (c_string ''Choose from tests 1-8. 0 to run all: '') k;
        and_then (ece391_read e 0 buf 127 k) (\<lambda>(cnt, buf, k). do {
          buf \<leftarrow> buf;
          (if cnt = -1 then give_up e ''Can't read test #'' 2 k
           else do {
             c \<leftarrow> buf_get buf 0;
             (let select = uint c - 0x30 in
              if select = 0 then
                and_then (run_tests s [1..<9] 0 k) (\<lambda>(fail, k).
                  give_up e (CHR 0x0A # (if fail \<noteq> 0 then ''Overall Tests: FAIL'' else ''Overall Tests: PASS'')) fail k)
              else if 1 \<le> select \<and> select \<le> 8 then run_test s (nat select) k
              else do {
                k \<leftarrow> ece391_fdputs e 1 (c_string ''Invalid test number. Choose from tests 1-8 or 0'') k;
                Some (Returns (0, k))
              })
           })
        })
      })
   }"

end
