(* ===== verification/Syserr_Props.thy ===== *)
theory Syserr_Props
  imports User_Syserr User_Props
begin

text \<open>
  Which of the kernel's own tests for the errors of its system calls pass, on any state in which a
  program can run: all but the one that opens missing names.
\<close>

section \<open>Calls that fail\<close>

lemma expect_error_holds [simp]: "expect_error e msg (-1) fail k = Some (fail, k)"
  by (simp add: expect_error_def)

lemma read_bad: "fd < 0 \<or> fd \<ge> 8 \<or> fd = 1 \<Longrightarrow> ece391_read e fd buf n k = Some (Returns (-1, Some buf, k))"
  by (auto simp: ece391_read_def sys_read_def)

lemma write_bad: "fd \<le> 0 \<or> fd \<ge> 8 \<Longrightarrow> ece391_write e fd buf n k = Some (-1, k)"
  by (auto simp: ece391_write_def sys_write_def)

lemma close_bad: "fd < 2 \<or> fd \<ge> 8 \<Longrightarrow> sys_close fd k = Some (-1, k)"
  by (auto simp: sys_close_def)

lemma print_ok:
  assumes "std_out k a" "length name < 2 ^ 16"
  shows "\<exists>k'. ece391_fdputs e 1 (c_line name) k = Some k' \<and> std_out k' a \<and> kfs k' = kfs k \<and> (\<forall>j. j \<noteq> 1 \<longrightarrow> fds k' a j = fds k a j)"
proof -
  have "length (cstr (c_line name)) \<le> length (c_line name)" by (rule cstr_length_le)
  also have "\<dots> < 2 ^ 31" using assms(2) by simp
  finally have len: "length (cstr (c_line name)) < 2 ^ 31" .
  have "nul_terminated (c_line name)" by (simp add: nul_terminated_def)
  from fdputs_out [OF assms(1) this len, of e] obtain k' where k': "ece391_fdputs e 1 (c_line name) k = Some k'"
      "printed (prompt_gap (c_line name) @ cstr (c_line name)) a k k'" "std_out k' a"
    by blast
  have "kfs k' = kfs k" using k'(2) by (simp add: printed_def)
  moreover have "\<forall>j. j \<noteq> 1 \<longrightarrow> fds k' a j = fds k a j" using printed_frame(2) [OF k'(2,3)] by blast
  ultimately show ?thesis using k'(1,3) by blast
qed

text \<open>How a test ends.\<close>

definition ends_with :: "program_result \<Rightarrow> int \<Rightarrow> fs \<Rightarrow> bool" where
  "ends_with m r fs \<longleftrightarrow> (\<exists>k'. m = Some (Returns (r, k')) \<and> kfs k' = fs)"

lemma verdict_ends:
  assumes "std_out k a" "length name < 1000"
  shows "ends_with (verdict e name fail k) fail (kfs k)"
proof -
  have "length (name @ (if fail \<noteq> 0 then '': FAIL'' else '': PASS'')) < 2 ^ 16" using assms(2) by simp
  from print_ok [OF assms(1) this, of e] show ?thesis
    by (auto simp: ends_with_def verdict_def give_up_def)
qed

section \<open>The descriptor table\<close>

text \<open>The first \<open>n\<close> descriptors behind standard input and output are in use.\<close>

definition in_use :: "nat \<Rightarrow> kernel \<Rightarrow> u32 \<Rightarrow> bool" where
  "in_use n k a \<longleftrightarrow> std_out k a \<and>
     (\<forall>j. 2 \<le> j \<longrightarrow> j < 2 + n \<longrightarrow> flg (fds k a j) = FD_BUSY \<and> table_ptr (fds k a j) \<noteq> NULL_opt_table) \<and>
     (\<forall>j. 2 + n \<le> j \<longrightarrow> j < 8 \<longrightarrow> flg (fds k a j) = 0 \<and> fd_inode (fds k a j) \<noteq> -1 \<and>
        length (fd_name (fds k a j)) = MAX_NAME_LEN)"

lemma in_use_free:
  assumes "in_use n k a" "n \<le> 6"
  shows "free_fd (fds k a) 2 = (if n < 6 then Some (2 + n) else None)"
proof -
  note u = assms(1) [unfolded in_use_def]
  show ?thesis
  proof (cases "free_fd (fds k a) 2")
    case None
    then have "n = 6"
      using free_fd_spec [of 2 "fds k a"] u assms(2) by (cases "n = 6") auto
    then show ?thesis using None by simp
  next
    case (Some fd)
    note f = free_fd_SomeD [OF Some]
    have "\<not> fd < 2 + n" using u f by auto
    moreover have "\<not> 2 + n < fd" using u f by fastforce
    ultimately show ?thesis using Some f by simp
  qed
qed

lemma in_use_opened:
  assumes "in_use n k a" "n < 6" "flg f = FD_BUSY" "table_ptr f \<noteq> NULL_opt_table"
  shows "in_use (Suc n) (set_fd a (2 + n) f k) a"
proof -
  have "std_out (set_fd a (2 + n) f k) a" using assms(1) by (simp add: in_use_def std_out_def)
  then show ?thesis using assms unfolding in_use_def by (simp add: less_Suc_eq)
qed

lemma in_use_rtc [simp]: "in_use n (k\<lparr>krtc := r\<rparr>) a = in_use n k a"
  by (simp add: in_use_def std_out_def)

lemma in_use_same: "in_use n k a \<Longrightarrow> std_out k' a \<Longrightarrow> \<forall>j. j \<noteq> 1 \<longrightarrow> fds k' a j = fds k a j \<Longrightarrow> in_use n k' a"
  by (simp add: in_use_def)

lemma read_unopened:
  assumes "in_use 0 k a" "2 \<le> j" "j < 8"
  shows "ece391_read e (int j) buf 31 k = Some (Returns (-1, Some buf, k))"
  using assms currentD [of k a] load_fd_current [of k a j]
  by (simp add: in_use_def std_out_def ece391_read_def sys_read_def)

lemma write_unopened:
  assumes "in_use 0 k a" "2 \<le> j" "j < 8"
  shows "ece391_write e (int j) buf 31 k = Some (-1, k)"
  using assms currentD [of k a] load_fd_current [of k a j]
  by (simp add: in_use_def std_out_def ece391_write_def sys_write_def create_missing_def write_busy_def)

lemma close_unopened:
  assumes "in_use 0 k a"
  shows "sys_close (int j) k = Some (-1, k)"
  using assms sys_close_eq [of k a "int j"] by (auto simp: in_use_def std_out_def)

lemma close_errors_unopened: "in_use 0 k a \<Longrightarrow> close_errors e is fail k = Some (fail, k)"
  by (induction "is") (simp_all add: close_error_def close_unopened)

lemma read_errors_unopened:
  "in_use 0 k a \<Longrightarrow> \<forall>i \<in> set is. 2 \<le> i \<and> i < 8 \<Longrightarrow> read_errors e is buf fail k = Some (Returns (fail, buf, k))"
  by (induction "is") (simp_all add: read_error_def read_unopened)

lemma write_errors_unopened:
  "in_use 0 k a \<Longrightarrow> \<forall>i \<in> set is. 2 \<le> i \<and> i < 8 \<Longrightarrow> write_errors e is buf fail k = Some (fail, k)"
  by (induction "is") (simp_all add: write_error_def write_unopened)

section \<open>Opening\<close>

text \<open>A directory that lists itself and none of the names of the test.\<close>

definition test_dir :: "fs \<Rightarrow> bool" where
  "test_dir fs \<longleftrightarrow> dir_ok fs \<and> ascii ''helloo'' \<notin> set (dir_names fs) \<and> ascii ''shel'' \<notin> set (dir_names fs) \<and>
     (\<exists>i. find_from (dir_names fs) (ascii ''.'') 0 = Some i \<and> file_type (dentry_array fs i) = DIRECTORY_TYPE)"

lemma clean_plain: "0 \<notin> set (ascii s) \<Longrightarrow> 0x0A \<notin> set (ascii s) \<Longrightarrow> clean_name (c_string s) = ascii s"
  by (auto simp: clean_name_def cstr_append_nul takeWhile_eq_all_conv)

lemma open_dot:
  assumes "in_use n k a" "n < 6" "test_dir (kfs k)" "locals_ok (u_call e)"
  shows "\<exists>k'. ece391_open e (c_string ''.'') k = Some (int (2 + n), k') \<and> in_use (Suc n) k' a \<and> kfs k' = kfs k"
proof -
  obtain i where i: "dir_ok (kfs k)" "find_from (dir_names (kfs k)) (ascii ''.'') 0 = Some i"
      "opt_table_of (file_type (dentry_array (kfs k) i)) = Some DIR_opt_table"
    using assms(3) by (auto simp: test_dir_def opt_table_of_def)
  have cn: "clean_name (c_string ''.'') = ascii ''.''" by (rule clean_plain) simp_all
  have f: "free_fd (fds k a) 2 = Some (2 + n)" using in_use_free [OF assms(1)] assms(2) by simp
  have "current k a" using assms(1) by (simp add: in_use_def std_out_def)
  from sys_open_existing [OF this i(1) assms(4), of "c_string ''.''", unfolded cn, OF _ _ _ i(2,3) f]
  obtain r where o: "ece391_open e (c_string ''.'') k = Some (int (2 + n),
      (set_fd a (2 + n) ((fds k a (2 + n))\<lparr>table_ptr := DIR_opt_table, file_pos := 0, flg := FD_BUSY,
         fd_inode := inode_num (dentry_array (kfs k) i)\<rparr>) k)\<lparr>krtc := r\<rparr>)" (is "_ = Some (_, ?k)")
    by (auto simp: ece391_open_def)
  have "in_use (Suc n) ?k a" unfolding in_use_rtc by (rule in_use_opened [OF assms(1,2)]) simp_all
  moreover have "kfs ?k = kfs k" by simp
  ultimately show ?thesis using o by blast
qed

lemma open_dot_full:
  assumes "in_use 6 k a" "locals_ok (u_call e)"
  shows "ece391_open e (c_string ''.'') k = Some (-1, k)"
proof -
  have cn: "clean_name (c_string ''.'') = ascii ''.''" by (rule clean_plain) simp_all
  have "current k a" "free_fd (fds k a) 2 = None"
    using assms(1) in_use_free [OF assms(1)] by (simp_all add: in_use_def std_out_def)
  then show ?thesis
    using sys_open_full [of k a "c_string ''.''" "u_call e"] cn assms(2) by (simp add: ece391_open_def locals_ok_def)
qed

lemma open_lots_counts:
  assumes "test_dir (kfs k)" "locals_ok (u_call e)"
  shows "in_use n k a \<Longrightarrow> n + m = 6 \<Longrightarrow> test_dir (kfs k) \<Longrightarrow>
    \<exists>k'. open_lots e (Suc m) 0 k = Some (1, k') \<and> in_use 6 k' a \<and> kfs k' = kfs k"
proof (induction m arbitrary: n k)
  case 0
  then show ?case using open_dot_full [of k a e] assms(2) by simp
next
  case (Suc m)
  obtain k1 where k1: "ece391_open e (c_string ''.'') k = Some (int (2 + n), k1)" "in_use (Suc n) k1 a" "kfs k1 = kfs k"
    using open_dot [OF Suc.prems(1) _ Suc.prems(3) assms(2)] Suc.prems(2) by auto
  have "open_lots e (Suc (Suc m)) 0 k = open_lots e (Suc m) 0 k1" using k1(1) by simp
  moreover obtain k2 where "open_lots e (Suc m) 0 k1 = Some (1, k2)" "in_use 6 k2 a" "kfs k2 = kfs k1"
    using Suc.IH [OF k1(2)] Suc.prems(2,3) k1(3) by auto
  ultimately show ?case using k1(3) by auto
qed

lemma close_all_out:
  "std_out k a \<Longrightarrow> \<forall>j \<in> set is. 2 \<le> j \<and> j < 8 \<and> table_ptr (fds k a j) \<noteq> NULL_opt_table \<Longrightarrow>
   \<exists>k'. close_all is k = Some k' \<and> std_out k' a \<and> kfs k' = kfs k"
proof (induction "is" arbitrary: k)
  case (Cons i "is")
  let ?k = "if flg (fds k a i) \<noteq> 0 then set_fd a i ((fds k a i)\<lparr>flg := 0, file_pos := 0, fd_inode := 0\<rparr>) k else k"
  have c: "sys_close (int i) k = Some (if flg (fds k a i) \<noteq> 0 then 0 else -1, ?k)"
    using sys_close_eq [of k a "int i"] Cons.prems by (auto simp: std_out_def)
  have "std_out ?k a" using Cons.prems by (auto simp: std_out_def)
  moreover have "\<forall>j \<in> set is. 2 \<le> j \<and> j < 8 \<and> table_ptr (fds ?k a j) \<noteq> NULL_opt_table"
    using Cons.prems(2) by auto
  ultimately show ?case using Cons.IH [of ?k] c by (auto split: if_splits)
qed simp

lemma open_missing_error:
  assumes "in_use n k a" "n < 6" "dir_ok (kfs k)" "locals_ok (u_call e)"
    and name: "ascii name \<notin> set (dir_names (kfs k))" "0 \<notin> set (ascii name)" "0x0A \<notin> set (ascii name)"
      "ascii name \<noteq> []" "length (ascii name) < MAX_NAME_LEN" and msg: "length msg < 2 ^ 16"
  shows "\<exists>k'. open_error e msg name fail k = Some (2, k') \<and> in_use (Suc n) k' a \<and> kfs k' = kfs k"
proof -
  note cn = clean_plain [OF name(2,3)]
  have f: "free_fd (fds k a) 2 = Some (2 + n)" using in_use_free [OF assms(1)] assms(2) by simp
  have c: "current k a" "length (fd_name (fds k a (2 + n))) = MAX_NAME_LEN"
    using assms(1,2) by (simp_all add: in_use_def std_out_def)
  obtain nm where o: "ece391_open e (c_string name) k = Some (int (2 + n),
      set_fd a (2 + n) ((fds k a (2 + n))\<lparr>table_ptr := REG_FILE_opt_table, file_pos := 0, fd_inode := -1,
         flg := FD_BUSY, fd_name := nm\<rparr>) k)" (is "_ = Some (_, ?k)")
    using sys_open_missing [OF c(1) assms(3,4), of "c_string name", unfolded cn, OF _ _ _ name(1) f c(2)] name(4,5)
    by (auto simp: ece391_open_def nul_terminated_def)
  have u: "in_use (Suc n) ?k a" by (rule in_use_opened [OF assms(1,2)]) simp_all
  then obtain k' where k': "ece391_fdputs e 1 (c_line msg) ?k = Some k'" "std_out k' a" "kfs k' = kfs ?k"
      "\<forall>j. j \<noteq> 1 \<longrightarrow> fds k' a j = fds ?k a j"
    using print_ok [OF _ msg, of ?k a e] by (auto simp: in_use_def)
  then have "in_use (Suc n) k' a" using in_use_same [OF u] by blast
  then show ?thesis using o k' by (simp add: open_error_def expect_error_def)
qed

section \<open>Properties\<close>

lemma bad_call_numbers:
  "call_sys run BIG_NUM k = Some (-1, k)" "call_sys run NEG_NUM k = Some (-1, k)" "call_sys run 0 k = Some (-1, k)"
  by (simp_all add: call_sys_def syscall_handler_def word_le_def)

lemma err_fd_passes:
  assumes "std_out k a" "length name < 1000" "fd < 0 \<or> fd \<ge> 8"
  shows "ends_with (err_fd e name fd buf k) 0 (kfs k)"
proof -
  have "ece391_read e fd buf 31 k = Some (Returns (-1, Some buf, k))" "ece391_write e fd buf 31 k = Some (-1, k)"
    "sys_close fd k = Some (-1, k)"
    using assms(3) by (auto intro: read_bad write_bad close_bad)
  then show ?thesis
    using verdict_ends [OF assms(1,2), of e 0] by (simp add: err_fd_def read_error_def write_error_def close_error_def)
qed

lemma err_open_lots_passes:
  assumes u: "in_use 0 k a" and d: "test_dir (kfs k)" "locals_ok (u_call e)"
  shows "ends_with (err_open_lots e k) 0 (kfs k)"
proof -
  obtain k1 where k1: "open_lots e 7 0 k = Some (1, k1)" "in_use 6 k1 a" "kfs k1 = kfs k"
    using open_lots_counts [OF d u, of 6] d(1) by (auto simp: eval_nat_numeral)
  have "std_out k1 a" "\<forall>j \<in> set [2..<8]. 2 \<le> j \<and> j < 8 \<and> table_ptr (fds k1 a j) \<noteq> NULL_opt_table"
    using k1(2) by (simp_all add: in_use_def)
  from close_all_out [OF this] obtain k2 where k2: "close_all [2..<8] k1 = Some k2" "std_out k2 a" "kfs k2 = kfs k1"
    by blast
  then show ?thesis
    using k1(1,3) verdict_ends [OF k2(2), of "''err_open_lots''" e 0] by (simp add: err_open_lots_def del: upt_rec_numeral)
qed

lemma err_open_fails:
  assumes u: "in_use 0 k a" and d: "test_dir (kfs k)" "locals_ok (u_call e)"
  shows "ends_with (err_open e k) 2 (kfs k)"
proof -
  let ?m1 = "CHR 0x27 # ''helloo'' @ CHR 0x27 # '' fail''" and ?m2 = "CHR 0x27 # ''shel'' @ CHR 0x27 # '' fail''"
  note t = d(1) [unfolded test_dir_def]
  have "\<exists>k'. open_error e ?m1 ''helloo'' 0 k = Some (2, k') \<and> in_use (Suc 0) k' a \<and> kfs k' = kfs k"
    by (rule open_missing_error [OF u]) (use t d(2) in simp_all)
  then obtain k1 where k1: "open_error e ?m1 ''helloo'' 0 k = Some (2, k1)" "in_use (Suc 0) k1 a" "kfs k1 = kfs k" by blast
  have "\<exists>k'. open_error e ?m2 ''shel'' 2 k1 = Some (2, k') \<and> in_use (Suc (Suc 0)) k' a \<and> kfs k' = kfs k1"
    by (rule open_missing_error [OF k1(2)]) (use t d(2) k1(3) in simp_all)
  then obtain k2 where k2: "open_error e ?m2 ''shel'' 2 k1 = Some (2, k2)" "in_use (Suc (Suc 0)) k2 a" "kfs k2 = kfs k1" by blast
  have o: "std_out k2 a" using k2(2) by (simp add: in_use_def)
  then have "ece391_open e (c_string []) k2 = Some (-1, k2)"
    using currentD [of k2 a] by (simp add: ece391_open_def sys_open_def std_out_def)
  then have "open_error e ''empty string fail'' [] 2 k2 = Some (2, k2)" by (simp add: open_error_def)
  then show ?thesis
    using k1(1,3) k2(1,3) verdict_ends [OF o, of "''err_open''" e 2] by (simp add: err_open_def)
qed

text \<open>
  C27. The kernel and its own error tests: on any state in which a program runs with no file open and a
  directory that lists itself, the tests for bad descriptors, too many open files, unopened
  descriptors, bad \<open>vidmap\<close> pointers, the direction of the standard descriptors and unknown call numbers
  pass; the test that expects opening a missing name to fail does not. None of them changes the files.
\<close>

theorem syserr_verdicts:
  assumes "in_use 0 k a" "test_dir (kfs k)" "locals_ok (u_call e)"
  shows "ends_with (err_neg_fd e buf k) 0 (kfs k) \<and> ends_with (err_big_fd e buf k) 0 (kfs k) \<and>
    ends_with (err_open_lots e k) 0 (kfs k) \<and> ends_with (err_open e k) 2 (kfs k) \<and>
    ends_with (err_unopened e buf k) 0 (kfs k) \<and> ends_with (err_vidmap e vidpage k) 0 (kfs k) \<and>
    ends_with (err_stdin_out e buf k) 0 (kfs k) \<and> ends_with (err_syscall_num e run k) 0 (kfs k)"
proof -
  have o: "std_out k a" using assms(1) by (simp add: in_use_def)
  note v = verdict_ends [OF o]
  have "ends_with (err_unopened e buf k) 0 (kfs k)"
    using v [of "''err_unopened''" e 0] assms(1)
    by (simp add: err_unopened_def close_errors_unopened read_errors_unopened write_errors_unopened del: upt_rec_numeral)
  moreover have "ends_with (err_vidmap e vidpage k) 0 (kfs k)"
    using v [of "''err_vidmap''" e 0] by (simp add: err_vidmap_def vidmap_error_def vidmap_def word_less_def)
  moreover have "ends_with (err_stdin_out e buf k) 0 (kfs k)"
    using v [of "''err_stdin_out''" e 0] by (simp add: err_stdin_out_def write_error_def read_error_def read_bad write_bad)
  moreover have "ends_with (err_syscall_num e run k) 0 (kfs k)"
    using v [of "''err_syscall_num''" e 0] by (simp add: err_syscall_num_def bad_call_numbers)
  ultimately show ?thesis
    using err_fd_passes [OF o] err_open_lots_passes [OF assms] err_open_fails [OF assms]
    by (simp add: err_neg_fd_def err_big_fd_def)
qed

definition dot_fs :: fs where
  "dot_fs = demo_fs\<lparr>dentry_array := (\<lambda>_. demo_entry\<lparr>file_name := pad_to 32 (ascii ''.''), file_type := DIRECTORY_TYPE\<rparr>)\<rparr>"

theorem syserr_verdicts_witness:
  "\<forall>run. ends_with (err_open demo_env (demo_user\<lparr>kfs := dot_fs\<rparr>)) 2 dot_fs \<and>
     ends_with (err_syscall_num demo_env run (demo_user\<lparr>kfs := dot_fs\<rparr>)) 0 dot_fs"
proof
  fix run
  let ?k = "demo_user\<lparr>kfs := dot_fs\<rparr>"
  have "in_use 0 ?k pcb0" using demo_user_ok by (simp add: in_use_def std_out_def)
  moreover have n: "dir_names dot_fs = [ascii ''.'']"
    by (simp add: dir_names_def dir_entries_def dot_fs_def entry_abs_def entry_name_def cstr_pad_to)
  then have "test_dir (kfs ?k)"
    by (auto simp: test_dir_def find_from_def) (simp_all add: dot_fs_def dir_ok_def dentry_ok_def pad_to_def)
  ultimately show "ends_with (err_open demo_env ?k) 2 dot_fs \<and> ends_with (err_syscall_num demo_env run ?k) 0 dot_fs"
    using syserr_verdicts [of ?k pcb0 demo_env "[]" 0 run] by simp
qed

end
