(* ===== verification/Shell_Props.thy ===== *)
theory Shell_Props
  imports User_Props Keyboard_Props
begin

text \<open>
  The way of a command: from the keys, through the interrupts that arrive while the shell waits for its
  line, to the \<open>execute\<close> that the shell calls.
\<close>

section \<open>Keys while a read waits\<close>

text \<open>The keyboard interrupt, as the waiting read sees it: the handler's effect on the terminal.\<close>

definition key_irq :: "kb_locals \<Rightarrow> keys \<Rightarrow> kernel \<Rightarrow> u8 \<Rightarrow> tty \<Rightarrow> tty option" where
  "key_irq l q k code t = do {
     (_, _, k') \<leftarrow> keyboard_handler l code q (k\<lparr>ktty := t\<rparr>);
     Some (ktty k')
   }"

lemma detect_none: "list_all line_char pre \<Longrightarrow> keyboard_buffer t = pre @ replicate n 0 \<Longrightarrow> detect_enter_signal t = (0, t)"
proof -
  assume p: "list_all line_char pre" and kb: "keyboard_buffer t = pre @ replicate n 0"
  have "enter_search xs i = None" if "\<forall>c \<in> set xs. c \<noteq> 0x0A \<and> c \<noteq> 0x0D" for xs i
    using that by (induction xs arbitrary: i) auto
  moreover have "\<forall>c \<in> set (take KB_BUF_SIZE (pre @ replicate n 0)). c \<noteq> 0x0A \<and> c \<noteq> 0x0D"
    using p by (auto simp: list_all_iff line_char_def dest!: in_set_takeD)
  ultimately show ?thesis by (simp add: detect_enter_signal_def kb)
qed

lemma key_chars: "char_key code \<Longrightarrow> line_char (key_of q code)"
  using table_row_chars(6) [of "unat code" "shifted q" "caps q"] code_below [of code]
  by (auto simp: char_key_def typing_key_def line_char_def)

lemma read_waits_for_keys:
  assumes q: "keys_ok q" "cur_altk q = 0" "cur_ctrl q = 0"
  shows "list_all char_key codes \<Longrightarrow> line_inv t \<Longrightarrow> list_all line_char (typed t) \<Longrightarrow>
    keyboard_buffer t = typed t @ replicate (KB_BUF_SIZE - length (typed t)) 0 \<Longrightarrow>
    length (typed t) + length codes < 127 \<Longrightarrow>
    \<exists>t'. terminal_read_loop (map (key_irq l q k) (codes @ [0x1C])) buf r t = terminal_read_loop [] buf r t' \<and>
      line_buffered (keyboard_buffer t') (typed t @ map (key_of q) codes) [] \<and> same_turn t t' \<and>
      command_list t' = command_list t \<and> command_total t' = command_total t"
proof (induction codes arbitrary: t)
  case Nil
  obtain m t' where h: "keyboard_handler l 0x1C q (k\<lparr>ktty := t\<rparr>) =
        Some (Return 0, q\<lparr>kb_mode := m\<rparr>, kb_eoi (k\<lparr>ktty := t'\<rparr>))"
      "same_turn t t'" "keyboard_buffer t' = (keyboard_buffer t)[length (typed t) := 0x0A]"
      "command_list t' = command_list t" "command_total t' = command_total t"
    using enter_key_types [of "k\<lparr>ktty := t\<rparr>" q l] q Nil.prems(2) by auto
  have r: "KB_BUF_SIZE - length (typed t) = Suc (Suc (KB_BUF_SIZE - 2 - length (typed t)))" using Nil.prems(5) by simp
  have "line_buffered (keyboard_buffer t') (typed t) []"
    unfolding line_buffered_def h(3) Nil.prems(4) r using Nil.prems(3,5) by (auto simp: list_update_append)
  moreover have "key_irq l q k 0x1C t = Some t'" using h(1) by (simp add: key_irq_def)
  ultimately show ?case
    using h(2,4,5) detect_none [OF Nil.prems(3,4)] by (subst terminal_read_loop.simps) auto
next
  case (Cons code codes)
  have c: "char_key code" "list_all char_key codes" using Cons.prems(1) by simp_all
  obtain m t1 where h: "keyboard_handler l code q (k\<lparr>ktty := t\<rparr>) =
        Some (Return 0, q\<lparr>kb_mode := m\<rparr>, kb_eoi (k\<lparr>ktty := t1\<rparr>))"
      "line_inv t1" "same_turn t t1" "typed t1 = typed t @ [key_of q code]"
      "keyboard_buffer t1 = (keyboard_buffer t)[length (typed t) := key_of q code]"
      "command_list t1 = command_list t" "command_total t1 = command_total t"
    using char_key_types [OF c(1), of "k\<lparr>ktty := t\<rparr>" q l] q Cons.prems(2,5) by auto
  have r: "KB_BUF_SIZE - length (typed t) = Suc (KB_BUF_SIZE - length (typed t1))"
    using Cons.prems(5) unfolding h(4) by simp
  have kb: "keyboard_buffer t1 = typed t1 @ replicate (KB_BUF_SIZE - length (typed t1)) 0"
    unfolding h(5) Cons.prems(4) r by (simp add: list_update_append h(4))
  have ch: "list_all line_char (typed t1)" unfolding h(4) using Cons.prems(3) key_chars [OF c(1)] by simp
  have len: "length (typed t1) + length codes < 127" using Cons.prems(5) unfolding h(4) by simp
  obtain t2 where t2: "terminal_read_loop (map (key_irq l q k) (codes @ [0x1C])) buf r t1 = terminal_read_loop [] buf r t2"
      "line_buffered (keyboard_buffer t2) (typed t1 @ map (key_of q) codes) []" "same_turn t1 t2"
      "command_list t2 = command_list t1" "command_total t2 = command_total t1"
    using Cons.IH [OF c(2) h(2) ch kb len] by blast
  have "key_irq l q k code t = Some t1" using h(1) by (simp add: key_irq_def)
  then have "terminal_read_loop (map (key_irq l q k) ((code # codes) @ [0x1C])) buf r t = terminal_read_loop [] buf r t2"
    using t2(1) detect_none [OF Cons.prems(3,4)] by (subst terminal_read_loop.simps) simp
  then show ?case
    using t2(2,4,5) h(4,6,7) same_turn_trans [OF h(3) t2(3)] by (intro exI [of _ t2]) simp
qed

section \<open>From the keys to the program\<close>

lemma line_inv_shown:
  assumes "on_display t" "kb_buf_idx t = 0" "keyboard_buffer t = replicate KB_BUF_SIZE 0"
  shows "line_inv t" "typed t = []"
proof -
  have "console_inv t \<Longrightarrow> console_inv (map_display t)"
    by (simp add: console_inv_def video_mapped_def video_frame_def map_display_def video_entry_def)
  then show "line_inv t" "typed t = []" using assms by (simp_all add: line_inv_def on_display_def typed_def)
qed

text \<open>
  The prompt, and the keys of a line that arrive while the shell's read waits for them: in the end the
  read sees a terminal that holds the line.
\<close>

lemma shell_waits_for_keys:
  assumes out: "std_out k a"
    and clear: "kb_buf_idx (ktty k) = 0" "keyboard_buffer (ktty k) = replicate KB_BUF_SIZE 0"
    and turn: "cur_display_terminal_id (ktty k) = of_nat (Suc s)" "terminal_now (ktty k) = int s"
    and q: "keys_ok q" "cur_altk q = 0" "cur_ctrl q = 0"
    and codes: "list_all char_key codes" "length codes < 127"
    and irqs: "u_irqs e = map (key_irq l q k) (codes @ [0x1C])"
  obtains k0 t1 where "ece391_fdputs e 1 (c_string ''391OS> '') k = Some k0" "std_out k0 a" "kfs k0 = kfs k"
    "fds k0 a 0 = fds k a 0"
    "terminal_read (u_irqs e) (Some buf) 1023 (ktty k0) = terminal_read [] (Some buf) 1023 t1"
    "line_buffered (keyboard_buffer t1) (map (key_of q) codes) []"
    "cur_display_terminal_id t1 = of_nat (Suc s)" "terminal_now t1 = int s"
    "command_list t1 = command_list (ktty k)" "command_total t1 = command_total (ktty k)"
proof -
  obtain k0 where k0: "ece391_fdputs e 1 (c_string ''391OS> '') k = Some k0" "std_out k0 a" "kfs k0 = kfs k"
      "same_input (ktty k) (ktty k0)" "fds k0 a 0 = fds k a 0"
    by (rule shell_prompt [OF out])
  note same = k0(4) [unfolded same_input_def same_turn_def]
  have "on_display (ktty k0)" using k0(2) by (simp add: std_out_def)
  from line_inv_shown [OF this] same clear have li: "line_inv (ktty k0)" "typed (ktty k0) = []" by simp_all
  have kb0: "keyboard_buffer (ktty k0) = typed (ktty k0) @ replicate (KB_BUF_SIZE - length (typed (ktty k0))) 0"
    "list_all line_char (typed (ktty k0))" "length (typed (ktty k0)) + length codes < 127"
    using li(2) same clear(2) codes(2) by simp_all
  obtain t1 where t1: "terminal_read_loop (u_irqs e) buf 128 (ktty k0) = terminal_read_loop [] buf 128 t1"
      "line_buffered (keyboard_buffer t1) (map (key_of q) codes) []" "same_turn (ktty k0) t1"
      "command_list t1 = command_list (ktty k0)" "command_total t1 = command_total (ktty k0)"
    using read_waits_for_keys [OF q codes(1) li(1) kb0(2,1,3), of l k buf 128] unfolding irqs li(2) append_Nil by blast
  have "terminal_read (u_irqs e) (Some buf) 1023 (ktty k0) = terminal_read [] (Some buf) 1023 t1"
    using t1(1) by (simp add: terminal_read_def)
  from k0(1-3,5) this t1(2) show thesis
    by (rule that) (use t1(3-5) same turn in \<open>simp_all add: same_turn_def\<close>)
qed

text \<open>
  C13. What is typed at the prompt is what runs: the shell prints its prompt and waits; when the keys of a
  line and Enter arrive as keyboard interrupts, it leaves on \<open>exit\<close>, prompts again on an empty line,
  and otherwise calls \<open>execute\<close> with exactly the characters of the keys. That is so for a line of
  fewer than 50 characters while the terminal remembers fewer than 50 lines. With a longer line, which
  the keyboard buffer takes up to 126 characters, or a full history, the read stores the line
  behind the 50 rows of 50 bytes of \<open>command_list\<close>, and the model has no further step.
\<close>

theorem typed_command_is_executed:
  assumes out: "std_out k a"
    and std_in: "table_ptr (fds k a 0) = stdin_opt_table" "flg (fds k a 0) = FD_BUSY" "fd_inode (fds k a 0) \<noteq> -1"
    and clear: "kb_buf_idx (ktty k) = 0" "keyboard_buffer (ktty k) = replicate KB_BUF_SIZE 0"
    and turn: "cur_display_terminal_id (ktty k) = of_nat (Suc s)" "terminal_now (ktty k) = int s" "s < 3"
    and hist: "0 \<le> command_total (ktty k) s" "\<forall>i < 50. length (command_list (ktty k) s i) = 50"
    and q: "keys_ok q" "cur_altk q = 0" "cur_ctrl q = 0"
    and codes: "list_all char_key codes" "length codes < 127"
    and irqs: "u_irqs e = map (key_irq l q k) (codes @ [0x1C])" and buf: "length buf = 1024"
    and line: "line = map (key_of q) codes"
  shows "if length codes < 50 \<and> command_total (ktty k) s < 50
    then \<exists>b k1. nul_terminated b \<and> cstr b = line \<and> kfs k1 = kfs k \<and>
      keyboard_buffer (ktty k1) = replicate KB_BUF_SIZE 0 \<and>
      shell_turn e buf k =
        (if line = ascii ''exit'' then Some (Returns (Leaves 0 k1))
         else if line = [] then Some (Returns (Prompts k1))
         else map_option (\<lambda>(c, k2). Returns (Calls b c k2)) (execute (u_exec e) b k1))
    else shell_turn e buf k = None"
proof -
  obtain k0 t1 where k0: "ece391_fdputs e 1 (c_string ''391OS> '') k = Some k0" "std_out k0 a" "kfs k0 = kfs k"
      "fds k0 a 0 = fds k a 0"
    and rd: "terminal_read (u_irqs e) (Some buf) 1023 (ktty k0) = terminal_read [] (Some buf) 1023 t1"
    and t1: "line_buffered (keyboard_buffer t1) line []" "cur_display_terminal_id t1 = of_nat (Suc s)" "terminal_now t1 = int s"
      "command_list t1 = command_list (ktty k)" "command_total t1 = command_total (ktty k)"
    unfolding line by (rule shell_waits_for_keys [OF out clear turn(1,2) q codes irqs, of buf])
  show ?thesis
  proof (cases "length codes < 50 \<and> command_total (ktty k) s < 50")
    case True
    have n: "0 \<le> (1023 :: int)" "(1023 :: int) < 2 ^ 31" "Suc (length line) = min (nat 1023) (Suc (length line))"
      "Suc (length line) \<le> length buf"
      using True buf line by simp_all
    have tk: "take (Suc (length line)) (line @ [of_char CHR 0x0A]) = line @ [0x0A]" by simp
    have "nat (command_total (ktty k) s) < 50" using True hist(1) by linarith
    then have t: "0 \<le> command_total t1 s" "command_total t1 s < 50"
      "length (command_list t1 s (nat (command_total t1 s))) = 50" "length line + length ([] :: u8 list) < 50"
      using t1(4,5) hist True line by simp_all
    obtain t2 where t2: "terminal_read [] (Some buf) 1023 t1 = Some (Returns (int (Suc (length line)),
          Some ((line @ [0x0A]) @ drop (Suc (length line)) buf), t2))" "keyboard_buffer t2 = replicate KB_BUF_SIZE 0"
      using terminal_read_eq [OF t1(1-3) turn(3) t n, of "[]", unfolded tk] by blast
    have nz: "0 \<notin> set line" using t1(1) by (auto simp: line_buffered_def list_all_iff line_char_def)
    have rd2: "terminal_read (u_irqs e) (Some buf) 1023 (ktty k0) = Some (Returns (int (Suc (length line)),
          Some (line @ 0x0A # drop (Suc (length line)) buf), t2))"
      using rd t2(1) by simp
    note turns = shell_turn_line [OF k0(1,2) _ _ _ rd2 nz, unfolded k0(4), OF std_in]
    show ?thesis
      unfolding if_P [OF True] using turns k0(3) t2(2)
      by (intro exI [of _ "line @ 0 # drop (Suc (length line)) buf"] exI [of _ "k0\<lparr>ktty := t2\<rparr>"] conjI) simp_all
  next
    case False
    have "terminal_read [] (Some buf) 1023 t1 = None"
      using False hist(2) t1(4,5) line by (intro terminal_read_overflow [OF t1(1) _ _ t1(2,3) turn(3)]) auto
    with rd have "terminal_read (u_irqs e) (Some buf) 1023 (ktty k0) = None" by simp
    note shell_turn_faults [OF k0(1,2) _ _ _ this, unfolded k0(4), OF std_in]
    then show ?thesis unfolding if_not_P [OF False] .
  qed
qed

theorem typed_command_is_executed_witness:
  "\<forall>l. \<exists>b k1. cstr b = ascii ''ls'' \<and>
     shell_turn (demo_env\<lparr>u_irqs := map (key_irq l demo_keys demo_user) [0x26, 0x1F, 0x1C]\<rparr>) (replicate 1024 0) demo_user =
       map_option (\<lambda>(c, k2). Returns (Calls b c k2)) (execute demo_locals b k1)"
proof
  fix l
  let ?e = "demo_env\<lparr>u_irqs := map (key_irq l demo_keys demo_user) ([0x26, 0x1F] @ [0x1C])\<rparr>"
  have "kb_buf_idx demo_tty = 0"
    "keyboard_buffer demo_tty = replicate 128 0" "cur_display_terminal_id demo_tty = of_nat (Suc 0)" "terminal_now demo_tty = 0"
    "command_total demo_tty 0 = 0" "\<forall>i < 50. length (command_list demo_tty 0 i) = 50"
    by (simp_all add: demo_tty_def)
  with typed_command_is_executed [OF demo_user_ok(2), where s = 0 and q = demo_keys and codes = "[0x26, 0x1F]" and l = l
      and e = ?e and buf = "replicate 1024 0" and line = "ascii ''ls''"] demo_char_keys
  show "\<exists>b k1. cstr b = ascii ''ls'' \<and>
     shell_turn (demo_env\<lparr>u_irqs := map (key_irq l demo_keys demo_user) [0x26, 0x1F, 0x1C]\<rparr>) (replicate 1024 0) demo_user =
       map_option (\<lambda>(c, k2). Returns (Calls b c k2)) (execute demo_locals b k1)"
    by (auto simp: demo_env_def)
qed

end
