(* ===== verification/Fish.thy ===== *)
theory Fish
  imports User_Syserr
begin

text \<open>
  The animation of \<open>fish\<close>: \<open>fish.c\<close> and the routines of \<open>blink.S\<close> it calls. Characters that blink on the
  screen are nodes of a linked list; the nodes are the elements of \<open>blink_array\<close>, and a node is free when
  its location is 0. A pointer to a node is its index, with \<open>None\<close> for \<open>NULL\<close>. The program draws through
  the window on the video memory that \<open>vidmap\<close> gave it.
\<close>

section \<open>The memory of the program\<close>

abbreviation "BLINKS \<equiv> 2000 :: nat" \<comment> \<open>\<open>80*25\<close>\<close>

record blink =
  location :: u16
  on_char :: u8
  off_char :: u8
  on_length :: u16
  off_length :: u16
  countdown :: u16
  status :: u16
  blink_next :: "nat option"

record fish =
  blink_array :: "nat \<Rightarrow> blink"
  mp1_list_head :: "nat option"
  vmem_base_addr :: u32

definition zero_blink :: blink where
  "zero_blink = \<lparr>location = 0, on_char = 0, off_char = 0, on_length = 0, off_length = 0, countdown = 0,
     status = 0, blink_next = None\<rparr>"

fun ece391_memset :: "u8 list \<Rightarrow> u8 \<Rightarrow> nat \<Rightarrow> u8 list option" where
  "ece391_memset mem c 0 = Some mem"
| "ece391_memset (_ # mem) c (Suc n) = map_option (Cons c) (ece391_memset mem c n)"
| "ece391_memset [] c (Suc n) = None"

fun ece391_memcpy :: "u8 list \<Rightarrow> u8 list \<Rightarrow> nat \<Rightarrow> (int \<times> u8 list) option" where
  "ece391_memcpy d s 0 = Some (0, d)"
| "ece391_memcpy (_ # d) (c # s) (Suc n) = do { (r, d) \<leftarrow> ece391_memcpy d s n; Some (r, c # d) }"
| "ece391_memcpy _ _ (Suc n) = None"

text \<open>
  The 16 bytes of the packed structure, with \<open>adr\<close> the address of a node. On whole structures \<open>memset\<close>
  with 0 and \<open>memcpy\<close> are \<open>zero_blink\<close> and assignment.
\<close>

definition bytes_of_u16 :: "u16 \<Rightarrow> u8 list" where
  "bytes_of_u16 w = [ucast w, ucast (drop_bit 8 w)]"

definition blink_bytes :: "(nat \<Rightarrow> u32) \<Rightarrow> blink \<Rightarrow> u8 list" where
  "blink_bytes adr b = bytes_of_u16 (location b) @ [on_char b, off_char b] @ bytes_of_u16 (on_length b) @
     bytes_of_u16 (off_length b) @ bytes_of_u16 (countdown b) @ bytes_of_u16 (status b) @
     bytes_of_u32 (case blink_next b of None \<Rightarrow> 0 | Some i \<Rightarrow> adr i)"

lemma length_blink_bytes [simp]: "length (blink_bytes adr b) = 16"
  by (simp add: blink_bytes_def bytes_of_u16_def bytes_of_u32_def)

lemma ece391_memset_eq: "n \<le> length mem \<Longrightarrow> ece391_memset mem c n = Some (replicate n c @ drop n mem)"
  by (induction mem c n rule: ece391_memset.induct) simp_all

lemma ece391_memcpy_eq:
  "n \<le> length d \<Longrightarrow> n \<le> length s \<Longrightarrow> ece391_memcpy d s n = Some (0, take n s @ drop n d)"
  by (induction d s n rule: ece391_memcpy.induct) simp_all

lemma memset_blink: "ece391_memset (blink_bytes adr b) 0 16 = Some (blink_bytes adr zero_blink)"
proof -
  have "blink_bytes adr zero_blink = replicate 16 0"
    by (simp add: blink_bytes_def zero_blink_def bytes_of_u16_def bytes_of_u32_def numeral_eq_Suc)
  then show ?thesis by (simp add: ece391_memset_eq)
qed

lemma memcpy_blink: "ece391_memcpy (blink_bytes adr d) (blink_bytes adr s) 16 = Some (0, blink_bytes adr s)"
  by (simp add: ece391_memcpy_eq)

section \<open>The window on the video memory\<close>

text \<open>
  A store by the program goes through the page tables, whose addresses are \<open>pg\<close>: the physical page is
  one of the video pages, or the model does not follow it.
\<close>

definition user_store :: "u32 \<times> u32 \<Rightarrow> u32 \<Rightarrow> u8 \<Rightarrow> tty \<Rightarrow> tty option" where
  "user_store pg va c t = do {
     (pa, user) \<leftarrow> translate (fst pg) (snd pg) t va;
     require (user \<and> VIDEO_MEM_BASE \<le> pa \<and> pa < VIDEO_MEM_BASE + 0x4000);
     (let off = unat (pa - VIDEO_MEM_BASE); p = off div PG_SIZE_4KB in
      Some (t\<lparr>vram := (vram t)(p := (vram t p)(off mod PG_SIZE_4KB := c))\<rparr>))
   }"

definition mp1_poke :: "u32 \<times> u32 \<Rightarrow> u8 \<Rightarrow> u32 \<Rightarrow> fish \<Rightarrow> tty \<Rightarrow> tty option" where
  "mp1_poke pg cl eax f t = user_store pg (vmem_base_addr f + eax) cl t"

text \<open>\<open>start\<close> is the address of the variable \<open>vmem_base_addr\<close>. \<open>None\<close> is the result \<open>NULL\<close>.\<close>

definition mp1_set_video_mode :: "u32 \<Rightarrow> u32 \<Rightarrow> fish \<Rightarrow> tty \<Rightarrow> u32 option \<times> fish \<times> tty" where
  "mp1_set_video_mode vidpage start f t =
     (case vidmap vidpage start t of (r, adr, t) \<Rightarrow>
        let f = (case adr of None \<Rightarrow> f | Some a \<Rightarrow> f\<lparr>vmem_base_addr := a\<rparr>) in
        (if r = -1 then None else Some (vmem_base_addr f), f, t))"

section \<open>Allocating and freeing nodes\<close>

function malloc_loop :: "(nat \<Rightarrow> blink) \<Rightarrow> nat \<Rightarrow> nat option" where
  "malloc_loop a i =
     (if i < BLINKS then if location (a i) = 0 then Some i else malloc_loop a (Suc i) else None)"
  by pat_completeness auto
termination by (relation "measure (\<lambda>(a, i). BLINKS - i)") auto

declare malloc_loop.simps [simp del]

definition mp1_malloc :: "fish \<Rightarrow> nat option" where
  "mp1_malloc f = malloc_loop (blink_array f) 0"

definition put_blink :: "nat \<Rightarrow> blink \<Rightarrow> fish \<Rightarrow> fish option" where
  "put_blink i b f = do { a \<leftarrow> arr_put BLINKS (blink_array f) i b; Some (f\<lparr>blink_array := a\<rparr>) }"

definition mp1_free :: "nat \<Rightarrow> fish \<Rightarrow> fish option" where
  "mp1_free i f = put_blink i zero_blink f"

section \<open>The list of blinking characters\<close>

partial_function (option) find_loop :: "(nat \<Rightarrow> blink) \<Rightarrow> u16 \<Rightarrow> nat option \<Rightarrow> nat option option" where
  "find_loop a ax p =
     (case p of
        None \<Rightarrow> Some None
      | Some i \<Rightarrow> do {
          b \<leftarrow> arr_get BLINKS a i;
          (if location b = ax then Some (Some i) else find_loop a ax (blink_next b))
        })"

definition mp1_find_helper :: "u16 \<Rightarrow> fish \<Rightarrow> nat option option" where
  "mp1_find_helper ax f = find_loop (blink_array f) ax (mp1_list_head f)"

text \<open>The video offset of a node: the location, extended with zeros, times two.\<close>

definition video_offset :: "blink \<Rightarrow> u32" where
  "video_offset b = push_bit 1 (ucast (location b))"

text \<open>\<open>arg\<close> is the structure that the caller points to.\<close>

definition mp1_ioctl_add :: "u32 \<times> u32 \<Rightarrow> blink \<Rightarrow> fish \<Rightarrow> tty \<Rightarrow> (int \<times> fish \<times> tty) option" where
  "mp1_ioctl_add pg arg f t =
     (if location arg \<ge> 80 * 25 then Some (-1, f, t)
      else
        let b = arg\<lparr>status := 1, countdown := on_length arg\<rparr> in
        (case mp1_malloc f of
           None \<Rightarrow> Some (-1, f, t)
         | Some i \<Rightarrow> do {
             f \<leftarrow> put_blink i (b\<lparr>blink_next := mp1_list_head f\<rparr>) f;
             f \<leftarrow> Some (f\<lparr>mp1_list_head := Some i\<rparr>);
             t \<leftarrow> mp1_poke pg (on_char b) (video_offset b) f t;
             Some (0, f, t)
           }))"

text \<open>
  The search for the pointer that points to the node: \<open>None\<close> is the head of the list, \<open>Some i\<close> the
  field \<open>next\<close> of node \<open>i\<close>.
\<close>

definition load_link :: "fish \<Rightarrow> nat option \<Rightarrow> nat option option" where
  "load_link f edx =
     (case edx of
        None \<Rightarrow> Some (mp1_list_head f)
      | Some i \<Rightarrow> map_option blink_next (arr_get BLINKS (blink_array f) i))"

definition store_link :: "nat option \<Rightarrow> nat option \<Rightarrow> fish \<Rightarrow> fish option" where
  "store_link edx p f =
     (case edx of
        None \<Rightarrow> Some (f\<lparr>mp1_list_head := p\<rparr>)
      | Some i \<Rightarrow> do { b \<leftarrow> arr_get BLINKS (blink_array f) i; put_blink i (b\<lparr>blink_next := p\<rparr>) f })"

partial_function (option) remove_find_prev :: "fish \<Rightarrow> nat \<Rightarrow> nat option \<Rightarrow> nat option option" where
  "remove_find_prev f eax edx = do {
     v \<leftarrow> load_link f edx;
     (case v of
        None \<Rightarrow> None
      | Some i \<Rightarrow> if i = eax then Some edx else remove_find_prev f eax (Some i))
   }"

definition mp1_ioctl_remove :: "u32 \<Rightarrow> fish \<Rightarrow> (int \<times> fish) option" where
  "mp1_ioctl_remove arg f = do {
     p \<leftarrow> mp1_find_helper (ucast arg) f;
     (case p of
        None \<Rightarrow> Some (-1, f)
      | Some i \<Rightarrow> do {
          edx \<leftarrow> remove_find_prev f i None;
          b \<leftarrow> arr_get BLINKS (blink_array f) i;
          f \<leftarrow> store_link edx (blink_next b) f;
          f \<leftarrow> mp1_free i f;
          Some (0, f)
        })
   }"

text \<open>\<open>arg\<close> is the caller's structure before, the result the one after the call.\<close>

definition mp1_ioctl_find :: "blink \<Rightarrow> fish \<Rightarrow> (int \<times> blink) option" where
  "mp1_ioctl_find arg f = do {
     p \<leftarrow> mp1_find_helper (location arg) f;
     (case p of
        None \<Rightarrow> Some (-1, arg)
      | Some i \<Rightarrow> do { b \<leftarrow> arr_get BLINKS (blink_array f) i; Some (0, b) })
   }"

text \<open>
  After \<open>testb $1\<close> the sign flag is bit 7 of the conjunction and the overflow flag is clear; \<open>cmovl\<close>
  moves when they differ.
\<close>

definition test_less :: "u8 \<Rightarrow> bool" where
  "test_less v = bit (v AND 1) 7"

definition mp1_ioctl_sync :: "u32 \<times> u32 \<Rightarrow> u32 \<Rightarrow> fish \<Rightarrow> tty \<Rightarrow> (int \<times> fish \<times> tty) option" where
  "mp1_ioctl_sync pg arg f t = do {
     p \<leftarrow> mp1_find_helper (ucast (drop_bit 16 arg)) f;
     (case p of
        None \<Rightarrow> Some (-1, f, t)
      | Some esi \<Rightarrow> do {
          q \<leftarrow> mp1_find_helper (ucast (arg AND 0xFFFF)) f;
          (case q of
             None \<Rightarrow> Some (-1, f, t)
           | Some edi \<Rightarrow> do {
               s \<leftarrow> arr_get BLINKS (blink_array f) esi;
               d \<leftarrow> arr_get BLINKS (blink_array f) edi;
               d \<leftarrow> Some (d\<lparr>on_length := on_length s, off_length := off_length s, countdown := countdown s,
                       status := status s\<rparr>);
               f \<leftarrow> put_blink edi d f;
               t \<leftarrow> mp1_poke pg (if test_less (ucast (status d)) then on_char d else off_char d) (video_offset d) f t;
               Some (0, f, t)
             })
        })
   }"

text \<open>The jump through \<open>call_table\<close>; beyond its four entries there is no routine.\<close>

datatype ioctl_arg = Address blink | Number u32

definition mp1_ioctl :: "u32 \<times> u32 \<Rightarrow> ioctl_arg \<Rightarrow> u32 \<Rightarrow> fish \<Rightarrow> tty \<Rightarrow> (int \<times> ioctl_arg \<times> fish \<times> tty) option" where
  "mp1_ioctl pg arg cmd f t =
     (case arg of
        Address b \<Rightarrow>
          if cmd = 0 then do { (r, f, t) \<leftarrow> mp1_ioctl_add pg b f t; Some (r, arg, f, t) }
          else if cmd = 2 then do { (r, b) \<leftarrow> mp1_ioctl_find b f; Some (r, Address b, f, t) }
          else None
      | Number n \<Rightarrow>
          if cmd = 1 then do { (r, f) \<leftarrow> mp1_ioctl_remove n f; Some (r, arg, f, t) }
          else if cmd = 3 then do { (r, f, t) \<leftarrow> mp1_ioctl_sync pg n f t; Some (r, arg, f, t) }
          else None)"

section \<open>The tick of the clock\<close>

text \<open>One node: the countdown, which is compared as a signed number, and the change of the character.\<close>

definition tick_node :: "u32 \<times> u32 \<Rightarrow> blink \<Rightarrow> fish \<Rightarrow> tty \<Rightarrow> (blink \<times> tty) option" where
  "tick_node pg b f t =
     (let b = b\<lparr>countdown := countdown b - 1\<rparr> in
      if 0 < sint (countdown b) then Some (b, t)
      else do {
        t \<leftarrow> mp1_poke pg (if status b AND 1 = 0 then on_char b else off_char b) (video_offset b) f t;
        Some (b\<lparr>countdown := if status b AND 1 = 0 then on_length b else off_length b,
                status := status b XOR 1\<rparr>, t)
      })"

partial_function (option) tasklet_loop :: "u32 \<times> u32 \<Rightarrow> nat option \<Rightarrow> fish \<Rightarrow> tty \<Rightarrow> (fish \<times> tty) option" where
  "tasklet_loop pg p f t =
     (case p of
        None \<Rightarrow> Some (f, t)
      | Some i \<Rightarrow> do {
          b \<leftarrow> arr_get BLINKS (blink_array f) i;
          (b, t) \<leftarrow> tick_node pg b f t;
          f \<leftarrow> put_blink i b f;
          tasklet_loop pg (blink_next b) f t
        })"

definition mp1_rtc_tasklet :: "u32 \<times> u32 \<Rightarrow> fish \<Rightarrow> tty \<Rightarrow> (fish \<times> tty) option" where
  "mp1_rtc_tasklet pg f t = tasklet_loop pg (mp1_list_head f) f t"

section \<open>The frames\<close>

lemma and_then_mono [partial_function_mono]:
  assumes "mono_option m" "\<And>x. mono_option (\<lambda>f. g x f)"
  shows "mono_option (\<lambda>f. and_then (m f) (\<lambda>x. g x f))"
proof -
  have e: "and_then m g = Option.bind m (\<lambda>w. case w of Waits \<Rightarrow> Some Waits | Returns x \<Rightarrow> g x)" for m :: "'x waiting option" and g :: "'x \<Rightarrow> 'y waiting option"
    by (auto simp: and_then_def split: option.splits waiting.splits)
  have "mono_option (\<lambda>f. case w of Waits \<Rightarrow> Some Waits | Returns x \<Rightarrow> g x f)" for w
    using assms(2) by (cases w) (simp_all add: option.const_mono)
  then show ?thesis unfolding e by (intro bind_mono assms(1))
qed

text \<open>The next character of a frame file, unless its line has ended.\<close>

definition next_char :: "user_env \<Rightarrow> int \<Rightarrow> u8 \<Rightarrow> bool \<Rightarrow> kernel \<Rightarrow> (u8 \<times> bool \<times> kernel) waiting option" where
  "next_char e fd c eof k =
     (if c \<noteq> 0x0A then
        and_then (ece391_read e fd [c] 1 k) (\<lambda>(num_bytes, buf, k). do {
          buf \<leftarrow> buf;
          c \<leftarrow> buf_get buf 0;
          Some (Returns (if num_bytes = 0 then (0x0A, True, k) else (c, eof, k)))
        })
      else Some (Returns (c, eof, k)))"

record frame_env = user_env +
  f_tables :: "u32 \<times> u32"
  f_start :: u32
  f_blink :: blink    \<comment> \<open>the uninitialised local structure\<close>
  f_garbage :: "u8 list"

definition blink_at :: "frame_env \<Rightarrow> int \<Rightarrow> int \<Rightarrow> u8 \<Rightarrow> u8 \<Rightarrow> blink" where
  "blink_at e row col c0 c1 = (f_blink e)\<lparr>on_length := 15, off_length := 15,
     on_char := if c0 = 0x0A then 0x20 else c0, off_char := if c1 = 0x0A then 0x20 else c1,
     location := word_of_int (row * 80 + col + 40)\<rparr>"

definition show_pair :: "frame_env \<Rightarrow> int \<Rightarrow> int \<Rightarrow> u8 \<Rightarrow> u8 \<Rightarrow> fish \<Rightarrow> kernel \<Rightarrow> (fish \<times> kernel) option" where
  "show_pair e row col c0 c1 f k =
     (if c0 \<noteq> 0x20 \<and> c0 \<noteq> 0x0A \<or> c1 \<noteq> 0x20 \<and> c1 \<noteq> 0x0A then do {
        (_, _, f, t) \<leftarrow> mp1_ioctl (f_tables e) (Address (blink_at e row col c0 c1)) 0 f (ktty k);
        Some (f, k\<lparr>ktty := t\<rparr>)
      } else Some (f, k))"

text \<open>A row of both frames, up to the end of the longer line.\<close>

partial_function (option) frame_row ::
    "frame_env \<Rightarrow> int \<Rightarrow> int \<Rightarrow> int \<Rightarrow> int \<Rightarrow> u8 \<Rightarrow> u8 \<Rightarrow> bool \<Rightarrow> bool \<Rightarrow> fish \<Rightarrow> kernel
     \<Rightarrow> (bool \<times> bool \<times> fish \<times> kernel) waiting option" where
  "frame_row e fd0 fd1 row col c0 c1 eof0 eof1 f k =
     and_then (next_char (user_env.truncate e) fd0 c0 eof0 k) (\<lambda>(c0, eof0, k).
     and_then (next_char (user_env.truncate e) fd1 c1 eof1 k) (\<lambda>(c1, eof1, k).
       if c0 = 0x0A \<and> c1 = 0x0A then Some (Returns (eof0, eof1, f, k))
       else do {
         (f, k) \<leftarrow> show_pair e row col c0 c1 f k;
         frame_row e fd0 fd1 row (col + 1) c0 c1 eof0 eof1 f k
       }))"

definition end_row :: "int \<Rightarrow> bool \<Rightarrow> kernel \<Rightarrow> (u8 \<times> kernel) option" where
  "end_row fd eof k =
     (if eof then do { (_, k) \<leftarrow> sys_close fd k; Some (0x0A, k) } else Some (of_char CHR ''0'', k))"

partial_function (option) frame_rows ::
    "frame_env \<Rightarrow> int \<Rightarrow> int \<Rightarrow> int \<Rightarrow> u8 \<Rightarrow> u8 \<Rightarrow> bool \<Rightarrow> bool \<Rightarrow> fish \<Rightarrow> kernel
     \<Rightarrow> (fish \<times> kernel) waiting option" where
  "frame_rows e fd0 fd1 row c0 c1 eof0 eof1 f k =
     (if \<not> eof0 \<or> \<not> eof1 then
        and_then (frame_row e fd0 fd1 row 0 c0 c1 eof0 eof1 f k) (\<lambda>(eof0, eof1, f, k). do {
          (c0, k) \<leftarrow> end_row fd0 eof0 k;
          (c1, k) \<leftarrow> end_row fd1 eof1 k;
          frame_rows e fd0 fd1 (row + 1) c0 c1 eof0 eof1 f k
        })
      else Some (Returns (f, k)))"

text \<open>A frame that cannot be opened ends the program.\<close>

datatype frames_result = Halts int kernel | Filled fish kernel

definition add_frames :: "frame_env \<Rightarrow> u8 list \<Rightarrow> u8 list \<Rightarrow> fish \<Rightarrow> kernel \<Rightarrow> frames_result waiting option" where
  "add_frames e f0 f1 f k = do {
     (fd0, k) \<leftarrow> ece391_open (user_env.truncate e) f0 k;
     (if fd0 < 0 then Some (Returns (Halts (-1) k))
      else do {
        (fd1, k) \<leftarrow> ece391_open (user_env.truncate e) f1 k;
        (if fd1 < 0 then Some (Returns (Halts (-1) k))
         else and_then (frame_rows e fd0 fd1 0 (of_char CHR ''0'') (of_char CHR ''0'') False False f k)
                (\<lambda>(f, k). Some (Returns (Filled f k))))
      })
   }"

section \<open>The program\<close>

fun wait_ticks :: "frame_env \<Rightarrow> nat \<Rightarrow> int \<Rightarrow> fish \<Rightarrow> kernel \<Rightarrow> (fish \<times> kernel) waiting option" where
  "wait_ticks e 0 rtc_fd f k = Some (Returns (f, k))"
| "wait_ticks e (Suc n) rtc_fd f k =
     and_then (ece391_read (user_env.truncate e) rtc_fd (f_garbage e) 4 k) (\<lambda>(_, _, k). do {
       (f, t) \<leftarrow> mp1_rtc_tasklet (f_tables e) f (ktty k);
       wait_ticks e n rtc_fd f (k\<lparr>ktty := t\<rparr>)
     })"

definition fish_ioctl :: "frame_env \<Rightarrow> ioctl_arg \<Rightarrow> u32 \<Rightarrow> fish \<Rightarrow> kernel \<Rightarrow> (fish \<times> kernel) option" where
  "fish_ioctl e arg cmd f k = do {
     (_, _, f, t) \<leftarrow> mp1_ioctl (f_tables e) arg cmd f (ktty k);
     Some (f, k\<lparr>ktty := t\<rparr>)
   }"

text \<open>What the program does with the clock once the frames are on the screen.\<close>

definition fish_show :: "frame_env \<Rightarrow> int \<Rightarrow> fish \<Rightarrow> kernel \<Rightarrow> program_result" where
  "fish_show e rtc_fd f k = do {
     (_, k) \<leftarrow> ece391_write (user_env.truncate e) rtc_fd (bytes_of_u32 32) 4 k;
     and_then (wait_ticks e 100 rtc_fd f k) (\<lambda>(f, k). do {
       (f, k) \<leftarrow> fish_ioctl e (Address ((f_blink e)\<lparr>on_char := of_char CHR ''I'', off_char := of_char CHR ''M'',
                  on_length := 7, off_length := 6, location := 6 * 80 + 60\<rparr>)) 0 f k;
       and_then (wait_ticks e 100 rtc_fd f k) (\<lambda>(f, k). do {
         (f, k) \<leftarrow> fish_ioctl e (Number (push_bit 16 40 OR (6 * 80 + 60))) 3 f k;
         and_then (wait_ticks e 100 rtc_fd f k) (\<lambda>(f, k). do {
           (f, k) \<leftarrow> fish_ioctl e (Number (6 * 80 + 60)) 1 f k;
           and_then (wait_ticks e 100 rtc_fd f k) (\<lambda>(f, k). do {
             (_, k) \<leftarrow> sys_close rtc_fd k;
             Some (Returns (0, k))
           })
         })
       })
     })
   }"

definition fish_main :: "frame_env \<Rightarrow> fish \<Rightarrow> kernel \<Rightarrow> program_result" where
  "fish_main e f k =
     (let f = f\<lparr>blink_array := (\<lambda>i. if i < BLINKS then zero_blink else blink_array f i)\<rparr>;
          (base, f, t) = mp1_set_video_mode (snd (f_tables e)) (f_start e) f (ktty k) in
      if base = None then Some (Returns (-1, k\<lparr>ktty := t\<rparr>))
      else do {
        (rtc_fd, k) \<leftarrow> ece391_open (user_env.truncate e) (c_string ''rtc'') (k\<lparr>ktty := t\<rparr>);
        and_then (add_frames e (c_string ''frame0.txt'') (c_string ''frame1.txt'') f k) (\<lambda>r.
          case r of
            Halts s k \<Rightarrow> Some (Returns (s, k))
          | Filled f k \<Rightarrow> fish_show e rtc_fd f k)
      })"

end
