(* ===== verification/Fish_List.thy ===== *)
theory Fish_List
  imports Fish User_Props
begin

text \<open>
  The list of blinking characters. \<open>path\<close> follows the pointers; under \<open>nodes_ok\<close> the nodes in use are
  exactly the nodes of the list, and each operation of \<open>blink.S\<close> is an operation on the list of their
  contents, with a known effect on the screen.
\<close>

section \<open>Following the pointers\<close>

fun path :: "(nat \<Rightarrow> blink) \<Rightarrow> nat option \<Rightarrow> nat list \<Rightarrow> nat option \<Rightarrow> bool" where
  "path a p [] q = (p = q)"
| "path a p (i # xs) q = (p = Some i \<and> path a (blink_next (a i)) xs q)"

lemma path_append: "path a p (xs @ ys) r \<longleftrightarrow> (\<exists>q. path a p xs q \<and> path a q ys r)"
  by (induction xs arbitrary: p) auto

lemma path_upd [simp]: "i \<notin> set xs \<Longrightarrow> path (a(i := b)) p xs q = path a p xs q"
  by (induction xs arbitrary: p) auto

lemma path_same_next: "\<forall>i \<in> set xs. blink_next (b i) = blink_next (a i) \<Longrightarrow> path b p xs q = path a p xs q"
  by (induction xs arbitrary: p) auto

definition nodes_ok :: "fish \<Rightarrow> nat list \<Rightarrow> bool" where
  "nodes_ok f xs \<longleftrightarrow> path (blink_array f) (mp1_list_head f) xs None \<and> distinct xs \<and>
     set xs = {i. i < BLINKS \<and> location (blink_array f i) \<noteq> 0} \<and>
     (\<forall>i \<in> set xs. location (blink_array f i) < 80 * 25)"

definition node_content :: "blink \<Rightarrow> blink" where
  "node_content b = b\<lparr>blink_next := None\<rparr>"

lemma node_content_sel [simp]:
  "location (node_content b) = location b" "on_char (node_content b) = on_char b"
  "off_char (node_content b) = off_char b" "on_length (node_content b) = on_length b"
  "off_length (node_content b) = off_length b" "countdown (node_content b) = countdown b"
  "status (node_content b) = status b" "blink_next (node_content b) = None"
  "node_content (b\<lparr>blink_next := p\<rparr>) = node_content b"
  by (simp_all add: node_content_def)

definition contents :: "fish \<Rightarrow> nat list \<Rightarrow> blink list" where
  "contents f xs = map (\<lambda>i. node_content (blink_array f i)) xs"

definition blink_list :: "fish \<Rightarrow> blink list \<Rightarrow> bool" where
  "blink_list f bs \<longleftrightarrow> (\<exists>xs. nodes_ok f xs \<and> bs = contents f xs)"

lemma nodes_bound: "nodes_ok f xs \<Longrightarrow> i \<in> set xs \<Longrightarrow> i < BLINKS"
  by (auto simp: nodes_ok_def)

lemma nodes_okD:
  assumes "nodes_ok f xs"
  shows "path (blink_array f) (mp1_list_head f) xs None" "distinct xs" "\<forall>i \<in> set xs. i < BLINKS"
    "\<And>i. i < BLINKS \<Longrightarrow> i \<in> set xs \<longleftrightarrow> location (blink_array f i) \<noteq> 0"
    "\<forall>i \<in> set xs. location (blink_array f i) < 80 * 25"
  using assms unfolding nodes_ok_def by blast+

lemma nodes_okI:
  assumes "path (blink_array f) (mp1_list_head f) xs None" "distinct xs" "\<forall>i \<in> set xs. i < BLINKS"
    "\<And>i. i < BLINKS \<Longrightarrow> i \<in> set xs \<longleftrightarrow> location (blink_array f i) \<noteq> 0"
    "\<forall>i \<in> set xs. location (blink_array f i) < 80 * 25"
  shows "nodes_ok f xs"
  using assms unfolding nodes_ok_def by blast

lemma put_blink_in: "i < BLINKS \<Longrightarrow> put_blink i b f = Some (f\<lparr>blink_array := (blink_array f)(i := b)\<rparr>)"
  by (simp add: put_blink_def arr_put_def)

section \<open>Free nodes\<close>

lemma malloc_loop_spec:
  "i \<le> BLINKS \<Longrightarrow>
   (case malloc_loop a i of
      None \<Rightarrow> \<forall>j. i \<le> j \<longrightarrow> j < BLINKS \<longrightarrow> location (a j) \<noteq> 0
    | Some k \<Rightarrow> i \<le> k \<and> k < BLINKS \<and> location (a k) = 0 \<and> (\<forall>j. i \<le> j \<longrightarrow> j < k \<longrightarrow> location (a j) \<noteq> 0))"
proof (induction a i rule: malloc_loop.induct)
  case (1 a i)
  have s: "j = i \<or> Suc i \<le> j" if "i \<le> j" for j using that by auto
  show ?case
  proof (cases "i < BLINKS \<and> location (a i) \<noteq> 0")
    case True
    then have "malloc_loop a i = malloc_loop a (Suc i)" by (subst malloc_loop.simps) simp
    then show ?thesis using 1 True s by (fastforce split: option.splits)
  next
    case False
    then show ?thesis using 1(2) by (subst malloc_loop.simps) auto
  qed
qed

interpretation blink_slots: first_free mp1_malloc "\<lambda>f i. location (blink_array f i) \<noteq> 0" 0 BLINKS
proof
  fix f :: fish and i j
  note spec = malloc_loop_spec [of 0 "blink_array f"]
  show "mp1_malloc f = Some i \<Longrightarrow> 0 \<le> i \<and> i < BLINKS \<and> \<not> location (blink_array f i) \<noteq> 0 \<and>
      (\<forall>j. 0 \<le> j \<longrightarrow> j < i \<longrightarrow> location (blink_array f j) \<noteq> 0)"
    using spec by (simp add: mp1_malloc_def)
  show "mp1_malloc f = None \<Longrightarrow> 0 \<le> j \<Longrightarrow> j < BLINKS \<Longrightarrow> location (blink_array f j) \<noteq> 0"
    using spec by (simp add: mp1_malloc_def)
qed

lemma malloc_nodes:
  assumes "nodes_ok f xs"
  shows "mp1_malloc f = None \<longleftrightarrow> length xs = BLINKS"
    "mp1_malloc f = Some i \<Longrightarrow> i < BLINKS \<and> i \<notin> set xs"
proof -
  have "card (set xs) = length xs" using assms distinct_card [of xs] unfolding nodes_ok_def by blast
  moreover have "set xs = {i. 0 \<le> i \<and> i < BLINKS \<and> location (blink_array f i) \<noteq> 0}"
    using assms by (simp add: nodes_ok_def)
  ultimately show "mp1_malloc f = None \<longleftrightarrow> length xs = BLINKS" using blink_slots.pick_full [of f] by simp
  show "mp1_malloc f = Some i \<Longrightarrow> i < BLINKS \<and> i \<notin> set xs"
    using blink_slots.pick_free [of f i] assms by (auto simp: nodes_ok_def)
qed

section \<open>The window\<close>

definition window :: "u32 \<times> u32 \<Rightarrow> u32 \<Rightarrow> nat \<Rightarrow> tty \<Rightarrow> bool" where
  "window pg base p t \<longleftrightarrow> p < 4 \<and> (\<forall>off :: u32. off < 0x1000 \<longrightarrow>
     translate (fst pg) (snd pg) t (base + off) = Some (VIDEO_MEM_BASE + 0x1000 * of_nat p + off, True))"

definition draw :: "nat \<Rightarrow> nat \<Rightarrow> u8 \<Rightarrow> tty \<Rightarrow> tty" where
  "draw p off c t = t\<lparr>vram := (vram t)(p := (vram t p)(off := c))\<rparr>"

text \<open>The byte of the screen where a node shows its character.\<close>

definition blink_cell :: "blink \<Rightarrow> nat" where
  "blink_cell b = 2 * unat (location b)"

lemma translate_vram: "translate v w (t\<lparr>vram := m\<rparr>) va = translate v w t va"
proof -
  have "table_at v w (t\<lparr>vram := m\<rparr>) a = table_at v w t a" for a by (simp add: table_at_def)
  then show ?thesis by (simp add: translate_def Let_def cong: if_cong)
qed

lemma window_draw [simp]: "window pg base p (draw q off c t) = window pg base p t"
  by (simp add: window_def draw_def translate_vram)

lemma unat_ucast_u16: "unat (ucast (x :: u16) :: u32) = unat x"
proof -
  have "unat x < 65536" using unsigned_less [of x] by simp
  then have "unat x < 2 ^ 32" by simp
  then show ?thesis by (simp add: unsigned_ucast_eq take_bit_nat_eq_self)
qed

lemma user_store_window:
  assumes "window pg base p t" "off < 0x1000"
  shows "user_store pg (base + off) c t = Some (draw p (unat off) c t)"
proof -
  have p: "p < 4" using assms(1) by (simp add: window_def)
  then have "p = 0 \<or> p = 1 \<or> p = 2 \<or> p = 3" by arith
  moreover have o: "unat off < 4096" using assms(2) by (simp add: word_less_nat_alt)
  ultimately have u: "unat (0x1000 * of_nat p + off) = 4096 * p + unat off"
    by (elim disjE) (simp_all add: unat_word_ariths)
  have "unat (0x1000 * of_nat p + off) < 0x4000" using u o p by simp
  then have lt: "0x1000 * of_nat p + off < (0x4000 :: u32)" by (simp add: word_less_nat_alt)
  have "VIDEO_MEM_BASE \<le> VIDEO_MEM_BASE + (0x1000 * of_nat p + off)"
      "VIDEO_MEM_BASE + (0x1000 * of_nat p + off) < VIDEO_MEM_BASE + 0x4000"
    using lt by (simp_all add: word_le_nat_alt word_less_nat_alt unat_add_u32)
  then show ?thesis
    using assms u o by (simp add: user_store_def window_def draw_def Let_def add.assoc)
qed

lemma poke_window:
  assumes "window pg (vmem_base_addr f) p t" "location b < 80 * 25"
  shows "mp1_poke pg c (video_offset b) f t = Some (draw p (blink_cell b) c t)"
proof -
  have l: "unat (location b) < 2000" using assms(2) by (simp add: word_less_nat_alt)
  have "unat (video_offset b) = blink_cell b"
    using l by (simp add: video_offset_def blink_cell_def push_bit_eq_mult unat_word_ariths unat_ucast_u16)
  moreover from this l have "video_offset b < 0x1000" by (simp add: word_less_nat_alt blink_cell_def)
  ultimately show ?thesis using user_store_window [OF assms(1)] by (simp add: mp1_poke_def)
qed

section \<open>Finding a node\<close>

lemma find_loop_path:
  "path a p xs None \<Longrightarrow> \<forall>i \<in> set xs. i < BLINKS \<Longrightarrow>
   find_loop a ax p = Some (List.find (\<lambda>i. location (a i) = ax) xs)"
proof (induction xs arbitrary: p)
  case (Cons i xs)
  then show ?case by (subst find_loop.simps) (simp add: arr_get_def)
qed (simp add: find_loop.simps)

lemma find_helper_nodes:
  "nodes_ok f xs \<Longrightarrow> mp1_find_helper ax f = Some (List.find (\<lambda>i. location (blink_array f i) = ax) xs)"
  unfolding mp1_find_helper_def by (rule find_loop_path) (rule nodes_okD; assumption)+

lemma find_first: "\<forall>y \<in> set ys. \<not> P y \<Longrightarrow> P x \<Longrightarrow> List.find P (ys @ x # zs) = Some x"
  by (induction ys) auto

lemma find_cases:
  obtains "List.find P xs = None" "\<forall>x \<in> set xs. \<not> P x"
  | ys x zs where "List.find P xs = Some x" "xs = ys @ x # zs" "P x" "\<forall>y \<in> set ys. \<not> P y"
proof (cases "\<exists>x \<in> set xs. P x")
  case True
  then obtain ys x zs where "xs = ys @ x # zs" "P x" "\<forall>y \<in> set ys. \<not> P y"
    by (rule split_list_first_propE)
  moreover from this have "List.find P xs = Some x" by (simp add: find_first)
  ultimately show ?thesis using that(2) by blast
next
  case False
  then show ?thesis using that(1) by (simp add: find_None_iff)
qed

lemma find_split: "List.find P xs = Some x \<Longrightarrow> \<exists>ys zs. xs = ys @ x # zs \<and> P x \<and> (\<forall>y \<in> set ys. \<not> P y)"
  by (rule find_cases [of P xs]) auto

section \<open>The abstract list\<close>

text \<open>What the routines mean for the list of the contents of the nodes, the newest first.\<close>

definition started :: "blink \<Rightarrow> blink" where
  "started b = (node_content b)\<lparr>status := 1, countdown := on_length b\<rparr>"

definition add_blink :: "blink \<Rightarrow> blink list \<Rightarrow> int \<times> blink list" where
  "add_blink b bs = (if location b < 80 * 25 \<and> length bs < BLINKS then (0, started b # bs) else (-1, bs))"

fun change_at :: "u16 \<Rightarrow> (blink \<Rightarrow> blink list) \<Rightarrow> blink list \<Rightarrow> blink list" where
  "change_at l g [] = []"
| "change_at l g (b # bs) = (if location b = l then g b @ bs else b # change_at l g bs)"

definition blink_on :: "u16 \<Rightarrow> blink list \<Rightarrow> blink option" where
  "blink_on l bs = List.find (\<lambda>b. location b = l) bs"

definition take_timing :: "blink \<Rightarrow> blink \<Rightarrow> blink" where
  "take_timing s d = d\<lparr>on_length := on_length s, off_length := off_length s, countdown := countdown s,
     status := status s\<rparr>"

lemma change_at_append:
  "\<forall>b \<in> set bs. location b \<noteq> l \<Longrightarrow> location d = l \<Longrightarrow> change_at l g (bs @ d # ds) = bs @ g d @ ds"
  by (induction bs) auto

lemma contents_simps [simp]:
  "contents f [] = []" "contents f (i # xs) = node_content (blink_array f i) # contents f xs"
  "contents f (xs @ ys) = contents f xs @ contents f ys" "length (contents f xs) = length xs"
  by (simp_all add: contents_def)

lemma contents_upd [simp]:
  "i \<notin> set xs \<Longrightarrow> contents (f\<lparr>blink_array := (blink_array f)(i := b)\<rparr>) xs = contents f xs"
  by (simp add: contents_def)

lemma contents_same: "(\<And>i. i \<in> set xs \<Longrightarrow> node_content (blink_array g i) = node_content (blink_array f i)) \<Longrightarrow> contents g xs = contents f xs"
  by (simp add: contents_def)

lemma blink_on_contents:
  "blink_on l (contents f xs) = map_option (\<lambda>i. node_content (blink_array f i)) (List.find (\<lambda>i. location (blink_array f i) = l) xs)"
  by (induction xs) (simp_all add: blink_on_def)

section \<open>The operations on the list\<close>

lemma add_refines:
  assumes ok: "nodes_ok f xs" and w: "window pg (vmem_base_addr f) p t" and l: "location b \<noteq> 0"
    and r: "add_blink b (contents f xs) = (r, bs)"
  shows "\<exists>f' xs'. mp1_ioctl_add pg b f t = Some (r, f', if r = 0 then draw p (blink_cell b) (on_char b) t else t) \<and>
    nodes_ok f' xs' \<and> contents f' xs' = bs \<and> vmem_base_addr f' = vmem_base_addr f"
proof (cases "location b < 80 * 25 \<and> mp1_malloc f \<noteq> None")
  case False
  then have "location b \<ge> 80 * 25 \<or> mp1_malloc f = None" by auto
  moreover have "\<not> (location b < 80 * 25 \<and> length xs < BLINKS)" using False malloc_nodes(1) [OF ok] by auto
  ultimately show ?thesis
    using r ok by (auto simp: mp1_ioctl_add_def add_blink_def Let_def split: if_splits)
next
  case True
  then obtain i where i: "mp1_malloc f = Some i" by auto
  note n = nodes_okD [OF ok] and i' = malloc_nodes(2) [OF ok i]
  let ?b = "b\<lparr>status := 1, countdown := on_length b, blink_next := mp1_list_head f\<rparr>"
  let ?f = "f\<lparr>blink_array := (blink_array f)(i := ?b), mp1_list_head := Some i\<rparr>"
  have "length xs < BLINKS"
  proof -
    have "set xs \<subseteq> {..<BLINKS}" using n(3) by auto
    then have "card (set xs) \<le> BLINKS" using card_mono [of "{..<BLINKS}" "set xs"] by simp
    then have "length xs \<le> BLINKS" by (simp add: distinct_card [OF n(2)])
    moreover have "length xs \<noteq> BLINKS" using malloc_nodes(1) [OF ok] i by simp
    ultimately show ?thesis by simp
  qed
  then have rb: "r = 0" "bs = started b # contents f xs" using r True by (simp_all add: add_blink_def)
  have "nodes_ok ?f (i # xs)"
    using n i' l True by (intro nodes_okI) auto
  moreover have "contents ?f (i # xs) = bs"
    using i' unfolding rb(2) by (simp add: started_def node_content_def contents_def)
  moreover have "mp1_poke pg (on_char b) (video_offset b) ?f t = Some (draw p (blink_cell b) (on_char b) t)"
    using poke_window [of pg ?f p t b "on_char b"] w True by simp
  moreover have "video_offset (b\<lparr>status := 1, countdown := on_length b\<rparr>) = video_offset b"
    by (simp add: video_offset_def)
  ultimately show ?thesis
    using True i' rb(1)
    by (intro exI [of _ ?f] exI [of _ "i # xs"]) (simp add: mp1_ioctl_add_def i put_blink_in not_le Let_def)
qed

lemma find_refines:
  assumes ok: "nodes_ok f xs"
  shows "\<exists>b. mp1_ioctl_find arg f = Some (case blink_on (location arg) (contents f xs) of None \<Rightarrow> (-1, arg) | Some c \<Rightarrow> (0, b)) \<and>
    (\<forall>c. blink_on (location arg) (contents f xs) = Some c \<longrightarrow> node_content b = c)"
proof (rule find_cases [of "\<lambda>i. location (blink_array f i) = location arg" xs])
  assume "List.find (\<lambda>i. location (blink_array f i) = location arg) xs = None"
  then show ?thesis
    by (simp add: mp1_ioctl_find_def find_helper_nodes [OF ok] blink_on_contents)
next
  fix ys i zs
  assume i: "List.find (\<lambda>i. location (blink_array f i) = location arg) xs = Some i" "xs = ys @ i # zs"
  then have "i < BLINKS" using nodes_okD(3) [OF ok] by simp
  with i(1) show ?thesis
    by (intro exI [of _ "blink_array f i"])
      (simp add: mp1_ioctl_find_def find_helper_nodes [OF ok] blink_on_contents arr_get_def)
qed

text \<open>Removing: the pointer before the node, and the list without it.\<close>

lemma remove_find_prev_path:
  "load_link f edx = Some p \<Longrightarrow> path (blink_array f) p (ys @ i # zs) None \<Longrightarrow> i \<notin> set ys \<Longrightarrow>
   \<forall>j \<in> set ys. j < BLINKS \<Longrightarrow>
   remove_find_prev f i edx = Some (if ys = [] then edx else Some (last ys))"
proof (induction ys arbitrary: p edx)
  case Nil
  then show ?case by (subst remove_find_prev.simps) simp
next
  case (Cons j ys)
  have "load_link f (Some j) = Some (blink_next (blink_array f j))"
    using Cons.prems(4) by (simp add: load_link_def arr_get_def)
  then have "remove_find_prev f i (Some j) = Some (if ys = [] then Some j else Some (last ys))"
    using Cons.IH Cons.prems(2-4) by simp
  moreover have "p = Some j" "j \<noteq> i" using Cons.prems(2,3) by auto
  ultimately show ?case using Cons.prems(1) by (subst remove_find_prev.simps) simp
qed

lemma unlink_path:
  assumes "path (blink_array f) (mp1_list_head f) (ys @ i # zs) None" "distinct (ys @ i # zs)"
    and "\<forall>j \<in> set ys. j < BLINKS"
  shows "\<exists>f'. store_link (if ys = [] then None else Some (last ys)) (blink_next (blink_array f i)) f = Some f' \<and>
    path (blink_array f') (mp1_list_head f') (ys @ zs) None \<and> vmem_base_addr f' = vmem_base_addr f \<and>
    (\<forall>j. node_content (blink_array f' j) = node_content (blink_array f j))"
proof (cases ys rule: rev_cases)
  case Nil
  then show ?thesis using assms(1) by (simp add: store_link_def)
next
  case (snoc us j)
  let ?a = "(blink_array f)(j := (blink_array f j)\<lparr>blink_next := blink_next (blink_array f i)\<rparr>)"
  have "path ?a (mp1_list_head f) (ys @ zs) None"
    using assms(1,2) snoc by (auto simp: path_append)
  then show ?thesis using assms(3) snoc by (simp add: store_link_def arr_get_def put_blink_in)
qed

lemma remove_refines:
  assumes ok: "nodes_ok f xs" and l: "l = ucast arg"
  shows "\<exists>f' xs'. mp1_ioctl_remove arg f = Some (if blink_on l (contents f xs) = None then -1 else 0, f') \<and>
    nodes_ok f' xs' \<and> contents f' xs' = change_at l (\<lambda>_. []) (contents f xs) \<and> vmem_base_addr f' = vmem_base_addr f"
proof (rule find_cases [of "\<lambda>i. location (blink_array f i) = l" xs])
  assume n: "List.find (\<lambda>i. location (blink_array f i) = l) xs = None" "\<forall>i \<in> set xs. location (blink_array f i) \<noteq> l"
  then have "change_at l (\<lambda>_. []) (contents f xs) = contents f xs" by (induction xs) auto
  then show ?thesis using n ok l
    by (intro exI [of _ f] exI [of _ xs]) (simp add: mp1_ioctl_remove_def find_helper_nodes [OF ok] blink_on_contents)
next
  fix ys i zs
  assume i: "List.find (\<lambda>i. location (blink_array f i) = l) xs = Some i" "xs = ys @ i # zs"
    "location (blink_array f i) = l" "\<forall>j \<in> set ys. location (blink_array f j) \<noteq> l"
  note n = nodes_okD [OF ok, unfolded i(2)]
  obtain f1 where f1: "store_link (if ys = [] then None else Some (last ys)) (blink_next (blink_array f i)) f = Some f1"
      "path (blink_array f1) (mp1_list_head f1) (ys @ zs) None" "vmem_base_addr f1 = vmem_base_addr f"
      "\<forall>j. node_content (blink_array f1 j) = node_content (blink_array f j)"
    using unlink_path [OF n(1,2)] n(3) by auto
  have loc: "location (blink_array f1 j) = location (blink_array f j)" for j
    using f1(4) by (metis node_content_sel(1))
  let ?f = "f1\<lparr>blink_array := (blink_array f1)(i := zero_blink)\<rparr>"
  have prev: "remove_find_prev f i None = Some (if ys = [] then None else Some (last ys))"
    using remove_find_prev_path [of f None "mp1_list_head f" ys i zs] n by (simp add: load_link_def)
  have "i \<notin> set (ys @ zs)" using n(2) by auto
  then have "nodes_ok ?f (ys @ zs)"
    using f1(2) n loc by (intro nodes_okI) (auto simp: zero_blink_def)
  moreover have "contents ?f (ys @ zs) = contents f (ys @ zs)"
    using \<open>i \<notin> _\<close> f1(4) by (intro contents_same) auto
  moreover have "\<forall>b \<in> set (contents f ys). location b \<noteq> l" using i(4) by (auto simp: contents_def)
  then have "change_at l (\<lambda>_. []) (contents f xs) = contents f (ys @ zs)"
    using i(3) unfolding i(2) by (simp add: change_at_append)
  moreover have "blink_on l (contents f xs) \<noteq> None" using i(1) by (simp add: blink_on_contents)
  ultimately show ?thesis
    using f1(1,3) prev i(1) l n(3)
    by (intro exI [of _ ?f] exI [of _ "ys @ zs"])
      (simp add: mp1_ioctl_remove_def find_helper_nodes [OF ok] mp1_free_def put_blink_in arr_get_def)
qed

lemma test_less_never [simp]: "\<not> test_less v"
  by (simp add: test_less_def bit_simps)

lemma nodes_ok_update:
  assumes ok: "nodes_ok f xs" and i: "i < BLINKS"
    and b: "location b = location (blink_array f i)" "blink_next b = blink_next (blink_array f i)"
  shows "nodes_ok (f\<lparr>blink_array := (blink_array f)(i := b)\<rparr>) xs"
proof (rule nodes_okI)
  note n = nodes_okD [OF ok]
  have "path ((blink_array f)(i := b)) (mp1_list_head f) xs None = path (blink_array f) (mp1_list_head f) xs None"
    by (rule path_same_next) (simp add: b(2))
  then show "path (blink_array (f\<lparr>blink_array := (blink_array f)(i := b)\<rparr>))
      (mp1_list_head (f\<lparr>blink_array := (blink_array f)(i := b)\<rparr>)) xs None" using n(1) by simp
qed (use nodes_okD [OF ok] b(1) in auto)

lemma sync_refines:
  assumes ok: "nodes_ok f xs" and w: "window pg (vmem_base_addr f) p t"
    and l: "l0 = ucast (drop_bit 16 arg)" "l1 = ucast (arg AND 0xFFFF)"
    and s: "blink_on l0 (contents f xs) = Some s" "blink_on l1 (contents f xs) = Some d"
  shows "\<exists>f'. mp1_ioctl_sync pg arg f t = Some (0, f', draw p (blink_cell d) (off_char d) t) \<and> nodes_ok f' xs \<and>
    contents f' xs = change_at l1 (\<lambda>d. [take_timing s d]) (contents f xs) \<and> vmem_base_addr f' = vmem_base_addr f"
proof -
  obtain i where i: "List.find (\<lambda>i. location (blink_array f i) = l0) xs = Some i" "s = node_content (blink_array f i)"
    using s(1) by (auto simp: blink_on_contents)
  obtain j where j: "List.find (\<lambda>i. location (blink_array f i) = l1) xs = Some j" "d = node_content (blink_array f j)"
    using s(2) by (auto simp: blink_on_contents)
  from i(1) have "i \<in> set xs" by (auto simp: find_Some_iff)
  then have iB: "i < BLINKS" using nodes_okD(3) [OF ok] by blast
  let ?P = "\<lambda>i. location (blink_array f i) = l1"
  obtain ys zs where xs: "xs = ys @ j # zs" "?P j" "\<forall>y \<in> set ys. \<not> ?P y"
    using find_split [OF j(1)] by blast
  then have jB: "j < BLINKS" "location (blink_array f j) < 80 * 25"
    using nodes_okD(3,5) [OF ok] by auto
  let ?b = "take_timing (blink_array f i) (blink_array f j)"
  let ?f = "f\<lparr>blink_array := (blink_array f)(j := ?b)\<rparr>"
  have d: "j \<notin> set ys" "j \<notin> set zs" using nodes_okD(2) [OF ok] xs(1) by auto
  have "node_content ?b = take_timing s d"
    unfolding i(2) j(2) by (simp add: take_timing_def node_content_def)
  moreover have "\<forall>b \<in> set (contents f ys). location b \<noteq> l1" using xs(3) by (auto simp: contents_def)
  ultimately have "contents ?f xs = change_at l1 (\<lambda>d. [take_timing s d]) (contents f xs)"
    using d xs(2) j(2) unfolding xs(1) by (simp add: change_at_append)
  moreover have "nodes_ok ?f xs" using nodes_ok_update [OF ok jB(1)] by (simp add: take_timing_def)
  moreover have "mp1_poke pg (off_char d) (video_offset ?b) ?f t = Some (draw p (blink_cell d) (off_char d) t)"
    using poke_window [of pg ?f p t ?b "off_char d"] w jB(2) j(2) by (simp add: take_timing_def blink_cell_def)
  ultimately show ?thesis
    using i(1) j l iB jB(1)
    by (intro exI [of _ ?f]) (simp add: mp1_ioctl_sync_def find_helper_nodes [OF ok] arr_get_def put_blink_in take_timing_def)
qed

end
