(* ===== verification/Fish_Props.thy ===== *)
theory Fish_Props
  imports Fish_List
begin

text \<open>
  The blinking characters over time: each shows its two characters in turn, for as many ticks of the
  clock as it was given; and the list that does this, as a refinement.
\<close>

section \<open>A tick\<close>

definition ticked :: "blink \<Rightarrow> blink" where
  "ticked b =
     (let c = countdown b - 1 in
      if 0 < sint c then b\<lparr>countdown := c\<rparr>
      else b\<lparr>countdown := if status b AND 1 = 0 then on_length b else off_length b, status := status b XOR 1\<rparr>)"

definition tick_draw :: "nat \<Rightarrow> blink \<Rightarrow> tty \<Rightarrow> tty" where
  "tick_draw p b t =
     (if 0 < sint (countdown b - 1) then t
      else draw p (blink_cell b) (if status b AND 1 = 0 then on_char b else off_char b) t)"

lemma window_tick_draw [simp]: "window pg base p (tick_draw q b t) = window pg base p t"
  by (simp add: tick_draw_def)

lemma ticked_sel [simp]:
  "location (ticked b) = location b" "blink_next (ticked b) = blink_next b" "on_char (ticked b) = on_char b"
  "off_char (ticked b) = off_char b" "on_length (ticked b) = on_length b" "off_length (ticked b) = off_length b"
  "ticked (node_content b) = node_content (ticked b)" "blink_cell (ticked b) = blink_cell b"
  by (simp_all add: ticked_def node_content_def blink_cell_def Let_def)

lemma tick_draw_content [simp]: "tick_draw p (node_content b) = tick_draw p b"
  by (rule ext) (simp add: tick_draw_def blink_cell_def)

lemma tick_node_eq:
  assumes "window pg (vmem_base_addr f) p t" "location b < 80 * 25"
  shows "tick_node pg b f t = Some (ticked b, tick_draw p b t)"
proof -
  have "video_offset (b\<lparr>countdown := c\<rparr>) = video_offset b" for c by (simp add: video_offset_def)
  then show ?thesis
    using poke_window [OF assms] by (simp add: tick_node_def ticked_def tick_draw_def Let_def)
qed

definition tick_array :: "nat set \<Rightarrow> fish \<Rightarrow> fish" where
  "tick_array I f = f\<lparr>blink_array := (\<lambda>i. if i \<in> I then ticked (blink_array f i) else blink_array f i)\<rparr>"

lemma tick_array_sel [simp]:
  "mp1_list_head (tick_array I f) = mp1_list_head f" "vmem_base_addr (tick_array I f) = vmem_base_addr f"
  "blink_array (tick_array I f) i = (if i \<in> I then ticked (blink_array f i) else blink_array f i)"
  by (simp_all add: tick_array_def)

lemma tick_array_insert:
  "i \<notin> I \<Longrightarrow> tick_array I (f\<lparr>blink_array := (blink_array f)(i := ticked (blink_array f i))\<rparr>) = tick_array (insert i I) f"
  by (auto simp: tick_array_def fun_eq_iff)

lemma tasklet_loop_eq:
  "path (blink_array f) q xs None \<Longrightarrow> distinct xs \<Longrightarrow>
   \<forall>i \<in> set xs. i < BLINKS \<and> location (blink_array f i) < 80 * 25 \<Longrightarrow> window pg (vmem_base_addr f) p t \<Longrightarrow>
   tasklet_loop pg q f t = Some (tick_array (set xs) f, fold (\<lambda>i. tick_draw p (blink_array f i)) xs t)"
proof (induction xs arbitrary: q f t)
  case Nil
  then show ?case by (subst tasklet_loop.simps) (simp add: tick_array_def)
next
  case (Cons i xs)
  let ?b = "ticked (blink_array f i)"
  let ?f = "f\<lparr>blink_array := (blink_array f)(i := ?b)\<rparr>"
  have i: "i \<notin> set xs" "i < BLINKS" using Cons.prems(2,3) by simp_all
  have "path (blink_array ?f) (blink_next ?b) xs None" using Cons.prems(1) i by simp
  moreover have "\<forall>j \<in> set xs. j < BLINKS \<and> location (blink_array ?f j) < 80 * 25" using Cons.prems(3) by auto
  ultimately have "tasklet_loop pg (blink_next ?b) ?f (tick_draw p (blink_array f i) t) =
      Some (tick_array (set xs) ?f, fold (\<lambda>j. tick_draw p (blink_array ?f j)) xs (tick_draw p (blink_array f i) t))"
    using Cons.prems(2,4) by (intro Cons.IH) (simp_all del: fun_upd_apply)
  moreover have "fold (\<lambda>j. tick_draw p (blink_array ?f j)) xs u = fold (\<lambda>j. tick_draw p (blink_array f j)) xs u" for u
    using i(1) by (intro fold_cong refl) auto
  moreover have "tick_node pg (blink_array f i) f t = Some (?b, tick_draw p (blink_array f i) t)"
    using Cons.prems(3,4) by (intro tick_node_eq) simp_all
  moreover have "q = Some i" using Cons.prems(1) by simp
  ultimately show ?case
    using i by (subst tasklet_loop.simps) (simp add: arr_get_def put_blink_in tick_array_insert)
qed

lemma tasklet_refines:
  assumes ok: "nodes_ok f xs" and w: "window pg (vmem_base_addr f) p t"
  shows "\<exists>f'. mp1_rtc_tasklet pg f t = Some (f', fold (tick_draw p) (contents f xs) t) \<and> nodes_ok f' xs \<and>
    contents f' xs = map ticked (contents f xs) \<and> vmem_base_addr f' = vmem_base_addr f"
proof -
  note n = nodes_okD [OF ok]
  let ?f = "tick_array (set xs) f"
  have "mp1_rtc_tasklet pg f t = Some (?f, fold (\<lambda>i. tick_draw p (blink_array f i)) xs t)"
    unfolding mp1_rtc_tasklet_def using n w by (intro tasklet_loop_eq) auto
  moreover have "fold (tick_draw p) (contents f xs) = fold (\<lambda>i. tick_draw p (blink_array f i)) xs"
    by (simp add: contents_def fold_map comp_def)
  moreover have "nodes_ok ?f xs"
  proof (rule nodes_okI)
    have "path (blink_array ?f) (mp1_list_head f) xs None = path (blink_array f) (mp1_list_head f) xs None"
      by (rule path_same_next) simp
    then show "path (blink_array ?f) (mp1_list_head ?f) xs None" using n(1) by simp
  qed (use n in auto)
  moreover have "contents ?f xs = map ticked (contents f xs)" by (simp add: contents_def)
  ultimately show ?thesis by (intro exI [of _ ?f]) simp
qed

section \<open>Refinement\<close>

text \<open>
  C14. The blinking characters are a list. The pointers of \<open>blink.S\<close> over the array of nodes, with
  allocation by searching for a node without location, implement operations on a list of contents: adding
  at any place but 0 puts a fresh character at the front and shows it, or answers -1 when the place is off
  the screen or all nodes are taken; removing takes the newest one at a place away; finding returns it; a
  tick of the clock changes every element and draws those that change. Each of these ends, keeps the
  invariant of the nodes and touches no other memory. Nothing is said here of adding at place 0, the
  corner of the screen: location 0 marks a free node, so a second character there can make the list a
  cycle that a tick never leaves (\<open>place_zero_hangs\<close>).
\<close>

theorem blinks_are_a_list:
  assumes ok: "blink_list f bs" and w: "window pg (vmem_base_addr f) p t"
  shows "\<exists>f1 f2 f3.
    (location b \<noteq> 0 \<longrightarrow> mp1_ioctl pg (Address b) 0 f t =
       Some (fst (add_blink b bs), Address b, f1, if fst (add_blink b bs) = 0 then draw p (blink_cell b) (on_char b) t else t) \<and>
       blink_list f1 (snd (add_blink b bs))) \<and>
    mp1_ioctl pg (Number n) 1 f t = Some (if blink_on (ucast n) bs = None then -1 else 0, Number n, f2, t) \<and>
    blink_list f2 (change_at (ucast n) (\<lambda>_. []) bs) \<and>
    (\<exists>c. mp1_ioctl pg (Address b) 2 f t =
       Some (case blink_on (location b) bs of None \<Rightarrow> (-1, Address b, f, t) | Some d \<Rightarrow> (0, Address c, f, t)) \<and>
       (\<forall>d. blink_on (location b) bs = Some d \<longrightarrow> node_content c = d)) \<and>
    mp1_rtc_tasklet pg f t = Some (f3, fold (tick_draw p) bs t) \<and> blink_list f3 (map ticked bs) \<and>
    vmem_base_addr f1 = vmem_base_addr f \<and> vmem_base_addr f2 = vmem_base_addr f \<and> vmem_base_addr f3 = vmem_base_addr f"
proof -
  obtain xs where xs: "nodes_ok f xs" "bs = contents f xs" using ok by (auto simp: blink_list_def)
  have l: "nodes_ok g ys \<Longrightarrow> blink_list g (contents g ys)" for g ys by (auto simp: blink_list_def)
  have "\<exists>f1. (location b \<noteq> 0 \<longrightarrow> mp1_ioctl pg (Address b) 0 f t =
       Some (fst (add_blink b bs), Address b, f1, if fst (add_blink b bs) = 0 then draw p (blink_cell b) (on_char b) t else t) \<and>
       blink_list f1 (snd (add_blink b bs))) \<and> vmem_base_addr f1 = vmem_base_addr f"
  proof (cases "location b = 0")
    case False
    from add_refines [OF xs(1) w this surjective_pairing] xs(2) l show ?thesis
      by (fastforce simp: mp1_ioctl_def)
  qed auto
  moreover have "\<exists>f2. mp1_ioctl pg (Number n) 1 f t = Some (if blink_on (ucast n) bs = None then -1 else 0, Number n, f2, t) \<and>
      blink_list f2 (change_at (ucast n) (\<lambda>_. []) bs) \<and> vmem_base_addr f2 = vmem_base_addr f"
    using remove_refines [OF xs(1) refl, of n] xs(2) l by (fastforce simp: mp1_ioctl_def)
  moreover have "\<exists>c. mp1_ioctl pg (Address b) 2 f t =
       Some (case blink_on (location b) bs of None \<Rightarrow> (-1, Address b, f, t) | Some d \<Rightarrow> (0, Address c, f, t)) \<and>
       (\<forall>d. blink_on (location b) bs = Some d \<longrightarrow> node_content c = d)"
    using find_refines [OF xs(1), of b] xs(2) by (auto simp: mp1_ioctl_def split: option.splits)
  moreover have "\<exists>f3. mp1_rtc_tasklet pg f t = Some (f3, fold (tick_draw p) bs t) \<and> blink_list f3 (map ticked bs) \<and>
      vmem_base_addr f3 = vmem_base_addr f"
    using tasklet_refines [OF xs(1) w] xs(2) l by metis
  ultimately show ?thesis by blast
qed

text \<open>The program before it has drawn anything, with the window that \<open>vidmap\<close> opens.\<close>

definition demo_fish :: fish where
  "demo_fish = \<lparr>blink_array = (\<lambda>_. zero_blink), mp1_list_head = None, vmem_base_addr = 0x94B8000\<rparr>"

definition demo_window :: tty where
  "demo_window = snd (snd (vidmap 0x411000 0x8000010 demo_tty))"

definition demo_blink :: blink where
  "demo_blink = zero_blink\<lparr>on_char := of_char CHR ''I'', off_char := of_char CHR ''M'', on_length := 7, off_length := 6,
     location := 540\<rparr>"

lemma vidmap_opens_window:
  assumes "page_aligned vidpage" "vidpage \<noteq> vid" "0x8000000 \<le> start" "start \<le> 0x8400000"
  shows "\<exists>t'. vidmap vidpage start t = (0, Some 0x94B8000, t') \<and> window (vid, vidpage) 0x94B8000 0 t'"
proof -
  obtain r a t' where v: "vidmap vidpage start t = (r, a, t')" by (metis prod_cases3)
  have "r = 0 \<and> a = Some 0x94B8000 \<and> (k < 0x1000 \<longrightarrow> translate vid vidpage t' (0x94B8000 + k) = Some (0xB8000 + k, True))" for k
    using vidmap_window [of vidpage vid k start 0 t, OF assms(1,2) _ assms(3,4)] vidmap_window [of vidpage vid 0 start 0 t, OF assms(1,2) _ assms(3,4)]
    unfolding v by (cases "k < 0x1000") simp_all
  then show ?thesis using v by (auto simp: window_def)
qed

lemma demo_window_ok: "window (0x410000, 0x411000) (vmem_base_addr demo_fish) 0 demo_window"
  using vidmap_opens_window [of "0x411000" "0x410000" "0x8000010" demo_tty]
  by (auto simp: page_aligned_def demo_window_def demo_fish_def)

lemma demo_fish_ok: "nodes_ok demo_fish []" "blink_list demo_fish []"
proof -
  show "nodes_ok demo_fish []" by (simp add: nodes_ok_def demo_fish_def zero_blink_def)
  then show "blink_list demo_fish []" unfolding blink_list_def by (intro exI [of _ "[]"]) simp
qed

theorem blinks_are_a_list_witness:
  "\<exists>f. mp1_ioctl (0x410000, 0x411000) (Address demo_blink) 0 demo_fish demo_window =
     Some (0, Address demo_blink, f, draw 0 1080 0x49 demo_window) \<and> blink_list f [started demo_blink]"
  using blinks_are_a_list [OF demo_fish_ok(2) demo_window_ok, of demo_blink 0]
  by (simp add: demo_blink_def zero_blink_def add_blink_def blink_cell_def) blast

section \<open>What a character shows\<close>

fun tasklets :: "u32 \<times> u32 \<Rightarrow> nat \<Rightarrow> fish \<Rightarrow> tty \<Rightarrow> (fish \<times> tty) option" where
  "tasklets pg 0 f t = Some (f, t)"
| "tasklets pg (Suc n) f t = do { (f, t) \<leftarrow> tasklets pg n f t; mp1_rtc_tasklet pg f t }"

text \<open>The phase \<open>r\<close> of a character: how many ticks of its period have passed.\<close>

definition in_phase :: "blink \<Rightarrow> nat \<Rightarrow> bool" where
  "in_phase b r \<longleftrightarrow>
     (let on = unat (on_length b); off = unat (off_length b) in
      0 < on \<and> 0 < off \<and> on < 0x8000 \<and> off < 0x8000 \<and> r < on + off \<and>
      (if r < on then status b = 1 \<and> unat (countdown b) = on - r
       else status b = 0 \<and> unat (countdown b) = on + off - r))"

definition phase_char :: "blink \<Rightarrow> nat \<Rightarrow> u8" where
  "phase_char b r = (if r < unat (on_length b) then on_char b else off_char b)"

lemma countdown_step:
  assumes "unat (c :: u16) = n" "0 < n" "n < 0x8000"
  shows "unat (c - 1) = n - 1" "0 < sint (c - 1) \<longleftrightarrow> n \<noteq> 1"
proof -
  have "c \<noteq> 0" using assms by auto
  then show u: "unat (c - 1) = n - 1" using assms(1) by (simp add: unat_minus_one)
  have "int (unat (c - 1)) < int 0x8000" using u assms by simp
  then have "uint (c - 1) < 2 ^ 15" by simp
  moreover have "- (2 ^ 15) \<le> uint (c - 1)" by (rule order_trans [OF _ uint_ge_0]) simp
  ultimately have "signed_take_bit 15 (uint (c - 1)) = uint (c - 1)"
    by (intro signed_take_bit_int_eq_self)
  then have "sint (c - 1) = uint (c - 1)" by (simp add: sint_uint)
  also have "\<dots> = int (n - 1)" unfolding u [symmetric] by simp
  finally have "sint (c - 1) = int (n - 1)" .
  then show "0 < sint (c - 1) \<longleftrightarrow> n \<noteq> 1" using assms(2) by auto
qed

lemma phase_step:
  assumes "in_phase b r"
  shows "in_phase (ticked b) (Suc r mod (unat (on_length b) + unat (off_length b)))"
proof -
  let ?on = "unat (on_length b)" and ?off = "unat (off_length b)"
  note h = assms [unfolded in_phase_def Let_def]
  let ?n = "if r < ?on then ?on - r else ?on + ?off - r"
  have n: "unat (countdown b) = ?n" "0 < ?n" "?n < 0x8000" using h by (auto split: if_splits)
  note c = countdown_step [OF n]
  consider "Suc r < ?on" | "Suc r = ?on" | "?on \<le> r" "Suc r < ?on + ?off" | "Suc r = ?on + ?off"
    using h by arith
  then show ?thesis
  proof cases
    case 1
    then show ?thesis using h c by (simp add: in_phase_def ticked_def Let_def)
  next
    case 2
    then show ?thesis using h c by (simp add: in_phase_def ticked_def Let_def)
  next
    case 3
    then show ?thesis using h c by (simp add: in_phase_def ticked_def Let_def)
  next
    case 4
    then show ?thesis using h c by (simp add: in_phase_def ticked_def Let_def)
  qed
qed

lemma vram_draw [simp]: "vram (draw p off c t) q o' = (if q = p \<and> o' = off then c else vram t q o')"
  by (simp add: draw_def)

lemma tick_draw_phase:
  assumes "in_phase b r" "vram t p (blink_cell b) = phase_char b r"
  shows "vram (tick_draw p b t) p (blink_cell b) = phase_char b (Suc r mod (unat (on_length b) + unat (off_length b)))"
proof -
  let ?on = "unat (on_length b)" and ?off = "unat (off_length b)"
  note h = assms(1) [unfolded in_phase_def Let_def]
  let ?n = "if r < ?on then ?on - r else ?on + ?off - r"
  have n: "unat (countdown b) = ?n" "0 < ?n" "?n < 0x8000" using h by (auto split: if_splits)
  note c = countdown_step [OF n]
  consider "Suc r < ?on" | "Suc r = ?on" | "?on \<le> r" "Suc r < ?on + ?off" | "Suc r = ?on + ?off"
    using h by arith
  then show ?thesis using h c assms(2) by cases (auto simp: tick_draw_def phase_char_def)
qed

lemma tick_draw_other: "location c \<noteq> l \<Longrightarrow> vram (tick_draw p c t) q (2 * unat l) = vram t q (2 * unat l)"
  by (auto simp: tick_draw_def blink_cell_def word_unat_eq_iff)

lemma fold_tick_other:
  "\<forall>c \<in> set bs. location c \<noteq> l \<Longrightarrow> vram (fold (tick_draw p) bs t) q (2 * unat l) = vram t q (2 * unat l)"
  by (induction bs arbitrary: t) (simp_all add: tick_draw_other)

lemma window_fold_tick [simp]: "window pg base p (fold (tick_draw q) bs t) = window pg base p t"
  by (induction bs arbitrary: t) simp_all

lemma tasklets_phase:
  assumes "nodes_ok f xs" "window pg (vmem_base_addr f) p t" "contents f xs = b # bs"
    and "\<forall>c \<in> set bs. location c \<noteq> location b" "in_phase b 0" "vram t p (blink_cell b) = phase_char b 0"
    and P: "P = unat (on_length b) + unat (off_length b)"
  shows "\<exists>f' t'. tasklets pg n f t = Some (f', t') \<and> nodes_ok f' xs \<and> window pg (vmem_base_addr f') p t' \<and>
    contents f' xs = (ticked ^^ n) b # map (ticked ^^ n) bs \<and> in_phase ((ticked ^^ n) b) (n mod P) \<and>
    vram t' p (blink_cell b) = phase_char b (n mod P)"
proof (induction n)
  case 0
  then show ?case using assms by (simp add: id_def)
next
  case (Suc n)
  let ?b = "(ticked ^^ n) b" and ?bs = "map (ticked ^^ n) bs"
  have same: "location ((ticked ^^ n) c) = location c" "on_char ((ticked ^^ n) c) = on_char c"
      "off_char ((ticked ^^ n) c) = off_char c" "on_length ((ticked ^^ n) c) = on_length c"
      "off_length ((ticked ^^ n) c) = off_length c" for c by (induction n) simp_all
  then have cell: "blink_cell ?b = blink_cell b" "phase_char ?b = phase_char b"
    by (simp_all add: blink_cell_def phase_char_def fun_eq_iff)
  obtain f1 t1 where 1: "tasklets pg n f t = Some (f1, t1)" "nodes_ok f1 xs" "window pg (vmem_base_addr f1) p t1"
      "contents f1 xs = ?b # ?bs" "in_phase ?b (n mod P)" "vram t1 p (blink_cell b) = phase_char b (n mod P)"
    using Suc.IH by blast
  obtain f2 where f2: "mp1_rtc_tasklet pg f1 t1 = Some (f2, fold (tick_draw p) (?b # ?bs) t1)" "nodes_ok f2 xs"
      "contents f2 xs = map ticked (?b # ?bs)" "vmem_base_addr f2 = vmem_base_addr f1"
    using tasklet_refines [OF 1(2,3)] unfolding 1(4) by blast
  have P': "P = unat (on_length ?b) + unat (off_length ?b)" by (simp add: P same)
  have m: "Suc (n mod P) mod P = Suc n mod P" by (rule mod_Suc_eq)
  have "\<forall>c \<in> set ?bs. location c \<noteq> location b" using assms(4) same by auto
  then have "vram (fold (tick_draw p) (?b # ?bs) t1) p (blink_cell b) = vram (tick_draw p ?b t1) p (blink_cell b)"
    unfolding fold_simps blink_cell_def by (rule fold_tick_other)
  also have "\<dots> = phase_char b (Suc n mod P)"
    using tick_draw_phase [OF 1(5), of t1 p] 1(6) unfolding cell P' [symmetric] m by simp
  finally have v: "vram (fold (tick_draw p) (?b # ?bs) t1) p (blink_cell b) = phase_char b (Suc n mod P)" .
  have "in_phase ((ticked ^^ Suc n) b) (Suc n mod P)"
    using phase_step [OF 1(5)] unfolding P' [symmetric] m by simp
  moreover have "contents f2 xs = (ticked ^^ Suc n) b # map (ticked ^^ Suc n) bs" using f2(3) by simp
  moreover have "window pg (vmem_base_addr f2) p (fold (tick_draw p) (?b # ?bs) t1)" using 1(3) f2(4) by simp
  moreover have "tasklets pg (Suc n) f t = Some (f2, fold (tick_draw p) (?b # ?bs) t1)" using 1(1) f2(1) by simp
  ultimately show ?case using v f2(2) by blast
qed

text \<open>
  C15. A blinking character blinks: once added, in a place of its own, it shows its first character for
  \<open>on_length\<close> ticks of the clock and its second one for \<open>off_length\<close> ticks, and so on for ever, whatever
  else blinks on the screen. (The lengths are below \<open>0x8000\<close>, because the countdown is compared as a
  signed number.)
\<close>

theorem blink_alternates:
  assumes ok: "blink_list f bs" and w: "window pg (vmem_base_addr f) p t" and room: "length bs < BLINKS"
    and b: "location b \<noteq> 0" "location b < 80 * 25" "\<forall>c \<in> set bs. location c \<noteq> location b"
    and len: "0 < on_length b" "on_length b < 0x8000" "0 < off_length b" "off_length b < 0x8000"
  shows "\<exists>f1 t1 f' t'. mp1_ioctl pg (Address b) 0 f t = Some (0, Address b, f1, t1) \<and> tasklets pg n f1 t1 = Some (f', t') \<and>
    vram t' p (blink_cell b) =
      (if n mod (unat (on_length b) + unat (off_length b)) < unat (on_length b) then on_char b else off_char b)"
proof -
  obtain xs where xs: "nodes_ok f xs" "bs = contents f xs" using ok by (auto simp: blink_list_def)
  have "add_blink b (contents f xs) = (0, started b # bs)" using b(2) room xs(2) by (simp add: add_blink_def)
  from add_refines [OF xs(1) w b(1) this] obtain f1 xs1 where 1: "nodes_ok f1 xs1" "contents f1 xs1 = started b # bs"
      "mp1_ioctl_add pg b f t = Some (0, f1, draw p (blink_cell b) (on_char b) t)" "vmem_base_addr f1 = vmem_base_addr f"
    by auto
  have s: "location (started b) = location b" "blink_cell (started b) = blink_cell b" "on_length (started b) = on_length b"
      "off_length (started b) = off_length b" "phase_char (started b) = phase_char b"
    by (simp_all add: started_def blink_cell_def phase_char_def fun_eq_iff)
  have len': "0 < unat (on_length b)" "0 < unat (off_length b)" "unat (on_length b) < 0x8000" "unat (off_length b) < 0x8000"
    using len by (simp_all add: word_less_nat_alt)
  have "in_phase (started b) 0" using len' by (simp add: in_phase_def started_def Let_def)
  moreover have "vram (draw p (blink_cell b) (on_char b) t) p (blink_cell (started b)) = phase_char (started b) 0"
    using len' by (simp add: s) (simp add: phase_char_def)
  moreover have "window pg (vmem_base_addr f1) p (draw p (blink_cell b) (on_char b) t)" using w 1(4) by simp
  ultimately have "\<exists>f' t'. tasklets pg n f1 (draw p (blink_cell b) (on_char b) t) = Some (f', t') \<and>
      vram t' p (blink_cell b) = phase_char b (n mod (unat (on_length b) + unat (off_length b)))"
    using tasklets_phase [OF 1(1) _ 1(2), of pg p _ _ n] b(3) unfolding s by metis
  then show ?thesis using 1(3) by (fastforce simp: mp1_ioctl_def phase_char_def)
qed

theorem blink_alternates_witness:
  "\<exists>f1 t1 f' t'. mp1_ioctl (0x410000, 0x411000) (Address demo_blink) 0 demo_fish demo_window = Some (0, Address demo_blink, f1, t1) \<and>
     tasklets (0x410000, 0x411000) 22 f1 t1 = Some (f', t') \<and> vram t' 0 1080 = of_char CHR ''M''"
  using blink_alternates [OF demo_fish_ok(2) demo_window_ok, of demo_blink 22]
  by (simp add: demo_blink_def zero_blink_def blink_cell_def)

section \<open>The place 0\<close>

text \<open>
  A node whose location is 0 counts as free: the second character added at place 0 takes the node of the
  first, which then points to itself, and the next tick of the clock does not end.
\<close>

lemma tick_node_next: "tick_node pg b f t = Some (c, t') \<Longrightarrow> blink_next c = blink_next b"
  by (cases "mp1_poke pg (if status b AND 1 = 0 then on_char b else off_char b)
      (video_offset (b\<lparr>countdown := countdown b - 1\<rparr>)) f t")
    (auto simp: tick_node_def Let_def split: if_splits)

lemma tasklet_loop_cycle:
  assumes "blink_next (blink_array f i) = Some i"
  shows "tasklet_loop pg (Some i) f t = None"
proof -
  have "p = Some i \<longrightarrow> blink_next (blink_array f i) \<noteq> Some i" if "tasklet_loop pg p f t = Some y" for p f t y
  proof (rule tasklet_loop.raw_induct [where P = "\<lambda>_ p f _ _. p = Some i \<longrightarrow> blink_next (blink_array f i) \<noteq> Some i", rotated])
    show "tasklet_loop pg p f t = Some y" by (rule that)
  next
    fix loop and pg :: "u32 \<times> u32" and p f t and y :: "fish \<times> tty"
    assume ih: "\<And>pg p f t y. loop pg p f t = Some y \<Longrightarrow> p = Some i \<longrightarrow> blink_next (blink_array f i) \<noteq> Some i"
      and body: "(case p of None \<Rightarrow> Some (f, t) | Some i \<Rightarrow> do {
          b \<leftarrow> arr_get BLINKS (blink_array f) i; (b, t) \<leftarrow> tick_node pg b f t; f \<leftarrow> put_blink i b f;
          loop pg (blink_next b) f t }) = Some y"
    show "p = Some i \<longrightarrow> blink_next (blink_array f i) \<noteq> Some i"
    proof (intro impI notI)
      assume p: "p = Some i" "blink_next (blink_array f i) = Some i"
      with body obtain c u where c: "i < BLINKS" "tick_node pg (blink_array f i) f t = Some (c, u)"
          "loop pg (blink_next c) (f\<lparr>blink_array := (blink_array f)(i := c)\<rparr>) u = Some y"
        by (auto simp: arr_get_def put_blink_in split: if_splits Option.bind_splits)
      then show False using ih [OF c(3)] tick_node_next [OF c(2)] p(2) by simp
    qed
  qed
  then show ?thesis using assms by (cases "tasklet_loop pg (Some i) f t") auto
qed

lemma place_zero_hangs:
  assumes "mp1_list_head f = None" "location (blink_array f 0) = 0" "window pg (vmem_base_addr f) p t" "location b = 0"
  shows "\<exists>f1 t1 f2 t2. mp1_ioctl_add pg b f t = Some (0, f1, t1) \<and> mp1_ioctl_add pg b f1 t1 = Some (0, f2, t2) \<and>
    mp1_rtc_tasklet pg f2 t2 = None"
proof -
  let ?b = "\<lambda>q. b\<lparr>status := 1, countdown := on_length b, blink_next := q\<rparr>"
  let ?f = "\<lambda>f q. f\<lparr>blink_array := (blink_array f)(0 := ?b q), mp1_list_head := Some 0\<rparr>"
  have add: "mp1_ioctl_add pg b g u = Some (0, ?f g (mp1_list_head g), draw p 0 (on_char b) u)"
    if "location (blink_array g 0) = 0" "window pg (vmem_base_addr g) p u" for g u
  proof -
    have "mp1_malloc g = Some 0" using that(1) unfolding mp1_malloc_def by (subst malloc_loop.simps) simp
    moreover have "mp1_poke pg (on_char b) (video_offset b) (?f g (mp1_list_head g)) u = Some (draw p 0 (on_char b) u)"
      using poke_window [of pg "?f g (mp1_list_head g)" p u b "on_char b"] that(2) assms(4) by (simp add: blink_cell_def)
    moreover have "video_offset (b\<lparr>status := 1, countdown := on_length b\<rparr>) = video_offset b"
      by (simp add: video_offset_def)
    ultimately show ?thesis using assms(4) by (simp add: mp1_ioctl_add_def put_blink_in Let_def)
  qed
  let ?f1 = "?f f (mp1_list_head f)"
  let ?f2 = "?f ?f1 (mp1_list_head ?f1)"
  have "mp1_rtc_tasklet pg ?f2 u = None" for u
    unfolding mp1_rtc_tasklet_def using tasklet_loop_cycle [of ?f2 0 pg u] by simp
  moreover have "mp1_ioctl_add pg b ?f1 u = Some (0, ?f2, draw p 0 (on_char b) u)"
      if "window pg (vmem_base_addr f) p u" for u
    using add [of ?f1 u] that assms(4) by simp
  ultimately show ?thesis using add [OF assms(2,3)] assms(3) window_draw by blast
qed

end
