(* ===== verification/Fish_Frames.thy ===== *)
theory Fish_Frames
  imports Fish_Props
begin

text \<open>
  The two frames on the screen: what \<open>add_frames\<close> makes of two text files, through the descriptors of the
  process, the list of blinking characters and the window on the video memory.
\<close>

section \<open>Two texts side by side\<close>

abbreviation "NL \<equiv> 0x0A :: u8"

fun split_lines :: "u8 list \<Rightarrow> u8 list list" where
  "split_lines [] = [[]]"
| "split_lines (c # cs) =
     (if c = NL then [] # split_lines cs
      else case split_lines cs of [] \<Rightarrow> [[c]] | l # ls \<Rightarrow> (c # l) # ls)"

lemma split_lines_rec:
  "split_lines cs = takeWhile (\<lambda>c. c \<noteq> NL) cs #
     (if NL \<in> set cs then split_lines (tl (dropWhile (\<lambda>c. c \<noteq> NL) cs)) else [])"
  by (induction cs) auto

text \<open>The first character of a line, a blank behind its end.\<close>

definition first_char :: "u8 list \<Rightarrow> u8" where
  "first_char l = (case l of [] \<Rightarrow> 0x20 | c # _ \<Rightarrow> c)"

definition cell_blink :: "frame_env \<Rightarrow> int \<Rightarrow> int \<Rightarrow> u8 \<Rightarrow> u8 \<Rightarrow> blink" where
  "cell_blink e row col a b = (f_blink e)\<lparr>on_length := 15, off_length := 15, on_char := a, off_char := b,
     location := word_of_int (row * 80 + col + 40)\<rparr>"

text \<open>A pair of lines: a blinking character for every column that is not blank in both.\<close>

function line_blinks :: "frame_env \<Rightarrow> int \<Rightarrow> int \<Rightarrow> u8 list \<Rightarrow> u8 list \<Rightarrow> blink list" where
  "line_blinks e row col l0 l1 =
     (if l0 = [] \<and> l1 = [] then []
      else (if first_char l0 \<noteq> 0x20 \<or> first_char l1 \<noteq> 0x20
            then [cell_blink e row col (first_char l0) (first_char l1)] else []) @
        line_blinks e row (col + 1) (tl l0) (tl l1))"
  by pat_completeness auto
termination
proof (relation "measure (\<lambda>(e, row, col, l0, l1). length l0 + length l1)")
  fix e :: frame_env and row col :: int and l0 l1 :: "u8 list"
  assume "\<not> (l0 = [] \<and> l1 = [])"
  then show "((e, row, col + 1, tl l0, tl l1), e, row, col, l0, l1) \<in> measure (\<lambda>(e, row, col, l0, l1). length l0 + length l1)"
    by (cases l0; cases l1) auto
qed simp

declare line_blinks.simps [simp del]

definition first_line :: "u8 list list \<Rightarrow> u8 list" where
  "first_line ls = (case ls of [] \<Rightarrow> [] | l # _ \<Rightarrow> l)"

function text_blinks :: "frame_env \<Rightarrow> int \<Rightarrow> u8 list list \<Rightarrow> u8 list list \<Rightarrow> blink list" where
  "text_blinks e row ls0 ls1 =
     (if ls0 = [] \<and> ls1 = [] then []
      else line_blinks e row 0 (first_line ls0) (first_line ls1) @ text_blinks e (row + 1) (tl ls0) (tl ls1))"
  by pat_completeness auto
termination
proof (relation "measure (\<lambda>(e, row, ls0, ls1). length ls0 + length ls1)")
  fix e :: frame_env and row :: int and ls0 ls1 :: "u8 list list"
  assume "\<not> (ls0 = [] \<and> ls1 = [])"
  then show "((e, row + 1, tl ls0, tl ls1), e, row, ls0, ls1) \<in> measure (\<lambda>(e, row, ls0, ls1). length ls0 + length ls1)"
    by (cases ls0; cases ls1) auto
qed simp

declare text_blinks.simps [simp del]

text \<open>What adding a character does to the list and the screen.\<close>

definition show_blink :: "nat \<Rightarrow> blink \<Rightarrow> blink list \<times> tty \<Rightarrow> blink list \<times> tty" where
  "show_blink p b s = (case s of (bs, t) \<Rightarrow> case add_blink b bs of (r, bs) \<Rightarrow>
     (bs, if r = 0 then draw p (blink_cell b) (on_char b) t else t))"

section \<open>Reading a frame\<close>

text \<open>One of the two files in the course of the loop: \<open>rem\<close> is what has not been read of it.\<close>

definition side :: "kernel \<Rightarrow> u32 \<Rightarrow> nat \<Rightarrow> u8 \<Rightarrow> bool \<Rightarrow> u8 list \<Rightarrow> bool" where
  "side k a fd c eof rem \<longleftrightarrow> current k a \<and> 2 \<le> fd \<and> fd < PCB_SIZE \<and> table_ptr (fds k a fd) = REG_FILE_opt_table \<and>
     (if eof then c = NL \<and> rem = []
      else reg_open k a fd \<and> rem = drop (snd (stream k a fd)) (fst (stream k a fd)))"

definition line_left :: "u8 \<Rightarrow> u8 list \<Rightarrow> u8 list" where
  "line_left c rem = (if c = NL then [] else takeWhile (\<lambda>c. c \<noteq> NL) rem)"

definition line_end :: "u8 \<Rightarrow> bool \<Rightarrow> u8 list \<Rightarrow> bool \<times> u8 list" where
  "line_end c eof rem = (if c = NL then (eof, rem) else (NL \<notin> set rem, tl (dropWhile (\<lambda>c. c \<noteq> NL) rem)))"

definition step_char :: "u8 \<Rightarrow> bool \<Rightarrow> u8 list \<Rightarrow> u8 \<times> bool \<times> u8 list" where
  "step_char c eof rem = (if c = NL then (c, eof, rem) else case rem of [] \<Rightarrow> (NL, True, []) | x # xs \<Rightarrow> (x, eof, xs))"

lemma side_other:
  assumes "fd \<noteq> fd'"
  shows "side (set_fd a fd g k) a fd' c eof rem = side k a fd' c eof rem"
  using assms by (simp add: side_def reg_open_def stream_def)

lemma side_tty:
  assumes "same_turn (ktty k) t"
  shows "side (k\<lparr>ktty := t\<rparr>) a fd c eof rem = side k a fd c eof rem"
  using current_tty [OF assms] by (simp add: side_def reg_open_def stream_def)

lemma step_char_left:
  assumes "step_char c eof rem = (c', eof', rem')" "eof \<longrightarrow> c = NL"
  shows "line_left c' rem' = tl (line_left c rem)" "c' = NL \<longleftrightarrow> line_left c rem = []"
    "(if c' = NL then 0x20 else c') = first_char (line_left c rem)" "line_end c' eof' rem' = line_end c eof rem"
  using assms by (auto simp: step_char_def line_left_def line_end_def first_char_def split: list.splits if_splits)

lemma next_char_side:
  assumes s: "side k a fd c eof rem" and st: "step_char c eof rem = (c', eof', rem')"
  shows "\<exists>g k'. next_char e (int fd) c eof k = Some (Returns (c', eof', k')) \<and> (k' = k \<or> k' = set_fd a fd g k) \<and>
    side k' a fd c' eof' rem'"
proof (cases "c = NL")
  case True
  then show ?thesis using s st by (auto simp: next_char_def step_char_def)
next
  case False
  note h = s [unfolded side_def]
  have o: "reg_open k a fd" "\<not> eof" and rem: "rem = drop (snd (stream k a fd)) (fst (stream k a fd))"
    using h False by (simp_all split: if_splits)
  obtain cs q where cq: "stream k a fd = (cs, q)" by (cases "stream k a fd")
  let ?out = "take 1 rem"
  obtain k' where k': "sys_read (u_call e) (u_irqs e) (u_ticks e) (int fd) (Some [c]) (int 1) k =
        Some (Returns (int (length ?out), Some (?out @ drop (length ?out) [c]), k'))"
      "reg_open k' a fd" "stream k' a fd = (cs, q + min 1 (length cs - q))"
    using sys_read_stream [OF o(1), of 1 "[c]" ?out "(cs, q + min 1 (length cs - q))" "u_call e" "u_irqs e" "u_ticks e"]
      rem cq by (auto simp del: length_take)
  have fd: "fd < PCB_SIZE" "fd \<noteq> 1" "reg_fd (fds k a fd)" "current k a" using o(1) by (auto simp: reg_open_def)
  obtain g where g: "k' = set_fd a fd g k" "table_ptr g = REG_FILE_opt_table"
    using sys_read_reg [OF fd(4,1,2,3), of "int 1" "u_call e" "u_irqs e" "u_ticks e" "[c]"] k'(1) h
    by (auto split: option.splits prod.splits)
  have "drop (q + min 1 (length cs - q)) cs = tl rem"
    unfolding rem cq by (cases "q < length cs") (simp_all add: drop_Suc drop_tl)
  then have "side k' a fd c' eof' rem'"
    using h st k'(2,3) g False o(2) by (auto simp: side_def step_char_def split: list.splits)
  moreover have "next_char e (int fd) c eof k = Some (Returns (c', eof', k'))"
    using k'(1) st False o(2) by (cases rem) (simp_all add: next_char_def ece391_read_def step_char_def buf_get_def)
  ultimately show ?thesis using g(1) by blast
qed

section \<open>Adding the characters\<close>

text \<open>The state of the program and the screen while the frames are added.\<close>

definition framed :: "frame_env \<Rightarrow> nat \<Rightarrow> fish \<Rightarrow> tty \<Rightarrow> blink list \<Rightarrow> bool" where
  "framed e p f t bs \<longleftrightarrow> blink_list f bs \<and> window (f_tables e) (vmem_base_addr f) p t"

lemma same_turn_draw: "same_turn t (draw p off c t)" "same_turn t t"
  by (simp_all add: same_turn_def draw_def)

lemma add_shown:
  assumes "framed e p f t bs" "location b \<noteq> 0"
  shows "\<exists>r f' t'. mp1_ioctl (f_tables e) (Address b) 0 f t = Some (r, Address b, f', t') \<and>
    framed e p f' t' (fst (show_blink p b (bs, t))) \<and> t' = snd (show_blink p b (bs, t)) \<and> same_turn t t'"
proof -
  obtain xs where xs: "nodes_ok f xs" "bs = contents f xs" "window (f_tables e) (vmem_base_addr f) p t"
    using assms(1) by (auto simp: framed_def blink_list_def)
  obtain r bs' where r: "add_blink b bs = (r, bs')" by (cases "add_blink b bs")
  obtain f' xs' where "mp1_ioctl_add (f_tables e) b f t = Some (r, f', if r = 0 then draw p (blink_cell b) (on_char b) t else t)"
      "nodes_ok f' xs'" "contents f' xs' = bs'" "vmem_base_addr f' = vmem_base_addr f"
    using add_refines [OF xs(1,3) assms(2)] r xs(2) by blast
  then show ?thesis
    using r xs(3) same_turn_draw by (auto simp: mp1_ioctl_def show_blink_def framed_def blink_list_def)
qed

lemma show_pair_shown:
  assumes "framed e p f (ktty k) bs"
    and a: "a = (if c0 = NL then 0x20 else c0)" and b: "b = (if c1 = NL then 0x20 else c1)"
    and new: "new = (if a \<noteq> 0x20 \<or> b \<noteq> 0x20 then [cell_blink e row col a b] else [])" "\<forall>x \<in> set new. location x \<noteq> 0"
  shows "\<exists>f' t'. show_pair e row col c0 c1 f k = Some (f', k\<lparr>ktty := t'\<rparr>) \<and>
    framed e p f' t' (fst (fold (show_blink p) new (bs, ktty k))) \<and> t' = snd (fold (show_blink p) new (bs, ktty k)) \<and>
    same_turn (ktty k) t'"
proof -
  have e: "blink_at e row col c0 c1 = cell_blink e row col a b" by (simp add: blink_at_def cell_blink_def a b)
  have c: "(c0 \<noteq> 0x20 \<and> c0 \<noteq> NL \<or> c1 \<noteq> 0x20 \<and> c1 \<noteq> NL) = (a \<noteq> 0x20 \<or> b \<noteq> 0x20)" by (auto simp: a b)
  show ?thesis
  proof (cases "a \<noteq> 0x20 \<or> b \<noteq> 0x20")
    case True
    then have "new = [cell_blink e row col a b]" using new(1) by simp
    then show ?thesis
      using add_shown [OF assms(1), of "cell_blink e row col a b"] new(2) True unfolding show_pair_def e c by auto
  next
    case False
    then have "new = []" "show_pair e row col c0 c1 f k = Some (f, k)" using new(1) unfolding show_pair_def c by auto
    then show ?thesis using assms(1) same_turn_draw(2) by (intro exI [of _ f] exI [of _ "ktty k"]) simp
  qed
qed

text \<open>What reading two files leaves alone.\<close>

definition untouched :: "kernel \<Rightarrow> kernel \<Rightarrow> u32 \<Rightarrow> nat set \<Rightarrow> bool" where
  "untouched k k' a I \<longleftrightarrow> krtc k' = krtc k \<and> (\<forall>d. d \<notin> I \<longrightarrow> fds k' a d = fds k a d)"

lemma untouched_trans: "untouched k k1 a I \<Longrightarrow> untouched k1 k2 a I \<Longrightarrow> untouched k k2 a I"
  by (simp add: untouched_def)

lemma untouched_steps [simp]:
  "untouched k k a I" "fd \<in> I \<Longrightarrow> untouched k (set_fd a fd g k) a I" "untouched k (k\<lparr>ktty := t\<rparr>) a I"
  by (auto simp: untouched_def)

lemma untouched_or: "k' = k \<or> k' = set_fd a fd g k \<Longrightarrow> fd \<in> I \<Longrightarrow> untouched k k' a I"
  by auto

lemma frame_row_shows:
  assumes "side k a fd0 c0 eof0 rem0" "side k a fd1 c1 eof1 rem1" "fd0 \<noteq> fd1" "framed e p f (ktty k) bs"
    and "\<forall>b \<in> set (line_blinks e row col (line_left c0 rem0) (line_left c1 rem1)). location b \<noteq> 0"
    and "line_end c0 eof0 rem0 = (eof0', rem0')" "line_end c1 eof1 rem1 = (eof1', rem1')"
    and "fold (show_blink p) (line_blinks e row col (line_left c0 rem0) (line_left c1 rem1)) (bs, ktty k) = (bs', t')"
  shows "\<exists>f' k'. frame_row e (int fd0) (int fd1) row col c0 c1 eof0 eof1 f k = Some (Returns (eof0', eof1', f', k')) \<and>
    framed e p f' t' bs' \<and> ktty k' = t' \<and> kfs k' = kfs k \<and> side k' a fd0 NL eof0' rem0' \<and> side k' a fd1 NL eof1' rem1' \<and>
    untouched k k' a {fd0, fd1}"
  using assms
proof (induction "length (line_left c0 rem0) + length (line_left c1 rem1)" arbitrary: k col c0 eof0 rem0 c1 eof1 rem1 f bs rule: less_induct)
  case less
  obtain d0 h0 r0 where st0: "step_char c0 eof0 rem0 = (d0, h0, r0)" by (metis prod_cases3)
  obtain d1 h1 r1 where st1: "step_char c1 eof1 rem1 = (d1, h1, r1)" by (metis prod_cases3)
  have eof: "eof0 \<longrightarrow> c0 = NL" "eof1 \<longrightarrow> c1 = NL" using less.prems(1,2) by (auto simp: side_def)
  note left0 = step_char_left [OF st0 eof(1)] and left1 = step_char_left [OF st1 eof(2)]
  obtain g0 k0 where k0: "next_char (user_env.truncate e) (int fd0) c0 eof0 k = Some (Returns (d0, h0, k0))"
      "k0 = k \<or> k0 = set_fd a fd0 g0 k" "side k0 a fd0 d0 h0 r0"
    using next_char_side [OF less.prems(1) st0] by blast
  have s1: "side k0 a fd1 c1 eof1 rem1" using k0(2) less.prems(2,3) side_other by blast
  obtain g1 k1 where k1: "next_char (user_env.truncate e) (int fd1) c1 eof1 k0 = Some (Returns (d1, h1, k1))"
      "k1 = k0 \<or> k1 = set_fd a fd1 g1 k0" "side k1 a fd1 d1 h1 r1"
    using next_char_side [OF s1 st1] by blast
  have s0: "side k1 a fd0 d0 h0 r0" using k1(2) k0(3) less.prems(3) side_other by metis
  have same: "ktty k1 = ktty k" "kfs k1 = kfs k" using k0(2) k1(2) by auto
  have un: "untouched k k1 a {fd0, fd1}"
    using untouched_or [OF k0(2), of "{fd0, fd1}"] untouched_or [OF k1(2), of "{fd0, fd1}"] untouched_trans by simp
  show ?case
  proof (cases "d0 = NL \<and> d1 = NL")
    case True
    then have e: "line_left c0 rem0 = []" "line_left c1 rem1 = []" using left0(2) left1(2) by auto
    then have "bs' = bs" "t' = ktty k" using less.prems(8) by (simp_all add: line_blinks.simps)
    moreover have "h0 = eof0'" "r0 = rem0'" "h1 = eof1'" "r1 = rem1'"
      using left0(4) left1(4) True less.prems(6,7) by (simp_all add: line_end_def)
    moreover have "frame_row e (int fd0) (int fd1) row col c0 c1 eof0 eof1 f k = Some (Returns (h0, h1, f, k1))"
      using k0(1) k1(1) True by (subst frame_row.simps) simp
    ultimately show ?thesis using s0 k1(3) True same less.prems(4) un by auto
  next
    case False
    let ?l0 = "line_left c0 rem0" and ?l1 = "line_left c1 rem1"
    let ?new = "if first_char ?l0 \<noteq> 0x20 \<or> first_char ?l1 \<noteq> 0x20 then [cell_blink e row col (first_char ?l0) (first_char ?l1)] else []"
    have ne: "\<not> (?l0 = [] \<and> ?l1 = [])" using False left0(2) left1(2) by auto
    then have lb: "line_blinks e row col ?l0 ?l1 = ?new @ line_blinks e row (col + 1) (tl ?l0) (tl ?l1)"
      by (subst line_blinks.simps) (simp only: ne if_False)
    have "framed e p f (ktty k1) bs" using less.prems(4) same by simp
    moreover have "\<forall>x \<in> set ?new. location x \<noteq> 0" using less.prems(5) unfolding lb by auto
    ultimately obtain f2 t2 where 2: "show_pair e row col d0 d1 f k1 = Some (f2, k1\<lparr>ktty := t2\<rparr>)"
        "framed e p f2 t2 (fst (fold (show_blink p) ?new (bs, ktty k1)))" "t2 = snd (fold (show_blink p) ?new (bs, ktty k1))"
        "same_turn (ktty k1) t2"
      using show_pair_shown [OF _ left0(3) [symmetric] left1(3) [symmetric] refl] by blast
    let ?k2 = "k1\<lparr>ktty := t2\<rparr>" and ?bs2 = "fst (fold (show_blink p) ?new (bs, ktty k1))"
    have lt: "length (line_left d0 r0) + length (line_left d1 r1) < length ?l0 + length ?l1"
      using ne left0(1) left1(1) by (cases ?l0; cases ?l1) auto
    have p: "side ?k2 a fd0 d0 h0 r0" "side ?k2 a fd1 d1 h1 r1" using s0 k1(3) side_tty [OF 2(4)] by simp_all
    have fr: "framed e p f2 (ktty ?k2) ?bs2" using 2(2) by simp
    have ok: "\<forall>b \<in> set (line_blinks e row (col + 1) (line_left d0 r0) (line_left d1 r1)). location b \<noteq> 0"
      using less.prems(5) unfolding lb left0(1) left1(1) by auto
    have fo: "fold (show_blink p) (line_blinks e row (col + 1) (line_left d0 r0) (line_left d1 r1)) (?bs2, ktty ?k2) = (bs', t')"
      using less.prems(8) 2(3) same(1) unfolding lb left0(1) left1(1) by simp
    have le: "line_end d0 h0 r0 = (eof0', rem0')" "line_end d1 h1 r1 = (eof1', rem1')"
      using left0(4) left1(4) less.prems(6,7) by simp_all
    obtain f3 k3 where 3: "frame_row e (int fd0) (int fd1) row (col + 1) d0 d1 h0 h1 f2 ?k2 = Some (Returns (eof0', eof1', f3, k3))"
        "framed e p f3 t' bs'" "ktty k3 = t'" "kfs k3 = kfs ?k2" "side k3 a fd0 NL eof0' rem0'" "side k3 a fd1 NL eof1' rem1'"
        "untouched ?k2 k3 a {fd0, fd1}"
      using less.hyps [OF lt p less.prems(3) fr ok le fo] by blast
    have "frame_row e (int fd0) (int fd1) row col c0 c1 eof0 eof1 f k = Some (Returns (eof0', eof1', f3, k3))"
      using k0(1) k1(1) False 2(1) 3(1) by (subst frame_row.simps) auto
    moreover have "untouched k k3 a {fd0, fd1}"
      by (rule untouched_trans [OF untouched_trans [OF un untouched_steps(3)] 3(7)])
    ultimately show ?thesis using 3(2-6) same(2) by auto
  qed
qed

section \<open>All rows\<close>

definition lines_left :: "bool \<Rightarrow> u8 list \<Rightarrow> u8 list list" where
  "lines_left eof rem = (if eof then [] else split_lines rem)"

definition row_char :: "bool \<Rightarrow> u8" where
  "row_char eof = (if eof then NL else of_char CHR ''0'')"

lemma lines_left_step:
  assumes "line_end (row_char eof) eof rem = (eof', rem')"
  shows "line_left (row_char eof) rem = first_line (lines_left eof rem)" "lines_left eof' rem' = tl (lines_left eof rem)"
proof -
  have "of_char CHR ''0'' \<noteq> NL" by simp
  then have "line_left (row_char eof) rem = first_line (lines_left eof rem) \<and> lines_left eof' rem' = tl (lines_left eof rem)"
    using assms split_lines_rec [of rem]
    by (cases eof) (auto simp: line_left_def line_end_def lines_left_def row_char_def first_line_def)
  then show "line_left (row_char eof) rem = first_line (lines_left eof rem)" "lines_left eof' rem' = tl (lines_left eof rem)"
    by simp_all
qed

lemma end_row_side:
  assumes "side k a fd NL eof rem"
  shows "\<exists>g k'. end_row (int fd) eof k = Some (row_char eof, k') \<and> (k' = k \<or> k' = set_fd a fd g k) \<and>
    side k' a fd (row_char eof) eof rem"
proof (cases eof)
  case True
  have "current k a" "2 \<le> fd" "fd < PCB_SIZE" "table_ptr (fds k a fd) = REG_FILE_opt_table"
    using assms by (simp_all add: side_def)
  then show ?thesis
    using assms True sys_close_eq [of k a "int fd"] by (auto simp: end_row_def row_char_def side_def)
next
  case False
  then show ?thesis using assms by (simp add: end_row_def row_char_def side_def)
qed

lemma frame_rows_show:
  assumes "side k a fd0 (row_char eof0) eof0 rem0" "side k a fd1 (row_char eof1) eof1 rem1" "fd0 \<noteq> fd1"
    and "framed e p f (ktty k) bs"
    and "\<forall>b \<in> set (text_blinks e row (lines_left eof0 rem0) (lines_left eof1 rem1)). location b \<noteq> 0"
    and "fold (show_blink p) (text_blinks e row (lines_left eof0 rem0) (lines_left eof1 rem1)) (bs, ktty k) = (bs', t')"
  shows "\<exists>f' k'. frame_rows e (int fd0) (int fd1) row (row_char eof0) (row_char eof1) eof0 eof1 f k = Some (Returns (f', k')) \<and>
    framed e p f' t' bs' \<and> ktty k' = t' \<and> kfs k' = kfs k \<and> untouched k k' a {fd0, fd1} \<and> current k' a"
  using assms
proof (induction "length (lines_left eof0 rem0) + length (lines_left eof1 rem1)" arbitrary: k row eof0 rem0 eof1 rem1 f bs rule: less_induct)
  case less
  let ?L0 = "lines_left eof0 rem0" and ?L1 = "lines_left eof1 rem1"
  show ?case
  proof (cases "eof0 \<and> eof1")
    case True
    then have "?L0 = []" "?L1 = []" by (simp_all add: lines_left_def)
    then have "bs' = bs" "t' = ktty k" using less.prems(6) by (simp_all add: text_blinks.simps)
    then show ?thesis using True less.prems(1,4) by (subst frame_rows.simps) (simp add: side_def)
  next
    case False
    then have ne: "\<not> (?L0 = [] \<and> ?L1 = [])" using split_lines_rec by (auto simp: lines_left_def)
    obtain h0 r0 where e0: "line_end (row_char eof0) eof0 rem0 = (h0, r0)" by (metis surj_pair)
    obtain h1 r1 where e1: "line_end (row_char eof1) eof1 rem1 = (h1, r1)" by (metis surj_pair)
    note l0 = lines_left_step [OF e0] and l1 = lines_left_step [OF e1]
    have tb: "text_blinks e row ?L0 ?L1 =
        line_blinks e row 0 (first_line ?L0) (first_line ?L1) @ text_blinks e (row + 1) (tl ?L0) (tl ?L1)"
      by (subst text_blinks.simps) (simp only: ne if_False)
    obtain bs1 t1 where m: "fold (show_blink p) (line_blinks e row 0 (first_line ?L0) (first_line ?L1)) (bs, ktty k) = (bs1, t1)"
      by (metis surj_pair)
    have ok: "\<forall>b \<in> set (line_blinks e row 0 (line_left (row_char eof0) rem0) (line_left (row_char eof1) rem1)). location b \<noteq> 0"
      using less.prems(5) unfolding tb l0(1) l1(1) by auto
    obtain f1 k1 where 1: "frame_row e (int fd0) (int fd1) row 0 (row_char eof0) (row_char eof1) eof0 eof1 f k =
          Some (Returns (h0, h1, f1, k1))"
        "framed e p f1 t1 bs1" "ktty k1 = t1" "kfs k1 = kfs k" "side k1 a fd0 NL h0 r0" "side k1 a fd1 NL h1 r1"
        "untouched k k1 a {fd0, fd1}"
      using frame_row_shows [OF less.prems(1-4) ok e0 e1] m unfolding l0(1) l1(1) by blast
    obtain g2 k2 where 2: "end_row (int fd0) h0 k1 = Some (row_char h0, k2)" "k2 = k1 \<or> k2 = set_fd a fd0 g2 k1"
        "side k2 a fd0 (row_char h0) h0 r0"
      using end_row_side [OF 1(5)] by blast
    have "side k2 a fd1 NL h1 r1" using 2(2) 1(6) less.prems(3) side_other by blast
    then obtain g3 k3 where 3: "end_row (int fd1) h1 k2 = Some (row_char h1, k3)" "k3 = k2 \<or> k3 = set_fd a fd1 g3 k2"
        "side k3 a fd1 (row_char h1) h1 r1"
      using end_row_side by blast
    have s0: "side k3 a fd0 (row_char h0) h0 r0" using 3(2) 2(3) less.prems(3) side_other by metis
    have same: "ktty k3 = t1" "kfs k3 = kfs k" using 2(2) 3(2) 1(3,4) by auto
    have lt: "length (lines_left h0 r0) + length (lines_left h1 r1) < length ?L0 + length ?L1"
      using ne l0(2) l1(2) by (cases ?L0; cases ?L1) auto
    have "framed e p f1 (ktty k3) bs1" using 1(2) same by simp
    moreover have "\<forall>b \<in> set (text_blinks e (row + 1) (lines_left h0 r0) (lines_left h1 r1)). location b \<noteq> 0"
      using less.prems(5) unfolding tb l0(2) l1(2) by auto
    moreover have "fold (show_blink p) (text_blinks e (row + 1) (lines_left h0 r0) (lines_left h1 r1)) (bs1, ktty k3) = (bs', t')"
      using less.prems(6) m same unfolding tb l0(2) l1(2) by simp
    ultimately obtain f4 k4 where 4: "frame_rows e (int fd0) (int fd1) (row + 1) (row_char h0) (row_char h1) h0 h1 f1 k3 =
          Some (Returns (f4, k4))" "framed e p f4 t' bs'" "ktty k4 = t'" "kfs k4 = kfs k3" "untouched k3 k4 a {fd0, fd1}" "current k4 a"
      using less.hyps [OF lt s0 3(3) less.prems(3)] by blast
    have "frame_rows e (int fd0) (int fd1) row (row_char eof0) (row_char eof1) eof0 eof1 f k = Some (Returns (f4, k4))"
      using 1(1) 2(1) 3(1) 4(1) False by (subst frame_rows.simps) auto
    moreover have "untouched k k4 a {fd0, fd1}"
      using 1(7) untouched_or [OF 2(2), of "{fd0, fd1}"] untouched_or [OF 3(2), of "{fd0, fd1}"] 4(5)
      by (blast intro: untouched_trans)
    ultimately show ?thesis using 4(2-4,6) same(2) by auto
  qed
qed

section \<open>The frames\<close>

text \<open>A regular file with its name and contents.\<close>

definition text_file :: "fs \<Rightarrow> u8 list \<Rightarrow> u8 list \<Rightarrow> bool" where
  "text_file fs name c \<longleftrightarrow> name \<noteq> [] \<and> length name < MAX_NAME_LEN \<and> 0 \<notin> set name \<and> NL \<notin> set name \<and>
     (\<exists>i n. find_from (dir_names fs) name 0 = Some i \<and> file_type (dentry_array fs i) = REGULAR_FILE_TYPE \<and>
       inode_num (dentry_array fs i) = n \<and> n \<noteq> -1 \<and> unat n < unat (Num_Inodes fs) \<and>
       inode_ok fs (inode_ptr fs (unat n)) \<and> unat (inode_length (inode_ptr fs (unat n))) < MAX_NUM_DATA_BLK * BLK_SIZE \<and>
       c = file_contents fs (unat n))"

lemma open_text_file:
  assumes cur: "current k a" and ok: "dir_ok (kfs k)" "locals_ok (u_call e)" and t: "text_file (kfs k) name c"
    and fd: "free_fd (fds k a) 2 = Some fd"
  shows "\<exists>g. ece391_open e (name @ [0]) k = Some (int fd, set_fd a fd g k) \<and> flg g = FD_BUSY \<and>
    side (set_fd a fd g k) a fd (row_char False) False c"
proof -
  note n = t [unfolded text_file_def]
  obtain i m where i: "find_from (dir_names (kfs k)) name 0 = Some i"
      "file_type (dentry_array (kfs k) i) = REGULAR_FILE_TYPE" "inode_num (dentry_array (kfs k) i) = m"
      "m \<noteq> -1" "unat m < unat (Num_Inodes (kfs k))" "inode_ok (kfs k) (inode_ptr (kfs k) (unat m))"
      "unat (inode_length (inode_ptr (kfs k) (unat m))) < MAX_NUM_DATA_BLK * BLK_SIZE" "c = file_contents (kfs k) (unat m)"
    using n by (elim exE conjE) (rule that; assumption)
  have "cstr (name @ [0]) = name" using cstr_append_nul [of name "[]"] n by simp
  then have cn: "clean_name (name @ [0]) = name" using n by (auto simp: clean_name_def takeWhile_eq_all_conv)
  let ?g = "(fds k a fd)\<lparr>table_ptr := REG_FILE_opt_table, file_pos := 0, flg := FD_BUSY, fd_inode := m\<rparr>"
  have ty: "opt_table_of (file_type (dentry_array (kfs k) i)) = Some REG_FILE_opt_table" using i(2) by (simp add: opt_table_of_def)
  have nt: "nul_terminated (name @ [0])" by (simp add: nul_terminated_def)
  have "sys_open (u_call e) (Some (name @ [0])) k = Some (int fd, set_fd a fd ?g k)"
    using sys_open_existing [OF cur ok nt _ _ _ ty fd] cn n i(1,3) by auto
  moreover have "side (set_fd a fd ?g k) a fd (row_char False) False c"
    using cur i(4-8) free_fd_SomeD [OF fd] by (simp add: side_def reg_open_def reg_fd_def stream_def)
  ultimately show ?thesis by (intro exI [of _ ?g]) (simp add: ece391_open_def)
qed

text \<open>The frames, with what the rest of the program needs to know: which descriptors were used.\<close>

lemma add_frames_shows:
  assumes "current k a" "dir_ok (kfs k)" "locals_ok (u_call e)" "text_file (kfs k) n0 c0" "text_file (kfs k) n1 c1"
    and free: "2 \<le> i" "i < j" "j < PCB_SIZE" "flg (fds k a i) \<noteq> FD_BUSY" "flg (fds k a j) \<noteq> FD_BUSY"
    and screen: "framed e p f (ktty k) bs"
    and new: "new = text_blinks e 0 (split_lines c0) (split_lines c1)" "\<forall>b \<in> set new. location b \<noteq> 0"
    and r: "fold (show_blink p) new (bs, ktty k) = (bs', t')"
  shows "\<exists>f' k' I. add_frames e (n0 @ [0]) (n1 @ [0]) f k = Some (Returns (Filled f' k')) \<and> kfs k' = kfs k \<and>
    framed e p f' t' bs' \<and> ktty k' = t' \<and> untouched k k' a I \<and> current k' a \<and> (\<forall>d \<in> I. flg (fds k a d) \<noteq> FD_BUSY)"
proof -
  let ?e = "user_env.truncate e"
  have l: "locals_ok (u_call ?e)" using assms(3) by (simp add: user_env.defs)
  obtain fd0 where fd0: "free_fd (fds k a) 2 = Some fd0"
    using fd_slots.pick_none_iff [of "fds k a"] free by (cases "free_fd (fds k a) 2") auto
  obtain g0 where g0: "ece391_open ?e (n0 @ [0]) k = Some (int fd0, set_fd a fd0 g0 k)" "flg g0 = FD_BUSY"
      "side (set_fd a fd0 g0 k) a fd0 (row_char False) False c0"
    using open_text_file [OF assms(1,2) l assms(4) fd0] by blast
  let ?k0 = "set_fd a fd0 g0 k"
  have "\<exists>i'. 2 \<le> i' \<and> i' < PCB_SIZE \<and> flg (fds ?k0 a i') \<noteq> FD_BUSY"
    using free by (cases "fd0 = i") (force simp: g0(2))+
  then obtain fd1 where fd1: "free_fd (fds ?k0 a) 2 = Some fd1"
    using fd_slots.pick_none_iff [of "fds ?k0 a"] by (cases "free_fd (fds ?k0 a) 2") auto
  have ne: "fd0 \<noteq> fd1" using free_fd_SomeD [OF fd1] g0(2) by auto
  obtain g1 where g1: "ece391_open ?e (n1 @ [0]) ?k0 = Some (int fd1, set_fd a fd1 g1 ?k0)"
      "side (set_fd a fd1 g1 ?k0) a fd1 (row_char False) False c1"
    using open_text_file [OF _ _ l _ fd1, of n1 c1] assms(1,2,5) by auto
  let ?k1 = "set_fd a fd1 g1 ?k0"
  have s0: "side ?k1 a fd0 (row_char False) False c0" using g0(3) side_other [OF ne [symmetric]] by simp
  have fr: "framed e p f (ktty ?k1) bs" using screen by simp
  have "\<exists>f' k'. frame_rows e (int fd0) (int fd1) 0 (row_char False) (row_char False) False False f ?k1 = Some (Returns (f', k')) \<and>
    framed e p f' t' bs' \<and> ktty k' = t' \<and> kfs k' = kfs ?k1 \<and> untouched ?k1 k' a {fd0, fd1} \<and> current k' a"
    using new r by (intro frame_rows_show [OF s0 g1(2) ne fr]) (simp_all add: lines_left_def)
  then obtain f' k' where fk: "frame_rows e (int fd0) (int fd1) 0 (row_char False) (row_char False) False False f ?k1 = Some (Returns (f', k'))"
      "framed e p f' t' bs'" "ktty k' = t'" "kfs k' = kfs ?k1" "untouched ?k1 k' a {fd0, fd1}" "current k' a"
    by blast
  have "untouched k ?k1 a {fd0, fd1}" by (auto simp: untouched_def)
  then have "untouched k k' a {fd0, fd1}" using fk(5) untouched_trans by blast
  moreover have "\<forall>d \<in> {fd0, fd1}. flg (fds k a d) \<noteq> FD_BUSY"
    using free_fd_SomeD [OF fd0] free_fd_SomeD [OF fd1] ne by auto
  ultimately show ?thesis using g0(1) g1(1) fk(1-4,6)
    by (intro exI [of _ f'] exI [of _ k'] exI [of _ "{fd0, fd1}"]) (simp add: add_frames_def row_char_def)
qed

text \<open>
  C16. The frames reach the screen: with both files present and two descriptors free, \<open>add_frames\<close> ends,
  having added, line by line and column by column, a blinking character for every place that is not blank
  in both texts, with the characters of the two texts in it, and leaves the file system as it was. The
  shorter lines, the shorter text and a missing last newline are filled up with blanks.
\<close>

theorem frames_on_screen:
  assumes "current k a" "dir_ok (kfs k)" "locals_ok (u_call e)" "text_file (kfs k) n0 c0" "text_file (kfs k) n1 c1"
    and free: "2 \<le> i" "i < j" "j < PCB_SIZE" "flg (fds k a i) \<noteq> FD_BUSY" "flg (fds k a j) \<noteq> FD_BUSY"
    and screen: "blink_list f bs" "window (f_tables e) (vmem_base_addr f) p (ktty k)"
    and new: "new = text_blinks e 0 (split_lines c0) (split_lines c1)" "\<forall>b \<in> set new. location b \<noteq> 0"
  shows "\<exists>f' k'. add_frames e (n0 @ [0]) (n1 @ [0]) f k = Some (Returns (Filled f' k')) \<and> kfs k' = kfs k \<and>
    blink_list f' (fst (fold (show_blink p) new (bs, ktty k))) \<and> ktty k' = snd (fold (show_blink p) new (bs, ktty k))"
proof -
  obtain bs' t' where r: "fold (show_blink p) new (bs, ktty k) = (bs', t')" by (metis surj_pair)
  have "framed e p f (ktty k) bs" using screen by (simp add: framed_def)
  from add_frames_shows [OF assms(1-10) this new r] show ?thesis unfolding r by (auto simp: framed_def)
qed

definition demo_frame_env :: frame_env where
  "demo_frame_env = \<lparr>u_call = demo_call, u_irqs = [], u_ticks = 0, u_exec = demo_locals,
     f_tables = (0x410000, 0x411000), f_start = 0x8000010, f_blink = zero_blink, f_garbage = []\<rparr>"

lemma demo_window_turn: "same_turn demo_tty demo_window"
  by (simp add: same_turn_def demo_window_def vidmap_def Let_def)

theorem frames_on_screen_witness:
  "\<exists>f' k'. add_frames demo_frame_env (c_string ''frame'') (c_string ''frame'') demo_fish (demo_user\<lparr>ktty := demo_window\<rparr>) =
     Some (Returns (Filled f' k')) \<and> vram (ktty k') 0 84 = of_char CHR ''C''"
proof -
  let ?k = "demo_user\<lparr>ktty := demo_window\<rparr>"
  let ?new = "text_blinks demo_frame_env 0 (split_lines (ascii ''ABCDE'')) (split_lines (ascii ''ABCDE''))"
  have cur: "current ?k pcb0" using current_tty [of demo_user demo_window] demo_window_turn demo_user_ok(1) by simp
  have "find_from (dir_names demo_fs) (ascii ''frame'') 0 = Some 0" by (simp add: find_from_def)
  moreover have "inode_ok demo_fs (demo_inodes 0)" using fs_inv_inode_ok [OF demo_inv, of 0] by simp
  ultimately have t: "text_file (kfs ?k) (ascii ''frame'') (ascii ''ABCDE'')"
    by (auto simp: text_file_def demo_entry_def demo_inodes_def)
  have new: "?new = map (\<lambda>i. cell_blink demo_frame_env 0 i (word_of_int (0x41 + i)) (word_of_int (0x41 + i))) [0, 1, 2, 3, 4]"
    by (simp add: text_blinks.simps line_blinks.simps first_line_def first_char_def)
  then have "\<forall>b \<in> set ?new. location b \<noteq> 0" by (simp add: cell_blink_def)
  moreover have "flg (fds ?k pcb0 i) \<noteq> FD_BUSY" if "i = 2 \<or> i = 3" for i using that by auto
  moreover have "window (f_tables demo_frame_env) (vmem_base_addr demo_fish) 0 (ktty ?k)"
    using demo_window_ok by (simp add: demo_frame_env_def)
  moreover have "locals_ok (u_call demo_frame_env)" by (simp add: demo_frame_env_def)
  ultimately have "\<exists>f' k'. add_frames demo_frame_env (ascii ''frame'' @ [0]) (ascii ''frame'' @ [0]) demo_fish ?k =
      Some (Returns (Filled f' k')) \<and> ktty k' = snd (fold (show_blink 0) ?new ([], demo_window))"
    using frames_on_screen [OF cur _ _ t t, of demo_frame_env 2 3 demo_fish "[]" 0 ?new] demo_fish_ok(2) by auto
  moreover have "vram (snd (fold (show_blink 0) ?new ([], demo_window))) 0 84 = of_char CHR ''C''"
    unfolding new by (simp add: show_blink_def add_blink_def cell_blink_def blink_cell_def)
  ultimately show ?thesis by auto
qed

section \<open>A missing frame\<close>

text \<open>A descriptor whose reads fail, because its file is missing or because it has been closed.\<close>

definition stuck :: "kernel \<Rightarrow> u32 \<Rightarrow> nat \<Rightarrow> bool" where
  "stuck k a fd \<longleftrightarrow> current k a \<and> 2 \<le> fd \<and> fd < PCB_SIZE \<and> table_ptr (fds k a fd) = REG_FILE_opt_table \<and>
     (if fd_inode (fds k a fd) = -1 then flg (fds k a fd) = FD_BUSY else flg (fds k a fd) = 0)"

lemma stuck_read:
  assumes "stuck k a fd"
  shows "\<exists>g k'. ece391_read e (int fd) [c] 1 k = Some (Returns (-1, Some [c], k')) \<and> (k' = k \<or> k' = set_fd a fd g k) \<and> stuck k' a fd"
proof -
  note s = assms [unfolded stuck_def]
  have l: "load_fd k a (int fd) = Some (fds k a fd)" using s by (simp add: load_fd_current)
  show ?thesis
  proof (cases "fd_inode (fds k a fd) = -1")
    case True
    then have "sys_close (int fd) k = Some (0, set_fd a fd ((fds k a fd)\<lparr>flg := 0, file_pos := 0, fd_inode := 0\<rparr>) k)"
      using s sys_close_eq [of k a "int fd"] by simp
    then show ?thesis
      using s True l currentD [of k a] by (simp add: ece391_read_def sys_read_def) (auto simp: stuck_def)
  next
    case False
    then show ?thesis using s l currentD [of k a] by (simp add: ece391_read_def sys_read_def stuck_def)
  qed
qed

lemma stuck_char:
  assumes "stuck k a fd" "c \<noteq> NL"
  shows "\<exists>g k'. next_char e (int fd) c eof k = Some (Returns (c, eof, k')) \<and> (k' = k \<or> k' = set_fd a fd g k) \<and> stuck k' a fd"
  using stuck_read [OF assms(1), of e c] assms(2) by (auto simp: next_char_def buf_get_def)

lemma stuck_other: "fd \<noteq> fd' \<Longrightarrow> stuck (set_fd a fd g k) a fd' = stuck k a fd'"
  by (simp add: stuck_def)

lemma stuck_tty: "same_turn (ktty k) t \<Longrightarrow> stuck (k\<lparr>ktty := t\<rparr>) a fd = stuck k a fd"
  by (simp add: stuck_def current_tty)

lemma add_turn:
  assumes "mp1_ioctl_add pg b f t = Some (r, f', t')"
  shows "same_turn t t'"
proof -
  have "mp1_poke pg c off g t = Some u \<Longrightarrow> same_turn t u" for c off g u
    by (auto simp: mp1_poke_def user_store_def Let_def same_turn_def split: if_splits Option.bind_splits)
  then show ?thesis using assms same_turn_draw(2)
    by (auto simp: mp1_ioctl_add_def Let_def split: if_splits option.splits Option.bind_splits)
qed

lemma show_pair_turn:
  assumes "show_pair e row col c0 c1 f k = Some (f', k')"
  obtains t where "k' = k\<lparr>ktty := t\<rparr>" "same_turn (ktty k) t"
proof (cases "c0 \<noteq> 0x20 \<and> c0 \<noteq> NL \<or> c1 \<noteq> 0x20 \<and> c1 \<noteq> NL")
  case True
  then show ?thesis
    using assms that by (auto simp: show_pair_def mp1_ioctl_def split: Option.bind_splits intro: add_turn)
next
  case False
  then have "k' = k\<lparr>ktty := ktty k\<rparr>" using assms unfolding show_pair_def by auto
  then show ?thesis using that same_turn_draw(2) by blast
qed

lemma frame_row_stuck:
  assumes "stuck k a d0" "side k a d1 c1 eof1 rem" "d0 \<noteq> d1" "c0 \<noteq> NL"
  shows "frame_row e (int d0) (int d1) row col c0 c1 eof0 eof1 f k = None"
proof -
  let ?P = "\<lambda>fd0 fd1 c0 c1 eof1 k. fd0 = int d0 \<longrightarrow> fd1 = int d1 \<longrightarrow> stuck k a d0 \<longrightarrow> (\<exists>rem. side k a d1 c1 eof1 rem) \<longrightarrow> c0 = NL"
  have "?P fd0 fd1 c0 c1 eof1 k" if "frame_row e fd0 fd1 row col c0 c1 eof0 eof1 f k = Some y"
    for fd0 fd1 row col c0 c1 eof0 eof1 f k y
  proof (rule frame_row.raw_induct [where P = "\<lambda>_ fd0 fd1 _ _ c0 c1 _ eof1 _ k _. ?P fd0 fd1 c0 c1 eof1 k", rotated])
    show "frame_row e fd0 fd1 row col c0 c1 eof0 eof1 f k = Some y" by (rule that)
  next
    fix row_loop e fd0 fd1 row col c0 c1 eof0 eof1 f k
      and y :: "(bool \<times> bool \<times> fish \<times> kernel) waiting"
    assume ih: "\<And>e fd0 fd1 row col c0 c1 eof0 eof1 f k y.
        row_loop e fd0 fd1 row col c0 c1 eof0 eof1 f k = Some y \<Longrightarrow> ?P fd0 fd1 c0 c1 eof1 k"
      and body: "and_then (next_char (user_env.truncate e) fd0 c0 eof0 k) (\<lambda>(c0, eof0, k).
        and_then (next_char (user_env.truncate e) fd1 c1 eof1 k) (\<lambda>(c1, eof1, k).
          if c0 = NL \<and> c1 = NL then Some (Returns (eof0, eof1, f, k))
          else do {
            (f, k) \<leftarrow> show_pair e row col c0 c1 f k;
            row_loop e fd0 fd1 row (col + 1) c0 c1 eof0 eof1 f k
          })) = Some y"
    show "?P fd0 fd1 c0 c1 eof1 k"
    proof (intro impI, rule ccontr)
      assume fd: "fd0 = int d0" "fd1 = int d1" and s: "stuck k a d0" "\<exists>rem. side k a d1 c1 eof1 rem" "c0 \<noteq> NL"
      then obtain rem where r: "side k a d1 c1 eof1 rem" by blast
      obtain g0 k0 where 0: "next_char (user_env.truncate e) fd0 c0 eof0 k = Some (Returns (c0, eof0, k0))"
          "k0 = k \<or> k0 = set_fd a d0 g0 k" "stuck k0 a d0"
        using stuck_char [OF s(1,3)] unfolding fd by blast
      have "side k0 a d1 c1 eof1 rem" using 0(2) r assms(3) side_other by blast
      moreover obtain c1' eof1' rem' where st: "step_char c1 eof1 rem = (c1', eof1', rem')" by (metis prod_cases3)
      ultimately obtain g1 k1 where 1: "next_char (user_env.truncate e) fd1 c1 eof1 k0 = Some (Returns (c1', eof1', k1))"
          "k1 = k0 \<or> k1 = set_fd a d1 g1 k0" "side k1 a d1 c1' eof1' rem'"
        using next_char_side unfolding fd by blast
      have s1: "stuck k1 a d0" using 0(3) 1(2) assms(3) stuck_other by metis
      from body 0(1) 1(1) s(3) obtain f2 k2 where 2: "show_pair e row col c0 c1' f k1 = Some (f2, k2)"
          "row_loop e fd0 fd1 row (col + 1) c0 c1' eof0 eof1' f2 k2 = Some y"
        by (auto split: Option.bind_splits)
      obtain t where t: "k2 = k1\<lparr>ktty := t\<rparr>" "same_turn (ktty k1) t" by (rule show_pair_turn [OF 2(1)])
      have "stuck k2 a d0" "side k2 a d1 c1' eof1' rem'"
        using s1 1(3) stuck_tty [OF t(2)] side_tty [OF t(2)] unfolding t(1) by simp_all
      then show False using ih [OF 2(2)] fd s(3) by blast
    qed
  qed
  then show ?thesis using assms by (cases "frame_row e (int d0) (int d1) row col c0 c1 eof0 eof1 f k") blast+
qed

text \<open>
  \<open>open\<close> of a missing frame succeeds, every read of it fails, and the loop, which only looks for the
  result 0, reads for ever.
\<close>

lemma missing_frame_hangs:
  assumes "current k a" "dir_ok (kfs k)" "locals_ok (u_call e)" "text_file (kfs k) n1 c1"
    and "n0 \<noteq> []" "length n0 < MAX_NAME_LEN" "0 \<notin> set n0" "NL \<notin> set n0" "n0 \<notin> set (dir_names (kfs k))"
    and free: "2 \<le> i" "i < j" "j < PCB_SIZE" "flg (fds k a i) \<noteq> FD_BUSY" "flg (fds k a j) \<noteq> FD_BUSY"
    and names: "\<forall>i. length (fd_name (fds k a i)) = MAX_NAME_LEN"
  shows "add_frames e (n0 @ [0]) (n1 @ [0]) f k = None"
proof -
  let ?e = "user_env.truncate e"
  have l: "locals_ok (u_call ?e)" using assms(3) by (simp add: user_env.defs)
  obtain fd0 where fd0: "free_fd (fds k a) 2 = Some fd0"
    using fd_slots.pick_none_iff [of "fds k a"] free by (cases "free_fd (fds k a) 2") auto
  have "cstr (n0 @ [0]) = n0" using cstr_append_nul [of n0 "[]"] assms(7) by simp
  then have cn: "clean_name (n0 @ [0]) = n0" using assms(8) by (auto simp: clean_name_def takeWhile_eq_all_conv)
  obtain nm where nm: "sys_open (u_call ?e) (Some (n0 @ [0])) k = Some (int fd0,
      set_fd a fd0 ((fds k a fd0)\<lparr>table_ptr := REG_FILE_opt_table, file_pos := 0, fd_inode := -1,
         flg := FD_BUSY, fd_name := nm\<rparr>) k)"
    using sys_open_missing [OF assms(1,2) l _ _ _ _ fd0, of "n0 @ [0]"] cn assms(5,6,9) names by (auto simp: nul_terminated_def)
  let ?g = "(fds k a fd0)\<lparr>table_ptr := REG_FILE_opt_table, file_pos := 0, fd_inode := -1, flg := FD_BUSY, fd_name := nm\<rparr>"
  let ?k0 = "set_fd a fd0 ?g k"
  have st: "stuck ?k0 a fd0" using assms(1) free_fd_SomeD [OF fd0] by (simp add: stuck_def)
  have "\<exists>i'. 2 \<le> i' \<and> i' < PCB_SIZE \<and> flg (fds ?k0 a i') \<noteq> FD_BUSY"
    using free by (cases "fd0 = i") force+
  then obtain fd1 where fd1: "free_fd (fds ?k0 a) 2 = Some fd1"
    using fd_slots.pick_none_iff [of "fds ?k0 a"] by (cases "free_fd (fds ?k0 a) 2") auto
  have ne: "fd0 \<noteq> fd1" using free_fd_SomeD [OF fd1] by auto
  obtain g1 where g1: "ece391_open ?e (n1 @ [0]) ?k0 = Some (int fd1, set_fd a fd1 g1 ?k0)"
      "side (set_fd a fd1 g1 ?k0) a fd1 (row_char False) False c1"
    using open_text_file [OF _ _ l _ fd1, of n1 c1] assms(1,2,4) by auto
  have "stuck (set_fd a fd1 g1 ?k0) a fd0" using st stuck_other [OF ne [symmetric]] by simp
  from frame_row_stuck [OF this g1(2) ne, of "row_char False"]
  have "frame_row e (int fd0) (int fd1) 0 0 (row_char False) (row_char False) False False f (set_fd a fd1 g1 ?k0) = None"
    by (simp add: row_char_def)
  then have "frame_rows e (int fd0) (int fd1) 0 (row_char False) (row_char False) False False f (set_fd a fd1 g1 ?k0) = None"
    by (subst frame_rows.simps) simp
  then show ?thesis using nm g1(1) by (simp add: add_frames_def ece391_open_def row_char_def)
qed

end
