(* ===== verification/Clock_File.thy ===== *)
theory Clock_File
  imports User_Props Rtc
begin

text \<open>
  The clock as a program meets it: the file \<open>rtc\<close>, a write that sets the rate, and reads that wait for
  the next tick.
\<close>

text \<open>An open descriptor of the clock whose reads return within \<open>n\<close> interrupts.\<close>

definition clock_fd :: "kernel \<Rightarrow> u32 \<Rightarrow> nat \<Rightarrow> nat \<Rightarrow> bool" where
  "clock_fd k a fd n \<longleftrightarrow> current k a \<and> 2 \<le> fd \<and> fd < PCB_SIZE \<and> table_ptr (fds k a fd) = RTC_opt_table \<and>
     flg (fds k a fd) = FD_BUSY \<and> fd_inode (fds k a fd) \<noteq> -1 \<and>
     counter (krtc k) \<noteq> 0 \<and> unat (counter (krtc k)) \<le> n \<and> rtc_ct (krtc k) \<noteq> 0 \<and> unat (rtc_ct (krtc k)) \<le> n"

text \<open>
  The interrupt, counted from power on, that ends the period the clock is in. It stays the same while
  interrupts arrive, and every read moves it on by the period that the program has set.
\<close>

definition next_tick :: "rtc \<Rightarrow> nat" where
  "next_tick r = rtc_irqs r + unat (counter r)"

lemma next_tick_period [simp]: "next_tick (r\<lparr>rtc_ct := c\<rparr>) = next_tick r"
  by (simp add: next_tick_def)

lemma current_clock [simp]: "current (k\<lparr>krtc := r, kpic := p\<rparr>) a = current k a"
  by (simp add: current_def get_cur_pcb_addr_def)

lemma clock_read:
  assumes "clock_fd k a fd (u_ticks e)"
  shows "\<exists>r p. ece391_read e (int fd) b 4 k = Some (Returns (0, Some b, k\<lparr>krtc := r, kpic := p\<rparr>)) \<and>
    clock_fd (k\<lparr>krtc := r, kpic := p\<rparr>) a fd (u_ticks e) \<and>
    rtc_ct r = rtc_ct (krtc k) \<and> next_tick r = next_tick (krtc k) + unat (rtc_ct (krtc k))"
proof -
  note c = assms [unfolded clock_fd_def]
  obtain n where n: "unat (counter (krtc k)) = Suc n"
    using c by (cases "unat (counter (krtc k))") (simp_all add: unat_eq_zero)
  have "unat (counter (fst (krtc k, kpic k))) = Suc n" "n < u_ticks e" using n c by simp_all
  from rtc_read_eq [OF this(1), of "u_ticks e"] this(2) n
  obtain r p where rp: "rtc_read (u_ticks e) (krtc k, kpic k) = Returns (0, u_ticks e - Suc n, r, p)"
      "counter r = rtc_ct (krtc k)" "rtc_ct r = rtc_ct (krtc k)" "rtc_irqs r = rtc_irqs (krtc k) + unat (counter (krtc k))"
    by auto
  have "load_fd k a (int fd) = Some (fds k a fd)" using c by (simp add: load_fd_current)
  then show ?thesis
    using c rp currentD [of k a]
    by (intro exI [of _ r] exI [of _ p]) (simp add: ece391_read_def sys_read_def call_read_def clock_fd_def next_tick_def)
qed

definition clock_file :: "fs \<Rightarrow> bool" where
  "clock_file fs \<longleftrightarrow> (\<exists>i. find_from (dir_names fs) (ascii ''rtc'') 0 = Some i \<and> file_type (dentry_array fs i) = RTC_TYPE \<and>
     inode_num (dentry_array fs i) \<noteq> -1)"

lemma open_clock:
  assumes cur: "current k a" and ok: "dir_ok (kfs k)" "locals_ok (u_call e)" and c: "clock_file (kfs k)"
    and fd: "free_fd (fds k a) 2 = Some fd" and n: "counter (krtc k) \<noteq> 0" "unat (counter (krtc k)) \<le> n" "512 \<le> n"
  shows "\<exists>g. ece391_open e (c_string ''rtc'') k = Some (int fd, (set_fd a fd g k)\<lparr>krtc := (krtc k)\<lparr>rtc_ct := 512\<rparr>\<rparr>) \<and>
    flg g = FD_BUSY \<and> clock_fd ((set_fd a fd g k)\<lparr>krtc := (krtc k)\<lparr>rtc_ct := 512\<rparr>\<rparr>) a fd n"
proof -
  obtain i where i: "find_from (dir_names (kfs k)) (ascii ''rtc'') 0 = Some i"
      "file_type (dentry_array (kfs k) i) = RTC_TYPE" "inode_num (dentry_array (kfs k) i) \<noteq> -1"
    using c by (auto simp: clock_file_def)
  have "clean_name (c_string ''rtc'') = ascii ''rtc''" by (simp add: clean_name_def cstr_def)
  moreover have "opt_table_of (file_type (dentry_array (kfs k) i)) = Some RTC_opt_table" using i(2) by (simp add: opt_table_of_def)
  moreover have "nul_terminated (c_string ''rtc'')" by (simp add: nul_terminated_def)
  ultimately have "sys_open (u_call e) (Some (c_string ''rtc'')) k = Some (int fd,
      (set_fd a fd ((fds k a fd)\<lparr>table_ptr := RTC_opt_table, file_pos := 0, flg := FD_BUSY,
         fd_inode := inode_num (dentry_array (kfs k) i)\<rparr>) k)\<lparr>krtc := (krtc k)\<lparr>rtc_ct := 512\<rparr>\<rparr>)"
    using sys_open_result [OF cur ok, of "c_string ''rtc''" i RTC_opt_table fd] i(1) fd by (simp add: opened_clock_def)
  then show ?thesis
    using free_fd_SomeD [OF fd] cur n i(3) by (auto simp: ece391_open_def clock_fd_def intro!: exI)
qed

lemma clock_write_32:
  assumes "clock_fd k a fd n" "32 \<le> n"
  shows "ece391_write e (int fd) (bytes_of_u32 32) 4 k = Some (0, k\<lparr>krtc := (krtc k)\<lparr>rtc_ct := 32\<rparr>\<rparr>)"
    "clock_fd (k\<lparr>krtc := (krtc k)\<lparr>rtc_ct := 32\<rparr>\<rparr>) a fd n"
proof -
  note c = assms(1) [unfolded clock_fd_def]
  let ?r = "(krtc k)\<lparr>rtc_ct := 32\<rparr>"
  have "(32 :: u32) AND 31 = 0" by simp
  then have w: "rtc_write (Some (bytes_of_u32 32)) 4 (krtc k) = Some (0, ?r)"
    by (simp add: rtc_write_def bytes_of_u32_def load_u32_def cdiv_def)
  have l: "load_fd k a (int fd) = Some (fds k a fd)" "load_fd (k\<lparr>krtc := ?r\<rparr>) a (int fd) = Some (fds k a fd)"
    using c by (simp_all add: load_fd_current)
  have st: "store_fd a (int fd) f (k\<lparr>krtc := ?r\<rparr>) = Some (set_fd a fd f (k\<lparr>krtc := ?r\<rparr>))" for f
    using c by (intro store_fd_current) simp_all
  have "set_fd a fd (fds k a fd) (k\<lparr>krtc := ?r\<rparr>) = k\<lparr>krtc := ?r\<rparr>" by (simp add: set_fd_def)
  then show "ece391_write e (int fd) (bytes_of_u32 32) 4 k = Some (0, k\<lparr>krtc := ?r\<rparr>)"
    using c w l st currentD [of k a]
    by (simp add: ece391_write_def sys_write_def create_missing_def write_busy_def call_write_def)
  show "clock_fd (k\<lparr>krtc := ?r\<rparr>) a fd n" using c assms(2) by (simp add: clock_fd_def)
qed

end
