(* ===== verification/Fish_Run.thy ===== *)
theory Fish_Run
  imports Fish_Frames Clock_File
begin

text \<open>
  A run of \<open>fish\<close> from its first instruction to its end, through the video window, the files, the clock
  and the list of blinking characters.
\<close>

section \<open>The animation on lists\<close>

text \<open>
  What a run does to the list of blinking characters and to the screen: a tick, the two operations that
  follow the frames beside the adding, and the whole performance of four times 100 ticks.
\<close>

definition tick_shown :: "nat \<Rightarrow> blink list \<times> tty \<Rightarrow> blink list \<times> tty" where
  "tick_shown p s = (map ticked (fst s), fold (tick_draw p) (fst s) (snd s))"

definition sync_shown :: "nat \<Rightarrow> u16 \<Rightarrow> u16 \<Rightarrow> blink list \<times> tty \<Rightarrow> blink list \<times> tty" where
  "sync_shown p l0 l1 s =
     (case (blink_on l0 (fst s), blink_on l1 (fst s)) of
        (Some b, Some d) \<Rightarrow>
          (change_at l1 (\<lambda>d. [take_timing b d]) (fst s), draw p (blink_cell d) (off_char d) (snd s))
      | _ \<Rightarrow> s)"

definition remove_shown :: "u16 \<Rightarrow> blink list \<times> tty \<Rightarrow> blink list \<times> tty" where
  "remove_shown l s = (change_at l (\<lambda>_. []) (fst s), snd s)"

definition im_blink :: "frame_env \<Rightarrow> blink" where
  "im_blink e = (f_blink e)\<lparr>on_char := of_char CHR ''I'', off_char := of_char CHR ''M'', on_length := 7, off_length := 6,
     location := 6 * 80 + 60\<rparr>"

definition performed :: "frame_env \<Rightarrow> nat \<Rightarrow> blink list \<times> tty \<Rightarrow> blink list \<times> tty" where
  "performed e p s =
     (let wait = tick_shown p ^^ 100 in
      wait (remove_shown 540 (wait (sync_shown p 40 540 (wait (show_blink p (im_blink e) (wait s)))))))"

section \<open>The program between two waits\<close>

definition running ::
    "frame_env \<Rightarrow> nat \<Rightarrow> u32 \<Rightarrow> nat \<Rightarrow> fish \<Rightarrow> kernel \<Rightarrow> blink list \<times> tty \<Rightarrow> bool" where
  "running e p a fd f k s \<longleftrightarrow> framed e p f (snd s) (fst s) \<and> ktty k = snd s \<and> clock_fd k a fd (u_ticks e) \<and>
     rtc_ct (krtc k) = 32"

lemma clock_fd_tty: "same_turn (ktty k) t \<Longrightarrow> clock_fd (k\<lparr>ktty := t\<rparr>) a fd n = clock_fd k a fd n"
  by (simp add: clock_fd_def current_tty)

lemma running_drawn:
  assumes "running e p a fd f k s" "framed e p f' (snd s') (fst s')" "same_turn (snd s) (snd s')"
  shows "running e p a fd f' (k\<lparr>ktty := snd s'\<rparr>) s'"
proof -
  have "ktty k = snd s" "clock_fd k a fd (u_ticks e)" "rtc_ct (krtc k) = 32" using assms(1) by (simp_all add: running_def)
  then show ?thesis using assms(2,3) clock_fd_tty [of k "snd s'"] by (simp add: running_def)
qed

lemma fold_tick_draw_turn: "same_turn t (fold (tick_draw p) bs t)"
proof (induction bs arbitrary: t)
  case (Cons b bs)
  have "same_turn t (tick_draw p b t)" by (simp add: tick_draw_def same_turn_draw)
  then show ?case using Cons.IH [of "tick_draw p b t"] by (simp add: same_turn_def)
qed (simp add: same_turn_draw)

lemma framed_tick:
  assumes "framed e p f t bs"
  shows "\<exists>f'. mp1_rtc_tasklet (f_tables e) f t = Some (f', snd (tick_shown p (bs, t))) \<and>
    framed e p f' (snd (tick_shown p (bs, t))) (fst (tick_shown p (bs, t)))"
proof -
  obtain xs where xs: "nodes_ok f xs" "bs = contents f xs" "window (f_tables e) (vmem_base_addr f) p t"
    using assms by (auto simp: framed_def blink_list_def)
  obtain f' where "mp1_rtc_tasklet (f_tables e) f t = Some (f', fold (tick_draw p) bs t)" "nodes_ok f' xs"
      "contents f' xs = map ticked bs" "vmem_base_addr f' = vmem_base_addr f"
    using tasklet_refines [OF xs(1,3)] xs(2) by blast
  moreover have "blink_list f' (map ticked bs)"
    unfolding blink_list_def using calculation(2,3) by (intro exI [of _ xs]) simp
  ultimately show ?thesis using xs(3) by (auto simp: framed_def tick_shown_def)
qed

lemma wait_ticks_run:
  "running e p a fd f k s \<Longrightarrow>
   \<exists>f' k'. wait_ticks e n (int fd) f k = Some (Returns (f', k')) \<and> running e p a fd f' k' ((tick_shown p ^^ n) s) \<and>
     kfs k' = kfs k \<and> next_tick (krtc k') = next_tick (krtc k) + 32 * n"
proof (induction n arbitrary: f k s)
  case 0
  then show ?case by auto
next
  case (Suc n)
  note h = Suc.prems [unfolded running_def]
  have u: "u_ticks (user_env.truncate e) = u_ticks e" by (simp add: user_env.defs)
  obtain r q where 1: "ece391_read (user_env.truncate e) (int fd) (f_garbage e) 4 k =
        Some (Returns (0, Some (f_garbage e), k\<lparr>krtc := r, kpic := q\<rparr>))"
      "clock_fd (k\<lparr>krtc := r, kpic := q\<rparr>) a fd (u_ticks e)" "rtc_ct r = 32" "next_tick r = next_tick (krtc k) + 32"
    using clock_read [of k a fd "user_env.truncate e" "f_garbage e"] h unfolding u by auto
  let ?k1 = "k\<lparr>krtc := r, kpic := q\<rparr>" and ?s = "tick_shown p s"
  have r1: "running e p a fd f ?k1 s" using h 1(2,3) by (simp add: running_def)
  obtain f2 where 2: "mp1_rtc_tasklet (f_tables e) f (ktty k) = Some (f2, snd ?s)" "framed e p f2 (snd ?s) (fst ?s)"
    using framed_tick [of e p f "ktty k" "fst s"] h by auto
  have "same_turn (snd s) (snd ?s)" by (simp add: tick_shown_def fold_tick_draw_turn)
  from running_drawn [OF r1 2(2) this] have "running e p a fd f2 (?k1\<lparr>ktty := snd ?s\<rparr>) ?s" .
  from Suc.IH [OF this] obtain f3 k3 where 3: "wait_ticks e n (int fd) f2 (?k1\<lparr>ktty := snd ?s\<rparr>) = Some (Returns (f3, k3))"
      "running e p a fd f3 k3 ((tick_shown p ^^ n) ?s)" "kfs k3 = kfs k" "next_tick (krtc k3) = next_tick r + 32 * n"
    by auto
  have "(tick_shown p ^^ Suc n) s = (tick_shown p ^^ n) ?s" by (simp add: funpow_swap1)
  then show ?case using 1(1,4) 2(1) 3 by auto
qed

text \<open>The calls of \<open>mp1_ioctl\<close>: they keep the program running and the clock where it is.\<close>

definition ioctl_does ::
    "frame_env \<Rightarrow> nat \<Rightarrow> u32 \<Rightarrow> nat \<Rightarrow> ioctl_arg \<Rightarrow> u32 \<Rightarrow> (blink list \<times> tty \<Rightarrow> blink list \<times> tty) \<Rightarrow> bool" where
  "ioctl_does e p a fd arg cmd g \<longleftrightarrow> (\<forall>f k s. running e p a fd f k s \<longrightarrow>
     (\<exists>f'. fish_ioctl e arg cmd f k = Some (f', k\<lparr>ktty := snd (g s)\<rparr>) \<and>
        running e p a fd f' (k\<lparr>ktty := snd (g s)\<rparr>) (g s)))"

lemma ioctl_doesI:
  assumes "\<And>f t bs. framed e p f t bs \<Longrightarrow>
    \<exists>r x f'. mp1_ioctl (f_tables e) arg cmd f t = Some (r, x, f', snd (g (bs, t))) \<and>
      framed e p f' (snd (g (bs, t))) (fst (g (bs, t))) \<and> same_turn t (snd (g (bs, t)))"
  shows "ioctl_does e p a fd arg cmd g"
  unfolding ioctl_does_def
proof (intro allI impI)
  fix f k s
  assume r: "running e p a fd f k s"
  then have fr: "framed e p f (snd s) (fst s)" "ktty k = snd s" by (simp_all add: running_def)
  obtain v x f' where "mp1_ioctl (f_tables e) arg cmd f (snd s) = Some (v, x, f', snd (g s))"
      "framed e p f' (snd (g s)) (fst (g s))" "same_turn (snd s) (snd (g s))"
    using assms [OF fr(1)] unfolding prod.collapse by blast
  then show "\<exists>f'. fish_ioctl e arg cmd f k = Some (f', k\<lparr>ktty := snd (g s)\<rparr>) \<and>
      running e p a fd f' (k\<lparr>ktty := snd (g s)\<rparr>) (g s)"
    using running_drawn [OF r, of f' "g s"] fr(2)
    by (intro exI [of _ f'] conjI) (simp_all add: fish_ioctl_def)
qed

lemma ioctl_adds: "location b \<noteq> 0 \<Longrightarrow> ioctl_does e p a fd (Address b) 0 (show_blink p b)"
  by (rule ioctl_doesI) (use add_shown in blast)

lemma ioctl_removes: "ioctl_does e p a fd (Number n) 1 (remove_shown (ucast n))"
proof (rule ioctl_doesI)
  fix f t bs
  assume "framed e p f t bs"
  then obtain xs where xs: "nodes_ok f xs" "bs = contents f xs" "window (f_tables e) (vmem_base_addr f) p t"
    by (auto simp: framed_def blink_list_def)
  obtain f' xs' r where "mp1_ioctl_remove n f = Some (r, f')" "nodes_ok f' xs'" "vmem_base_addr f' = vmem_base_addr f"
      "contents f' xs' = change_at (ucast n) (\<lambda>_. []) bs"
    using remove_refines [OF xs(1) refl, of n] xs(2) by blast
  then show "\<exists>r x f'. mp1_ioctl (f_tables e) (Number n) 1 f t = Some (r, x, f', snd (remove_shown (ucast n) (bs, t))) \<and>
      framed e p f' (snd (remove_shown (ucast n) (bs, t))) (fst (remove_shown (ucast n) (bs, t))) \<and>
      same_turn t (snd (remove_shown (ucast n) (bs, t)))"
    using xs(3) same_turn_draw(2) by (auto simp: mp1_ioctl_def remove_shown_def framed_def blink_list_def)
qed

lemma ioctl_syncs:
  assumes "l0 = ucast (drop_bit 16 n)" "l1 = ucast (n AND 0xFFFF)"
  shows "ioctl_does e p a fd (Number n) 3 (sync_shown p l0 l1)"
proof (rule ioctl_doesI)
  fix f t bs
  assume fr: "framed e p f t bs"
  then obtain xs where xs: "nodes_ok f xs" "bs = contents f xs" "window (f_tables e) (vmem_base_addr f) p t"
    by (auto simp: framed_def blink_list_def)
  let ?s = "sync_shown p l0 l1 (bs, t)"
  show "\<exists>r x f'. mp1_ioctl (f_tables e) (Number n) 3 f t = Some (r, x, f', snd ?s) \<and> framed e p f' (snd ?s) (fst ?s) \<and>
      same_turn t (snd ?s)"
  proof (cases "blink_on l0 bs = None \<or> blink_on l1 bs = None")
    case True
    then have "mp1_ioctl_sync (f_tables e) n f t = Some (-1, f, t)"
      using xs(2) assms by (auto simp: mp1_ioctl_sync_def find_helper_nodes [OF xs(1)] blink_on_contents split: option.splits)
    moreover have "?s = (bs, t)" using True by (auto simp: sync_shown_def split: option.splits)
    ultimately show ?thesis using fr same_turn_draw(2) by (simp add: mp1_ioctl_def)
  next
    case False
    then obtain b d where bd: "blink_on l0 bs = Some b" "blink_on l1 bs = Some d" by auto
    have s: "?s = (change_at l1 (\<lambda>d. [take_timing b d]) bs, draw p (blink_cell d) (off_char d) t)"
      using bd by (simp add: sync_shown_def)
    obtain f' where f': "mp1_ioctl_sync (f_tables e) n f t = Some (0, f', snd ?s)" "nodes_ok f' xs"
        "contents f' xs = fst ?s" "vmem_base_addr f' = vmem_base_addr f"
      using sync_refines [OF xs(1,3) assms bd [unfolded xs(2)]] s xs(2) by auto
    have "blink_list f' (fst ?s)" unfolding blink_list_def using f'(2,3) by metis
    then show ?thesis
      using f'(1,4) xs(3) same_turn_draw(1) unfolding s by (simp add: mp1_ioctl_def framed_def)
  qed
qed

section \<open>The end\<close>

lemma fish_show_ends:
  assumes fr: "framed e p f (ktty k) bs" and cl: "clock_fd k a fd (u_ticks e)" "32 \<le> u_ticks e"
  shows "\<exists>k'. fish_show e (int fd) f k = Some (Returns (0, k')) \<and> kfs k' = kfs k \<and>
    ktty k' = snd (performed e p (bs, ktty k)) \<and> next_tick (krtc k') = next_tick (krtc k) + 32 * 400"
proof -
  let ?e = "user_env.truncate e" and ?k0 = "k\<lparr>krtc := (krtc k)\<lparr>rtc_ct := 32\<rparr>\<rparr>"
  let ?n = "push_bit 16 40 OR (6 * 80 + 60) :: u32"
  have w: "ece391_write ?e (int fd) (bytes_of_u32 32) 4 k = Some (0, ?k0)" "clock_fd ?k0 a fd (u_ticks e)"
    using clock_write_32 [OF cl] by simp_all
  define s1 where "s1 = (tick_shown p ^^ 100) (bs, ktty k)"
  define s2 where "s2 = show_blink p (im_blink e) s1"
  define s3 where "s3 = (tick_shown p ^^ 100) s2"
  define s4 where "s4 = sync_shown p 40 540 s3"
  define s5 where "s5 = (tick_shown p ^^ 100) s4"
  define s6 where "s6 = remove_shown 540 s5"
  have "running e p a fd f ?k0 (bs, ktty k)" using fr w(2) by (simp add: running_def)
  from wait_ticks_run [OF this, of 100] obtain f1 k1 where 1: "wait_ticks e 100 (int fd) f ?k0 = Some (Returns (f1, k1))"
      "running e p a fd f1 k1 s1" "kfs k1 = kfs k" "next_tick (krtc k1) = next_tick (krtc k) + 32 * 100"
    unfolding s1_def by auto
  have "location (im_blink e) \<noteq> 0" by (simp add: im_blink_def)
  from ioctl_adds [OF this, unfolded ioctl_does_def, rule_format, OF 1(2)]
  obtain f2 where 2: "fish_ioctl e (Address (im_blink e)) 0 f1 k1 = Some (f2, k1\<lparr>ktty := snd s2\<rparr>)"
      "running e p a fd f2 (k1\<lparr>ktty := snd s2\<rparr>) s2"
    unfolding s2_def by blast
  from wait_ticks_run [OF 2(2), of 100] obtain f3 k3 where 3: "wait_ticks e 100 (int fd) f2 (k1\<lparr>ktty := snd s2\<rparr>) = Some (Returns (f3, k3))"
      "running e p a fd f3 k3 s3" "kfs k3 = kfs k1" "next_tick (krtc k3) = next_tick (krtc k1) + 32 * 100"
    unfolding s3_def by auto
  have "(40 :: u16) = ucast (drop_bit 16 ?n)" "(540 :: u16) = ucast (?n AND 0xFFFF)" by simp_all
  from ioctl_syncs [OF this, unfolded ioctl_does_def, rule_format, OF 3(2)]
  obtain f4 where 4: "fish_ioctl e (Number ?n) 3 f3 k3 = Some (f4, k3\<lparr>ktty := snd s4\<rparr>)"
      "running e p a fd f4 (k3\<lparr>ktty := snd s4\<rparr>) s4"
    unfolding s4_def by blast
  from wait_ticks_run [OF 4(2), of 100] obtain f5 k5 where 5: "wait_ticks e 100 (int fd) f4 (k3\<lparr>ktty := snd s4\<rparr>) = Some (Returns (f5, k5))"
      "running e p a fd f5 k5 s5" "kfs k5 = kfs k3" "next_tick (krtc k5) = next_tick (krtc k3) + 32 * 100"
    unfolding s5_def by auto
  have "remove_shown (ucast (6 * 80 + 60 :: u32)) s5 = s6" by (simp add: s6_def)
  with ioctl_removes [of e p a fd "6 * 80 + 60", unfolded ioctl_does_def, rule_format, OF 5(2)]
  obtain f6 where 6: "fish_ioctl e (Number (6 * 80 + 60)) 1 f5 k5 = Some (f6, k5\<lparr>ktty := snd s6\<rparr>)"
      "running e p a fd f6 (k5\<lparr>ktty := snd s6\<rparr>) s6"
    by auto
  from wait_ticks_run [OF 6(2), of 100] obtain f7 k7 where 7: "wait_ticks e 100 (int fd) f6 (k5\<lparr>ktty := snd s6\<rparr>) = Some (Returns (f7, k7))"
      "running e p a fd f7 k7 ((tick_shown p ^^ 100) s6)" "kfs k7 = kfs k5" "next_tick (krtc k7) = next_tick (krtc k5) + 32 * 100"
    by auto
  have p: "(tick_shown p ^^ 100) s6 = performed e p (bs, ktty k)"
    by (simp only: performed_def Let_def s1_def s2_def s3_def s4_def s5_def s6_def)
  obtain k8 where 8: "sys_close (int fd) k7 = Some (0, k8)" "kfs k8 = kfs k7" "ktty k8 = ktty k7" "krtc k8 = krtc k7"
    using 7(2) sys_close_eq [of k7 a "int fd"] by (auto simp: running_def clock_fd_def)
  have "fish_show e (int fd) f k = Some (Returns (0, k8))"
    unfolding fish_show_def w(1) im_blink_def [symmetric]
    by (simp only: 1(1) 2(1) 3(1) 4(1) 5(1) 6(1) 7(1) 8(1) and_then_simps prod.case Option.bind.bind_lunit)
  moreover have "ktty k8 = snd (performed e p (bs, ktty k))" using 7(2) 8(3) unfolding p running_def by simp
  moreover have "next_tick (krtc k8) = next_tick (krtc k) + 32 * 400"
    using 1(4) 3(4) 5(4) 7(4) 8(4) by simp
  ultimately show ?thesis using 1(3) 3(3) 5(3) 7(3) 8(2) by simp
qed

text \<open>
  C22. \<open>fish\<close> runs to its end: with the clock and both frames in the directory, three free descriptors, a
  clock that ticks, and frames that put no character at place 0 of the screen (row 0 begins at column 40;
  only a text of more than 800 lines or columns comes round to it), the program ends with status 0 and
  the file system unchanged. What is then on the screen is what the abstract animation leaves there: the
  characters of both frames added, 100 ticks, a character added, 100 ticks, that
  character synchronised with the first one of the frames, 100 ticks, it is removed, and 100 ticks. The clock
  has been read exactly 400 times: its next tick is 400 periods of 32 interrupts later.
\<close>

theorem fish_runs_to_its_end:
  assumes "current k a" "dir_ok (kfs k)" "locals_ok (u_call e)" "clock_file (kfs k)"
    and files: "text_file (kfs k) (ascii ''frame0.txt'') c0" "text_file (kfs k) (ascii ''frame1.txt'') c1"
    and free: "2 \<le> h" "h < i" "i < j" "j < PCB_SIZE" "flg (fds k a h) \<noteq> FD_BUSY" "flg (fds k a i) \<noteq> FD_BUSY" "flg (fds k a j) \<noteq> FD_BUSY"
    and clock: "counter (krtc k) \<noteq> 0" "unat (counter (krtc k)) \<le> u_ticks e" "512 \<le> u_ticks e"
    and tables: "f_tables e = (vid, vidpage)" "page_aligned vidpage" "vidpage \<noteq> vid" "0x8000000 \<le> f_start e" "f_start e \<le> 0x8400000"
    and new: "\<forall>b \<in> set (text_blinks e 0 (split_lines c0) (split_lines c1)). location b \<noteq> 0" and head: "mp1_list_head f = None"
  shows "\<exists>k'. fish_main e f k = Some (Returns (0, k')) \<and> kfs k' = kfs k \<and>
    ktty k' = snd (performed e 0 (fold (show_blink 0) (text_blinks e 0 (split_lines c0) (split_lines c1))
      ([], snd (snd (vidmap vidpage (f_start e) (ktty k)))))) \<and>
    next_tick (krtc k') = next_tick (krtc k) + 32 * 400"
proof -
  let ?e = "user_env.truncate e"
  have env: "locals_ok (u_call ?e)" "u_ticks ?e = u_ticks e" using assms(3) by (simp_all add: user_env.defs)
  let ?f = "f\<lparr>blink_array := (\<lambda>i. if i < BLINKS then zero_blink else blink_array f i)\<rparr>"
  obtain t where t: "vidmap vidpage (f_start e) (ktty k) = (0, Some 0x94B8000, t)" "window (vid, vidpage) 0x94B8000 0 t"
    using vidmap_opens_window [OF tables(2-5)] by blast
  have turn: "same_turn (ktty k) t"
  proof -
    have "t = snd (snd (vidmap vidpage (f_start e) (ktty k)))" using t(1) by simp
    then show ?thesis by (simp add: same_turn_def vidmap_def Let_def)
  qed
  let ?g = "?f\<lparr>vmem_base_addr := 0x94B8000\<rparr>" and ?k = "k\<lparr>ktty := t\<rparr>"
  have vm: "mp1_set_video_mode (snd (f_tables e)) (f_start e) ?f (ktty k) = (Some 0x94B8000, ?g, t)"
    using t(1) by (simp add: mp1_set_video_mode_def tables(1))
  have "nodes_ok ?g []" using head by (intro nodes_okI) (simp_all add: zero_blink_def)
  then have "blink_list ?g []" unfolding blink_list_def by (intro exI [of _ "[]"]) simp
  then have fr: "framed e 0 ?g t []" using t(2) tables(1) by (simp add: framed_def)
  have cur: "current ?k a" using current_tty [OF turn] assms(1) by simp
  obtain fd where fd: "free_fd (fds ?k a) 2 = Some fd"
    using fd_slots.pick_none_iff [of "fds k a"] free by (cases "free_fd (fds k a) 2") auto
  obtain g where op: "ece391_open ?e (c_string ''rtc'') ?k = Some (int fd, (set_fd a fd g ?k)\<lparr>krtc := (krtc k)\<lparr>rtc_ct := 512\<rparr>\<rparr>)"
      "flg g = FD_BUSY" "clock_fd ((set_fd a fd g ?k)\<lparr>krtc := (krtc k)\<lparr>rtc_ct := 512\<rparr>\<rparr>) a fd (u_ticks e)"
    using open_clock [OF cur _ env(1) _ fd, of "u_ticks e"] assms(2,4) clock by auto
  let ?k0 = "(set_fd a fd g ?k)\<lparr>krtc := (krtc k)\<lparr>rtc_ct := 512\<rparr>\<rparr>"
  have "\<exists>i' j'. 2 \<le> i' \<and> i' < j' \<and> j' < PCB_SIZE \<and> flg (fds ?k0 a i') \<noteq> FD_BUSY \<and> flg (fds ?k0 a j') \<noteq> FD_BUSY"
  proof -
    have two: "flg (fds ?k0 a d) \<noteq> FD_BUSY" if "d \<noteq> fd" "flg (fds k a d) \<noteq> FD_BUSY" for d using that by simp
    consider "fd \<noteq> h" "fd \<noteq> i" | "fd = h" | "fd = i" by blast
    then show ?thesis
    proof cases
      case 1
      then show ?thesis using free two [of h] two [of i] by (intro exI [of _ h] exI [of _ i]) simp
    next
      case 2
      then show ?thesis using free two [of i] two [of j] by (intro exI [of _ i] exI [of _ j]) simp
    next
      case 3
      then show ?thesis using free two [of h] two [of j] by (intro exI [of _ h] exI [of _ j]) simp
    qed
  qed
  then obtain i' j' where f2: "2 \<le> i'" "i' < j'" "j' < PCB_SIZE" "flg (fds ?k0 a i') \<noteq> FD_BUSY" "flg (fds ?k0 a j') \<noteq> FD_BUSY"
    by blast
  have fs0: "kfs ?k0 = kfs k" "ktty ?k0 = t" by simp_all
  have cur0: "current ?k0 a" using cur by simp
  obtain bs' t' where r: "fold (show_blink 0) (text_blinks e 0 (split_lines c0) (split_lines c1)) ([], t) = (bs', t')"
    by (metis surj_pair)
  obtain f' k1 I where add: "add_frames e (ascii ''frame0.txt'' @ [0]) (ascii ''frame1.txt'' @ [0]) ?g ?k0 = Some (Returns (Filled f' k1))"
      "kfs k1 = kfs k" "framed e 0 f' t' bs'" "ktty k1 = t'" "untouched ?k0 k1 a I" "current k1 a"
      "\<forall>d \<in> I. flg (fds ?k0 a d) \<noteq> FD_BUSY"
    using add_frames_shows [OF cur0 _ assms(3) _ _ f2 _ refl new, unfolded fs0, OF assms(2) files fr r] by blast
  have "fd \<notin> I" using add(7) op(2) by auto
  then have "clock_fd k1 a fd (u_ticks e)" using op(3) add(5,6) by (simp add: clock_fd_def untouched_def)
  moreover have "framed e 0 f' (ktty k1) bs'" "32 \<le> u_ticks e" using add(3,4) clock(3) by simp_all
  ultimately obtain k' where k': "fish_show e (int fd) f' k1 = Some (Returns (0, k'))" "kfs k' = kfs k1"
      "ktty k' = snd (performed e 0 (bs', ktty k1))" "next_tick (krtc k') = next_tick (krtc k1) + 32 * 400"
    using fish_show_ends by blast
  have "next_tick (krtc k1) = next_tick (krtc k)" using add(5) by (simp add: untouched_def)
  moreover have "snd (snd (vidmap vidpage (f_start e) (ktty k))) = t" using t(1) by simp
  moreover have "fish_main e f k = Some (Returns (0, k'))"
    using k'(1) by (simp add: fish_main_def vm op(1) add(1) del: ascii_simps)
  ultimately show ?thesis using add(2,4) r k'(2-4) by simp
qed

definition fish_fs :: fs where
  "fish_fs = demo_fs\<lparr>Num_Dentry := 3, dentry_array := (\<lambda>i.
     if i = 0 then demo_entry\<lparr>file_name := pad_to 32 (ascii ''rtc''), file_type := RTC_TYPE\<rparr>
     else if i = 1 then demo_entry\<lparr>file_name := pad_to 32 (ascii ''frame0.txt'')\<rparr>
     else demo_entry\<lparr>file_name := pad_to 32 (ascii ''frame1.txt'')\<rparr>)\<rparr>"

lemma fish_fs_names: "dir_names fish_fs = [ascii ''rtc'', ascii ''frame0.txt'', ascii ''frame1.txt'']"
proof -
  have "[0..<3] = [0, 1, 2 :: nat]" by (simp add: upt_rec)
  then show ?thesis
    by (simp add: dir_names_def dir_entries_def fish_fs_def entry_abs_def entry_name_def cstr_pad_to)
qed

lemma fish_fs_ok: "dir_ok fish_fs" "clock_file fish_fs" "text_file fish_fs (ascii ''frame0.txt'') (ascii ''ABCDE'')"
    "text_file fish_fs (ascii ''frame1.txt'') (ascii ''ABCDE'')"
proof -
  show "dir_ok fish_fs" by (auto simp: fish_fs_def dir_ok_def dentry_ok_def demo_entry_def)
  show "clock_file fish_fs"
    unfolding clock_file_def fish_fs_names by (simp add: find_from_def fish_fs_def demo_entry_def)
  have "inode_ok demo_fs (demo_inodes 0)" using fs_inv_inode_ok [OF demo_inv, of 0] by simp
  moreover have "file_byte fish_fs ino = file_byte demo_fs ino" for ino
    by (rule ext) (simp add: file_byte_def fish_fs_def)
  then have "file_contents fish_fs 0 = file_contents demo_fs 0"
    by (simp add: file_contents_def file_bytes_def) (simp add: fish_fs_def)
  ultimately have i: "inode_ok fish_fs (demo_inodes 0)" "file_contents fish_fs 0 = ascii ''ABCDE''"
    by (simp_all add: inode_ok_def) (simp_all add: fish_fs_def)
  then show "text_file fish_fs (ascii ''frame0.txt'') (ascii ''ABCDE'')" "text_file fish_fs (ascii ''frame1.txt'') (ascii ''ABCDE'')"
    unfolding text_file_def fish_fs_names by (auto simp: find_from_def fish_fs_def demo_entry_def demo_inodes_def)
qed

theorem fish_runs_to_its_end_witness:
  "\<exists>k'. fish_main (demo_frame_env\<lparr>u_ticks := 1000\<rparr>) demo_fish (demo_user\<lparr>kfs := fish_fs\<rparr>) = Some (Returns (0, k')) \<and>
     next_tick (krtc k') = 3 + 32 * 400"
proof -
  let ?k = "demo_user\<lparr>kfs := fish_fs\<rparr>" and ?e = "demo_frame_env\<lparr>u_ticks := 1000\<rparr>"
  have "\<forall>b \<in> set (text_blinks ?e 0 (split_lines (ascii ''ABCDE'')) (split_lines (ascii ''ABCDE''))). location b \<noteq> 0"
    by (simp add: text_blinks.simps line_blinks.simps first_line_def first_char_def cell_blink_def)
  moreover have "current ?k pcb0" using demo_user_ok(1) by simp
  moreover have "krtc ?k = demo_rtc" by (simp add: demo_user_def demo_machine_def demo_kernel_def)
  moreover have "flg (fds ?k pcb0 i) \<noteq> FD_BUSY" if "i = 2 \<or> i = 3 \<or> i = 4" for i using that by auto
  ultimately show ?thesis
    using fish_runs_to_its_end [of ?k pcb0 ?e "ascii ''ABCDE''" "ascii ''ABCDE''" 2 3 4 "0x410000" "0x411000" demo_fish] fish_fs_ok
    by (auto simp: demo_rtc_def demo_frame_env_def demo_fish_def page_aligned_def next_tick_def)
qed

end
