(* ===== verification/Pingpong.thy ===== *)
theory Pingpong
  imports User_Syserr Clock_File
begin

text \<open>
  \<open>syscalls/ece391pingpong.c\<close>: a letter that moves between two walls, one step for each tick of the clock.
  The loop of the program does not end; its model is any number of rounds.
\<close>

section \<open>The program\<close>

function fill_blanks :: "u8 list \<Rightarrow> nat \<Rightarrow> nat \<Rightarrow> u8 list option" where
  "fill_blanks buf i n =
     (if i < n then do { buf \<leftarrow> buf_put buf i 0x20; fill_blanks buf (Suc i) n } else Some buf)"
  by pat_completeness auto
termination by (relation "measure (\<lambda>(buf, i, n). n - i)") auto

declare fill_blanks.simps [simp del]

text \<open>The blank world of 79 columns, with its walls and the end of the line.\<close>

definition ping_world :: "u8 list \<Rightarrow> u8 list option" where
  "ping_world buf = do {
     buf \<leftarrow> fill_blanks buf 0 81;
     buf \<leftarrow> buf_put buf 80 0;
     buf \<leftarrow> buf_put buf 79 0x0A;
     buf \<leftarrow> buf_put buf 78 (of_char CHR ''|'');
     buf_put buf 1 (of_char CHR ''|'')
   }"

definition ping_start :: "user_env \<Rightarrow> u8 list \<Rightarrow> kernel \<Rightarrow> (int \<times> u8 list \<times> kernel) option" where
  "ping_start e buf k = do {
     buf \<leftarrow> ping_world buf;
     (rtc_fd, k) \<leftarrow> ece391_open e (c_string ''rtc'') k;
     (_, k) \<leftarrow> ece391_write e rtc_fd (bytes_of_u32 32) 4 k;
     Some (rtc_fd, buf, k)
   }"

text \<open>One picture: the letter in column \<open>j\<close>, and a tick of the clock. \<open>garbage\<close> is a local variable.\<close>

definition ping_frame :: "user_env \<Rightarrow> int \<Rightarrow> u8 list \<Rightarrow> u8 list \<Rightarrow> nat \<Rightarrow> u8 \<Rightarrow> kernel \<Rightarrow> (u8 list \<times> kernel) waiting option" where
  "ping_frame e rtc_fd garbage buf j curchar k = do {
     buf \<leftarrow> fill_blanks buf 2 78;
     buf \<leftarrow> buf_put buf j curchar;
     k \<leftarrow> ece391_fdputs e 1 buf k;
     and_then (ece391_read e rtc_fd garbage 4 k) (\<lambda>(_, _, k). Some (Returns (buf, k)))
   }"

function ping_out :: "user_env \<Rightarrow> int \<Rightarrow> u8 list \<Rightarrow> u8 list \<Rightarrow> nat \<Rightarrow> u8 \<Rightarrow> kernel \<Rightarrow> (u8 list \<times> kernel) waiting option" where
  "ping_out e rtc_fd garbage buf j curchar k =
     (if j < 78 then
        and_then (ping_frame e rtc_fd garbage buf j curchar k) (\<lambda>(buf, k).
          ping_out e rtc_fd garbage buf (Suc j) curchar k)
      else Some (Returns (buf, k)))"
  by pat_completeness auto
termination by (relation "measure (\<lambda>(e, rtc_fd, garbage, buf, j, curchar, k). 78 - j)") auto

declare ping_out.simps [simp del]

function ping_back :: "user_env \<Rightarrow> int \<Rightarrow> u8 list \<Rightarrow> u8 list \<Rightarrow> nat \<Rightarrow> u8 \<Rightarrow> kernel \<Rightarrow> (u8 list \<times> kernel) waiting option" where
  "ping_back e rtc_fd garbage buf j curchar k =
     (if 2 \<le> j then
        and_then (ping_frame e rtc_fd garbage buf j curchar k) (\<lambda>(buf, k).
          ping_back e rtc_fd garbage buf (j - 1) curchar k)
      else Some (Returns (buf, k)))"
  by pat_completeness auto
termination by (relation "measure (\<lambda>(e, rtc_fd, garbage, buf, j, curchar, k). j)") auto

declare ping_back.simps [simp del]

definition next_letter :: "u8 \<Rightarrow> u8" where
  "next_letter curchar = (if curchar = of_char CHR ''Z'' then of_char CHR ''A'' else curchar + 1)"

definition ping_round :: "user_env \<Rightarrow> int \<Rightarrow> u8 list \<Rightarrow> u8 list \<Rightarrow> u8 \<Rightarrow> kernel \<Rightarrow> (u8 list \<times> u8 \<times> kernel) waiting option" where
  "ping_round e rtc_fd garbage buf curchar k =
     and_then (ping_out e rtc_fd garbage buf 2 curchar k) (\<lambda>(buf, k).
     and_then (ping_back e rtc_fd garbage buf 77 curchar k) (\<lambda>(buf, k).
       Some (Returns (buf, next_letter curchar, k))))"

fun ping_rounds ::
    "user_env \<Rightarrow> nat \<Rightarrow> int \<Rightarrow> u8 list \<Rightarrow> u8 list \<Rightarrow> u8 \<Rightarrow> kernel \<Rightarrow> (u8 list \<times> u8 \<times> kernel) waiting option" where
  "ping_rounds e 0 rtc_fd garbage buf curchar k = Some (Returns (buf, curchar, k))"
| "ping_rounds e (Suc n) rtc_fd garbage buf curchar k =
     and_then (ping_round e rtc_fd garbage buf curchar k) (\<lambda>(buf, curchar, k).
       ping_rounds e n rtc_fd garbage buf curchar k)"

section \<open>The pictures\<close>

definition picture :: "nat \<Rightarrow> u8 \<Rightarrow> u8 list" where
  "picture j c = [0x20, of_char CHR ''|''] @ replicate (j - 2) 0x20 @ [c] @ replicate (77 - j) 0x20 @ [of_char CHR ''|'', 0x0A]"

text \<open>The world between two pictures: only the columns between the walls are free.\<close>

definition walls :: "u8 list \<Rightarrow> bool" where
  "walls b \<longleftrightarrow> length b = 81 \<and> b ! 0 = 0x20 \<and> b ! 1 = of_char CHR ''|'' \<and> b ! 78 = of_char CHR ''|'' \<and> b ! 79 = 0x0A \<and> b ! 80 = 0"

lemma fill_blanks_eq:
  "i \<le> n \<Longrightarrow> n \<le> length b \<Longrightarrow> fill_blanks b i n = Some (take i b @ replicate (n - i) 0x20 @ drop n b)"
proof (induction b i n rule: fill_blanks.induct)
  case (1 b i n)
  show ?case
  proof (cases "i < n")
    case True
    then have "buf_put b i 0x20 = Some (b[i := 0x20])" using 1(3) by (simp add: buf_put_def)
    moreover have "take (Suc i) (b[i := 0x20]) = take i b @ [0x20]" using True 1(3) by (intro take_Suc_update) simp
    moreover have "n - i = Suc (n - Suc i)" using True by simp
    ultimately show ?thesis using 1(1) [of "b[i := 0x20]"] 1(3) True by (subst fill_blanks.simps) simp
  next
    case False
    then show ?thesis using 1(2) by (subst fill_blanks.simps) simp
  qed
qed

lemma ping_world_walls:
  assumes "length b = 81"
  shows "\<exists>b'. ping_world b = Some b' \<and> walls b'"
  using assms by (simp add: ping_world_def fill_blanks_eq buf_put_def walls_def nth_append)

lemma picture_drawn:
  assumes w: "walls b" and j: "2 \<le> j" "j < 78"
  shows "\<exists>b1. fill_blanks b 2 78 = Some b1 \<and> buf_put b1 j c = Some (picture j c @ [0]) \<and> walls (picture j c @ [0])"
proof -
  note h = w [unfolded walls_def]
  let ?b = "take 2 b @ replicate 76 0x20 @ drop 78 b"
  have "fill_blanks b 2 78 = Some ?b" using fill_blanks_eq [of 2 78 b] h by simp
  moreover have p: "?b[j := c] = picture j c @ [0]"
  proof (rule nth_equalityI)
    show "length (?b[j := c]) = length (picture j c @ [0])" using h j by (simp add: picture_def)
    fix i assume "i < length (?b[j := c])"
    then have i: "i < 81" using h by simp
    show "?b[j := c] ! i = (picture j c @ [0]) ! i"
    proof (cases "i < 2 \<or> 78 \<le> i")
      case True
      then have "i = 0 \<or> i = 1 \<or> i = 78 \<or> i = 79 \<or> i = 80" using i by auto
      then show ?thesis using h j by (elim disjE) (auto simp: picture_def nth_append nth_list_update)
    next
      case False
      then show ?thesis using h j by (auto simp: picture_def nth_append nth_list_update nth_Cons')
    qed
  qed
  moreover have "length ?b = 81" using h by simp
  moreover have "walls (picture j c @ [0])"
    using j h unfolding p [symmetric] by (simp add: walls_def nth_append nth_list_update)
  ultimately show ?thesis using j by (simp add: buf_put_def)
qed

lemma picture_text:
  assumes "c \<noteq> 0" "2 \<le> j" "j < 78"
  shows "nul_terminated (picture j c @ [0])" "cstr (picture j c @ [0]) = picture j c"
    "length (picture j c) = 80" "prompt_gap (picture j c @ [0]) = []"
proof -
  have "0 \<notin> set (picture j c)" using assms(1) by (auto simp: picture_def)
  then show cs: "cstr (picture j c @ [0]) = picture j c" by (rule cstr_append_nul)
  show "nul_terminated (picture j c @ [0])" by (simp add: nul_terminated_def)
  show "length (picture j c) = 80" using assms by (simp add: picture_def)
  have "\<not> prefix (ascii ''391OS> '') (picture j c)" by (simp add: picture_def)
  then show "prompt_gap (picture j c @ [0]) = []" unfolding prompt_gap_def cs by simp
qed

text \<open>The program while it plays: it prints, and its clock runs.\<close>

definition playing :: "user_env \<Rightarrow> nat \<Rightarrow> u32 \<Rightarrow> u8 list \<Rightarrow> kernel \<Rightarrow> bool" where
  "playing e fd a b k \<longleftrightarrow> walls b \<and> std_out k a \<and> clock_fd k a fd (u_ticks e) \<and> rtc_ct (krtc k) = 32"

lemma std_out_clock [simp]: "std_out (k\<lparr>krtc := r, kpic := p\<rparr>) a = std_out k a" "std_out (k\<lparr>krtc := r\<rparr>) a = std_out k a"
  by (simp_all add: std_out_def)

lemma clock_fd_printed:
  assumes "printed cs a k k'" "std_out k' a" "clock_fd k a fd n"
  shows "clock_fd k' a fd n"
proof -
  have "fds k' a fd = fds k a fd" "krtc k' = krtc k"
    using printed_frame(2) [OF assms(1,2), of fd] printed_frame(4) [OF assms(1,2)] assms(3) by (simp_all add: clock_fd_def)
  then show ?thesis using assms(2,3) by (simp add: clock_fd_def std_out_def)
qed

lemma ping_frame_prints:
  assumes s: "playing e fd a b k" and c: "c \<noteq> 0" and j: "2 \<le> j" "j < 78"
  shows "\<exists>b' k'. ping_frame e (int fd) g b j c k = Some (Returns (b', k')) \<and> playing e fd a b' k' \<and>
    ktty k' = print_text (picture j c) (ktty k) \<and> kfs k' = kfs k \<and> next_tick (krtc k') = next_tick (krtc k) + 32"
proof -
  note h = s [unfolded playing_def]
  obtain b1 where b1: "fill_blanks b 2 78 = Some b1" "buf_put b1 j c = Some (picture j c @ [0])" "walls (picture j c @ [0])"
    using picture_drawn [OF _ j] h by blast
  note t = picture_text [OF c j]
  obtain k1 where k1: "ece391_fdputs e 1 (picture j c @ [0]) k = Some k1" "printed (picture j c) a k k1" "std_out k1 a"
    using fdputs_out [of k a "picture j c @ [0]" e] h t by auto
  have "clock_fd k1 a fd (u_ticks e)" using clock_fd_printed [OF k1(2,3)] h by blast
  moreover have c1: "krtc k1 = krtc k" by (rule printed_frame(4) [OF k1(2,3)])
  ultimately obtain r p where rp: "ece391_read e (int fd) g 4 k1 = Some (Returns (0, Some g, k1\<lparr>krtc := r, kpic := p\<rparr>))"
      "clock_fd (k1\<lparr>krtc := r, kpic := p\<rparr>) a fd (u_ticks e)" "rtc_ct r = 32" "next_tick r = next_tick (krtc k) + 32"
    using clock_read [of k1 a fd e g] h by auto
  have "ping_frame e (int fd) g b j c k = Some (Returns (picture j c @ [0], k1\<lparr>krtc := r, kpic := p\<rparr>))"
    using b1 k1(1) rp(1) by (simp add: ping_frame_def)
  then show ?thesis using b1(3) k1(2,3) rp(2-4) by (auto simp: playing_def printed_def)
qed

lemma ping_out_prints:
  "playing e fd a b k \<Longrightarrow> c \<noteq> 0 \<Longrightarrow> 2 \<le> j \<Longrightarrow> j \<le> 78 \<Longrightarrow>
   \<exists>b' k'. ping_out e (int fd) g b j c k = Some (Returns (b', k')) \<and> playing e fd a b' k' \<and>
     ktty k' = print_text (concat (map (\<lambda>j. picture j c) [j..<78])) (ktty k) \<and> kfs k' = kfs k \<and>
     next_tick (krtc k') = next_tick (krtc k) + 32 * (78 - j)"
proof (induction "78 - j" arbitrary: j b k)
  case 0
  then show ?case by (subst ping_out.simps) simp
next
  case (Suc n)
  then have j: "j < 78" by simp
  obtain b1 k1 where 1: "ping_frame e (int fd) g b j c k = Some (Returns (b1, k1))" "playing e fd a b1 k1"
      "ktty k1 = print_text (picture j c) (ktty k)" "kfs k1 = kfs k" "next_tick (krtc k1) = next_tick (krtc k) + 32"
    using ping_frame_prints [OF Suc.prems(1,2,3) j] by blast
  have "n = 78 - Suc j" "2 \<le> Suc j" "Suc j \<le> 78" using Suc by simp_all
  then obtain b2 k2 where 2: "ping_out e (int fd) g b1 (Suc j) c k1 = Some (Returns (b2, k2))" "playing e fd a b2 k2"
      "ktty k2 = print_text (concat (map (\<lambda>j. picture j c) [Suc j..<78])) (ktty k1)" "kfs k2 = kfs k1"
      "next_tick (krtc k2) = next_tick (krtc k1) + 32 * (78 - Suc j)"
    using Suc.hyps(1) 1(2) Suc.prems(2) by blast
  have "ping_out e (int fd) g b j c k = Some (Returns (b2, k2))" using 1(1) 2(1) j by (subst ping_out.simps) simp
  then show ?case using 1(3-5) 2(2-5) j by (simp add: upt_conv_Cons del: upt_rec_numeral)
qed

lemma ping_back_prints:
  "playing e fd a b k \<Longrightarrow> c \<noteq> 0 \<Longrightarrow> j < 78 \<Longrightarrow>
   \<exists>b' k'. ping_back e (int fd) g b j c k = Some (Returns (b', k')) \<and> playing e fd a b' k' \<and>
     ktty k' = print_text (concat (map (\<lambda>j. picture j c) (rev [2..<Suc j]))) (ktty k) \<and> kfs k' = kfs k \<and>
     next_tick (krtc k') = next_tick (krtc k) + 32 * (j - 1)"
proof (induction j arbitrary: b k)
  case 0
  then show ?case by (subst ping_back.simps) simp
next
  case (Suc i)
  show ?case
  proof (cases "2 \<le> Suc i")
    case True
    obtain b1 k1 where 1: "ping_frame e (int fd) g b (Suc i) c k = Some (Returns (b1, k1))" "playing e fd a b1 k1"
        "ktty k1 = print_text (picture (Suc i) c) (ktty k)" "kfs k1 = kfs k" "next_tick (krtc k1) = next_tick (krtc k) + 32"
      using ping_frame_prints [OF Suc.prems(1,2) True Suc.prems(3)] by blast
    obtain b2 k2 where 2: "ping_back e (int fd) g b1 i c k1 = Some (Returns (b2, k2))" "playing e fd a b2 k2"
        "ktty k2 = print_text (concat (map (\<lambda>j. picture j c) (rev [2..<Suc i]))) (ktty k1)" "kfs k2 = kfs k1"
        "next_tick (krtc k2) = next_tick (krtc k1) + 32 * (i - 1)"
      using Suc.IH [OF 1(2) Suc.prems(2)] Suc.prems(3) by auto
    have "ping_back e (int fd) g b (Suc i) c k = Some (Returns (b2, k2))"
      using 1(1) 2(1) True by (subst ping_back.simps) simp
    moreover have "32 * (Suc i - 1) = 32 + 32 * (i - 1)" using True by simp
    ultimately show ?thesis using 1(3-5) 2(2-5) True by simp
  next
    case False
    then show ?thesis using Suc.prems(1) by (subst ping_back.simps) simp
  qed
qed

definition round_text :: "u8 \<Rightarrow> u8 list" where
  "round_text c = concat (map (\<lambda>j. picture j c) ([2..<78] @ rev [2..<78]))"

text \<open>The letter of round \<open>m\<close>.\<close>

definition letter :: "nat \<Rightarrow> u8" where
  "letter m = of_char CHR ''A'' + of_nat (m mod 26)"

lemma next_letter_eq: "next_letter (letter m) = letter (Suc m)" "letter m \<noteq> 0"
proof -
  have "\<forall>r \<in> set [0..<26]. next_letter (of_char CHR ''A'' + of_nat r) = of_char CHR ''A'' + of_nat (Suc r mod 26)"
    by (simp add: next_letter_def upt_rec)
  then have "next_letter (of_char CHR ''A'' + of_nat (m mod 26)) = of_char CHR ''A'' + of_nat (Suc (m mod 26) mod 26)"
    by (rule bspec) simp
  then show "next_letter (letter m) = letter (Suc m)" by (simp add: letter_def mod_Suc_eq)
  have "\<forall>r \<in> set [0..<26]. of_char CHR ''A'' + of_nat r \<noteq> (0 :: u8)" by (simp add: upt_rec)
  then have "of_char CHR ''A'' + of_nat (m mod 26) \<noteq> (0 :: u8)" by (rule bspec) simp
  then show "letter m \<noteq> 0" by (simp add: letter_def)
qed

lemma ping_round_prints:
  assumes "playing e fd a b k"
  shows "\<exists>b' k'. ping_round e (int fd) g b (letter m) k = Some (Returns (b', letter (Suc m), k')) \<and> playing e fd a b' k' \<and>
    ktty k' = print_text (round_text (letter m)) (ktty k) \<and> kfs k' = kfs k \<and>
    next_tick (krtc k') = next_tick (krtc k) + 32 * 152"
proof -
  have p: "(2 :: nat) \<le> 2" "(2 :: nat) \<le> 78" "(77 :: nat) < 78" "Suc 77 = 78" by simp_all
  obtain b1 k1 where 1: "ping_out e (int fd) g b 2 (letter m) k = Some (Returns (b1, k1))" "playing e fd a b1 k1"
      "ktty k1 = print_text (concat (map (\<lambda>j. picture j (letter m)) [2..<78])) (ktty k)" "kfs k1 = kfs k"
      "next_tick (krtc k1) = next_tick (krtc k) + 32 * (78 - 2)"
    using ping_out_prints [OF assms next_letter_eq(2) p(1,2)] by blast
  obtain b2 k2 where 2: "ping_back e (int fd) g b1 77 (letter m) k1 = Some (Returns (b2, k2))" "playing e fd a b2 k2"
      "ktty k2 = print_text (concat (map (\<lambda>j. picture j (letter m)) (rev [2..<78]))) (ktty k1)" "kfs k2 = kfs k1"
      "next_tick (krtc k2) = next_tick (krtc k1) + 32 * (77 - 1)"
    using ping_back_prints [OF 1(2) next_letter_eq(2) p(3), unfolded p(4)] by blast
  show ?thesis
    using 1 2 by (simp add: ping_round_def next_letter_eq(1) round_text_def del: upt_rec_numeral)
qed

lemma ping_rounds_print:
  "playing e fd a b k \<Longrightarrow>
   \<exists>b' k'. ping_rounds e n (int fd) g b (letter m) k = Some (Returns (b', letter (m + n), k')) \<and>
     ktty k' = print_text (concat (map (\<lambda>i. round_text (letter i)) [m..<m + n])) (ktty k) \<and> kfs k' = kfs k \<and>
     next_tick (krtc k') = next_tick (krtc k) + 32 * (152 * n)"
proof (induction n arbitrary: b k m)
  case 0
  then show ?case by simp
next
  case (Suc n)
  obtain b1 k1 where 1: "ping_round e (int fd) g b (letter m) k = Some (Returns (b1, letter (Suc m), k1))" "playing e fd a b1 k1"
      "ktty k1 = print_text (round_text (letter m)) (ktty k)" "kfs k1 = kfs k" "next_tick (krtc k1) = next_tick (krtc k) + 32 * 152"
    using ping_round_prints [OF Suc.prems] by blast
  obtain b2 k2 where 2: "ping_rounds e n (int fd) g b1 (letter (Suc m)) k1 = Some (Returns (b2, letter (Suc m + n), k2))"
      "ktty k2 = print_text (concat (map (\<lambda>i. round_text (letter i)) [Suc m..<Suc m + n])) (ktty k1)" "kfs k2 = kfs k1"
      "next_tick (krtc k2) = next_tick (krtc k1) + 32 * (152 * n)"
    using Suc.IH [OF 1(2)] by blast
  have "[m..<m + Suc n] = m # [Suc m..<Suc m + n]" by (simp add: upt_conv_Cons)
  then show ?case using 1(1,3-5) 2 by simp
qed

text \<open>
  C23. The letter bounces: run in the displayed terminal with the clock as a file, the program prints
  152 pictures in every round: a line of 79 columns between two walls, blank but for one letter, which
  goes from column 2 to column 77 and back. The letter is the next one of the alphabet in every round,
  and after \<open>Z\<close> it is \<open>A\<close> again. The rounds are paced by the clock, which the program sets to a period
  of 32 interrupts: after any number of rounds it has taken exactly one tick for each picture, so that
  the next tick is as many periods later as pictures have been printed.
\<close>

theorem pingpong_bounces:
  assumes "std_out k a" "dir_ok (kfs k)" "locals_ok (u_call e)" "clock_file (kfs k)" "free_fd (fds k a) 2 = Some fd"
    and "counter (krtc k) \<noteq> 0" "unat (counter (krtc k)) \<le> u_ticks e" "512 \<le> u_ticks e" and "length buf = 81"
  shows "\<exists>b k1 b' k'. ping_start e buf k = Some (int fd, b, k1) \<and>
    ping_rounds e n (int fd) garbage b (of_char CHR ''A'') k1 = Some (Returns (b', letter n, k')) \<and>
    ktty k' = print_text (concat (map (\<lambda>m. round_text (letter m)) [0..<n])) (ktty k) \<and> kfs k' = kfs k \<and>
    next_tick (krtc k') = next_tick (krtc k) + 32 * (152 * n)"
proof -
  obtain b where b: "ping_world buf = Some b" "walls b" using ping_world_walls [OF assms(9)] by blast
  have cur: "current k a" using assms(1) by (simp add: std_out_def)
  obtain g where g: "ece391_open e (c_string ''rtc'') k = Some (int fd, (set_fd a fd g k)\<lparr>krtc := (krtc k)\<lparr>rtc_ct := 512\<rparr>\<rparr>)"
      "clock_fd ((set_fd a fd g k)\<lparr>krtc := (krtc k)\<lparr>rtc_ct := 512\<rparr>\<rparr>) a fd (u_ticks e)"
    using open_clock [OF cur assms(2-8)] by blast
  let ?k0 = "(set_fd a fd g k)\<lparr>krtc := (krtc k)\<lparr>rtc_ct := 512\<rparr>\<rparr>"
  let ?k1 = "?k0\<lparr>krtc := (krtc ?k0)\<lparr>rtc_ct := 32\<rparr>\<rparr>"
  have w: "ece391_write e (int fd) (bytes_of_u32 32) 4 ?k0 = Some (0, ?k1)" "clock_fd ?k1 a fd (u_ticks e)"
    using clock_write_32 [OF g(2)] assms(8) by simp_all
  have "fd \<noteq> 1" using free_fd_SomeD [OF assms(5)] by simp
  then have "std_out ?k1 a" using assms(1) by (simp add: std_out_def)
  then have "playing e fd a b ?k1" using b(2) w(2) by (simp add: playing_def)
  from ping_rounds_print [OF this, of n garbage 0]
  obtain b' k' where "ping_rounds e n (int fd) garbage b (letter 0) ?k1 = Some (Returns (b', letter n, k'))"
      "ktty k' = print_text (concat (map (\<lambda>m. round_text (letter m)) [0..<n])) (ktty ?k1)" "kfs k' = kfs ?k1"
      "next_tick (krtc k') = next_tick (krtc ?k1) + 32 * (152 * n)"
    by auto
  then show ?thesis using b(1) g(1) w(1) by (simp add: ping_start_def letter_def)
qed

definition clock_fs :: fs where
  "clock_fs = demo_fs\<lparr>dentry_array := (\<lambda>_. demo_entry\<lparr>file_name := pad_to 32 (ascii ''rtc''), file_type := RTC_TYPE\<rparr>)\<rparr>"

theorem pingpong_bounces_witness:
  "\<exists>b k1 b' k'. ping_start (demo_env\<lparr>u_ticks := 1000\<rparr>) (replicate 81 0) (demo_user\<lparr>kfs := clock_fs\<rparr>) = Some (2, b, k1) \<and>
     ping_rounds (demo_env\<lparr>u_ticks := 1000\<rparr>) 27 2 [] b 0x41 k1 = Some (Returns (b', 0x42, k')) \<and>
     next_tick (krtc k') = 3 + 32 * 4104"
proof -
  let ?k = "demo_user\<lparr>kfs := clock_fs\<rparr>"
  have n: "dir_names clock_fs = [ascii ''rtc'']"
    by (simp add: dir_names_def dir_entries_def clock_fs_def entry_abs_def entry_name_def cstr_pad_to)
  have "dir_ok clock_fs" by (auto simp: clock_fs_def dir_ok_def dentry_ok_def demo_entry_def)
  moreover have "clock_file clock_fs" unfolding clock_file_def n by (simp add: find_from_def clock_fs_def demo_entry_def)
  moreover have "std_out ?k pcb0" using demo_user_ok by (simp add: std_out_def)
  moreover have "krtc ?k = demo_rtc" by (simp add: demo_user_def demo_machine_def demo_kernel_def)
  ultimately show ?thesis
    using pingpong_bounces [of ?k pcb0 "demo_env\<lparr>u_ticks := 1000\<rparr>" 2 "replicate 81 0" 27 "[]"]
    by (auto simp: demo_rtc_def letter_def next_tick_def)
qed

end
